(* ===== verification/MB_Prelude.thy ===== *)
theory MB_Prelude
  imports Main
begin

text \<open>
  Shared vocabulary of the development: the Python values the program handles
  (insertion-ordered dicts, strings, JSON values, truthiness), the exceptions it raises
  and the two result types of fallible code, with the lemma library over them that the
  component theories rest on.

  Python strings are modelled as \<open>string\<close>, that is lists of the code points 0 to 255;
  the tables for white space and lower-casing below are Python's tables restricted to that
  range. Dicts keep their insertion order, as Python's do, because some of the code
  depends on the order in which it iterates over them.
\<close>

named_theorems py_dict and py_str and py_res

section \<open>Dictionaries\<close>

type_synonym ('k, 'v) dict = "('k \<times> 'v) list"

fun dict_set :: "'k \<Rightarrow> 'v \<Rightarrow> ('k, 'v) dict \<Rightarrow> ('k, 'v) dict" where
  "dict_set k v [] = [(k, v)]"
| "dict_set k v ((a, b) # d) = (if a = k then (a, v) # d else (a, b) # dict_set k v d)"

definition dict_del :: "'k \<Rightarrow> ('k, 'v) dict \<Rightarrow> ('k, 'v) dict" where
  "dict_del k d = filter (\<lambda>p. fst p \<noteq> k) d"

definition dict_ok :: "('k, 'v) dict \<Rightarrow> bool" where
  "dict_ok d \<longleftrightarrow> distinct (map fst d)"

definition in_dict :: "'k \<Rightarrow> ('k, 'v) dict \<Rightarrow> bool" where
  "in_dict k d \<longleftrightarrow> map_of d k \<noteq> None"

text \<open>\<open>d.get(k, default)\<close>.\<close>

definition dict_get :: "('k, 'v) dict \<Rightarrow> 'k \<Rightarrow> 'v \<Rightarrow> 'v" where
  "dict_get d k v = (case map_of d k of None \<Rightarrow> v | Some x \<Rightarrow> x)"

section \<open>Strings\<close>

definition is_space :: "char \<Rightarrow> bool" where
  "is_space c \<longleftrightarrow> (let n = of_char c :: nat in
     9 \<le> n \<and> n \<le> 13 \<or> 28 \<le> n \<and> n \<le> 32 \<or> n = 133 \<or> n = 160)"

definition char_lower :: "char \<Rightarrow> char" where
  "char_lower c = (let n = of_char c :: nat in
     if 65 \<le> n \<and> n \<le> 90 \<or> 192 \<le> n \<and> n \<le> 222 \<and> n \<noteq> 215 then char_of (n + 32) else c)"

text \<open>Upper-casing of ASCII characters, where the code needs no more.\<close>

definition char_upper :: "char \<Rightarrow> char" where
  "char_upper c = (let n = of_char c :: nat in if 97 \<le> n \<and> n \<le> 122 then char_of (n - 32) else c)"

definition str_lower :: "string \<Rightarrow> string" where
  "str_lower s = map char_lower s"

definition str_lstrip :: "string \<Rightarrow> string" where
  "str_lstrip s = dropWhile is_space s"

definition str_strip :: "string \<Rightarrow> string" where
  "str_strip s = rev (dropWhile is_space (rev (dropWhile is_space s)))"

text \<open>\<open>s.rstrip(chars)\<close>: the argument is a set of characters, not a suffix.\<close>

definition str_rstrip :: "string \<Rightarrow> string \<Rightarrow> string" where
  "str_rstrip s cs = rev (dropWhile (\<lambda>c. c \<in> set cs) (rev s))"

definition startswith :: "string \<Rightarrow> string \<Rightarrow> bool" where
  "startswith s p \<longleftrightarrow> take (length p) s = p"

definition endswith :: "string \<Rightarrow> string \<Rightarrow> bool" where
  "endswith s p \<longleftrightarrow> length p \<le> length s \<and> drop (length s - length p) s = p"

text \<open>\<open>s.split(c, 1)\<close> for a one-character separator that occurs in \<open>s\<close>.\<close>

definition split_once :: "char \<Rightarrow> string \<Rightarrow> string \<times> string" where
  "split_once c s = (takeWhile (\<lambda>x. x \<noteq> c) s, drop 1 (dropWhile (\<lambda>x. x \<noteq> c) s))"

text \<open>\<open>s.split(c)\<close>: all fields.\<close>

fun str_split :: "char \<Rightarrow> string \<Rightarrow> string list" where
  "str_split c [] = [[]]"
| "str_split c (x # xs) =
     (if x = c then [] # str_split c xs
      else (x # hd (str_split c xs)) # tl (str_split c xs))"

text \<open>\<open>s.rpartition(c)[2]\<close>: what follows the last \<open>c\<close>, or the whole string.\<close>

definition after_last :: "char \<Rightarrow> string \<Rightarrow> string" where
  "after_last c s = rev (takeWhile (\<lambda>x. x \<noteq> c) (rev s))"

definition replace_char :: "char \<Rightarrow> char \<Rightarrow> string \<Rightarrow> string" where
  "replace_char a b s = map (\<lambda>c. if c = a then b else c) s"

fun str_join :: "string \<Rightarrow> string list \<Rightarrow> string" where
  "str_join sep [] = []"
| "str_join sep [x] = x"
| "str_join sep (x # y # xs) = x @ sep @ str_join sep (y # xs)"

text \<open>\<open>r"\s"\<close>-splitting at most once and taking the first field:
  \<open>re.split(r"\s", val, 1)[0]\<close>.\<close>

definition first_word :: "string \<Rightarrow> string" where
  "first_word s = takeWhile (\<lambda>c. \<not> is_space c) s"

section \<open>JSON values\<close>

datatype json =
    JNull
  | JBool bool
  | JInt int
  | JStr string
  | JArr "json list"
  | JObj "(string \<times> json) list"

text \<open>\<open>data.get(key)\<close> on a decoded object: \<open>None\<close> when the key is missing.\<close>

definition obj_get :: "(string \<times> json) list \<Rightarrow> string \<Rightarrow> json" where
  "obj_get d k = dict_get d k JNull"

fun truthy :: "json \<Rightarrow> bool" where
  "truthy JNull = False"
| "truthy (JBool b) = b"
| "truthy (JInt n) = (n \<noteq> 0)"
| "truthy (JStr s) = (s \<noteq> [])"
| "truthy (JArr xs) = (xs \<noteq> [])"
| "truthy (JObj d) = (d \<noteq> [])"

text \<open>Truthiness of a \<open>str | None\<close> value.\<close>

definition opt_truthy :: "string option \<Rightarrow> bool" where
  "opt_truthy v \<longleftrightarrow> v \<noteq> None \<and> v \<noteq> Some []"

section \<open>Exceptions and results\<close>

text \<open>
  The exception classes the program raises or tells apart. A \<^verbatim>\<open>MatrixRequestError\<close> carries
  its \<^verbatim>\<open>errcode\<close>, \<^verbatim>\<open>message\<close> and \<^verbatim>\<open>http_status\<close>, an \<^verbatim>\<open>HTTPException\<close> its status, its
  \<^verbatim>\<open>text\<close>, its class name and its headers. Everything the code only ever handles as
  \<^verbatim>\<open>Exception\<close> is \<open>OtherException\<close>.
\<close>

datatype exn =
    TypeError
  | AttributeError
  | KeyError
  | IndexError
  | AssertionError
  | EOFError
  | OSError
  | FileNotFoundError
  | UnicodeDecodeError
  | BadZipFile
  | YAMLError
  | SerializerError
  | ValueError string
  | RuntimeError string
  | ImportError string
  | ZipImportError string
  | MaubotZipMetaError string
  | MaubotZipPreLoadError string
  | MaubotZipLoadError string
  | IDConflictError string
  | MatrixInvalidToken string
  | MatrixRequestError string string nat
  | MatrixConnectionError string
  | HTTPException nat "string option" string "(string \<times> string) list"
  | SystemExit nat
  | OtherException string

text \<open>The base class \<^verbatim>\<open>MaubotZipImportError\<close> and its three subclasses.\<close>

fun is_maubot_zip_import_error :: "exn \<Rightarrow> bool" where
  "is_maubot_zip_import_error (MaubotZipMetaError _) = True"
| "is_maubot_zip_import_error (MaubotZipPreLoadError _) = True"
| "is_maubot_zip_import_error (MaubotZipLoadError _) = True"
| "is_maubot_zip_import_error _ = False"

text \<open>\<open>MatrixInvalidToken\<close> is a subclass of \<^verbatim>\<open>MatrixRequestError\<close>.\<close>

fun is_matrix_request_error :: "exn \<Rightarrow> bool" where
  "is_matrix_request_error (MatrixInvalidToken _) = True"
| "is_matrix_request_error (MatrixRequestError _ _ _) = True"
| "is_matrix_request_error _ = False"

text \<open>
  Code that changes a state of type \<open>'w\<close>: it returns a value or raises, and in both cases
  leaves a state behind. \<open>bind\<close> sequences, \<open>catch\<close> is \<^verbatim>\<open>try\<close> with a handler that sees the
  exception and the state at the point where it was raised.
\<close>

datatype ('w, 'a) res = Ok 'a 'w | Raise exn 'w

fun bind :: "('w, 'a) res \<Rightarrow> ('a \<Rightarrow> 'w \<Rightarrow> ('w, 'b) res) \<Rightarrow> ('w, 'b) res" where
  "bind (Ok x w) k = k x w"
| "bind (Raise e w) k = Raise e w"

fun catch :: "('w, 'a) res \<Rightarrow> (exn \<Rightarrow> 'w \<Rightarrow> ('w, 'a) res) \<Rightarrow> ('w, 'a) res" where
  "catch (Ok x w) h = Ok x w"
| "catch (Raise e w) h = h e w"

fun state_of :: "('w, 'a) res \<Rightarrow> 'w" where
  "state_of (Ok x w) = w"
| "state_of (Raise e w) = w"

text \<open>A property of the state that holds however the code ends.\<close>

definition holds :: "('w \<Rightarrow> bool) \<Rightarrow> ('w, 'a) res \<Rightarrow> bool" where
  "holds I r \<longleftrightarrow> I (state_of r)"

section \<open>Lemmas on dictionaries\<close>

lemma map_of_dict_set [simp, py_dict]: "map_of (dict_set k v d) = (map_of d)(k \<mapsto> v)"
  by (induction k v d rule: dict_set.induct) auto

lemma map_of_dict_del [simp, py_dict]: "map_of (dict_del k d) = (map_of d)(k := None)"
  by (induction d) (auto simp: dict_del_def)

lemma keys_dict_set [py_dict]: "fst ` set (dict_set k v d) = insert k (fst ` set d)"
  by (induction k v d rule: dict_set.induct) auto

lemma keys_dict_del [py_dict]: "fst ` set (dict_del k d) = fst ` set d - {k}"
  by (auto simp: dict_del_def)

lemma dict_ok_Nil [simp]: "dict_ok []"
  by (simp add: dict_ok_def)

lemma dict_ok_set [simp, intro]: "dict_ok d \<Longrightarrow> dict_ok (dict_set k v d)"
proof (induction k v d rule: dict_set.induct)
  case (2 k v a b d)
  then show ?case using keys_dict_set [of k v d] by (auto simp: dict_ok_def)
qed (simp add: dict_ok_def)

lemma dict_ok_del [simp, intro]: "dict_ok d \<Longrightarrow> dict_ok (dict_del k d)"
  by (simp add: dict_ok_def dict_del_def distinct_map_filter)

lemma dict_del_idle [py_dict]: "k \<notin> fst ` set d \<Longrightarrow> dict_del k d = d"
  by (force simp: dict_del_def filter_id_conv)

lemma dict_set_fresh [py_dict]: "k \<notin> fst ` set d \<Longrightarrow> dict_set k v d = d @ [(k, v)]"
  by (induction k v d rule: dict_set.induct) auto

lemma in_dict_keys: "in_dict k d \<longleftrightarrow> k \<in> fst ` set d"
  by (simp add: in_dict_def map_of_eq_None_iff)

section \<open>The dictionary interface\<close>

text \<open>
  What the components rely on when they keep objects in a cache: lookups see the last
  store, deletions remove exactly one key, and the representation stays well formed. The
  lemmas of the interface are used through its interpretation on Python's dict below.
\<close>

locale keyed_store =
  fixes lookup :: "'d \<Rightarrow> 'k \<Rightarrow> 'v option"
    and store :: "'k \<Rightarrow> 'v \<Rightarrow> 'd \<Rightarrow> 'd"
    and remove :: "'k \<Rightarrow> 'd \<Rightarrow> 'd"
    and invar :: "'d \<Rightarrow> bool"
  assumes lookup_store: "lookup (store k v d) = (lookup d)(k \<mapsto> v)"
    and lookup_remove: "lookup (remove k d) = (lookup d)(k := None)"
    and invar_store: "invar d \<Longrightarrow> invar (store k v d)"
    and invar_remove: "invar d \<Longrightarrow> invar (remove k d)"
begin

lemma lookup_store_same: "lookup (store k v d) k = Some v"
  by (simp add: lookup_store)

lemma lookup_store_other: "k \<noteq> j \<Longrightarrow> lookup (store k v d) j = lookup d j"
  by (simp add: lookup_store)

lemma lookup_remove_same: "lookup (remove k d) k = None"
  by (simp add: lookup_remove)

lemma store_remove_lookup: "lookup (remove k (store k v d)) = (lookup d)(k := None)"
  by (simp add: lookup_store lookup_remove)

text \<open>A pointwise property of the stored values survives stores of good values and removals.\<close>

lemma all_store:
  assumes "\<And>j x. lookup d j = Some x \<Longrightarrow> P j x" and "P k v"
  shows "lookup (store k v d) j = Some x \<Longrightarrow> P j x"
  using assms by (auto simp: lookup_store split: if_splits)

lemma all_remove:
  assumes "\<And>j x. lookup d j = Some x \<Longrightarrow> P j x"
  shows "lookup (remove k d) j = Some x \<Longrightarrow> P j x"
  using assms by (auto simp: lookup_remove split: if_splits)

lemma dom_store: "dom (lookup (store k v d)) = insert k (dom (lookup d))"
  by (simp add: lookup_store)

lemma dom_remove: "dom (lookup (remove k d)) = dom (lookup d) - {k}"
  by (simp add: lookup_remove)

end

interpretation pydict: keyed_store map_of dict_set dict_del dict_ok
  by unfold_locales auto

section \<open>Lemmas on strings\<close>

lemma startswith_append [simp]: "startswith (p @ s) p"
  by (simp add: startswith_def)

lemma startswith_iff: "startswith s p \<longleftrightarrow> (\<exists>r. s = p @ r)"
  unfolding startswith_def by (metis append_eq_conv_conj append_take_drop_id)

lemma startswith_Nil [simp]: "startswith s []"
  by (simp add: startswith_def)

lemma startswith_trans: "startswith s p \<Longrightarrow> startswith p q \<Longrightarrow> startswith s q"
  by (auto simp: startswith_iff)

lemma endswith_append [simp]: "endswith (s @ p) p"
  by (simp add: endswith_def)

lemma endswith_iff: "endswith s p \<longleftrightarrow> (\<exists>r. s = r @ p)"
proof
  assume "endswith s p"
  then have "s = take (length s - length p) s @ p"
    by (metis append_take_drop_id endswith_def)
  then show "\<exists>r. s = r @ p" by blast
qed auto

lemma length_strip_le: "length (str_strip s) \<le> length s"
  unfolding str_strip_def
  by (metis length_dropWhile_le length_rev order.trans)

lemma split_once_join: "c \<in> set s \<Longrightarrow> fst (split_once c s) @ c # snd (split_once c s) = s"
proof -
  assume "c \<in> set s"
  then have ne: "dropWhile (\<lambda>x. x \<noteq> c) s \<noteq> []" by (auto simp: dropWhile_eq_Nil_conv)
  then have "hd (dropWhile (\<lambda>x. x \<noteq> c) s) = c" using hd_dropWhile by blast
  with ne show ?thesis
    by (metis fst_conv snd_conv split_once_def takeWhile_dropWhile_id drop_Suc drop0
        list.collapse One_nat_def)
qed

lemma split_once_no_sep: "c \<notin> set (fst (split_once c s))"
  by (auto simp: split_once_def dest: set_takeWhileD)

lemma first_word_prefix: "first_word s @ drop (length (first_word s)) s = s"
  by (metis append_eq_conv_conj first_word_def takeWhile_dropWhile_id)

lemma first_word_no_space: "c \<in> set (first_word s) \<Longrightarrow> \<not> is_space c"
  by (auto simp: first_word_def dest: set_takeWhileD)

lemma length_first_word_le: "length (first_word s) \<le> length s"
  by (simp add: first_word_def length_takeWhile_le)

lemma after_last_suffix: "\<exists>p. s = p @ after_last c s"
  unfolding after_last_def by (metis rev_append rev_swap takeWhile_dropWhile_id)

lemma after_last_no_sep: "c \<notin> set (after_last c s)"
  unfolding after_last_def by (auto dest: set_takeWhileD)

lemma after_last_id: "c \<notin> set s \<Longrightarrow> after_last c s = s"
proof -
  assume "c \<notin> set s"
  then have "takeWhile (\<lambda>x. x \<noteq> c) (rev s) = rev s" by (auto simp: takeWhile_eq_all_conv)
  then show ?thesis by (simp only: after_last_def rev_rev_ident)
qed

lemma char_lower_idem [simp]: "char_lower (char_lower c) = char_lower c"
proof -
  have "(of_char c :: nat) < 256"
    by (metis of_char_mod_256 mod_less_divisor zero_less_numeral)
  then show ?thesis by (auto simp: char_lower_def Let_def)
qed

lemma str_lower_idem [simp]: "str_lower (str_lower s) = str_lower s"
  by (simp add: str_lower_def)

section \<open>Lemmas on results\<close>

lemma holds_Ok [simp]: "holds I (Ok x w) \<longleftrightarrow> I w"
  by (simp add: holds_def)

lemma holds_Raise [simp]: "holds I (Raise e w) \<longleftrightarrow> I w"
  by (simp add: holds_def)

lemma holds_bind [intro, py_res]:
  assumes "holds I r" and "\<And>x w. r = Ok x w \<Longrightarrow> I w \<Longrightarrow> holds I (k x w)"
  shows "holds I (bind r k)"
  using assms by (cases r) auto

lemma holds_catch [intro, py_res]:
  assumes "holds I r" and "\<And>e w. r = Raise e w \<Longrightarrow> I w \<Longrightarrow> holds I (h e w)"
  shows "holds I (catch r h)"
  using assms by (cases r) auto

lemma bind_eq_Ok:
  "bind r k = Ok y w' \<longleftrightarrow> (\<exists>x w. r = Ok x w \<and> k x w = Ok y w')"
  by (cases r) auto

lemma bind_assoc [simp]: "bind (bind r f) g = bind r (\<lambda>x w. bind (f x w) g)"
  by (cases r) auto

lemma holds_mono: "holds I r \<Longrightarrow> (\<And>w. I w \<Longrightarrow> J w) \<Longrightarrow> holds J r"
  by (auto simp: holds_def)

end
