(* ===== verification/MB_Commands.thy ===== *)
theory MB_Commands
  imports MB_Prelude
begin

text \<open>
  The command framework plugins are written with
  (\<^verbatim>\<open>maubot/handlers/command.py\<close>): argument matchers, the tree of command handlers, the
  decorators that build it, the dispatch of a message to a handler function and the usage
  texts.

  A \<open>handler\<close> is the object graph below one \<^verbatim>\<open>CommandHandler\<close> at the time of a call; its
  \<^verbatim>\<open>__mb_*__\<close> attributes are the record \<open>cmd_info\<close>, its subcommands and its bound copies
  are trees again. The type variable \<open>'i\<close> stands for plugin instances, \<open>'v\<close> for the values
  that custom matchers return. What a call does is an \<open>outcome\<close>: nothing, one reply, one
  invocation of a handler function with its keyword arguments, or an exception.
  Compiled regular expressions and custom matchers are supplied by the plugin and are
  functions in the model.
\<close>

section \<open>Arguments\<close>

datatype 'v pyval = PNone | PStr string | PTuple "string option list" | PObj 'v

datatype cmd_exn =
    ArgumentSyntaxError string bool
  | ValueErr string
  | NotImplementedErr
  | OtherErr string

record re_match =
  m_start :: nat
  m_end :: nat
  m_groups :: "string option list"

record arg_info =
  arg_name :: string
  arg_label :: string
  arg_required :: bool
  arg_pass_raw :: bool

text \<open>
  A custom matcher is seen through how \<^verbatim>\<open>CustomArgument.match\<close> uses its result: as a value
  (\<open>as_value\<close>), or unpacked into a pair in raw mode (\<open>as_pair\<close>).
\<close>

record 'v matcher =
  as_value :: "string \<Rightarrow> cmd_exn + 'v pyval"
  as_pair :: "string \<Rightarrow> cmd_exn + (string \<times> 'v pyval)"

datatype 'v argument =
    SimpleArgument (arg_of: arg_info)
  | RegexArgument (arg_of: arg_info) "string \<Rightarrow> re_match option"
  | CustomArgument (arg_of: arg_info) "'v matcher"

definition argument_init :: "string \<Rightarrow> string option \<Rightarrow> bool \<Rightarrow> bool \<Rightarrow> arg_info" where
  "argument_init name label required pass_raw =
     \<lparr>arg_name = name,
      arg_label = (if opt_truthy label then the label else name),
      arg_required = required, arg_pass_raw = pass_raw\<rparr>"

definition regex_argument ::
    "(string \<Rightarrow> string \<Rightarrow> re_match option) \<Rightarrow> string \<Rightarrow> string option \<Rightarrow> bool \<Rightarrow> bool \<Rightarrow> string
      \<Rightarrow> 'v argument" where
  "regex_argument re_compile name label required pass_raw matches =
     RegexArgument (argument_init name label required pass_raw)
       (re_compile (if pass_raw then ''^'' @ matches else ''^'' @ matches @ ''$''))"

text \<open>\<open>argument(...)\<close>: the kind of argument is chosen by which of the two options is given.\<close>

definition argument ::
    "(string \<Rightarrow> string \<Rightarrow> re_match option) \<Rightarrow> string \<Rightarrow> string option \<Rightarrow> bool \<Rightarrow> string option
      \<Rightarrow> 'v matcher option \<Rightarrow> bool \<Rightarrow> 'v argument" where
  "argument re_compile name label required matches parser pass_raw =
     (if opt_truthy matches then regex_argument re_compile name label required pass_raw (the matches)
      else case parser of
        Some m \<Rightarrow> CustomArgument (argument_init name label required pass_raw) m
      | None \<Rightarrow> SimpleArgument (argument_init name label required pass_raw))"

definition simple_match :: "arg_info \<Rightarrow> string \<Rightarrow> string \<times> 'v pyval" where
  "simple_match a val =
     (if arg_pass_raw a then ([], PStr val)
      else (drop (length (first_word val)) val, PStr (first_word val)))"

definition custom_match :: "arg_info \<Rightarrow> 'v matcher \<Rightarrow> string \<Rightarrow> cmd_exn + (string \<times> 'v pyval)" where
  "custom_match a m val =
     (if arg_pass_raw a then as_pair m val
      else case as_value m (first_word val) of
        Inl e \<Rightarrow> Inl e
      | Inr res \<Rightarrow> if res \<noteq> PNone then Inr (drop (length (first_word val)) val, res)
                   else Inr (val, PNone))"

definition regex_match :: "arg_info \<Rightarrow> (string \<Rightarrow> re_match option) \<Rightarrow> string \<Rightarrow> string \<times> 'v pyval" where
  "regex_match a regex orig_val =
     (let val = (if arg_pass_raw a then orig_val else first_word orig_val) in
      case regex val of
        Some m \<Rightarrow>
          (take (m_start m) orig_val @ drop (m_end m) orig_val,
           if m_groups m \<noteq> [] then PTuple (m_groups m)
           else PStr (drop (m_start m) (take (m_end m) val)))
      | None \<Rightarrow> (orig_val, PNone))"

fun arg_match :: "'v argument \<Rightarrow> string \<Rightarrow> cmd_exn + (string \<times> 'v pyval)" where
  "arg_match (SimpleArgument a) val = Inr (simple_match a val)"
| "arg_match (RegexArgument a r) val = Inr (regex_match a r val)"
| "arg_match (CustomArgument a m) val = custom_match a m val"

section \<open>Handlers\<close>

record ('i, 'v) cmd_info =
  mb_func :: string
  mb_parent_name :: "('i option \<Rightarrow> string) option"
  mb_arguments :: "'v argument list"
  mb_help :: "string option"
  mb_get_name :: "'i option \<Rightarrow> string"
  mb_is_command_match :: "('i option \<Rightarrow> string \<Rightarrow> bool) option"
  mb_require_subcommand :: bool
  mb_must_consume_args :: bool
  mb_arg_fallthrough :: bool
  mb_event_handler :: bool
  mb_event_types :: "string list"
  mb_msgtypes :: "string list"
  bound_instance :: "'i option"

datatype ('i, 'v) handler =
  CH (ch_info: "('i, 'v) cmd_info") (ch_subs: "('i, 'v) handler list")
     (ch_copies: "('i \<times> ('i, 'v) handler) list")

text \<open>\<^verbatim>\<open>CommandHandler.__init__\<close>. The unset match function raises when called.\<close>

definition handler_init :: "string \<Rightarrow> ('i, 'v) handler" where
  "handler_init func = CH
     \<lparr>mb_func = func, mb_parent_name = None, mb_arguments = [], mb_help = None,
      mb_get_name = (\<lambda>_. ''noname''), mb_is_command_match = None,
      mb_require_subcommand = True, mb_must_consume_args = True, mb_arg_fallthrough = True,
      mb_event_handler = True, mb_event_types = [''m.room.message''],
      mb_msgtypes = [''m.text''], bound_instance = None\<rparr> [] []"

text \<open>\<^verbatim>\<open>CommandHandler.__get__\<close>: the bound copy, and the handler with its memo updated.\<close>

fun ch_get :: "'i \<Rightarrow> ('i, 'v) handler \<Rightarrow> ('i, 'v) handler \<times> ('i, 'v) handler" where
  "ch_get i (CH info subs copies) =
     (if bound_instance info \<noteq> None then (CH info subs copies, CH info subs copies)
      else case map_of copies i of
        Some c \<Rightarrow> (c, CH info subs copies)
      | None \<Rightarrow>
          let rs = map (ch_get i) subs;
              new_ch = CH (info\<lparr>bound_instance := Some i\<rparr>) (map fst rs) []
          in (new_ch, CH info (map snd rs) ((i, new_ch) # copies)))"

subsection \<open>The decorators\<close>

datatype 'i prefix_type =
    NoName | NameStr string | NameFn0 string | NameFn1 "'i option \<Rightarrow> string"

datatype 'i aliases_type =
    NoAliases | AliasList "string list" | AliasFn1 "string \<Rightarrow> bool"
  | AliasFn2 "'i option \<Rightarrow> string \<Rightarrow> bool"

fun get_name_of :: "string \<Rightarrow> 'i prefix_type \<Rightarrow> 'i option \<Rightarrow> string" where
  "get_name_of func NoName = (\<lambda>_. replace_char CHR ''_'' CHR ''-'' func)"
| "get_name_of func (NameStr n) =
     (if n = [] then (\<lambda>_. replace_char CHR ''_'' CHR ''-'' func) else (\<lambda>_. n))"
| "get_name_of func (NameFn0 n) = (\<lambda>_. n)"
| "get_name_of func (NameFn1 f) = f"

fun command_match_of ::
    "('i option \<Rightarrow> string) \<Rightarrow> 'i aliases_type \<Rightarrow> 'i option \<Rightarrow> string \<Rightarrow> bool" where
  "command_match_of get_name NoAliases = (\<lambda>self val. val = get_name self)"
| "command_match_of get_name (AliasList as) =
     (\<lambda>self val. val = get_name self \<or> val \<in> set as)"
| "command_match_of get_name (AliasFn1 f) = (\<lambda>self val. f val)"
| "command_match_of get_name (AliasFn2 f) = f"

text \<open>\<^verbatim>\<open>new(...)\<close> applied to a handler; a plain function is wrapped by \<open>handler_init\<close> first.\<close>

definition cmd_new ::
    "'i prefix_type \<Rightarrow> string option \<Rightarrow> 'i aliases_type \<Rightarrow> string \<Rightarrow> string list \<Rightarrow> bool \<Rightarrow> bool
      \<Rightarrow> bool \<Rightarrow> ('i, 'v) handler \<Rightarrow> ('i, 'v) handler" where
  "cmd_new name help aliases event_type msgtypes require_subcommand arg_fallthrough
     must_consume_args func =
     (let info = ch_info func; gn = get_name_of (mb_func info) name in
      CH (info\<lparr>mb_help := help, mb_get_name := gn,
               mb_is_command_match := Some (command_match_of gn aliases),
               mb_arguments := rev (mb_arguments info),
               mb_require_subcommand := require_subcommand,
               mb_arg_fallthrough := arg_fallthrough,
               mb_must_consume_args := must_consume_args,
               mb_event_types := [event_type],
               mb_msgtypes := (if msgtypes \<noteq> [] then msgtypes else mb_msgtypes info)\<rparr>)
         (ch_subs func) (ch_copies func))"

text \<open>\<^verbatim>\<open>Argument.__call__\<close>.\<close>

definition add_argument :: "'v argument \<Rightarrow> ('i, 'v) handler \<Rightarrow> ('i, 'v) handler" where
  "add_argument a func =
     CH ((ch_info func)\<lparr>mb_arguments := mb_arguments (ch_info func) @ [a]\<rparr>)
        (ch_subs func) (ch_copies func)"

text \<open>\<^verbatim>\<open>CommandHandler.subcommand(...)\<close>: the decorated handler and the extended parent.\<close>

definition subcommand ::
    "('i, 'v) handler \<Rightarrow> 'i prefix_type \<Rightarrow> string option \<Rightarrow> 'i aliases_type \<Rightarrow> bool \<Rightarrow> bool
      \<Rightarrow> ('i, 'v) handler \<Rightarrow> ('i, 'v) handler \<times> ('i, 'v) handler" where
  "subcommand self name help aliases required_subcommand arg_fallthrough func =
     (let f = cmd_new name help aliases ''m.room.message'' [] required_subcommand
                arg_fallthrough True func;
          f' = CH ((ch_info f)\<lparr>mb_parent_name := Some (mb_get_name (ch_info self)),
                               mb_event_handler := False\<rparr>) (ch_subs f) (ch_copies f)
      in (f', CH (ch_info self) (ch_subs self @ [f']) (ch_copies self)))"

subsection \<open>Usage texts\<close>

definition mb_name :: "('i, 'v) handler \<Rightarrow> string" where
  "mb_name h = mb_get_name (ch_info h) (bound_instance (ch_info h))"

definition mb_usage_subcommand :: string where
  "mb_usage_subcommand = ''<subcommand> [...]''"

definition arg_usage :: "'v argument \<Rightarrow> string" where
  "arg_usage a = (if arg_required (arg_of a) then ''<'' @ arg_label (arg_of a) @ ''>''
                  else ''['' @ arg_label (arg_of a) @ '']'')"

definition mb_usage_args :: "('i, 'v) handler \<Rightarrow> string" where
  "mb_usage_args h =
     (let u = str_join '' '' (map arg_usage (mb_arguments (ch_info h))) in
      if ch_subs h \<noteq> [] \<and> mb_arg_fallthrough (ch_info h)
      then u @ '' '' @ mb_usage_subcommand else u)"

definition mb_prefix :: "('i, 'v) handler \<Rightarrow> string" where
  "mb_prefix h = (case mb_parent_name (ch_info h) of
      Some pn \<Rightarrow> ''!'' @ pn (bound_instance (ch_info h)) @ '' '' @ mb_name h
    | None \<Rightarrow> ''!'' @ mb_name h)"

definition help_str :: "('i, 'v) handler \<Rightarrow> string" where
  "help_str h = (case mb_help (ch_info h) of None \<Rightarrow> ''None'' | Some s \<Rightarrow> s)"

definition nl :: string where
  "nl = [CHR 0x0A]"

definition mb_usage_inline :: "('i, 'v) handler \<Rightarrow> string" where
  "mb_usage_inline h =
     (let first = ''* '' @ mb_name h @ '' '' @ mb_usage_args h @ '' - '' @ help_str h in
      if \<not> mb_arg_fallthrough (ch_info h)
      then first @ nl @ ''* '' @ mb_name h @ '' '' @ mb_usage_subcommand
      else first)"

definition mb_subcommands_list :: "('i, 'v) handler \<Rightarrow> string" where
  "mb_subcommands_list h =
     ''**Subcommands:** '' @ str_join '', '' (map mb_name (ch_subs h))"

definition mb_usage_without_subcommands :: "('i, 'v) handler \<Rightarrow> string" where
  "mb_usage_without_subcommands h =
     (if \<not> mb_arg_fallthrough (ch_info h) then
        (if mb_arguments (ch_info h) = []
         then ''**Usage:** '' @ mb_prefix h @ '' [subcommand] [...]''
         else ''**Usage:** '' @ mb_prefix h @ '' '' @ mb_usage_args h
              @ '' _OR_ '' @ mb_prefix h @ '' '' @ mb_usage_subcommand)
      else ''**Usage:** '' @ mb_prefix h @ '' '' @ mb_usage_args h)"

definition mb_usage :: "('i, 'v) handler \<Rightarrow> string" where
  "mb_usage h =
     (if ch_subs h \<noteq> [] then mb_usage_without_subcommands h @ ''  '' @ nl @ mb_subcommands_list h
      else mb_usage_without_subcommands h)"

definition mb_full_help :: "('i, 'v) handler \<Rightarrow> string" where
  "mb_full_help h =
     mb_usage_without_subcommands h @ nl @ nl
     @ (if \<not> mb_require_subcommand (ch_info h)
        then ''* '' @ mb_prefix h @ '' '' @ mb_usage_args h @ '' - '' @ help_str h @ nl else [])
     @ str_join nl (map mb_usage_inline (ch_subs h))"

subsection \<open>Calling a handler\<close>

record message_event =
  evt_sender :: string
  evt_client_mxid :: string
  evt_msgtype :: string
  evt_body :: string

type_synonym 'v call_args = "(string, 'v pyval) dict"

datatype ('i, 'v) outcome =
    Ignored
  | Replied string
  | Called string "'i option" "'v call_args"
  | Raised cmd_exn

definition split_in_two :: "string \<Rightarrow> char \<Rightarrow> string \<times> string" where
  "split_in_two val c = (if c \<in> set val then split_once c val else (val, []))"

text \<open>
  \<^verbatim>\<open>__parse_args__\<close>: \<open>Inl\<close> is the reply (or exception) that ends the call. The usage text
  of the whole handler is an argument, because the loop walks a tail of its arguments.
\<close>

datatype parse_stop = StopReply string | StopRaise cmd_exn

fun parse_args ::
    "string \<Rightarrow> 'v argument list \<Rightarrow> 'v call_args \<Rightarrow> string
      \<Rightarrow> parse_stop + ('v call_args \<times> string)" where
  "parse_args usage [] call_args remaining_val = Inr (call_args, remaining_val)"
| "parse_args usage (arg # args) call_args remaining_val =
     (case arg_match arg (str_strip remaining_val) of
        Inl (ArgumentSyntaxError msg show_usage) \<Rightarrow>
          Inl (StopReply (msg @ (if show_usage then nl @ usage else [])))
      | Inl (ValueErr _) \<Rightarrow> Inl (StopReply usage)
      | Inl e \<Rightarrow> Inl (StopRaise e)
      | Inr (rest, v) \<Rightarrow>
          if arg_required (arg_of arg) \<and> v = PNone then Inl (StopReply usage)
          else parse_args usage args (dict_set (arg_name (arg_of arg)) v call_args) rest)"

text \<open>The end of \<^verbatim>\<open>__call__\<close>: the check that the text is used up, and the call itself.\<close>

definition finish_call ::
    "('i, 'v) handler \<Rightarrow> 'v call_args \<Rightarrow> string \<Rightarrow> ('i, 'v) outcome" where
  "finish_call h call_args remaining_val =
     (if mb_must_consume_args (ch_info h) \<and> str_strip remaining_val \<noteq> []
      then Replied (mb_full_help h)
      else Called (mb_func (ch_info h)) (bound_instance (ch_info h)) call_args)"

text \<open>
  The part of \<^verbatim>\<open>__call__\<close> after the command name has matched. The caller passes
  \<^verbatim>\<open>__call_subcommand__\<close> for the handler's subcommands as \<open>sub\<close>; \<open>None\<close> is its result
  \<^verbatim>\<open>False, None\<close> (no subcommand matched).
\<close>

definition call_matched ::
    "('v call_args \<Rightarrow> string \<Rightarrow> ('i, 'v) outcome option) \<Rightarrow> 'v call_args \<Rightarrow> string
      \<Rightarrow> ('i, 'v) handler \<Rightarrow> ('i, 'v) outcome" where
  "call_matched sub call_args r h =
     (let info = ch_info h; subs = ch_subs h in
      case (if \<not> mb_arg_fallthrough info \<and> subs \<noteq> [] then sub call_args r else None) of
        Some res \<Rightarrow> res
      | None \<Rightarrow>
          (case parse_args (mb_usage h) (mb_arguments info) call_args r of
             Inl (StopReply t) \<Rightarrow> Replied t
           | Inl (StopRaise e) \<Rightarrow> Raised e
           | Inr (args, r') \<Rightarrow>
               if mb_arg_fallthrough info \<and> subs \<noteq> [] then
                 (case sub args r' of
                    Some res \<Rightarrow> res
                  | None \<Rightarrow> if mb_require_subcommand info then Replied (mb_full_help h)
                            else finish_call h args r')
               else finish_call h args r'))"

text \<open>
  \<^verbatim>\<open>__call__\<close> and \<^verbatim>\<open>__call_subcommand__\<close>; the pair given to the second is the first word of
  the remaining text and what follows it.
\<close>

fun call_handler ::
    "message_event \<Rightarrow> 'v call_args \<Rightarrow> string option \<Rightarrow> ('i, 'v) handler \<Rightarrow> ('i, 'v) outcome"
and call_subcommand ::
    "message_event \<Rightarrow> 'v call_args \<Rightarrow> string \<times> string \<Rightarrow> ('i, 'v) handler list
      \<Rightarrow> ('i, 'v) outcome option" where
  "call_handler evt existing remaining (CH info subs copies) =
     (let sub = (\<lambda>args r. call_subcommand evt args (split_in_two (str_strip r) CHR '' '') subs);
          h = CH info subs copies in
      if evt_sender evt = evt_client_mxid evt \<or> evt_msgtype evt \<notin> set (mb_msgtypes info)
      then Ignored
      else case remaining of
        Some r \<Rightarrow> call_matched sub existing r h
      | None \<Rightarrow>
          if evt_body evt = [] \<or> hd (evt_body evt) \<noteq> CHR ''!'' then Ignored
          else (let cr = split_in_two (tl (evt_body evt)) CHR '' '' in
            case mb_is_command_match info of
              None \<Rightarrow> Raised NotImplementedErr
            | Some m \<Rightarrow>
                if m (bound_instance info) (str_lower (fst cr))
                then call_matched sub existing (snd cr) h
                else Ignored))"
| "call_subcommand evt call_args cr [] = None"
| "call_subcommand evt call_args cr (sc # scs) =
     (case mb_is_command_match (ch_info sc) of
        None \<Rightarrow> Some (Raised NotImplementedErr)
      | Some m \<Rightarrow>
          if m (bound_instance (ch_info sc)) (fst cr)
          then Some (call_handler evt call_args (Some (snd cr)) sc)
          else call_subcommand evt call_args cr scs)"


subsection \<open>Passive commands\<close>

text \<open>
  \<^verbatim>\<open>passive(...)\<close>: a function called for every message whose text matches a regular
  expression. \<open>m_pos\<close> and \<open>m_endpos\<close> are the match object's \<^verbatim>\<open>pos\<close> and \<^verbatim>\<open>endpos\<close>, which
  Python defines as the bounds given to the search, not those of the match.
\<close>

record re_hit = re_match +
  m_pos :: nat
  m_endpos :: nat

datatype passive_val =
    PassiveOne "string \<times> string option list"
  | PassiveMany "(string \<times> string option list) list"

record passive_spec =
  pa_func :: string
  pa_msgtypes :: "string list"
  pa_field :: "message_event \<Rightarrow> string"
  pa_multiple :: bool
  pa_search :: "string \<Rightarrow> re_hit option"
  pa_finditer :: "string \<Rightarrow> re_hit list"

definition hit_value :: "string \<Rightarrow> re_hit \<Rightarrow> string \<times> string option list" where
  "hit_value data m = (drop (m_pos m) (take (m_endpos m) data), m_groups m)"

definition passive_replacement :: "passive_spec \<Rightarrow> message_event \<Rightarrow> (string \<times> passive_val) list" where
  "passive_replacement p evt =
     (if evt_sender evt = evt_client_mxid evt then []
      else if pa_msgtypes p \<noteq> [] \<and> evt_msgtype evt \<notin> set (pa_msgtypes p) then []
      else let data = pa_field p evt in
        if pa_multiple p then
          (let val = map (hit_value data) (pa_finditer p data) in
           if val \<noteq> [] then [(pa_func p, PassiveMany val)] else [])
        else case pa_search p data of
          Some m \<Rightarrow> [(pa_func p, PassiveOne (hit_value data m))]
        | None \<Rightarrow> [])"

text \<open>Stacked passive decorators: the earlier replacement is combined with the new one.\<close>

fun passive_combined :: "passive_spec list \<Rightarrow> message_event \<Rightarrow> (string \<times> passive_val) list" where
  "passive_combined [] evt = []"
| "passive_combined (p # ps) evt = passive_replacement p evt @ passive_combined ps evt"

text \<open>All handlers of a tree, for the statements below.\<close>

fun subtree :: "('i, 'v) handler \<Rightarrow> ('i, 'v) handler list" where
  "subtree (CH info subs copies) = CH info subs copies # concat (map subtree subs)"

section \<open>Lemmas on matching and parsing\<close>

lemma subtree_self [simp]: "h \<in> set (subtree h)"
  by (cases h) simp

lemma parse_args_ConsE:
  assumes "parse_args u (a # as) ca r = Inr (ca', r')"
  obtains rest v where "arg_match a (str_strip r) = Inr (rest, v)"
    and "arg_required (arg_of a) \<longrightarrow> v \<noteq> PNone"
    and "parse_args u as (dict_set (arg_name (arg_of a)) v ca) rest = Inr (ca', r')"
  using assms by (auto split: sum.splits cmd_exn.splits prod.splits if_splits)

definition arg_names :: "'v argument list \<Rightarrow> string list" where
  "arg_names as = map (\<lambda>a. arg_name (arg_of a)) as"

lemma parse_args_keeps:
  assumes "parse_args u as ca r = Inr (ca', r')" and "k \<notin> set (arg_names as)"
  shows "map_of ca' k = map_of ca k"
  using assms
proof (induction as arbitrary: ca r)
  case (Cons a as)
  from Cons.prems(1) obtain rest v
    where "parse_args u as (dict_set (arg_name (arg_of a)) v ca) rest = Inr (ca', r')"
    by (rule parse_args_ConsE)
  with Cons.IH Cons.prems(2) show ?case by (fastforce simp: arg_names_def)
qed simp

text \<open>The result of a parse, as seen by the function that is called with it.\<close>

definition args_supplied :: "'v argument list \<Rightarrow> 'v call_args \<Rightarrow> bool" where
  "args_supplied as ca \<longleftrightarrow> (\<forall>a \<in> set as. \<exists>v. map_of ca (arg_name (arg_of a)) = Some v
     \<and> (arg_required (arg_of a) \<longrightarrow> v \<noteq> PNone))"

lemma parse_args_supplies:
  assumes "parse_args u as ca r = Inr (ca', r')" and "distinct (arg_names as)"
  shows "args_supplied as ca'"
  using assms
proof (induction as arbitrary: ca r)
  case (Cons a as)
  from Cons.prems(1) obtain rest v
    where v: "arg_required (arg_of a) \<longrightarrow> v \<noteq> PNone"
      and rec: "parse_args u as (dict_set (arg_name (arg_of a)) v ca) rest = Inr (ca', r')"
    by (rule parse_args_ConsE)
  from Cons.prems(2) have d: "distinct (arg_names as)" and n: "arg_name (arg_of a) \<notin> set (arg_names as)"
    by (simp_all add: arg_names_def)
  from parse_args_keeps [OF rec n] have "map_of ca' (arg_name (arg_of a)) = Some v" by simp
  with v Cons.IH [OF rec d] show ?case by (simp add: args_supplied_def)
qed (simp add: args_supplied_def)

text \<open>The invariant of dispatch: what holds of a function call that a tree of handlers makes.\<close>

definition good_call :: "message_event \<Rightarrow> ('i, 'v) handler list \<Rightarrow> ('i, 'v) outcome \<Rightarrow> bool" where
  "good_call evt hs out \<longleftrightarrow> (\<forall>f i args. out = Called f i args \<longrightarrow>
     evt_sender evt \<noteq> evt_client_mxid evt \<and>
     (\<exists>h \<in> set hs. mb_func (ch_info h) = f \<and> bound_instance (ch_info h) = i
        \<and> evt_msgtype evt \<in> set (mb_msgtypes (ch_info h))
        \<and> (distinct (arg_names (mb_arguments (ch_info h)))
            \<longrightarrow> args_supplied (mb_arguments (ch_info h)) args)))"

lemma good_call_trivial [simp]:
  "good_call evt hs Ignored" "good_call evt hs (Replied t)" "good_call evt hs (Raised e)"
  by (simp_all add: good_call_def)

lemma good_call_mono: "good_call evt hs out \<Longrightarrow> set hs \<subseteq> set hs' \<Longrightarrow> good_call evt hs' out"
  unfolding good_call_def by blast

lemma good_call_finish:
  assumes "evt_sender evt \<noteq> evt_client_mxid evt" and "evt_msgtype evt \<in> set (mb_msgtypes (ch_info h))"
    and "parse_args u (mb_arguments (ch_info h)) ca r = Inr (args, r')"
  shows "good_call evt (subtree h) (finish_call h args r')"
  using assms parse_args_supplies [OF assms(3)] subtree_self [of h]
  unfolding good_call_def finish_call_def by auto

lemma good_call_matched:
  assumes evt: "evt_sender evt \<noteq> evt_client_mxid evt" "evt_msgtype evt \<in> set (mb_msgtypes (ch_info h))"
    and sub: "\<And>args r out. sub args r = Some out \<Longrightarrow> good_call evt (subtree h) out"
  shows "good_call evt (subtree h) (call_matched sub ca r h)"
  unfolding call_matched_def Let_def
  by (auto split: option.splits sum.splits parse_stop.splits if_splits
      intro: sub good_call_finish [OF evt])

lemma call_good:
  fixes h :: "('i, 'v) handler" and hs :: "('i, 'v) handler list" and ca ex :: "'v call_args"
  shows "good_call evt (subtree h) (call_handler evt ex rem h)"
    and "call_subcommand evt2 ca cr hs = Some out \<Longrightarrow> good_call evt2 (concat (map subtree hs)) out"
proof (induction evt ex rem h and evt2 ca cr hs arbitrary: and out
    rule: call_handler_call_subcommand.induct)
  case (1 evt existing remaining info subs copies)
  let ?h = "CH info subs copies"
  have sub: "good_call evt (subtree ?h) out"
    if "call_subcommand evt args (split_in_two (str_strip r) CHR '' '') subs = Some out" for args r out
  proof -
    have "good_call evt (concat (map subtree subs)) out" using "1.IH" that by metis
    then show ?thesis by (rule good_call_mono) auto
  qed
  show ?case
  proof (cases "evt_sender evt = evt_client_mxid evt \<or> evt_msgtype evt \<notin> set (mb_msgtypes info)")
    case True
    then show ?thesis by simp
  next
    case False
    then have "good_call evt (subtree ?h) (call_matched (\<lambda>args r. call_subcommand evt args
        (split_in_two (str_strip r) CHR '' '') subs) existing r ?h)" for r
      by (intro good_call_matched) (use sub in \<open>simp_all\<close>)
    with False show ?thesis
      by (simp only: call_handler.simps Let_def if_False) (auto split: option.splits)
  qed
next
  case (3 evt ca cr sc scs)
  have "good_call evt (subtree sc) out' \<Longrightarrow> good_call evt (concat (map subtree (sc # scs))) out'"
    "good_call evt (concat (map subtree scs)) out'
      \<Longrightarrow> good_call evt (concat (map subtree (sc # scs))) out'" for out' :: "('i, 'v) outcome"
    by (auto elim: good_call_mono)
  with 3 show ?case by (auto split: option.splits if_splits)
qed simp


lemma strip_words:
  assumes "w \<noteq> []" and "\<forall>c \<in> set w. \<not> is_space c" and "v \<noteq> []" and "\<forall>c \<in> set v. \<not> is_space c"
  shows "str_strip (w @ x @ v) = w @ x @ v"
proof -
  from assms(1,2) have "dropWhile is_space (w @ y) = w @ y" for y
    by (cases w) auto
  moreover from assms(3,4) have "dropWhile is_space (rev v @ y) = rev v @ y" for y
    by (cases v rule: rev_cases) auto
  ultimately show ?thesis by (simp add: str_strip_def)
qed

lemma is_space_blank [simp]: "is_space CHR '' ''"
  by (simp add: is_space_def)

lemma strip_blank: "str_strip (CHR '' '' # s) = str_strip s"
  by (simp add: str_strip_def)

lemma strip_Nil [simp]: "str_strip [] = []"
  by (simp add: str_strip_def)

definition word :: "string \<Rightarrow> bool" where
  "word w \<longleftrightarrow> w \<noteq> [] \<and> (\<forall>c \<in> set w. \<not> is_space c)"

lemma strip_word: "word w \<Longrightarrow> str_strip w = w"
proof -
  assume "word w"
  then have "dropWhile is_space w = w" and "dropWhile is_space (rev w) = rev w"
    by (simp_all add: word_def dropWhile_eq_self_iff hd_rev)
  then show ?thesis by (simp only: str_strip_def rev_rev_ident)
qed

lemma strip_joined: "list_all word ws \<Longrightarrow> str_strip (str_join '' '' ws) = str_join '' '' ws"
proof (cases ws rule: rev_cases)
  case (snoc us v)
  assume ws: "list_all word ws"
  have join: "str_join sep (us @ [v]) = (if us = [] then v else str_join sep us @ sep @ v)" for sep
    by (induction sep us rule: str_join.induct) auto
  show ?thesis
  proof (cases us)
    case Nil
    with ws snoc show ?thesis by (simp add: strip_word)
  next
    case (Cons w us')
    then obtain x where "str_join '' '' us = w @ x" by (cases us') auto
    with Cons have "str_join '' '' ws = w @ (x @ '' '') @ v"
      using join [of "'' ''"] snoc by simp
    with ws snoc Cons show ?thesis using strip_words [of w v "x @ '' ''"]
      by (simp add: word_def)
  qed
qed simp

lemma first_word_word: "word w \<Longrightarrow> first_word (w @ (if r = [] then [] else CHR '' '' # r)) = w"
  by (simp add: first_word_def word_def takeWhile_append2 takeWhile_eq_all_conv)


lemma str_join_Cons: "str_join sep (w # ws) = w @ (if ws = [] then [] else sep @ str_join sep ws)"
  by (cases ws) auto

lemma str_join_eq_Nil: "list_all word ws \<Longrightarrow> str_join '' '' ws = [] \<longleftrightarrow> ws = []"
  by (cases ws) (auto simp: str_join_Cons word_def)

lemma strip_rest:
  "list_all word ws \<Longrightarrow>
   str_strip (if ws = [] then [] else '' '' @ str_join '' '' ws) = str_join '' '' ws"
  by (simp add: strip_blank strip_joined)

lemma simple_match_word:
  assumes "list_all word (w # ws)" and "\<not> arg_pass_raw a"
  shows "simple_match a (str_join '' '' (w # ws))
    = (if ws = [] then [] else '' '' @ str_join '' '' ws, PStr w)"
proof -
  have "first_word (str_join '' '' (w # ws)) = w"
    using first_word_word [of w "str_join '' '' ws"] assms(1)
    by (simp add: str_join_Cons str_join_eq_Nil split: if_splits)
  with assms(2) show ?thesis by (simp add: simple_match_def str_join_Cons)
qed

text \<open>Parsing a text of words into simple arguments.\<close>

lemma parse_simple_words:
  assumes "list_all word ws" and "length ws = length as" and "list_all (\<lambda>a. \<not> arg_pass_raw a) as"
    and "distinct (map arg_name as)" and "set (map arg_name as) \<inter> fst ` set ca = {}"
    and "str_strip r = str_join '' '' ws" and "ws = [] \<longrightarrow> r = []"
  shows "parse_args u (map SimpleArgument as) ca r
    = Inr (ca @ zip (map arg_name as) (map PStr ws), [])"
  using assms
proof (induction as arbitrary: ws ca r)
  case (Cons a as)
  then obtain w ws' where ws: "ws = w # ws'" by (cases ws) auto
  let ?r = "if ws' = [] then [] else '' '' @ str_join '' '' ws'"
  from Cons.prems(1,3,6) have m: "simple_match a (str_strip r) = (?r, PStr w)"
    by (simp only: ws) (simp add: simple_match_word)
  have set: "dict_set (arg_name a) (PStr w) ca = ca @ [(arg_name a, PStr w)]"
    using Cons.prems(5) by (intro dict_set_fresh) auto
  have "parse_args u (map SimpleArgument as) (ca @ [(arg_name a, PStr w)]) ?r
      = Inr ((ca @ [(arg_name a, PStr w)]) @ zip (map arg_name as) (map PStr ws'), [])"
  proof (rule Cons.IH)
    show "str_strip ?r = str_join '' '' ws'" using Cons.prems(1) by (simp only: ws) (simp add: strip_rest)
  qed (use Cons.prems ws in auto)
  then show ?case by (simp add: m set ws)
qed simp

lemma split_in_two_words:
  assumes "CHR '' '' \<notin> set name"
  shows "split_in_two (name @ (if ws = [] then [] else '' '' @ str_join '' '' ws)) CHR '' ''
    = (name, str_join '' '' ws)"
proof -
  from assms have "takeWhile (\<lambda>x. x \<noteq> CHR '' '') name = name" by (auto simp: takeWhile_eq_all_conv)
  with assms show ?thesis
    by (auto simp: split_in_two_def split_once_def takeWhile_append2 dropWhile_append2
        takeWhile_eq_all_conv)
qed

section \<open>Dispatch\<close>

text \<open>
  C4. A plugin's command function only runs for messages that the bot did not send itself
  and whose message type the handler accepts; the function that runs belongs to the
  handler the message was sent to or to one of its subcommands, bound to the same plugin
  instance, and it receives a value for each of its declared arguments, which is never
  \<^verbatim>\<open>None\<close> for a required one (the arguments of one handler having different names).
\<close>

theorem command_call_contract:
  assumes "call_handler evt existing remaining h = Called f i args"
  shows "evt_sender evt \<noteq> evt_client_mxid evt \<and>
    (\<exists>h' \<in> set (subtree h). mb_func (ch_info h') = f \<and> bound_instance (ch_info h') = i
       \<and> evt_msgtype evt \<in> set (mb_msgtypes (ch_info h'))
       \<and> (distinct (arg_names (mb_arguments (ch_info h')))
            \<longrightarrow> args_supplied (mb_arguments (ch_info h')) args))"
  using call_good(1) [of evt h existing remaining] assms unfolding good_call_def by simp

text \<open>
  C33. Round trip of a command line: for a handler without subcommands whose arguments are
  plain words, the message \<^verbatim>\<open>!name w1 ... wn\<close> calls the handler's function with exactly
  the words as its arguments, in order.
\<close>

theorem simple_command_roundtrip:
  assumes "evt_sender evt \<noteq> evt_client_mxid evt" and "evt_msgtype evt \<in> set (mb_msgtypes info)"
    and "mb_is_command_match info = Some m" and "m (bound_instance info) (str_lower name)"
    and "CHR '' '' \<notin> set name" and "mb_arguments info = map SimpleArgument as"
    and "list_all (\<lambda>a. \<not> arg_pass_raw a) as" and "distinct (map arg_name as)"
    and "list_all word ws" and "length ws = length as"
    and "evt_body evt = ''!'' @ name @ (if ws = [] then [] else '' '' @ str_join '' '' ws)"
  shows "call_handler evt [] None (CH info [] copies)
    = Called (mb_func info) (bound_instance info) (zip (map arg_name as) (map PStr ws))"
proof -
  have parse: "parse_args u (map SimpleArgument as) [] (str_join '' '' ws)
      = Inr (zip (map arg_name as) (map PStr ws), [])" for u
    using parse_simple_words [of ws as "[]" "str_join '' '' ws"] assms(7-10)
    by (auto simp: strip_joined)
  from assms(11) have hd_tl: "evt_body evt \<noteq> []" "hd (evt_body evt) = CHR ''!''"
    "tl (evt_body evt) = name @ (if ws = [] then [] else '' '' @ str_join '' '' ws)"
    by simp_all
  show ?thesis
    using assms(1-4,6) split_in_two_words [OF assms(5), of ws]
    by (simp add: hd_tl parse call_matched_def finish_call_def del: append.simps)
qed


section \<open>Bound copies\<close>

text \<open>A handler tree as the decorators leave it: nothing bound, no memo.\<close>

definition unbound_tree :: "('i, 'v) handler \<Rightarrow> bool" where
  "unbound_tree h \<longleftrightarrow>
     list_all (\<lambda>h'. bound_instance (ch_info h') = None \<and> ch_copies h' = []) (subtree h)"

lemma unbound_tree_sub: "unbound_tree (CH info subs copies) \<Longrightarrow> s \<in> set subs \<Longrightarrow> unbound_tree s"
  by (auto simp: unbound_tree_def list_all_iff)

lemma subtree_bound:
  "unbound_tree h \<Longrightarrow> map ch_info (subtree (fst (ch_get i h)))
     = map (\<lambda>h'. (ch_info h')\<lparr>bound_instance := Some i\<rparr>) (subtree h)"
proof (induction i h rule: ch_get.induct)
  case (1 i info subs copies)
  from "1.prems" have ub: "bound_instance info = None" "map_of copies i = None"
    by (auto simp: unbound_tree_def)
  have "map ch_info (subtree (fst (ch_get i s)))
      = map (\<lambda>h'. (ch_info h')\<lparr>bound_instance := Some i\<rparr>) (subtree s)" if "s \<in> set subs" for s
    using "1.IH" [OF _ _ that] unbound_tree_sub [OF "1.prems" that] ub by simp
  then show ?case using ub by (simp add: map_concat o_def cong: map_cong)
qed

text \<open>
  Accessing a handler on a plugin instance yields a copy of the whole subcommand tree in
  which every handler is bound to that instance and is otherwise unchanged; a second
  access returns the memoised copy and changes nothing.
\<close>

theorem bound_copy_contract:
  assumes "unbound_tree h"
  shows "map ch_info (subtree (fst (ch_get i h)))
      = map (\<lambda>h'. (ch_info h')\<lparr>bound_instance := Some i\<rparr>) (subtree h)
    \<and> ch_get i (snd (ch_get i h)) = (fst (ch_get i h), snd (ch_get i h))"
proof
  show "ch_get i (snd (ch_get i h)) = (fst (ch_get i h), snd (ch_get i h))"
    by (cases h) (auto simp: Let_def split: option.splits)
qed (rule subtree_bound [OF assms])

section \<open>Building handlers\<close>

lemma arguments_foldr:
  "mb_arguments (ch_info (foldr add_argument as (handler_init f))) = rev as"
  by (induction as) (simp_all add: handler_init_def add_argument_def)

text \<open>
  Decorators run from the last to the first; the arguments that \<^verbatim>\<open>new\<close> leaves on a
  function decorated with a stack of argument decorators are in the order of the source
  text, whether \<^verbatim>\<open>new\<close> is applied directly or through \<^verbatim>\<open>subcommand\<close>, which also appends
  the handler to its parent and stops it from handling events on its own.
\<close>

theorem decorator_argument_order:
  "mb_arguments (ch_info (cmd_new name help aliases et mts rs af mc
      (foldr add_argument as (handler_init f)))) = as
   \<and> mb_arguments (ch_info (fst (subcommand p name help aliases rs af
      (foldr add_argument as (handler_init f))))) = as
   \<and> ch_subs (snd (subcommand p name help aliases rs af g))
      = ch_subs p @ [fst (subcommand p name help aliases rs af g)]
   \<and> \<not> mb_event_handler (ch_info (fst (subcommand p name help aliases rs af g)))"
  by (simp add: cmd_new_def subcommand_def Let_def arguments_foldr)

text \<open>
  Simple arguments are never reported as missing: with no text left, every simple
  argument that takes one word, required or not, is passed to the function as the empty
  string.
\<close>

theorem missing_simple_arguments_are_empty:
  assumes "list_all (\<lambda>a. \<not> arg_pass_raw a) as" and "distinct (map arg_name as)"
  shows "parse_args u (map SimpleArgument as) [] []
    = Inr (zip (map arg_name as) (replicate (length as) (PStr [])), [])"
proof -
  have "parse_args u (map SimpleArgument as) ca []
      = Inr (ca @ zip (map arg_name as) (replicate (length as) (PStr [])), [])"
    if "set (map arg_name as) \<inter> fst ` set ca = {}" for ca
    using assms that
  proof (induction as arbitrary: ca)
    case (Cons a as)
    have "dict_set (arg_name a) (PStr []) ca = ca @ [(arg_name a, PStr [])]"
      using Cons.prems(3) by (intro dict_set_fresh) auto
    with Cons show ?case by (auto simp: simple_match_def first_word_def)
  qed simp
  from this [of "[]"] show ?thesis by simp
qed

text \<open>
  A passive command function is given the whole text that was searched, not the part
  that matched: the bounds it slices with are those of the search.
\<close>

theorem passive_gets_whole_text:
  assumes "evt_sender evt \<noteq> evt_client_mxid evt"
    and "pa_msgtypes p = [] \<or> evt_msgtype evt \<in> set (pa_msgtypes p)"
    and "\<not> pa_multiple p" and "pa_search p (pa_field p evt) = Some m"
    and "m_pos m = 0" and "m_endpos m = length (pa_field p evt)"
  shows "passive_replacement p evt = [(pa_func p, PassiveOne (pa_field p evt, m_groups m))]"
  using assms by (auto simp: passive_replacement_def hit_value_def)

section \<open>Witnesses\<close>

definition ex_arg :: "string \<Rightarrow> arg_info" where
  "ex_arg n = argument_init n None True False"

definition ex_handler :: "(nat, unit) handler" where
  "ex_handler = cmd_new (NameStr ''echo'') None NoAliases ''m.room.message'' [] True True True
     (foldr add_argument [SimpleArgument (ex_arg ''a''), SimpleArgument (ex_arg ''b'')]
       (handler_init ''echo''))"

definition ex_event :: "string \<Rightarrow> message_event" where
  "ex_event t = \<lparr>evt_sender = ''@u:x'', evt_client_mxid = ''@bot:x'', evt_msgtype = ''m.text'',
     evt_body = t\<rparr>"

lemmas ex_defs = ex_arg_def ex_handler_def ex_event_def cmd_new_def handler_init_def
  add_argument_def argument_init_def opt_truthy_def Let_def

theorem simple_command_roundtrip_witness:
  "call_handler (ex_event ''!echo hi you'') [] None ex_handler
    = Called ''echo'' None [(''a'', PStr ''hi''), (''b'', PStr ''you'')]"
proof -
  have h: "ex_handler = CH (ch_info ex_handler) [] []" by (simp add: ex_defs)
  have "call_handler (ex_event ''!echo hi you'') [] None (CH (ch_info ex_handler) [] [])
    = Called (mb_func (ch_info ex_handler)) (bound_instance (ch_info ex_handler))
        (zip (map arg_name [ex_arg ''a'', ex_arg ''b'']) (map PStr [''hi'', ''you'']))"
    by (rule simple_command_roundtrip
          [where name = "''echo''" and m = "\<lambda>_ v. v = ''echo''"])
      (simp_all add: ex_defs word_def is_space_def str_lower_def char_lower_def)
  then show ?thesis by (subst h) (simp add: ex_defs)
qed

theorem command_call_contract_witness:
  "evt_sender (ex_event ''!echo hi you'') \<noteq> evt_client_mxid (ex_event ''!echo hi you'')
   \<and> args_supplied (mb_arguments (ch_info ex_handler)) [(''a'', PStr ''hi''), (''b'', PStr ''you'')]"
proof -
  have call: "call_handler (ex_event ''!echo hi you'') [] None ex_handler
    = Called ''echo'' None [(''a'', PStr ''hi''), (''b'', PStr ''you'')]"
    by (simp add: ex_defs call_matched_def finish_call_def split_in_two_def split_once_def
        str_lower_def char_lower_def str_strip_def is_space_def simple_match_def first_word_def)
  show ?thesis using command_call_contract [OF call]
    by (simp add: ex_defs arg_names_def)
qed

theorem bound_copy_contract_witness:
  "map ch_info (subtree (fst (ch_get 7 ex_handler)))
     = [(ch_info ex_handler)\<lparr>bound_instance := Some 7\<rparr>]"
proof -
  have "unbound_tree ex_handler" by (simp add: unbound_tree_def ex_defs)
  from bound_copy_contract [OF this, of 7] show ?thesis by (simp add: ex_defs)
qed

theorem missing_simple_arguments_are_empty_witness:
  "parse_args ''usage'' (map SimpleArgument [ex_arg ''a'', ex_arg ''b'']) [] []
    = Inr ([(''a'', PStr []), (''b'', PStr [])], [])"
  using missing_simple_arguments_are_empty [of "[ex_arg ''a'', ex_arg ''b'']" "''usage''"]
  by (simp add: ex_arg_def argument_init_def numeral_eq_Suc)

theorem passive_gets_whole_text_witness:
  "passive_replacement \<lparr>pa_func = ''f'', pa_msgtypes = [''m.text''], pa_field = evt_body,
      pa_multiple = False,
      pa_search = (\<lambda>s. Some \<lparr>m_start = 2, m_end = 4, m_groups = [], m_pos = 0, m_endpos = length s\<rparr>),
      pa_finditer = (\<lambda>_. [])\<rparr> (ex_event ''a meow b'')
    = [(''f'', PassiveOne (''a meow b'', []))]"
  by (subst passive_gets_whole_text
        [where m = "\<lparr>m_start = 2, m_end = 4, m_groups = [], m_pos = 0, m_endpos = 8\<rparr>"])
    (simp_all add: ex_event_def)

end
