(* ===== verification/MB_Responses.thy ===== *)
theory MB_Responses
  imports MB_Prelude
begin

text \<open>
  The catalogue of HTTP responses of the management API
  (\<^verbatim>\<open>maubot/management/api/responses.py\<close>): one definition per property or method of
  \<^verbatim>\<open>_Response\<close>, with the JSON body and the status code the source gives it. A
  parameter stands for the text the caller passes (the error message, the query, the
  identifier found); for the SQLAlchemy errors \<open>orig\<close> is \<^verbatim>\<open>str(error.orig)\<close> and \<open>error\<close>
  is \<^verbatim>\<open>str(error)\<close>.
\<close>

section \<open>Responses\<close>

datatype resp_body = NoBody | JsonBody json | TextBody string

record web_response =
  status :: nat
  body :: resp_body

text \<open>aiohttp's \<^verbatim>\<open>web.json_response\<close> and \<^verbatim>\<open>web.Response\<close>.\<close>

definition json_response :: "json \<Rightarrow> nat \<Rightarrow> web_response" where
  "json_response data st = \<lparr>status = st, body = JsonBody data\<rparr>"

definition text_response :: "nat \<Rightarrow> string \<Rightarrow> web_response" where
  "text_response st txt = \<lparr>status = st, body = TextBody txt\<rparr>"

definition empty_response :: "nat \<Rightarrow> web_response" where
  "empty_response st = \<lparr>status = st, body = NoBody\<rparr>"

definition resp_body_not_json :: "web_response" where
  "resp_body_not_json = json_response (JObj
     [(''error'', JStr ''Request body is not JSON''),
      (''errcode'', JStr ''body_not_json'')]) 400"

definition resp_plugin_type_required :: "web_response" where
  "resp_plugin_type_required = json_response (JObj
     [(''error'', JStr ''Plugin type is required when creating plugin instances''),
      (''errcode'', JStr ''plugin_type_required'')]) 400"

definition resp_primary_user_required :: "web_response" where
  "resp_primary_user_required = json_response (JObj
     [(''error'', JStr ''Primary user is required when creating plugin instances''),
      (''errcode'', JStr ''primary_user_required'')]) 400"

definition resp_bad_client_access_token :: "web_response" where
  "resp_bad_client_access_token = json_response (JObj
     [(''error'', JStr ''Invalid access token''),
      (''errcode'', JStr ''bad_client_access_token'')]) 400"

definition resp_bad_client_access_details :: "web_response" where
  "resp_bad_client_access_details = json_response (JObj
     [(''error'', JStr ''Invalid homeserver or access token''),
      (''errcode'', JStr ''bad_client_access_details'')]) 400"

definition resp_bad_client_connection_details :: "web_response" where
  "resp_bad_client_connection_details = json_response (JObj
     [(''error'', JStr ''Could not connect to homeserver''),
      (''errcode'', JStr ''bad_client_connection_details'')]) 400"

definition resp_mxid_mismatch :: "string \<Rightarrow> web_response" where
  "resp_mxid_mismatch found = json_response (JObj
     [(''error'', JStr (''The Matrix user ID of the client and the user ID of the access token don'' @ [CHR 0x27] @ ''t match. Access token is for user '' @ found)),
      (''errcode'', JStr ''mxid_mismatch'')]) 400"

definition resp_device_id_mismatch :: "string \<Rightarrow> web_response" where
  "resp_device_id_mismatch found = json_response (JObj
     [(''error'', JStr (''The Matrix device ID of the client and the device ID of the access token don'' @ [CHR 0x27] @ ''t match. Access token is for device '' @ found)),
      (''errcode'', JStr ''mxid_mismatch'')]) 400"

definition resp_pid_mismatch :: "web_response" where
  "resp_pid_mismatch = json_response (JObj
     [(''error'', JStr ''The ID in the path does not match the ID of the uploaded plugin''),
      (''errcode'', JStr ''pid_mismatch'')]) 400"

definition resp_username_or_password_missing :: "web_response" where
  "resp_username_or_password_missing = json_response (JObj
     [(''error'', JStr ''Username or password missing''),
      (''errcode'', JStr ''username_or_password_missing'')]) 400"

definition resp_query_missing :: "web_response" where
  "resp_query_missing = json_response (JObj
     [(''error'', JStr ''Query missing''),
      (''errcode'', JStr ''query_missing'')]) 400"

definition resp_sql_error :: "string \<Rightarrow> string \<Rightarrow> web_response" where
  "resp_sql_error error query = json_response (JObj
     [(''ok'', JBool False),
      (''query'', JStr query),
      (''error'', JStr error),
      (''errcode'', JStr ''sql_error'')]) 400"

definition resp_sql_operational_error :: "string \<Rightarrow> string \<Rightarrow> string \<Rightarrow> web_response" where
  "resp_sql_operational_error orig error query = json_response (JObj
     [(''ok'', JBool False),
      (''query'', JStr query),
      (''error'', JStr orig),
      (''full_error'', JStr error),
      (''errcode'', JStr ''sql_operational_error'')]) 400"

definition resp_sql_integrity_error :: "string \<Rightarrow> string \<Rightarrow> string \<Rightarrow> web_response" where
  "resp_sql_integrity_error orig error query = json_response (JObj
     [(''ok'', JBool False),
      (''query'', JStr query),
      (''error'', JStr orig),
      (''full_error'', JStr error),
      (''errcode'', JStr ''sql_integrity_error'')]) 400"

definition resp_bad_auth :: "web_response" where
  "resp_bad_auth = json_response (JObj
     [(''error'', JStr ''Invalid username or password''),
      (''errcode'', JStr ''invalid_auth'')]) 401"

definition resp_no_token :: "web_response" where
  "resp_no_token = json_response (JObj
     [(''error'', JStr ''Authorization token missing''),
      (''errcode'', JStr ''auth_token_missing'')]) 401"

definition resp_invalid_token :: "web_response" where
  "resp_invalid_token = json_response (JObj
     [(''error'', JStr ''Invalid authorization token''),
      (''errcode'', JStr ''auth_token_invalid'')]) 401"

definition resp_plugin_not_found :: "web_response" where
  "resp_plugin_not_found = json_response (JObj
     [(''error'', JStr ''Plugin not found''),
      (''errcode'', JStr ''plugin_not_found'')]) 404"

definition resp_client_not_found :: "web_response" where
  "resp_client_not_found = json_response (JObj
     [(''error'', JStr ''Client not found''),
      (''errcode'', JStr ''client_not_found'')]) 404"

definition resp_primary_user_not_found :: "web_response" where
  "resp_primary_user_not_found = json_response (JObj
     [(''error'', JStr ''Client for given primary user not found''),
      (''errcode'', JStr ''primary_user_not_found'')]) 404"

definition resp_instance_not_found :: "web_response" where
  "resp_instance_not_found = json_response (JObj
     [(''error'', JStr ''Plugin instance not found''),
      (''errcode'', JStr ''instance_not_found'')]) 404"

definition resp_plugin_type_not_found :: "web_response" where
  "resp_plugin_type_not_found = json_response (JObj
     [(''error'', JStr ''Given plugin type not found''),
      (''errcode'', JStr ''plugin_type_not_found'')]) 404"

definition resp_path_not_found :: "web_response" where
  "resp_path_not_found = json_response (JObj
     [(''error'', JStr ''Resource not found''),
      (''errcode'', JStr ''resource_not_found'')]) 404"

definition resp_server_not_found :: "web_response" where
  "resp_server_not_found = json_response (JObj
     [(''error'', JStr ''Registration target server not found''),
      (''errcode'', JStr ''server_not_found'')]) 404"

definition resp_registration_secret_not_found :: "web_response" where
  "resp_registration_secret_not_found = json_response (JObj
     [(''error'', JStr ''Config does not have a registration secret for that server''),
      (''errcode'', JStr ''registration_secret_not_found'')]) 404"

definition resp_registration_no_sso :: "web_response" where
  "resp_registration_no_sso = json_response (JObj
     [(''error'', JStr ''The register operation is only for registering with a password''),
      (''errcode'', JStr ''registration_no_sso'')]) 400"

definition resp_sso_not_supported :: "web_response" where
  "resp_sso_not_supported = json_response (JObj
     [(''error'', JStr ''That server does not seem to support single sign-on''),
      (''errcode'', JStr ''sso_not_supported'')]) 403"

definition resp_plugin_has_no_database :: "web_response" where
  "resp_plugin_has_no_database = json_response (JObj
     [(''error'', JStr ''Given plugin does not have a database''),
      (''errcode'', JStr ''plugin_has_no_database'')]) 200"

definition resp_unsupported_plugin_database :: "web_response" where
  "resp_unsupported_plugin_database = json_response (JObj
     [(''error'', JStr ''The database type is not supported by this API''),
      (''errcode'', JStr ''unsupported_plugin_database'')]) 200"

definition resp_sqlalchemy_not_installed :: "web_response" where
  "resp_sqlalchemy_not_installed = json_response (JObj
     [(''error'', JStr ''This plugin requires a legacy database, but SQLAlchemy is not installed''),
      (''errcode'', JStr ''unsupported_plugin_database'')]) 501"

definition resp_table_not_found :: "web_response" where
  "resp_table_not_found = json_response (JObj
     [(''error'', JStr ''Given table not found in plugin database''),
      (''errcode'', JStr ''table_not_found'')]) 200"

definition resp_method_not_allowed :: "web_response" where
  "resp_method_not_allowed = json_response (JObj
     [(''error'', JStr ''Method not allowed''),
      (''errcode'', JStr ''method_not_allowed'')]) 405"

definition resp_user_exists :: "web_response" where
  "resp_user_exists = json_response (JObj
     [(''error'', JStr ''There is already a client with the user ID of that token''),
      (''errcode'', JStr ''user_exists'')]) 409"

definition resp_plugin_exists :: "web_response" where
  "resp_plugin_exists = json_response (JObj
     [(''error'', JStr ''A plugin with the same ID as the uploaded plugin already exists''),
      (''errcode'', JStr ''plugin_exists'')]) 409"

definition resp_plugin_in_use :: "web_response" where
  "resp_plugin_in_use = json_response (JObj
     [(''error'', JStr ''Plugin instances of this type still exist''),
      (''errcode'', JStr ''plugin_in_use'')]) 412"

definition resp_client_in_use :: "web_response" where
  "resp_client_in_use = json_response (JObj
     [(''error'', JStr ''Plugin instances with this client as their primary user still exist''),
      (''errcode'', JStr ''client_in_use'')]) 412"

definition resp_plugin_import_error :: "string \<Rightarrow> string \<Rightarrow> web_response" where
  "resp_plugin_import_error error stacktrace = json_response (JObj
     [(''error'', JStr error),
      (''stacktrace'', JStr stacktrace),
      (''errcode'', JStr ''plugin_invalid'')]) 400"

definition resp_plugin_reload_error :: "string \<Rightarrow> string \<Rightarrow> web_response" where
  "resp_plugin_reload_error error stacktrace = json_response (JObj
     [(''error'', JStr error),
      (''stacktrace'', JStr stacktrace),
      (''errcode'', JStr ''plugin_reload_fail'')]) 500"

definition resp_internal_server_error :: "web_response" where
  "resp_internal_server_error = json_response (JObj
     [(''error'', JStr ''Internal server error''),
      (''errcode'', JStr ''internal_server_error'')]) 500"

definition resp_invalid_server :: "web_response" where
  "resp_invalid_server = json_response (JObj
     [(''error'', JStr ''Invalid registration server object in maubot configuration''),
      (''errcode'', JStr ''invalid_server'')]) 500"

definition resp_unsupported_plugin_loader :: "web_response" where
  "resp_unsupported_plugin_loader = json_response (JObj
     [(''error'', JStr ''Existing plugin with same ID uses unsupported plugin loader''),
      (''errcode'', JStr ''unsupported_plugin_loader'')]) 400"

definition resp_client_has_keys :: "web_response" where
  "resp_client_has_keys = json_response (JObj
     [(''error'', JStr ''Client already has cross-signing keys''),
      (''errcode'', JStr ''client_has_keys'')]) 409"

definition resp_internal_crypto_error :: "string \<Rightarrow> web_response" where
  "resp_internal_crypto_error message = json_response (JObj
     [(''error'', JStr (''Internal crypto error: '' @ message)),
      (''errcode'', JStr ''internal_crypto_error'')]) 500"

definition resp_not_implemented :: "web_response" where
  "resp_not_implemented = json_response (JObj
     [(''error'', JStr ''Not implemented''),
      (''errcode'', JStr ''not_implemented'')]) 501"

definition resp_ok :: web_response where
  "resp_ok = json_response (JObj [(''success'', JBool True)]) 200"

definition resp_deleted :: web_response where
  "resp_deleted = empty_response 204"

definition resp_found :: "json \<Rightarrow> web_response" where
  "resp_found data = json_response data 200"

definition resp_updated :: "json \<Rightarrow> bool \<Rightarrow> web_response" where
  "resp_updated data is_login = json_response data (if is_login then 202 else 200)"

definition resp_logged_in :: "string \<Rightarrow> web_response" where
  "resp_logged_in token = resp_found (JObj [(''token'', JStr token)])"

definition resp_pong :: "json \<Rightarrow> json \<Rightarrow> web_response" where
  "resp_pong user features = resp_found (JObj [(''username'', user), (''features'', features)])"

definition resp_created :: "json \<Rightarrow> web_response" where
  "resp_created data = json_response data 201"

section \<open>Reading a response\<close>

definition body_field :: "string \<Rightarrow> web_response \<Rightarrow> string option" where
  "body_field k r = (case body r of
      JsonBody (JObj d) \<Rightarrow> (case map_of d k of Some (JStr s) \<Rightarrow> Some s | _ \<Rightarrow> None)
    | _ \<Rightarrow> None)"

definition errcode :: "web_response \<Rightarrow> string option" where
  "errcode r = body_field ''errcode'' r"

definition is_success :: "web_response \<Rightarrow> bool" where
  "is_success r \<longleftrightarrow> 200 \<le> status r \<and> status r < 300"

text \<open>Every failure the catalogue can report, at given message texts.\<close>

definition error_responses ::
    "string \<Rightarrow> string \<Rightarrow> string \<Rightarrow> string \<Rightarrow> string \<Rightarrow> web_response list" where
  "error_responses found orig error query trace =
     [resp_body_not_json,
      resp_plugin_type_required,
      resp_primary_user_required,
      resp_bad_client_access_token,
      resp_bad_client_access_details,
      resp_bad_client_connection_details,
      resp_mxid_mismatch found,
      resp_device_id_mismatch found,
      resp_pid_mismatch,
      resp_username_or_password_missing,
      resp_query_missing,
      resp_sql_error error query,
      resp_sql_operational_error orig error query,
      resp_sql_integrity_error orig error query,
      resp_bad_auth,
      resp_no_token,
      resp_invalid_token,
      resp_plugin_not_found,
      resp_client_not_found,
      resp_primary_user_not_found,
      resp_instance_not_found,
      resp_plugin_type_not_found,
      resp_path_not_found,
      resp_server_not_found,
      resp_registration_secret_not_found,
      resp_registration_no_sso,
      resp_sso_not_supported,
      resp_plugin_has_no_database,
      resp_unsupported_plugin_database,
      resp_sqlalchemy_not_installed,
      resp_table_not_found,
      resp_method_not_allowed,
      resp_user_exists,
      resp_plugin_exists,
      resp_plugin_in_use,
      resp_client_in_use,
      resp_plugin_import_error error trace,
      resp_plugin_reload_error error trace,
      resp_internal_server_error,
      resp_invalid_server,
      resp_unsupported_plugin_loader,
      resp_client_has_keys,
      resp_internal_crypto_error error,
      resp_not_implemented]"

lemmas resp_error_defs =
  resp_body_not_json_def
  resp_plugin_type_required_def
  resp_primary_user_required_def
  resp_bad_client_access_token_def
  resp_bad_client_access_details_def
  resp_bad_client_connection_details_def
  resp_mxid_mismatch_def
  resp_device_id_mismatch_def
  resp_pid_mismatch_def
  resp_username_or_password_missing_def
  resp_query_missing_def
  resp_sql_error_def
  resp_sql_operational_error_def
  resp_sql_integrity_error_def
  resp_bad_auth_def
  resp_no_token_def
  resp_invalid_token_def
  resp_plugin_not_found_def
  resp_client_not_found_def
  resp_primary_user_not_found_def
  resp_instance_not_found_def
  resp_plugin_type_not_found_def
  resp_path_not_found_def
  resp_server_not_found_def
  resp_registration_secret_not_found_def
  resp_registration_no_sso_def
  resp_sso_not_supported_def
  resp_plugin_has_no_database_def
  resp_unsupported_plugin_database_def
  resp_sqlalchemy_not_installed_def
  resp_table_not_found_def
  resp_method_not_allowed_def
  resp_user_exists_def
  resp_plugin_exists_def
  resp_plugin_in_use_def
  resp_client_in_use_def
  resp_plugin_import_error_def
  resp_plugin_reload_error_def
  resp_internal_server_error_def
  resp_invalid_server_def
  resp_unsupported_plugin_loader_def
  resp_client_has_keys_def
  resp_internal_crypto_error_def
  resp_not_implemented_def

lemmas resp_success_defs =
  resp_ok_def resp_deleted_def resp_found_def resp_updated_def resp_logged_in_def resp_pong_def
  resp_created_def

lemma status_json_response [simp]: "status (json_response d st) = st"
  by (simp add: json_response_def)

lemma status_text_response [simp]: "status (text_response st t) = st"
  by (simp add: text_response_def)

lemma status_empty_response [simp]: "status (empty_response st) = st"
  by (simp add: empty_response_def)

lemma body_json_response [simp]: "body (json_response d st) = JsonBody d"
  by (simp add: json_response_def)

lemma is_success_resp [simp]:
  "is_success resp_ok" "is_success resp_deleted" "is_success (resp_found d)"
  "is_success (resp_updated d b)" "is_success (resp_logged_in t)" "is_success (resp_created d)"
  by (simp_all add: is_success_def resp_success_defs)

section \<open>The error contract\<close>

text \<open>
  Every failure response of the management API is a JSON object with a string
  \<^verbatim>\<open>error\<close> and a string \<^verbatim>\<open>errcode\<close>; every one of them has an HTTP error status except
  exactly three (a plugin without a database, an unsupported plugin database and a missing
  table), which the API reports with status 200.
\<close>

theorem error_response_contract:
  "list_all (\<lambda>r. errcode r \<noteq> None \<and> body_field ''error'' r \<noteq> None)
     (error_responses found orig error query trace)
   \<and> filter (\<lambda>r. status r < 400) (error_responses found orig error query trace)
     = [resp_plugin_has_no_database, resp_unsupported_plugin_database, resp_table_not_found]"
  by (simp add: error_responses_def errcode_def body_field_def resp_error_defs)

end
