(* ===== verification/MB_Server.thy ===== *)
theory MB_Server
  imports MB_Responses
begin

text \<open>
  The web server in front of the plugins: \<^verbatim>\<open>maubot/plugin_server.py\<close> (one
  \<^verbatim>\<open>PluginWebApp\<close> per plugin instance, the prefix resource) and \<^verbatim>\<open>maubot/server.py\<close> (the
  table from sub-paths to plugin apps, request rewriting, the routes of the management
  UI).

  A \<^verbatim>\<open>PluginWebApp\<close> is an object that both the server's table and a plugin instance refer
  to, so apps live in a list and are named by their index. Requests, handlers and
  middlewares are the plugin's own; handlers are functions in the model, and what aiohttp's
  \<^verbatim>\<open>UrlDispatcher.resolve\<close> answers is a parameter of \<open>webapp_handle\<close>.
\<close>

section \<open>Plugin web apps\<close>

record web_request =
  req_path :: string
  req_query :: "(string, string) dict"
  req_headers :: "(string, string) dict"

type_synonym web_handler = "web_request \<Rightarrow> web_response"
type_synonym web_middleware = "web_request \<Rightarrow> web_handler \<Rightarrow> web_response"

text \<open>A registered route: method, path and handler.\<close>

record webapp =
  wa_resources :: "(string \<times> string \<times> web_handler) list"
  wa_middleware :: "web_middleware list"

definition webapp_init :: webapp where
  "webapp_init = \<lparr>wa_resources = [], wa_middleware = []\<rparr>"

definition add_middleware :: "web_middleware \<Rightarrow> webapp \<Rightarrow> webapp" where
  "add_middleware m app = app\<lparr>wa_middleware := wa_middleware app @ [m]\<rparr>"

definition webapp_clear :: "webapp \<Rightarrow> webapp" where
  "webapp_clear app = app\<lparr>wa_resources := [], wa_middleware := []\<rparr>"

text \<open>\<^verbatim>\<open>PluginWebApp.add_route\<close> of the base class, as plugins use it.\<close>

definition webapp_add_route :: "string \<Rightarrow> string \<Rightarrow> web_handler \<Rightarrow> webapp \<Rightarrow> webapp" where
  "webapp_add_route meth path h app = app\<lparr>wa_resources := wa_resources app @ [(meth, path, h)]\<rparr>"

record match_info =
  mi_handler :: web_handler
  mi_expect_handler :: "web_request \<Rightarrow> web_response option"

text \<open>The middleware loop: every middleware wraps what has been built so far.\<close>

fun wrap_middlewares :: "web_handler \<Rightarrow> web_middleware list \<Rightarrow> web_handler" where
  "wrap_middlewares handler [] = handler"
| "wrap_middlewares handler (m # ms) = wrap_middlewares (\<lambda>request. m request handler) ms"

definition webapp_handle ::
    "(webapp \<Rightarrow> web_request \<Rightarrow> match_info) \<Rightarrow> webapp \<Rightarrow> web_request \<Rightarrow> web_response" where
  "webapp_handle resolve app request =
     (let mi = resolve app request;
          resp = (if dict_get (req_headers request) ''Expect'' [] \<noteq> []
                  then mi_expect_handler mi request else None)
      in case resp of
           Some r \<Rightarrow> r
         | None \<Rightarrow> wrap_middlewares (mi_handler mi) (wa_middleware app) request)"

section \<open>The prefix resource\<close>

text \<open>\<open>Inl ()\<close> is an \<^verbatim>\<open>AssertionError\<close>; \<open>raw_path\<close> stands for \<^verbatim>\<open>URL.build(path=p).raw_path\<close>.\<close>

definition prefix_resource_init :: "(string \<Rightarrow> string) \<Rightarrow> string \<Rightarrow> unit + string" where
  "prefix_resource_init raw_path prefix =
     (if (prefix = [] \<or> startswith prefix ''/'')
         \<and> (prefix = [] \<or> prefix = ''/'' \<or> \<not> endswith prefix ''/'')
      then Inr (raw_path prefix) else Inl ())"

definition prefix_resource_add_prefix :: "string \<Rightarrow> string \<Rightarrow> unit + string" where
  "prefix_resource_add_prefix self_prefix prefix =
     (if startswith prefix ''/'' \<and> \<not> endswith prefix ''/'' \<and> 1 < length prefix
      then Inr (prefix @ self_prefix) else Inl ())"

definition prefix_raw_match :: "string \<Rightarrow> string \<Rightarrow> bool" where
  "prefix_raw_match self_prefix path \<longleftrightarrow> path \<noteq> [] \<and> startswith path self_prefix"

section \<open>The server\<close>

record server =
  plugin_base_path :: string
  public_url :: string
  plugin_routes :: "(string, nat) dict"
  webapps :: "webapp list"

definition subpath :: "string \<Rightarrow> string \<Rightarrow> string" where
  "subpath base instance_id = base @ instance_id @ ''/''"

definition server_init :: "string \<Rightarrow> string \<Rightarrow> server" where
  "server_init base url =
     \<lparr>plugin_base_path = base, public_url = url, plugin_routes = [], webapps = []\<rparr>"

definition get_instance_subapp :: "string \<Rightarrow> server \<Rightarrow> (nat \<times> string) \<times> server" where
  "get_instance_subapp instance_id s =
     (let sub = subpath (plugin_base_path s) instance_id; url = public_url s @ sub in
      case map_of (plugin_routes s) sub of
        Some app \<Rightarrow> ((app, url), s)
      | None \<Rightarrow>
          let app = length (webapps s) in
          ((app, url), s\<lparr>plugin_routes := dict_set sub app (plugin_routes s),
                         webapps := webapps s @ [webapp_init]\<rparr>))"

definition remove_instance_webapp :: "string \<Rightarrow> server \<Rightarrow> server" where
  "remove_instance_webapp instance_id s =
     (let sub = subpath (plugin_base_path s) instance_id in
      case map_of (plugin_routes s) sub of
        None \<Rightarrow> s
      | Some app \<Rightarrow> s\<lparr>plugin_routes := dict_del sub (plugin_routes s),
                      webapps := (webapps s)[app := webapp_clear (webapps s ! app)]\<rparr>)"

text \<open>
  \<^verbatim>\<open>handle_plugin_path\<close>: the first route, in insertion order, whose sub-path is a prefix of
  the request's path; the app sees the path from the sub-path's final slash on.
\<close>

fun handle_routes ::
    "(nat \<Rightarrow> web_request \<Rightarrow> web_response) \<Rightarrow> (string, nat) dict \<Rightarrow> web_request \<Rightarrow> web_response" where
  "handle_routes app_handle [] request = empty_response 404"
| "handle_routes app_handle ((path, app) # routes) request =
     (if startswith (req_path request) path
      then app_handle app (request\<lparr>req_path := drop (length path - 1) (req_path request)\<rparr>)
      else handle_routes app_handle routes request)"

definition handle_plugin_path ::
    "(webapp \<Rightarrow> web_request \<Rightarrow> match_info) \<Rightarrow> server \<Rightarrow> web_request \<Rightarrow> web_response" where
  "handle_plugin_path resolve s request =
     handle_routes (\<lambda>app. webapp_handle resolve (webapps s ! app)) (plugin_routes s) request"

definition handle_transaction :: "web_request \<Rightarrow> web_response" where
  "handle_transaction request = empty_response 501"

subsection \<open>The routes of the management UI\<close>

text \<open>
  \<^verbatim>\<open>setup_static_root_files\<close>: the GET routes it adds, with their bodies. \<open>read\<close> stands for
  the file contents and \<open>url_path\<close> for \<^verbatim>\<open>URL(public_url).path\<close>.
\<close>

definition api_path :: "(string \<Rightarrow> string) \<Rightarrow> string \<Rightarrow> string" where
  "api_path url_path url =
     (if url \<noteq> [] then str_rstrip (url_path url) ''/'' else []) @ ''/_matrix/maubot/v1''"

definition setup_static_root_files ::
    "(string \<Rightarrow> string) \<Rightarrow> (string \<Rightarrow> string) \<Rightarrow> string \<Rightarrow> string \<Rightarrow> string
      \<Rightarrow> (string \<times> web_response) list" where
  "setup_static_root_files read url_path url directory ui_base =
     map (\<lambda>file. (ui_base @ ''/'' @ file, text_response 200 (read (directory @ ''/'' @ file))))
         [''asset-manifest.json'', ''manifest.json'', ''favicon.png'']
     @ [(ui_base @ ''/paths.json'',
         json_response (JObj [(''api_path'', JStr (str_rstrip (api_path url_path url) ''/''))]) 200)]"

text \<open>
  \<^verbatim>\<open>frontend_404_middleware\<close>: a missing static file yields the index page; \<open>None\<close> is the
  exception \<^verbatim>\<open>HTTPNotFound\<close> of the handler.
\<close>

definition frontend_404_middleware ::
    "string \<Rightarrow> bool \<Rightarrow> (web_request \<Rightarrow> web_response option) \<Rightarrow> web_request \<Rightarrow> web_response option" where
  "frontend_404_middleware index_html is_static handler request =
     (if is_static then
        (case handler request of
           Some r \<Rightarrow> Some r
         | None \<Rightarrow> Some (text_response 200 index_html))
      else handler request)"

text \<open>
  The paths the server answers, by the place their handler comes from; the order is the
  order of registration.
\<close>

datatype ui_route = UiStatic string | UiFile string | UiIndex string | UiRedirect string

definition setup_management_ui :: "string \<Rightarrow> ui_route list" where
  "setup_management_ui ui_base_path =
     (let ui_base = (if ui_base_path = ''/'' then [] else ui_base_path) in
      [UiStatic (ui_base @ ''/static'')]
      @ map (\<lambda>f. UiFile (ui_base @ ''/'' @ f))
          [''asset-manifest.json'', ''manifest.json'', ''favicon.png'', ''paths.json'']
      @ [UiIndex (ui_base @ ''/''), UiRedirect ui_base])"

section \<open>Keys that do not shadow each other\<close>

text \<open>
  The contract a prefix-matching dispatcher needs from its keys: no path starts with the
  keys of two different owners. The dispatcher's lemmas are proved once from it.
\<close>

locale prefix_keys =
  fixes key :: "'a \<Rightarrow> string" and valid :: "'a \<Rightarrow> bool"
  assumes no_shadowing:
    "valid a \<Longrightarrow> valid b \<Longrightarrow> startswith p (key a) \<Longrightarrow> startswith p (key b) \<Longrightarrow> a = b"
begin

lemma key_inj: "valid a \<Longrightarrow> valid b \<Longrightarrow> key a = key b \<Longrightarrow> a = b"
  using no_shadowing [of a b "key a"] by (simp add: startswith_def)

lemma dispatch_hit:
  assumes "\<And>k. k \<in> fst ` set routes \<Longrightarrow> \<exists>b. valid b \<and> k = key b"
    and "valid a" and "startswith (req_path request) (key a)" and "map_of routes (key a) = Some app"
  shows "handle_routes h routes request
    = h app (request\<lparr>req_path := drop (length (key a) - 1) (req_path request)\<rparr>)"
  using assms
proof (induction routes)
  case (Cons r routes)
  obtain k v where r: "r = (k, v)" by (cases r)
  with Cons.prems(1) obtain b where b: "valid b" "k = key b" by auto
  show ?case
  proof (cases "startswith (req_path request) k")
    case True
    with b Cons.prems(2,3) no_shadowing have "a = b" by blast
    with True r b Cons.prems(4) show ?thesis by simp
  next
    case False
    with Cons.prems(3,4) r have "map_of routes (key a) = Some app"
      by (cases "key a = k") auto
    with False r Cons show ?thesis by simp
  qed
qed simp

lemma dispatch_miss:
  assumes "\<And>k. k \<in> fst ` set routes \<Longrightarrow> \<exists>b. valid b \<and> k = key b"
    and "valid a" and "startswith (req_path request) (key a)" and "map_of routes (key a) = None"
  shows "handle_routes h routes request = empty_response 404"
  using assms
proof (induction routes)
  case (Cons r routes)
  obtain k v where r: "r = (k, v)" by (cases r)
  with Cons.prems(1) obtain b where b: "valid b" "k = key b" by auto
  with Cons.prems(2,3) r Cons.prems(4) no_shadowing have "\<not> startswith (req_path request) k"
    by (metis fst_conv map_of_Cons_code(2) option.distinct(1) prod.sel(1))
  with r Cons show ?case by (auto split: if_splits)
qed simp

end

definition slash_free :: "string \<Rightarrow> bool" where
  "slash_free i \<longleftrightarrow> CHR ''/'' \<notin> set i"

lemma takeWhile_subpath:
  "slash_free i \<Longrightarrow> takeWhile (\<lambda>c. c \<noteq> CHR ''/'') (i @ ''/'' @ r) = i"
  by (induction i) (auto simp: slash_free_def)

interpretation sub: prefix_keys "subpath base" slash_free for base
proof
  fix a b p
  assume ab: "slash_free a" "slash_free b"
    and "startswith p (subpath base a)" "startswith p (subpath base b)"
  then obtain r s where "base @ a @ ''/'' @ r = base @ b @ ''/'' @ s"
    by (auto simp: startswith_iff subpath_def)
  then have "a @ ''/'' @ r = b @ ''/'' @ s" by simp
  with ab takeWhile_subpath show "a = b" by metis
qed

section \<open>The server's invariant\<close>

definition server_ok :: "server \<Rightarrow> bool" where
  "server_ok s \<longleftrightarrow> dict_ok (plugin_routes s) \<and> distinct (map snd (plugin_routes s))
     \<and> (\<forall>k app. (k, app) \<in> set (plugin_routes s) \<longrightarrow>
          app < length (webapps s) \<and> (\<exists>i. slash_free i \<and> k = subpath (plugin_base_path s) i))"

text \<open>What can happen to the server: instances ask for and give back their apps, and plugins
  change the apps they own.\<close>

inductive server_step :: "server \<Rightarrow> server \<Rightarrow> bool" where
  get: "slash_free i \<Longrightarrow> server_step s (snd (get_instance_subapp i s))"
| remove: "slash_free i \<Longrightarrow> server_step s (remove_instance_webapp i s)"
| change: "server_step s (s\<lparr>webapps := (webapps s)[a := app]\<rparr>)"

inductive server_reachable :: "string \<Rightarrow> string \<Rightarrow> server \<Rightarrow> bool" for base url where
  init: "server_reachable base url (server_init base url)"
| step: "server_reachable base url s \<Longrightarrow> server_step s t \<Longrightarrow> server_reachable base url t"

lemma get_instance_subapp_ok:
  assumes "server_ok s" and "slash_free i"
  shows "server_ok (snd (get_instance_subapp i s))"
proof (cases "map_of (plugin_routes s) (subpath (plugin_base_path s) i)")
  case None
  then have k: "subpath (plugin_base_path s) i \<notin> fst ` set (plugin_routes s)"
    by (simp add: map_of_eq_None_iff)
  have "length (webapps s) \<notin> snd ` set (plugin_routes s)"
    using assms(1) by (fastforce simp: server_ok_def)
  moreover have "dict_ok (dict_set (subpath (plugin_base_path s) i) (length (webapps s))
      (plugin_routes s))"
    using assms(1) by (auto simp: server_ok_def)
  ultimately show ?thesis
    using assms None by (auto simp: get_instance_subapp_def server_ok_def Let_def
        dict_set_fresh [OF k] less_SucI)
qed (use assms in \<open>simp add: get_instance_subapp_def Let_def\<close>)

lemma remove_instance_webapp_ok:
  assumes "server_ok s"
  shows "server_ok (remove_instance_webapp i s)"
proof -
  have "distinct (map snd (filter P (plugin_routes s)))" for P
    using assms by (simp add: server_ok_def distinct_map_filter)
  then show ?thesis using assms
    by (auto simp: remove_instance_webapp_def server_ok_def Let_def dict_del_def dict_ok_def
        distinct_map_filter split: option.splits)
qed

lemma server_step_base:
  "server_step s t \<Longrightarrow> plugin_base_path t = plugin_base_path s \<and> public_url t = public_url s"
  by (induction rule: server_step.induct)
    (auto simp: get_instance_subapp_def remove_instance_webapp_def Let_def split: option.splits)

lemma server_step_ok: "server_step s t \<Longrightarrow> server_ok s \<Longrightarrow> server_ok t"
proof (induction rule: server_step.induct)
  case (get i s)
  then show ?case by (blast intro: get_instance_subapp_ok)
next
  case (remove i s)
  then show ?case by (blast intro: remove_instance_webapp_ok)
qed (simp add: server_ok_def)

lemma reachable_server_ok:
  "server_reachable base url s \<Longrightarrow> server_ok s \<and> plugin_base_path s = base \<and> public_url s = url"
proof (induction rule: server_reachable.induct)
  case init
  show ?case by (simp add: server_ok_def server_init_def)
next
  case (step s t)
  then show ?case using server_step_ok server_step_base by metis
qed

lemma server_ok_keys:
  "server_ok s \<Longrightarrow> k \<in> fst ` set (plugin_routes s) \<Longrightarrow>
     \<exists>b. slash_free b \<and> k = subpath (plugin_base_path s) b"
  by (force simp: server_ok_def)

section \<open>Routing\<close>


text \<open>
  Asking for the app of an instance twice gives the same app; different instances never
  share one; and removing an instance's app clears it, leaves the routes of all other
  instances as they were and makes its own path answer 404.
\<close>

theorem webapp_lifecycle:
  assumes "server_reachable base url s" and "slash_free i" and "slash_free j" and "i \<noteq> j"
    and "get_instance_subapp i s = ((a, u), s1)" and "get_instance_subapp j s1 = ((b, v), s2)"
  shows "get_instance_subapp i s2 = ((a, u), s2) \<and> a \<noteq> b
    \<and> webapps (remove_instance_webapp i s2) ! a = webapp_clear (webapps s2 ! a)
    \<and> map_of (plugin_routes (remove_instance_webapp i s2)) (subpath base i) = None
    \<and> map_of (plugin_routes (remove_instance_webapp i s2)) (subpath base j) = Some b
    \<and> webapps (remove_instance_webapp i s2) ! b = webapps s2 ! b"
proof -
  have r1: "server_reachable base url s1"
    using server_reachable.step [OF assms(1) server_step.get [OF assms(2)]] assms(5) by simp
  have r2: "server_reachable base url s2"
    using server_reachable.step [OF r1 server_step.get [OF assms(3)]] assms(6) by simp
  have ok2: "server_ok s2" and base: "plugin_base_path s = base" "plugin_base_path s1 = base"
      "plugin_base_path s2 = base" "public_url s2 = url" "public_url s = url"
    using reachable_server_ok r2 r1 assms(1) by auto
  have neq: "subpath base i \<noteq> subpath base j" using sub.key_inj assms(2,3,4) by blast
  have i1: "map_of (plugin_routes s1) (subpath base i) = Some a" and u: "u = url @ subpath base i"
    using assms(5) base by (auto simp: get_instance_subapp_def Let_def split: option.splits)
  have i2: "map_of (plugin_routes s2) (subpath base i) = Some a"
    and j2: "map_of (plugin_routes s2) (subpath base j) = Some b"
    using assms(6) i1 neq base
    by (auto simp: get_instance_subapp_def Let_def split: option.splits)
  have len: "a < length (webapps s2)" using ok2 map_of_SomeD [OF i2] by (auto simp: server_ok_def)
  have ab: "a \<noteq> b"
    using ok2 map_of_SomeD [OF i2] map_of_SomeD [OF j2] neq
    by (metis distinct_map inj_onD prod.inject server_ok_def snd_conv)
  show ?thesis
    using i2 j2 neq ab len base u
    by (simp add: get_instance_subapp_def remove_instance_webapp_def Let_def)
qed

text \<open>
  Middlewares nest in the order they were added: the one added last sees the request
  first. A cleared app runs no middleware at all.
\<close>

theorem middleware_nesting:
  "wrap_middlewares h (wa_middleware (add_middleware m app)) request
     = m request (wrap_middlewares h (wa_middleware app))
   \<and> wrap_middlewares h (wa_middleware (webapp_clear app)) = h"
proof -
  have "wrap_middlewares h (ms @ [m]) = (\<lambda>r. m r (wrap_middlewares h ms))" for ms
    by (induction ms arbitrary: h) simp_all
  then show ?thesis by (simp add: add_middleware_def webapp_clear_def)
qed

section \<open>Witnesses\<close>

lemma example_reachable:
  "server_reachable ''/p/'' ''http://x'' (snd (get_instance_subapp ''a'' (server_init ''/p/'' ''http://x'')))"
  by (rule server_reachable.step [OF server_reachable.init server_step.get]) (simp add: slash_free_def)


theorem webapp_lifecycle_witness:
  "map_of (plugin_routes (remove_instance_webapp ''a''
     (snd (get_instance_subapp ''b'' (snd (get_instance_subapp ''a'' (server_init ''/p/'' [])))))))
     ''/p/a/'' = None"
proof -
  let ?s = "server_init ''/p/'' []"
  have "get_instance_subapp ''a'' ?s = ((0, ''/p/a/''), snd (get_instance_subapp ''a'' ?s))"
    and "get_instance_subapp ''b'' (snd (get_instance_subapp ''a'' ?s))
      = ((1, ''/p/b/''), snd (get_instance_subapp ''b'' (snd (get_instance_subapp ''a'' ?s))))"
    by (simp_all add: get_instance_subapp_def server_init_def subpath_def Let_def)
  from webapp_lifecycle [OF server_reachable.init _ _ _ this] show ?thesis
    by (simp add: slash_free_def subpath_def)
qed

end
