(* ===== verification/MB_Auth.thy ===== *)
theory MB_Auth
  imports MB_Server
begin

text \<open>
  Who may use the management API: \<^verbatim>\<open>is_admin\<close> and \<^verbatim>\<open>check_password\<close> of
  \<^verbatim>\<open>maubot/config.py\<close>, the token functions of \<^verbatim>\<open>management/api/auth.py\<close>, the login
  endpoint, the two middlewares of \<^verbatim>\<open>management/api/middleware.py\<close> as
  \<^verbatim>\<open>management/api/__init__.py\<close> stacks them, and the feature list.

  The library functions they rest on are arguments: \<open>verify\<close> and \<open>sign\<close> (mautrix's
  \<^verbatim>\<open>verify_token\<close> and \<^verbatim>\<open>sign_token\<close>), \<open>checkpw\<close> (bcrypt) and \<open>now\<close> (the clock).
  Request handlers return \<open>exn + web_response\<close>.
\<close>

section \<open>The configuration\<close>

record mconfig =
  unshared_secret :: string
  admins :: "(string, string option) dict"
  api_features :: "(string, bool) dict"

text \<open>\<open>user in self["admins"]\<close> raises for values that Python cannot hash.\<close>

fun is_admin :: "mconfig \<Rightarrow> json \<Rightarrow> exn + bool" where
  "is_admin cfg (JStr user) = Inr (user = ''root'' \<or> in_dict user (admins cfg))"
| "is_admin cfg (JArr _) = Inl TypeError"
| "is_admin cfg (JObj _) = Inl TypeError"
| "is_admin cfg _ = Inr False"

fun check_password :: "(string \<Rightarrow> string \<Rightarrow> bool) \<Rightarrow> mconfig \<Rightarrow> json \<Rightarrow> json \<Rightarrow> exn + bool" where
  "check_password checkpw cfg (JStr user) passwd =
     (if user = ''root'' then Inr False
      else let passwd_hash = dict_get (admins cfg) user None in
        if \<not> opt_truthy passwd_hash then Inr False
        else case passwd of
          JStr p \<Rightarrow> Inr (checkpw p (the passwd_hash))
        | _ \<Rightarrow> Inl AttributeError)"
| "check_password checkpw cfg (JArr _) passwd = Inl TypeError"
| "check_password checkpw cfg (JObj _) passwd = Inl TypeError"
| "check_password checkpw cfg _ passwd = Inr False"

section \<open>Tokens\<close>

type_synonym payload = "(string \<times> json) list"

definition is_valid_token ::
    "(string \<Rightarrow> string \<Rightarrow> payload option) \<Rightarrow> mconfig \<Rightarrow> string \<Rightarrow> exn + bool" where
  "is_valid_token verify cfg token =
     (case verify (unshared_secret cfg) token of
        None \<Rightarrow> Inr False
      | Some data \<Rightarrow> if data = [] then Inr False else is_admin cfg (obj_get data ''user_id''))"

definition create_token :: "(string \<Rightarrow> payload \<Rightarrow> string) \<Rightarrow> int \<Rightarrow> mconfig \<Rightarrow> json \<Rightarrow> string" where
  "create_token sign now cfg user =
     sign (unshared_secret cfg) [(''user_id'', user), (''created_at'', JInt now)]"

definition get_token :: "web_request \<Rightarrow> string" where
  "get_token request =
     (let token = dict_get (req_headers request) ''Authorization'' [] in
      if token = [] \<or> \<not> startswith token ''Bearer '' then dict_get (req_query request) ''access_token'' []
      else drop (length ''Bearer '') token)"

definition check_token ::
    "(string \<Rightarrow> string \<Rightarrow> payload option) \<Rightarrow> mconfig \<Rightarrow> web_request \<Rightarrow> exn + web_response option" where
  "check_token verify cfg request =
     (let token = get_token request in
      if token = [] then Inr (Some resp_no_token)
      else case is_valid_token verify cfg token of
        Inl e \<Rightarrow> Inl e
      | Inr False \<Rightarrow> Inr (Some resp_invalid_token)
      | Inr True \<Rightarrow> Inr None)"

text \<open>\<^verbatim>\<open>POST /auth/ping\<close>.\<close>

definition ping ::
    "(string \<Rightarrow> string \<Rightarrow> payload option) \<Rightarrow> mconfig \<Rightarrow> web_request \<Rightarrow> exn + web_response" where
  "ping verify cfg request =
     (let token = get_token request in
      if token = [] then Inr resp_no_token
      else case verify (unshared_secret cfg) token of
        None \<Rightarrow> Inr resp_invalid_token
      | Some data \<Rightarrow>
          if data = [] then Inr resp_invalid_token
          else let user = obj_get data ''user_id'' in
            (case is_admin cfg user of
               Inl e \<Rightarrow> Inl e
             | Inr False \<Rightarrow> Inr resp_invalid_token
             | Inr True \<Rightarrow> Inr (resp_pong user
                 (JObj (map (\<lambda>(k, b). (k, JBool b)) (api_features cfg))))))"

section \<open>Logging in\<close>

text \<open>\<^verbatim>\<open>POST /auth/login\<close>; \<open>None\<close> is a body that is not JSON.\<close>

definition login ::
    "(string \<Rightarrow> payload \<Rightarrow> string) \<Rightarrow> (string \<Rightarrow> string \<Rightarrow> bool) \<Rightarrow> int \<Rightarrow> mconfig \<Rightarrow> json option
      \<Rightarrow> exn + web_response" where
  "login sign checkpw now cfg req_body =
     (case req_body of
        None \<Rightarrow> Inr resp_body_not_json
      | Some (JObj data) \<Rightarrow>
          let secret = obj_get data ''secret'' in
          if truthy secret \<and> secret = JStr (unshared_secret cfg) then
            (let user = (if truthy (obj_get data ''user'') then obj_get data ''user'' else JStr ''root'')
             in Inr (resp_logged_in (create_token sign now cfg user)))
          else
            (let username = obj_get data ''username'' in
             case check_password checkpw cfg username (obj_get data ''password'') of
               Inl e \<Rightarrow> Inl e
             | Inr True \<Rightarrow> Inr (resp_logged_in (create_token sign now cfg username))
             | Inr False \<Rightarrow> Inr resp_bad_auth)
      | Some _ \<Rightarrow> Inl AttributeError)"

section \<open>Middlewares\<close>

definition api_prefix :: string where
  "api_prefix = ''/_matrix/maubot/v1''"

definition auth_exempt :: "string \<Rightarrow> bool" where
  "auth_exempt sub \<longleftrightarrow> startswith sub ''/auth/''
     \<or> startswith sub ''/client/auth_external_sso/complete/''
     \<or> sub = ''/features'' \<or> sub = ''/logs''"

type_synonym api_handler = "web_request \<Rightarrow> exn + web_response"

definition auth ::
    "(string \<Rightarrow> string \<Rightarrow> payload option) \<Rightarrow> mconfig \<Rightarrow> web_request \<Rightarrow> api_handler
      \<Rightarrow> exn + web_response" where
  "auth verify cfg request handler =
     (if auth_exempt (drop (length api_prefix) (req_path request)) then handler request
      else case check_token verify cfg request of
        Inl e \<Rightarrow> Inl e
      | Inr (Some err) \<Rightarrow> Inr err
      | Inr None \<Rightarrow> handler request)"

text \<open>
  The fallback for exceptions without a text does not work: \<^verbatim>\<open>ex.text[:128]\<close> raises for
  \<^verbatim>\<open>None\<close>, and the bytes that \<^verbatim>\<open>b64encode\<close> returns are not JSON serializable.
  \<open>nat_str\<close> stands for \<^verbatim>\<open>str\<close> of the status.
\<close>

definition http_exception_body ::
    "(nat \<Rightarrow> string) \<Rightarrow> nat \<Rightarrow> string \<Rightarrow> string \<Rightarrow> (string \<times> string) list \<Rightarrow> json" where
  "http_exception_body nat_str st txt cls headers = JObj
     [(''httpexception'', JObj
        [(''headers'', JObj (map (\<lambda>(k, v). (k, JStr v)) headers)),
         (''class'', JStr cls),
         (''body'', JStr txt)]),
      (''error'', JStr (''Unhandled HTTP '' @ nat_str st @ '': '' @ take 128 txt)),
      (''errcode'', JStr (''unhandled_http_'' @ nat_str st))]"

definition error_mw :: "(nat \<Rightarrow> string) \<Rightarrow> web_request \<Rightarrow> api_handler \<Rightarrow> exn + web_response" where
  "error_mw nat_str request handler =
     (case handler request of
        Inr r \<Rightarrow> Inr r
      | Inl (HTTPException st txt cls headers) \<Rightarrow>
          if st = 404 then Inr resp_path_not_found
          else if st = 405 then Inr resp_method_not_allowed
          else if opt_truthy txt
            then Inr (json_response (http_exception_body nat_str st (the txt) cls headers) st)
            else Inl TypeError
      | Inl e \<Rightarrow> Inr resp_internal_server_error)"

text \<open>The application \<^verbatim>\<open>init\<close> builds: \<^verbatim>\<open>middlewares=[auth, error]\<close>, the first one outermost.\<close>

definition api_handle ::
    "(string \<Rightarrow> string \<Rightarrow> payload option) \<Rightarrow> (nat \<Rightarrow> string) \<Rightarrow> mconfig \<Rightarrow> api_handler
      \<Rightarrow> web_request \<Rightarrow> exn + web_response" where
  "api_handle verify nat_str cfg handler request =
     auth verify cfg request (\<lambda>r. error_mw nat_str r handler)"

text \<open>\<^verbatim>\<open>GET /features\<close> and the modules that \<^verbatim>\<open>init\<close> imports.\<close>

definition features ::
    "(string \<Rightarrow> string \<Rightarrow> payload option) \<Rightarrow> mconfig \<Rightarrow> web_request \<Rightarrow> exn + web_response" where
  "features verify cfg request =
     (case check_token verify cfg request of
        Inl e \<Rightarrow> Inl e
      | Inr None \<Rightarrow> Inr (json_response (JObj (map (\<lambda>(k, b). (k, JBool b)) (api_features cfg))) 200)
      | Inr (Some _) \<Rightarrow>
          (case map_of (api_features cfg) ''login'' of
             None \<Rightarrow> Inl KeyError
           | Some b \<Rightarrow> Inr (json_response (JObj [(''login'', JBool b)]) 200)))"

definition init_modules :: "mconfig \<Rightarrow> string list" where
  "init_modules cfg = map (\<lambda>p. ''maubot.management.api.'' @ fst p)
     (filter snd (api_features cfg))"

section \<open>Authorization\<close>

text \<open>Specification: the request carries a token that the server signed for an administrator.\<close>

definition admin_request ::
    "(string \<Rightarrow> string \<Rightarrow> payload option) \<Rightarrow> mconfig \<Rightarrow> web_request \<Rightarrow> bool" where
  "admin_request verify cfg request \<longleftrightarrow> get_token request \<noteq> [] \<and>
     (\<exists>data u. verify (unshared_secret cfg) (get_token request) = Some data
        \<and> map_of data ''user_id'' = Some (JStr u) \<and> (u = ''root'' \<or> in_dict u (admins cfg)))"

lemma is_admin_True: "is_admin cfg v = Inr True \<longleftrightarrow> (\<exists>u. v = JStr u \<and> (u = ''root'' \<or> in_dict u (admins cfg)))"
  by (cases v) auto

lemma obj_get_JStr: "obj_get d k = JStr s \<longleftrightarrow> map_of d k = Some (JStr s)"
  by (auto simp: obj_get_def dict_get_def split: option.splits)

lemma valid_token_iff:
  "is_valid_token verify cfg token = Inr True \<longleftrightarrow>
     (\<exists>data u. verify (unshared_secret cfg) token = Some data
        \<and> map_of data ''user_id'' = Some (JStr u) \<and> (u = ''root'' \<or> in_dict u (admins cfg)))"
  by (auto simp: is_valid_token_def is_admin_True obj_get_JStr split: option.splits if_splits)

lemma check_token_None:
  "check_token verify cfg request = Inr None \<longleftrightarrow> admin_request verify cfg request"
proof -
  have "check_token verify cfg request = Inr None \<longleftrightarrow>
      get_token request \<noteq> [] \<and> is_valid_token verify cfg (get_token request) = Inr True"
    by (simp add: check_token_def Let_def split: sum.splits bool.splits)
  then show ?thesis by (simp only: admin_request_def valid_token_iff)
qed

lemma valid_token_cases:
  "is_valid_token verify cfg t \<in> {Inr True, Inr False, Inl TypeError}"
proof -
  have "is_admin cfg v \<in> {Inr True, Inr False, Inl TypeError}" for v by (cases v) auto
  then show ?thesis by (auto simp: is_valid_token_def split: option.splits)
qed

lemma check_token_cases:
  "check_token verify cfg request
     \<in> {Inr None, Inr (Some resp_no_token), Inr (Some resp_invalid_token), Inl TypeError}"
  using valid_token_cases [of verify cfg "get_token request"]
  by (auto simp: check_token_def Let_def split: sum.splits bool.splits)

text \<open>
  C7. Outside the exempted paths, a request reaches the API's handlers exactly when it
  carries a token signed with the server's secret for an administrator; otherwise the
  answer is one of the two authentication errors (or a failure for a malformed user id)
  and does not depend on the handler at all.
\<close>

theorem api_authorization:
  assumes "\<not> auth_exempt (drop (length api_prefix) (req_path request))"
  shows "if admin_request verify cfg request
    then \<forall>handler. api_handle verify nat_str cfg handler request = error_mw nat_str request handler
    else \<exists>r \<in> {Inr resp_no_token, Inr resp_invalid_token, Inl TypeError}.
           \<forall>handler. api_handle verify nat_str cfg handler request = r"
proof (cases "admin_request verify cfg request")
  case True
  with assms show ?thesis
    by (simp add: api_handle_def auth_def check_token_None [THEN iffD2])
next
  case False
  then have "check_token verify cfg request \<noteq> Inr None" by (simp add: check_token_None)
  with check_token_cases [of verify cfg request] assms False show ?thesis
    by (auto simp: api_handle_def auth_def)
qed

text \<open>
  Logging in grants a token exactly in two cases: the request contains the (non-empty)
  server secret, or it names an administrator other than \<^verbatim>\<open>root\<close> with a password that
  matches the stored hash.
\<close>

theorem login_grants_iff:
  "(\<exists>t. login sign checkpw now cfg (Some (JObj data)) = Inr (resp_logged_in t)) \<longleftrightarrow>
     unshared_secret cfg \<noteq> [] \<and> map_of data ''secret'' = Some (JStr (unshared_secret cfg))
   \<or> (\<exists>u p h. map_of data ''username'' = Some (JStr u) \<and> map_of data ''password'' = Some (JStr p)
        \<and> u \<noteq> ''root'' \<and> map_of (admins cfg) u = Some (Some h) \<and> h \<noteq> [] \<and> checkpw p h)"
proof -
  have bad: "resp_logged_in t \<noteq> resp_bad_auth" "resp_bad_auth \<noteq> resp_logged_in t" for t
    by (simp_all add: resp_logged_in_def resp_found_def resp_bad_auth_def json_response_def)
  have cp: "check_password checkpw cfg v w = Inr True \<longleftrightarrow>
      (\<exists>u p h. v = JStr u \<and> w = JStr p \<and> u \<noteq> ''root'' \<and> map_of (admins cfg) u = Some (Some h)
         \<and> h \<noteq> [] \<and> checkpw p h)" for v w
    by (cases v) (auto simp: dict_get_def opt_truthy_def Let_def split: option.splits json.splits)
  have "(\<exists>t. login sign checkpw now cfg (Some (JObj data)) = Inr (resp_logged_in t)) \<longleftrightarrow>
      truthy (obj_get data ''secret'') \<and> obj_get data ''secret'' = JStr (unshared_secret cfg)
      \<or> check_password checkpw cfg (obj_get data ''username'') (obj_get data ''password'') = Inr True"
    by (auto simp: login_def Let_def bad split: sum.splits bool.splits)
  moreover have "truthy (obj_get data ''secret'') \<and> obj_get data ''secret'' = JStr (unshared_secret cfg)
      \<longleftrightarrow> unshared_secret cfg \<noteq> [] \<and> map_of data ''secret'' = Some (JStr (unshared_secret cfg))"
    by (auto simp: obj_get_def dict_get_def split: option.splits)
  ultimately show ?thesis by (simp only: cp obj_get_JStr)
qed

text \<open>
  A password login produces a usable token: provided that verifying a token signed with
  the server's secret returns what was signed, every request that carries the token in its
  \<^verbatim>\<open>Authorization\<close> header is let through to the handlers.
\<close>

theorem login_token_roundtrip:
  assumes "verify (unshared_secret cfg) (create_token sign now cfg (JStr u))
      = Some [(''user_id'', JStr u), (''created_at'', JInt now)]"
    and "create_token sign now cfg (JStr u) \<noteq> []"
    and "check_password checkpw cfg (JStr u) pw = Inr True"
    and "map_of data ''username'' = Some (JStr u)" and "obj_get data ''password'' = pw"
    and "map_of data ''secret'' = None"
    and "map_of (req_headers request) ''Authorization''
      = Some (''Bearer '' @ create_token sign now cfg (JStr u))"
  shows "login sign checkpw now cfg (Some (JObj data))
      = Inr (resp_logged_in (create_token sign now cfg (JStr u)))
    \<and> api_handle verify nat_str cfg handler request = error_mw nat_str request handler"
proof
  show "login sign checkpw now cfg (Some (JObj data))
      = Inr (resp_logged_in (create_token sign now cfg (JStr u)))"
    using assms(3-6) by (simp add: login_def Let_def obj_get_def dict_get_def)
  have "get_token request = create_token sign now cfg (JStr u)"
    using assms(7) by (simp add: get_token_def dict_get_def startswith_def)
  moreover have "in_dict u (admins cfg)"
    using assms(3) by (auto simp: in_dict_def dict_get_def opt_truthy_def Let_def
        split: if_splits option.splits)
  ultimately have "admin_request verify cfg request"
    using assms(1,2) by (auto simp: admin_request_def)
  then show "api_handle verify nat_str cfg handler request = error_mw nat_str request handler"
    by (simp add: api_handle_def auth_def check_token_None [THEN iffD2])
qed

text \<open>
  The error middleware turns every exception of a handler into a response, except an
  HTTP exception other than 404 and 405 without a text, for which it raises itself.
\<close>

theorem error_middleware_catches:
  "error_mw nat_str request handler = Inl e \<longleftrightarrow>
     e = TypeError \<and> (\<exists>st txt cls hd. handler request = Inl (HTTPException st txt cls hd)
       \<and> st \<noteq> 404 \<and> st \<noteq> 405 \<and> \<not> opt_truthy txt)"
  by (auto simp: error_mw_def split: sum.splits exn.splits)

section \<open>Witnesses\<close>

definition ex_cfg :: mconfig where
  "ex_cfg = \<lparr>unshared_secret = ''s3cret'', admins = [(''alice'', Some ''hash'')],
     api_features = [(''login'', True)]\<rparr>"

definition ex_request :: "string \<Rightarrow> web_request" where
  "ex_request token = \<lparr>req_path = ''/_matrix/maubot/v1/clients'', req_query = [],
     req_headers = [(''Authorization'', ''Bearer '' @ token)]\<rparr>"

theorem api_authorization_witness:
  "\<exists>r \<in> {Inr resp_no_token, Inr resp_invalid_token, Inl TypeError}.
     \<forall>handler. api_handle (\<lambda>_ _. None) (\<lambda>_. []) ex_cfg handler (ex_request ''forged'') = r"
proof -
  have p: "\<not> auth_exempt (drop (length api_prefix) (req_path (ex_request ''forged'')))"
    by (simp add: auth_exempt_def api_prefix_def ex_request_def startswith_def)
  show ?thesis using api_authorization [OF p, of "\<lambda>_ _. None" ex_cfg "\<lambda>_. []"]
    by (simp add: admin_request_def)
qed

theorem login_token_roundtrip_witness:
  "api_handle (\<lambda>_ _. Some [(''user_id'', JStr ''alice''), (''created_at'', JInt 5)]) (\<lambda>_. [])
     ex_cfg (\<lambda>_. Inr resp_ok) (ex_request ''tok'') = Inr resp_ok"
proof -
  have "create_token (\<lambda>_ _. ''tok'') 5 ex_cfg (JStr ''alice'') = ''tok''"
    by (simp add: create_token_def)
  then show ?thesis
    using login_token_roundtrip [of "\<lambda>_ _. Some [(''user_id'', JStr ''alice''), (''created_at'', JInt 5)]"
        ex_cfg "\<lambda>_ _. ''tok''" 5 "''alice''" "\<lambda>p h. p = ''pw'' \<and> h = ''hash''" "JStr ''pw''"
        "[(''username'', JStr ''alice''), (''password'', JStr ''pw'')]" "ex_request ''tok''"
        "\<lambda>_. []" "\<lambda>_. Inr resp_ok"]
    by (simp add: ex_cfg_def ex_request_def dict_get_def opt_truthy_def obj_get_def error_mw_def)
qed

end
