(* ===== verification/MB_Zipformat.thy ===== *)
theory MB_Zipformat
  imports MB_Prelude "HOL-Library.Word"
begin

text \<open>
  The zip archive reader of \<^verbatim>\<open>maubot/lib/zipimport.py\<close>, at the level of bytes: the little-endian
  fields, the search for the end-of-central-directory record, the loop over the central
  directory, the decoding of file names, the extraction of a member, the checks on compiled
  modules and the conversion of DOS time stamps.

  Bytes are 8-bit words; text is a list of Unicode code points (\<open>ustring\<close>), because file
  names in an archive range over all of Unicode. Numbers read from an archive are
  unsigned, so they are natural numbers. Error messages are cut before the quoted path.
  The platform is POSIX: \<^verbatim>\<open>path_sep\<close> is \<^verbatim>\<open>/\<close> and there is no alternative separator.
\<close>

type_synonym byte = "8 word"
type_synonym bytes = "byte list"
type_synonym ustring = "nat list"

text \<open>A literal as code points, and as bytes.\<close>

definition ustr :: "string \<Rightarrow> ustring" where
  "ustr s = map of_char s"

definition ascii_bytes :: "string \<Rightarrow> bytes" where
  "ascii_bytes s = map of_char s"

section \<open>Fields\<close>

text \<open>\<^verbatim>\<open>int.from_bytes(data, "little")\<close>.\<close>

fun from_bytes_le :: "bytes \<Rightarrow> nat" where
  "from_bytes_le [] = 0"
| "from_bytes_le (b # bs) = unat b + 256 * from_bytes_le bs"

definition unpack_uint32 :: "bytes \<Rightarrow> exn + nat" where
  "unpack_uint32 data = (if length data = 4 then Inr (from_bytes_le data) else Inl AssertionError)"

definition unpack_uint16 :: "bytes \<Rightarrow> exn + nat" where
  "unpack_uint16 data = (if length data = 2 then Inr (from_bytes_le data) else Inl AssertionError)"

text \<open>
  The fields of a buffer whose length has been checked: \<^verbatim>\<open>_unpack_uint32(buffer[i:i+4])\<close> and
  \<^verbatim>\<open>_unpack_uint16(buffer[i:i+2])\<close>. The lemmas \<open>u32_unpack\<close> and \<open>u16_unpack\<close> below show that
  the assertions of the two functions cannot fail there.
\<close>

definition u32 :: "bytes \<Rightarrow> nat \<Rightarrow> nat" where
  "u32 buffer i = from_bytes_le (take 4 (drop i buffer))"

definition u16 :: "bytes \<Rightarrow> nat \<Rightarrow> nat" where
  "u16 buffer i = from_bytes_le (take 2 (drop i buffer))"

definition END_CENTRAL_DIR_SIZE :: nat where
  "END_CENTRAL_DIR_SIZE = 22"

definition STRING_END_ARCHIVE :: bytes where
  "STRING_END_ARCHIVE = [0x50, 0x4B, 5, 6]"

definition MAX_COMMENT_LEN :: nat where
  "MAX_COMMENT_LEN = 65535"

text \<open>\<^verbatim>\<open>data.rfind(sub)\<close> for a pattern of four bytes.\<close>

definition rfind :: "bytes \<Rightarrow> bytes \<Rightarrow> nat option" where
  "rfind data pat = List.find (\<lambda>i. take (length pat) (drop i data) = pat) (rev [0..<length data + 1])"

section \<open>File names\<close>

definition cp437_table :: "nat list" where
  "cp437_table =
     [0..<128] @
     [199, 252, 233, 226, 228, 224, 229, 231, 234, 235, 232, 239, 238, 236, 196, 197,
      201, 230, 198, 244, 246, 242, 251, 249, 255, 214, 220, 162, 163, 165, 8359, 402,
      225, 237, 243, 250, 241, 209, 170, 186, 191, 8976, 172, 189, 188, 161, 171, 187,
      9617, 9618, 9619, 9474, 9508, 9569, 9570, 9558, 9557, 9571, 9553, 9559, 9565, 9564, 9563, 9488,
      9492, 9524, 9516, 9500, 9472, 9532, 9566, 9567, 9562, 9556, 9577, 9574, 9568, 9552, 9580, 9575,
      9576, 9572, 9573, 9561, 9560, 9554, 9555, 9579, 9578, 9496, 9484, 9608, 9604, 9612, 9616, 9600,
      945, 223, 915, 960, 931, 963, 181, 964, 934, 920, 937, 948, 8734, 966, 949, 8745,
      8801, 177, 8805, 8804, 8992, 8993, 247, 8776, 176, 8729, 183, 8730, 8319, 178, 9632, 160]"

definition is_cont :: "nat \<Rightarrow> bool" where
  "is_cont b \<longleftrightarrow> 128 \<le> b \<and> b < 192"

text \<open>\<^verbatim>\<open>bytes.decode()\<close>: strict UTF-8, without overlong forms and surrogates.\<close>

fun utf8_decode :: "nat list \<Rightarrow> nat list option" where
  "utf8_decode [] = Some []"
| "utf8_decode (b # bs) =
     (if b < 128 then map_option ((#) b) (utf8_decode bs)
      else if 194 \<le> b \<and> b < 224 then
        (case bs of
           c # r \<Rightarrow> if is_cont c
                     then map_option ((#) ((b - 192) * 64 + (c - 128))) (utf8_decode r) else None
         | _ \<Rightarrow> None)
      else if 224 \<le> b \<and> b < 240 then
        (case bs of
           c # d # r \<Rightarrow>
             let n = (b - 224) * 4096 + (c - 128) * 64 + (d - 128) in
             if is_cont c \<and> is_cont d \<and> 0x800 \<le> n \<and> \<not> (0xD800 \<le> n \<and> n < 0xE000)
             then map_option ((#) n) (utf8_decode r) else None
         | _ \<Rightarrow> None)
      else if 240 \<le> b \<and> b < 245 then
        (case bs of
           c # d # e # r \<Rightarrow>
             let n = (b - 240) * 262144 + (c - 128) * 4096 + (d - 128) * 64 + (e - 128) in
             if is_cont c \<and> is_cont d \<and> is_cont e \<and> 0x10000 \<le> n \<and> n < 0x110000
             then map_option ((#) n) (utf8_decode r) else None
         | _ \<Rightarrow> None)
      else None)"

definition decode_name :: "nat \<Rightarrow> bytes \<Rightarrow> exn + ustring" where
  "decode_name flags name =
     (let bs = map unat name in
      if bit flags 11 then
        (case utf8_decode bs of None \<Rightarrow> Inl UnicodeDecodeError | Some s \<Rightarrow> Inr s)
      else if list_all (\<lambda>b. b < 128) bs then Inr bs
      else Inr (map (\<lambda>b. cp437_table ! b) bs))"

text \<open>
  \<^verbatim>\<open>_bootstrap_external._path_join\<close>: the non-empty parts, without trailing separators, joined
  by the separator.
\<close>

definition path_sep :: nat where
  "path_sep = 47"

definition rstrip_sep :: "ustring \<Rightarrow> ustring" where
  "rstrip_sep s = rev (dropWhile (\<lambda>c. c = path_sep) (rev s))"

fun ujoin :: "ustring list \<Rightarrow> ustring" where
  "ujoin [] = []"
| "ujoin [x] = x"
| "ujoin (x # y # xs) = x @ path_sep # ujoin (y # xs)"

definition path_join :: "ustring list \<Rightarrow> ustring" where
  "path_join parts = ujoin (map rstrip_sep (filter (\<lambda>p. p \<noteq> []) parts))"

section \<open>Reading the directory\<close>

record toc_entry =
  toc_path :: ustring
  toc_compress :: nat
  toc_data_size :: nat
  toc_file_size :: nat
  toc_file_offset :: nat
  toc_time :: nat
  toc_date :: nat
  toc_crc :: nat

type_synonym zip_files = "(ustring, toc_entry) dict"

text \<open>One central directory entry of which 46 bytes are in \<open>buffer\<close>.\<close>

definition read_entry ::
    "ustring \<Rightarrow> nat \<Rightarrow> nat \<Rightarrow> bytes \<Rightarrow> bytes \<Rightarrow> exn + ((ustring \<times> toc_entry) \<times> bytes)" where
  "read_entry archive header_offset arc_offset buffer rest =
     (let flags = u16 buffer 8; name_size = u16 buffer 28; extra_size = u16 buffer 30;
          comment_size = u16 buffer 32; file_offset = u32 buffer 42;
          header_size = name_size + extra_size + comment_size;
          name = take name_size rest; skipped = take (header_size - name_size) (drop name_size rest) in
      if file_offset > header_offset then Inl (ZipImportError ''bad local header offset'')
      else if length name \<noteq> name_size then Inl (ZipImportError (''can'' @ [CHR 0x27] @ ''t read Zip file''))
      else if length skipped \<noteq> header_size - name_size
        then Inl (ZipImportError (''can'' @ [CHR 0x27] @ ''t read Zip file''))
      else case decode_name flags name of
        Inl e \<Rightarrow> Inl e
      | Inr n \<Rightarrow> Inr ((n,
          \<lparr>toc_path = path_join [archive, n], toc_compress = u16 buffer 10,
           toc_data_size = u32 buffer 20, toc_file_size = u32 buffer 24,
           toc_file_offset = file_offset + arc_offset,
           toc_time = u16 buffer 12, toc_date = u16 buffer 14, toc_crc = u32 buffer 16\<rparr>),
          drop header_size rest))"

text \<open>The loop over the central directory; every round uses up at least 46 bytes.\<close>

function read_entries ::
    "ustring \<Rightarrow> nat \<Rightarrow> nat \<Rightarrow> bytes \<Rightarrow> zip_files \<Rightarrow> exn + zip_files" where
  "read_entries archive header_offset arc_offset rest files =
     (let buffer = take 46 rest in
      if length buffer < 4 then Inl EOFError
      else if take 4 buffer \<noteq> [0x50, 0x4B, 1, 2] then Inr files
      else if length buffer \<noteq> 46 then Inl EOFError
      else case read_entry archive header_offset arc_offset buffer (drop 46 rest) of
        Inl e \<Rightarrow> Inl e
      | Inr ((name, t), rest') \<Rightarrow>
          read_entries archive header_offset arc_offset rest' (dict_set name t files))"
  by pat_completeness auto
termination
  by (relation "measure (\<lambda>(a, h, d, rest, f). length rest)")
    (auto simp: read_entry_def Let_def split: if_splits sum.splits)

declare read_entries.simps [simp del]

text \<open>Where the end-of-central-directory record is: its 22 bytes and its position.\<close>

definition find_end_record :: "bytes \<Rightarrow> exn + (bytes \<times> nat)" where
  "find_end_record content =
     (let n = length content in
      if n < END_CENTRAL_DIR_SIZE then Inl (ZipImportError (''can'' @ [CHR 0x27] @ ''t read Zip file''))
      else let buffer = drop (n - END_CENTRAL_DIR_SIZE) content in
        if take 4 buffer = STRING_END_ARCHIVE then Inr (buffer, n - END_CENTRAL_DIR_SIZE)
        else let data = drop (n - MAX_COMMENT_LEN - END_CENTRAL_DIR_SIZE) content in
          case rfind data STRING_END_ARCHIVE of
            None \<Rightarrow> Inl (ZipImportError ''not a Zip file'')
          | Some pos \<Rightarrow>
              let buffer = take END_CENTRAL_DIR_SIZE (drop pos data) in
              if length buffer \<noteq> END_CENTRAL_DIR_SIZE
              then Inl (ZipImportError ''corrupt Zip file'')
              else Inr (buffer, n - length data + pos))"

text \<open>\<^verbatim>\<open>_read_directory\<close>; \<open>None\<close> is a file that cannot be opened.\<close>

definition read_directory :: "ustring \<Rightarrow> bytes option \<Rightarrow> exn + zip_files" where
  "read_directory archive file =
     (case file of
        None \<Rightarrow> Inl (ZipImportError (''can'' @ [CHR 0x27] @ ''t open Zip file''))
      | Some content \<Rightarrow>
          (case find_end_record content of
             Inl e \<Rightarrow> Inl e
           | Inr (buffer, header_position) \<Rightarrow>
               let header_size = u32 buffer 12; header_offset = u32 buffer 16 in
               if header_position < header_size
               then Inl (ZipImportError ''bad central directory size'')
               else if header_position < header_offset
               then Inl (ZipImportError ''bad central directory offset'')
               else let start = header_position - header_size in
                 if start < header_offset
                 then Inl (ZipImportError ''bad central directory size or offset'')
                 else read_entries archive header_offset (start - header_offset)
                        (drop start content) []))"

section \<open>Extracting a member\<close>

text \<open>
  \<^verbatim>\<open>_get_decompress_func\<close>: \<open>importing\<close> is the module flag \<^verbatim>\<open>_importing_zlib\<close>; it is set
  again to false however the import ends.
\<close>

definition get_decompress_func ::
    "(bytes \<Rightarrow> exn + bytes) option \<Rightarrow> bool \<Rightarrow> (exn + (bytes \<Rightarrow> exn + bytes)) \<times> bool" where
  "get_decompress_func zlib importing =
     (if importing then (Inl (ZipImportError (''can'' @ [CHR 0x27] @ ''t decompress data; zlib not available'')), True)
      else case zlib of
        None \<Rightarrow> (Inl (ZipImportError (''can'' @ [CHR 0x27] @ ''t decompress data; zlib not available'')), False)
      | Some d \<Rightarrow> (Inr d, False))"

definition zip_get_data ::
    "(bytes \<Rightarrow> exn + bytes) option \<Rightarrow> bytes option \<Rightarrow> toc_entry \<Rightarrow> exn + bytes" where
  "zip_get_data zlib file t =
     (case file of
        None \<Rightarrow> Inl OSError
      | Some content \<Rightarrow>
          let buffer = take 30 (drop (toc_file_offset t) content) in
          if length buffer \<noteq> 30 then Inl EOFError
          else if take 4 buffer \<noteq> [0x50, 0x4B, 3, 4]
          then Inl (ZipImportError ''bad local file header'')
          else let start = toc_file_offset t + (30 + u16 buffer 26 + u16 buffer 28);
                   raw_data = take (toc_data_size t) (drop start content) in
            if length raw_data \<noteq> toc_data_size t then Inl OSError
            else if toc_compress t = 0 then Inr raw_data
            else case fst (get_decompress_func zlib False) of
              Inl e \<Rightarrow> Inl (ZipImportError (''can'' @ [CHR 0x27] @ ''t decompress data; zlib not available''))
            | Inr decompress \<Rightarrow> decompress raw_data)"

section \<open>Compiled modules, sources and time stamps\<close>

definition eq_mtime :: "int \<Rightarrow> int \<Rightarrow> bool" where
  "eq_mtime t1 t2 \<longleftrightarrow> \<bar>t1 - t2\<bar> \<le> 1"

text \<open>
  \<^verbatim>\<open>_unmarshal_code\<close>. \<open>magic\<close> is importlib's magic number, \<open>check_pycs\<close> the interpreter's
  \<^verbatim>\<open>check_hash_based_pycs\<close>, \<open>loads\<close> is \<^verbatim>\<open>marshal.loads\<close> (\<open>Inr None\<close>: an object that is not
  code). A result \<open>Inr None\<close> asks the caller to try the next candidate.
\<close>

definition unmarshal_code ::
    "bytes \<Rightarrow> string \<Rightarrow> (bytes \<Rightarrow> exn + 'code option) \<Rightarrow> bytes \<Rightarrow> int \<Rightarrow> exn + 'code option" where
  "unmarshal_code magic check_pycs loads data mtime =
     (if length data < 16 then Inl (ZipImportError ''bad pyc data'')
      else if take 4 data \<noteq> magic then Inr None
      else let flags = u32 data 4 in
        if flags \<noteq> 0 \<and> check_pycs \<noteq> ''never'' \<and> (flags \<noteq> 1 \<or> check_pycs = ''always'')
        then Inr None
        else if flags = 0 \<and> mtime \<noteq> 0 \<and> \<not> eq_mtime (int (u32 data 8)) mtime then Inr None
        else case loads (drop 16 data) of
          Inl e \<Rightarrow> Inl e
        | Inr None \<Rightarrow> Inl TypeError
        | Inr (Some code) \<Rightarrow> Inr (Some code))"

fun replace_crlf :: "bytes \<Rightarrow> bytes" where
  "replace_crlf [] = []"
| "replace_crlf [x] = [x]"
| "replace_crlf (x # y # xs) =
     (if x = 13 \<and> y = 10 then 10 # replace_crlf xs else x # replace_crlf (y # xs))"

definition normalize_line_endings :: "bytes \<Rightarrow> bytes" where
  "normalize_line_endings source = map (\<lambda>b. if b = 13 then 10 else b) (replace_crlf source)"

definition compile_source ::
    "(ustring \<Rightarrow> bytes \<Rightarrow> exn + 'code) \<Rightarrow> ustring \<Rightarrow> bytes \<Rightarrow> exn + 'code" where
  "compile_source compile pathname source = compile pathname (normalize_line_endings source)"

record dostime =
  dt_year :: nat
  dt_month :: nat
  dt_day :: nat
  dt_hours :: nat
  dt_minutes :: nat
  dt_seconds :: nat

text \<open>The tuple that \<^verbatim>\<open>_parse_dostime\<close> passes to \<^verbatim>\<open>time.mktime\<close>; shifts and masks of 16-bit
  fields written as divisions.\<close>

definition dostime_fields :: "nat \<Rightarrow> nat \<Rightarrow> dostime" where
  "dostime_fields d t =
     \<lparr>dt_year = d div 2 ^ 9 + 1980, dt_month = d div 2 ^ 5 mod 16, dt_day = d mod 32,
      dt_hours = t div 2 ^ 11, dt_minutes = t div 2 ^ 5 mod 64, dt_seconds = t mod 32 * 2\<rparr>"

definition parse_dostime :: "(dostime \<Rightarrow> int) \<Rightarrow> nat \<Rightarrow> nat \<Rightarrow> int" where
  "parse_dostime mktime d t = mktime (dostime_fields d t)"

section \<open>Lemmas on fields\<close>

lemma u32_unpack:
  "i + 4 \<le> length buffer \<Longrightarrow> unpack_uint32 (take 4 (drop i buffer)) = Inr (u32 buffer i)"
  by (simp add: unpack_uint32_def u32_def)

lemma u16_unpack:
  "i + 2 \<le> length buffer \<Longrightarrow> unpack_uint16 (take 2 (drop i buffer)) = Inr (u16 buffer i)"
  by (simp add: unpack_uint16_def u16_def)

lemma from_bytes_le_bound: "from_bytes_le bs < 256 ^ length bs"
proof (induction bs)
  case (Cons b bs)
  have "unat b < 256" using unsigned_less [of b] by simp
  with Cons show ?case by simp
qed simp

lemma u16_bound: "u16 buffer i < 65536"
proof -
  have "(256::nat) ^ length (take 2 (drop i buffer)) \<le> 256 ^ 2"
    by (rule power_increasing) auto
  with from_bytes_le_bound [of "take 2 (drop i buffer)"] show ?thesis by (simp add: u16_def)
qed

lemma u32_bound: "u32 buffer i < 2 ^ 32"
proof -
  have "(256::nat) ^ length (take 4 (drop i buffer)) \<le> 256 ^ 4"
    by (rule power_increasing) auto
  with from_bytes_le_bound [of "take 4 (drop i buffer)"] show ?thesis by (simp add: u32_def)
qed

section \<open>An archive writer to compare with\<close>

text \<open>
  The layout that the reader expects, as a writer of stored members: local headers with the
  data, the central directory, the end record.
\<close>

definition le16 :: "nat \<Rightarrow> bytes" where
  "le16 n = [word_of_nat n, word_of_nat (n div 256)]"

definition le32 :: "nat \<Rightarrow> bytes" where
  "le32 n = [word_of_nat n, word_of_nat (n div 256), word_of_nat (n div 65536),
             word_of_nat (n div 16777216)]"

record member =
  m_name :: bytes
  m_data :: bytes
  m_time :: nat
  m_date :: nat
  m_crc :: nat

definition local_part :: "member \<Rightarrow> bytes" where
  "local_part m = [0x50, 0x4B, 3, 4] @ replicate 22 0 @ le16 (length (m_name m)) @ le16 0
     @ m_name m @ m_data m"

definition central_part :: "nat \<Rightarrow> member \<Rightarrow> bytes" where
  "central_part off m =
     [0x50, 0x4B, 1, 2] @ replicate 4 0 @ le16 0 @ le16 0 @ le16 (m_time m) @ le16 (m_date m)
     @ le32 (m_crc m) @ le32 (length (m_data m)) @ le32 (length (m_data m))
     @ le16 (length (m_name m)) @ le16 0 @ le16 0 @ replicate 8 0 @ le32 off @ m_name m"

fun central_dir :: "nat \<Rightarrow> member list \<Rightarrow> bytes" where
  "central_dir off [] = []"
| "central_dir off (m # ms) = central_part off m @ central_dir (off + length (local_part m)) ms"

definition end_record :: "nat \<Rightarrow> nat \<Rightarrow> bytes" where
  "end_record dir_size dir_offset =
     STRING_END_ARCHIVE @ replicate 8 0 @ le32 dir_size @ le32 dir_offset @ le16 0"

definition write_archive :: "member list \<Rightarrow> bytes" where
  "write_archive ms =
     (let body = concat (map local_part ms); dir = central_dir 0 ms in
      body @ dir @ end_record (length dir) (length body))"

definition member_ok :: "member \<Rightarrow> bool" where
  "member_ok m \<longleftrightarrow> list_all (\<lambda>b. unat b < 128) (m_name m) \<and> length (m_name m) < 65536
     \<and> m_time m < 65536 \<and> m_date m < 65536 \<and> m_crc m < 2 ^ 32"

definition member_key :: "member \<Rightarrow> ustring" where
  "member_key m = map unat (m_name m)"

definition member_toc :: "ustring \<Rightarrow> nat \<Rightarrow> member \<Rightarrow> toc_entry" where
  "member_toc archive off m =
     \<lparr>toc_path = path_join [archive, member_key m], toc_compress = 0,
      toc_data_size = length (m_data m), toc_file_size = length (m_data m),
      toc_file_offset = off, toc_time = m_time m, toc_date = m_date m, toc_crc = m_crc m\<rparr>"

fun toc_of :: "ustring \<Rightarrow> nat \<Rightarrow> member list \<Rightarrow> zip_files" where
  "toc_of archive off [] = []"
| "toc_of archive off (m # ms) =
     (member_key m, member_toc archive off m) # toc_of archive (off + length (local_part m)) ms"

lemma from_bytes_le16 [simp]: "n < 65536 \<Longrightarrow> from_bytes_le (le16 n) = n"
  by (simp add: le16_def unat_of_nat)

lemma four_bytes:
  "(n::nat) mod 256 + 256 * (n div 256 mod 256 + 256 * (n div 65536 mod 256 + 256 * (n div 16777216))) = n"
proof -
  have "n div 65536 = n div 256 div 256" "n div 16777216 = n div 256 div 256 div 256"
    by (simp_all add: div_mult2_eq [symmetric])
  then show ?thesis by (simp only: mod_mult_div_eq)
qed

lemma from_bytes_le32 [simp]:
  assumes "n < 2 ^ 32" shows "from_bytes_le (le32 n) = n"
proof -
  have "n div 16777216 < 256" using assms by (simp add: less_mult_imp_div_less)
  then have "from_bytes_le (le32 n) =
      n mod 256 + 256 * (n div 256 mod 256 + 256 * (n div 65536 mod 256 + 256 * (n div 16777216)))"
    by (simp add: le32_def unat_of_nat)
  then show ?thesis by (simp only: four_bytes)
qed

lemma length_le16 [simp]: "length (le16 n) = 2"
  by (simp add: le16_def)

lemma length_le32 [simp]: "length (le32 n) = 4"
  by (simp add: le32_def)

lemma length_local_part: "length (local_part m) = 30 + length (m_name m) + length (m_data m)"
  by (simp add: local_part_def)

lemma length_end_record [simp]: "length (end_record s d) = 22"
  by (simp add: end_record_def STRING_END_ARCHIVE_def)

lemma central_split:
  "take 46 (central_part off m @ rest) =
     [0x50, 0x4B, 1, 2] @ replicate 4 0 @ le16 0 @ le16 0 @ le16 (m_time m) @ le16 (m_date m)
     @ le32 (m_crc m) @ le32 (length (m_data m)) @ le32 (length (m_data m))
     @ le16 (length (m_name m)) @ le16 0 @ le16 0 @ replicate 8 0 @ le32 off"
  "drop 46 (central_part off m @ rest) = m_name m @ rest"
  by (simp_all add: central_part_def)

lemma le_zero_bytes: "le16 0 = [0, 0]"
  by (simp add: le16_def)

lemma flags_zero [simp]: "\<not> bit (0::nat) 11"
  by simp

lemma decode_ascii:
  assumes "list_all (\<lambda>b. unat b < 128) name"
  shows "decode_name 0 name = Inr (map unat name)"
  using assms by (simp add: decode_name_def Let_def list_all_iff)

lemma central_fields:
  fixes rest :: bytes
  assumes "member_ok m" and "length (m_data m) < 2 ^ 32" and "off < 2 ^ 32"
  defines "buffer \<equiv> take 46 (central_part off m @ rest)"
  shows "u16 buffer 8 = 0" and "u16 buffer 10 = 0" and "u16 buffer 12 = m_time m"
    and "u16 buffer 14 = m_date m" and "u32 buffer 16 = m_crc m"
    and "u32 buffer 20 = length (m_data m)" and "u32 buffer 24 = length (m_data m)"
    and "u16 buffer 28 = length (m_name m)" and "u16 buffer 30 = 0" and "u16 buffer 32 = 0"
    and "u32 buffer 42 = off" and "length buffer = 46" and "take 4 buffer = [0x50, 0x4B, 1, 2]"
  using assms(1-3) unfolding buffer_def central_split member_ok_def
  by (simp_all add: u16_def u32_def)

lemma read_entry_central:
  assumes "member_ok m" and "length (m_data m) < 2 ^ 32" and "off \<le> ho" and "ho < 2 ^ 32"
  shows "read_entry archive ho ao (take 46 (central_part off m @ rest)) (m_name m @ rest) =
     Inr ((member_key m, member_toc archive (off + ao) m), rest)"
proof -
  have "off < 2 ^ 32" using assms by simp
  note fields = central_fields [OF assms(1,2) this, of rest]
  have ascii: "list_all (\<lambda>b. unat b < 128) (m_name m)" using assms(1) by (simp add: member_ok_def)
  show ?thesis
    using assms(3) unfolding read_entry_def fields Let_def
    by (simp add: decode_ascii [OF ascii] member_key_def member_toc_def)
qed

lemma read_entries_step:
  assumes "member_ok m" and "length (m_data m) < 2 ^ 32" and "off \<le> ho" and "ho < 2 ^ 32"
  shows "read_entries archive ho ao (central_part off m @ rest) files =
     read_entries archive ho ao rest (dict_set (member_key m) (member_toc archive (off + ao) m) files)"
proof -
  have "off < 2 ^ 32" using assms by simp
  note fields = central_fields [OF assms(1,2) this, of rest]
  show ?thesis
    by (subst read_entries.simps, unfold Let_def fields(12,13) central_split(2)
        read_entry_central [OF assms]) simp
qed

lemma read_entries_end:
  "4 \<le> length rest \<Longrightarrow> take 4 rest \<noteq> [0x50, 0x4B, 1, 2] \<Longrightarrow>
   read_entries archive ho ao rest files = Inr files"
  by (subst read_entries.simps) (simp add: Let_def min_def)

lemma read_entries_central_dir:
  assumes "\<And>m. m \<in> set ms \<Longrightarrow> member_ok m"
    and "distinct (map member_key ms)" and "\<And>m. m \<in> set ms \<Longrightarrow> member_key m \<notin> fst ` set files"
    and "off + length (concat (map local_part ms)) \<le> ho" and "ho < 2 ^ 32"
    and "4 \<le> length rest" and "take 4 rest \<noteq> [0x50, 0x4B, 1, 2]"
  shows "read_entries archive ho ao (central_dir off ms @ rest) files =
     Inr (files @ toc_of archive (off + ao) ms)"
  using assms(1-4)
proof (induction ms arbitrary: off files)
  case Nil
  then show ?case using assms(6,7) by (simp add: read_entries_end)
next
  case (Cons m ms)
  have room: "length (m_data m) < 2 ^ 32" "off \<le> ho"
    using Cons.prems(4) assms(5) by (simp_all add: length_local_part)
  have fresh: "member_key m \<notin> fst ` set files" using Cons.prems(3) by simp
  have "read_entries archive ho ao (central_dir off (m # ms) @ rest) files =
     read_entries archive ho ao (central_dir (off + length (local_part m)) ms @ rest)
       (files @ [(member_key m, member_toc archive (off + ao) m)])"
    using Cons.prems(1) room assms(5) by (simp add: read_entries_step dict_set_fresh [OF fresh])
  also have "\<dots> = Inr ((files @ [(member_key m, member_toc archive (off + ao) m)])
       @ toc_of archive (off + length (local_part m) + ao) ms)"
    using Cons.prems by (intro Cons.IH) (auto simp: image_iff)
  finally show ?case by (simp add: ac_simps)
qed

lemma end_record_fields:
  assumes "s < 2 ^ 32" and "d < 2 ^ 32"
  shows "u32 (end_record s d) 12 = s" and "u32 (end_record s d) 16 = d"
    and "take 4 (end_record s d) = STRING_END_ARCHIVE"
  using assms by (simp_all add: u32_def end_record_def STRING_END_ARCHIVE_def)

text \<open>Reading back a written archive, whatever stands in front of it in the file.\<close>

lemma read_directory_write:
  assumes "\<And>m. m \<in> set ms \<Longrightarrow> member_ok m" and "distinct (map member_key ms)"
    and "length (write_archive ms) < 2 ^ 32"
  shows "read_directory archive (Some (stub @ write_archive ms)) =
     Inr (toc_of archive (length stub) ms)"
proof -
  define body dir where "body = concat (map local_part ms)" and "dir = central_dir 0 ms"
  have arch: "write_archive ms = body @ dir @ end_record (length dir) (length body)"
    by (simp add: write_archive_def body_def dir_def Let_def)
  have small: "length dir < 2 ^ 32" "length body < 2 ^ 32" using assms(3) by (simp_all add: arch)
  note fields = end_record_fields [OF small]
  have found: "find_end_record (stub @ write_archive ms) =
      Inr (end_record (length dir) (length body), length stub + length body + length dir)"
    by (simp add: find_end_record_def arch END_CENTRAL_DIR_SIZE_def fields Let_def)
  have "read_entries archive (length body) (length stub)
      (dir @ end_record (length dir) (length body)) [] = Inr ([] @ toc_of archive (0 + length stub) ms)"
    unfolding dir_def using assms(1,2) small
    by (intro read_entries_central_dir) (auto simp: body_def end_record_def STRING_END_ARCHIVE_def)
  then show ?thesis
    by (simp add: read_directory_def found [unfolded arch] fields Let_def arch)
qed

lemma get_data_local:
  assumes "length (m_name m) < 65536"
  shows "zip_get_data zlib (Some (pre @ local_part m @ post)) (member_toc archive (length pre) m) =
     Inr (m_data m)"
proof -
  define hdr where "hdr = [0x50, 0x4B, 3, 4] @ replicate 22 0 @ le16 (length (m_name m)) @ le16 0"
  have part: "local_part m = hdr @ m_name m @ m_data m" by (simp add: local_part_def hdr_def)
  have hdr: "length hdr = 30" "u16 hdr 26 = length (m_name m)" "u16 hdr 28 = 0"
    "take 4 hdr = [0x50, 0x4B, 3, 4]" using assms by (simp_all add: hdr_def u16_def)
  show ?thesis
    by (simp add: zip_get_data_def member_toc_def Let_def part hdr)
qed

lemma toc_of_member:
  "m \<in> set ms \<Longrightarrow> \<exists>pre post. concat (map local_part ms) = pre @ local_part m @ post
     \<and> (member_key m, member_toc archive (off + length pre) m) \<in> set (toc_of archive off ms)"
proof (induction ms arbitrary: off)
  case (Cons x ms)
  show ?case
  proof (cases "m = x")
    case True
    then show ?thesis by (intro exI [of _ "[]"] exI) auto
  next
    case False
    then have "m \<in> set ms" using Cons.prems by simp
    from Cons.IH [OF this, of "off + length (local_part x)"]
    obtain pre post where "concat (map local_part ms) = pre @ local_part m @ post"
      "(member_key m, member_toc archive (off + length (local_part x) + length pre) m)
         \<in> set (toc_of archive (off + length (local_part x)) ms)" by blast
    then show ?thesis
      by (intro exI [of _ "local_part x @ pre"] exI [of _ post]) (simp add: add.assoc)
  qed
qed simp

lemma keys_toc_of: "map fst (toc_of archive off ms) = map member_key ms"
  by (induction ms arbitrary: off) auto

lemma toc_of_extract:
  assumes "m \<in> set ms" and "member_ok m"
  shows "\<exists>t. (member_key m, t) \<in> set (toc_of archive (length stub) ms)
     \<and> toc_path t = path_join [archive, member_key m]
     \<and> zip_get_data zlib (Some (stub @ write_archive ms)) t = Inr (m_data m)"
proof -
  obtain pre post where body: "concat (map local_part ms) = pre @ local_part m @ post"
    and entry: "(member_key m, member_toc archive (length stub + length pre) m)
       \<in> set (toc_of archive (length stub) ms)"
    using toc_of_member [OF assms(1)] by blast
  have "length (m_name m) < 65536" using assms(2) by (simp add: member_ok_def)
  from get_data_local [OF this, of zlib "stub @ pre"]
  have "zip_get_data zlib (Some (stub @ write_archive ms))
      (member_toc archive (length stub + length pre) m) = Inr (m_data m)"
    by (simp add: write_archive_def body Let_def)
  then show ?thesis using entry by (auto simp: member_toc_def)
qed

text \<open>
  C9. Reading back. Take any archive of stored members with plain names, smaller than 4 GiB and
  possibly behind other bytes in the file: the reader finds exactly the members, in order, and
  extracting any of them returns the bytes that were stored.
\<close>

theorem archive_roundtrip:
  assumes "\<And>m. m \<in> set ms \<Longrightarrow> member_ok m" and "distinct (map member_key ms)"
    and "length (write_archive ms) < 2 ^ 32"
  shows "\<exists>files. read_directory archive (Some (stub @ write_archive ms)) = Inr files
     \<and> map fst files = map member_key ms
     \<and> (\<forall>m. m \<in> set ms \<longrightarrow> (\<exists>t. map_of files (member_key m) = Some t
          \<and> toc_path t = path_join [archive, member_key m]
          \<and> zip_get_data zlib (Some (stub @ write_archive ms)) t = Inr (m_data m)))"
proof (intro exI [of _ "toc_of archive (length stub) ms"] conjI allI impI)
  show "read_directory archive (Some (stub @ write_archive ms)) = Inr (toc_of archive (length stub) ms)"
    using assms by (rule read_directory_write)
  show keys: "map fst (toc_of archive (length stub) ms) = map member_key ms"
    by (rule keys_toc_of)
  fix m assume m: "m \<in> set ms"
  show "\<exists>t. map_of (toc_of archive (length stub) ms) (member_key m) = Some t
          \<and> toc_path t = path_join [archive, member_key m]
          \<and> zip_get_data zlib (Some (stub @ write_archive ms)) t = Inr (m_data m)"
    using toc_of_extract [OF m assms(1) [OF m]] assms(2) by (auto simp: map_of_is_SomeI keys)
qed

definition sample_members :: "member list" where
  "sample_members =
     [\<lparr>m_name = ascii_bytes ''maubot.yaml'', m_data = ascii_bytes ''id: a.b'',
       m_time = 1, m_date = 33, m_crc = 7\<rparr>,
      \<lparr>m_name = ascii_bytes ''m/__init__.py'', m_data = ascii_bytes ''x = 1'',
       m_time = 2, m_date = 33, m_crc = 8\<rparr>]"

theorem archive_roundtrip_witness:
  "\<exists>files. read_directory (ustr ''/p/a.mbp'') (Some ([1, 2, 3] @ write_archive sample_members)) = Inr files
     \<and> map fst files = [ustr ''maubot.yaml'', ustr ''m/__init__.py'']
     \<and> (\<exists>t. map_of files (ustr ''m/__init__.py'') = Some t
          \<and> toc_path t = ustr ''/p/a.mbp/m/__init__.py''
          \<and> zip_get_data None (Some ([1, 2, 3] @ write_archive sample_members)) t
              = Inr (ascii_bytes ''x = 1''))"
proof -
  have ok: "\<And>m. m \<in> set sample_members \<Longrightarrow> member_ok m"
    by (auto simp: sample_members_def member_ok_def ascii_bytes_def)
  have keys: "map member_key sample_members = [ustr ''maubot.yaml'', ustr ''m/__init__.py'']"
    by (simp add: sample_members_def member_key_def ascii_bytes_def ustr_def)
  have dist: "distinct (map member_key sample_members)" unfolding keys by (simp add: ustr_def)
  have small: "length (write_archive sample_members) < 2 ^ 32"
    by (simp add: write_archive_def sample_members_def Let_def local_part_def central_part_def
        ascii_bytes_def)
  have mem: "sample_members ! 1 \<in> set sample_members" by (simp add: sample_members_def)
  have second: "member_key (sample_members ! 1) = ustr ''m/__init__.py''"
    "m_data (sample_members ! 1) = ascii_bytes ''x = 1''"
    by (simp_all add: sample_members_def member_key_def ascii_bytes_def ustr_def)
  have path: "path_join [ustr ''/p/a.mbp'', ustr ''m/__init__.py''] = ustr ''/p/a.mbp/m/__init__.py''"
    by (simp add: path_join_def rstrip_sep_def path_sep_def ustr_def)
  show ?thesis
    using archive_roundtrip [OF ok dist small, of "ustr ''/p/a.mbp''" "[1, 2, 3]" None] mem
    unfolding keys by (metis second path)
qed

section \<open>Bounds on what is read\<close>

definition toc_bounded :: "nat \<Rightarrow> toc_entry \<Rightarrow> bool" where
  "toc_bounded limit t \<longleftrightarrow> toc_file_offset t \<le> limit \<and> toc_data_size t < 2 ^ 32
     \<and> toc_file_size t < 2 ^ 32 \<and> toc_crc t < 2 ^ 32 \<and> toc_compress t < 65536
     \<and> toc_time t < 65536 \<and> toc_date t < 65536"

lemma read_entry_bounds:
  assumes "read_entry archive ho ao buffer rest = Inr ((n, t), rest')"
  shows "toc_bounded (ho + ao) t" and "length rest' \<le> length rest"
    and "toc_path t = path_join [archive, n]"
  using assms u16_bound u32_bound
  by (auto simp: read_entry_def Let_def toc_bounded_def split: if_splits sum.splits)

lemma length_dict_set_le: "length (dict_set k v d) \<le> Suc (length d)"
  by (induction k v d rule: dict_set.induct) auto

lemma set_dict_set_subset: "set (dict_set k v d) \<subseteq> insert (k, v) (set d)"
  by (induction k v d rule: dict_set.induct) auto

text \<open>One successful round: the entry that was read, and what is left of the file.\<close>

lemma read_entries_cases:
  assumes "read_entries archive ho ao rest files = Inr files'"
  obtains "files' = files"
  | n t rest' where "read_entries archive ho ao rest' (dict_set n t files) = Inr files'"
      and "read_entry archive ho ao (take 46 rest) (drop 46 rest) = Inr ((n, t), rest')"
      and "46 \<le> length rest"
proof (cases "read_entry archive ho ao (take 46 rest) (drop 46 rest)")
  case (Inl e)
  then have "files' = files" using assms
    by (subst (asm) read_entries.simps) (simp add: Let_def split: if_splits)
  then show ?thesis by (rule that(1))
next
  case (Inr r)
  obtain n t rest' where r: "r = ((n, t), rest')" by (metis surj_pair)
  have "files' = files \<or> 46 \<le> length rest \<and>
      read_entries archive ho ao rest' (dict_set n t files) = Inr files'" using assms Inr
    by (subst (asm) read_entries.simps) (simp add: Let_def r min_def split: if_splits)
  then show ?thesis using that Inr r by blast
qed

lemma read_entries_bounds:
  assumes "read_entries archive ho ao rest files = Inr files'" and "dict_ok files"
    and "\<forall>p\<in>set files. toc_bounded (ho + ao) (snd p) \<and> toc_path (snd p) = path_join [archive, fst p]"
  shows "dict_ok files'
    \<and> (\<forall>p\<in>set files'. toc_bounded (ho + ao) (snd p) \<and> toc_path (snd p) = path_join [archive, fst p])
    \<and> 46 * length files' \<le> 46 * length files + length rest"
  using assms
proof (induction "length rest" arbitrary: rest files rule: less_induct)
  case less
  from less.prems(1) show ?case
  proof (cases rule: read_entries_cases)
    case 1
    then show ?thesis using less.prems by simp
  next
    case (2 n t rest')
    note t = read_entry_bounds [OF 2(2)]
    then have "dict_ok files'
      \<and> (\<forall>p\<in>set files'. toc_bounded (ho + ao) (snd p) \<and> toc_path (snd p) = path_join [archive, fst p])
      \<and> 46 * length files' \<le> 46 * length (dict_set n t files) + length rest'"
      using less.prems 2 set_dict_set_subset [of n t files]
      by (intro less.hyps) (auto dest!: subsetD)
    moreover have "46 * length (dict_set n t files) + length rest' \<le> 46 * length files + length rest"
      using t(2) 2(3) length_dict_set_le [of n t files] by simp
    ultimately show ?thesis by auto
  qed
qed

lemma rfind_Some:
  assumes "rfind data pat = Some i"
  shows "i \<le> length data" and "take (length pat) (drop i data) = pat"
proof -
  from assms have "i \<in> set (rev [0..<length data + 1])" "take (length pat) (drop i data) = pat"
    unfolding rfind_def find_Some_iff by (metis nth_mem)+
  then show "i \<le> length data" "take (length pat) (drop i data) = pat" by auto
qed

lemma find_end_record_bounds:
  assumes "find_end_record content = Inr (buffer, pos)"
  shows "length buffer = 22" and "pos + 22 \<le> length content"
  using assms
  by (auto simp: find_end_record_def END_CENTRAL_DIR_SIZE_def MAX_COMMENT_LEN_def Let_def
      min_def STRING_END_ARCHIVE_def split: if_splits option.splits dest: rfind_Some)

text \<open>
  C34. Bounds. Whatever the bytes of the file are, a directory that was read successfully is a
  well-formed dict with at most one entry per 46 bytes of the file; the offset of every entry
  lies inside the file, its fields fit their widths, and its path is the archive's path
  joined with the entry's name.
\<close>

theorem directory_bounds:
  assumes "read_directory archive (Some content) = Inr files"
  shows "dict_ok files \<and> 46 * length files \<le> length content
    \<and> (\<forall>n t. map_of files n = Some t \<longrightarrow> toc_file_offset t + 22 \<le> length content
         \<and> toc_bounded (length content) t \<and> toc_path t = path_join [archive, n])"
proof -
  obtain buffer pos where found: "find_end_record content = Inr (buffer, pos)"
    using assms by (auto simp: read_directory_def split: sum.splits)
  define hs ho where "hs = u32 buffer 12" and "ho = u32 buffer 16"
  have fit: "hs + ho \<le> pos" and "read_entries archive ho (pos - hs - ho) (drop (pos - hs) content) [] = Inr files"
    using assms by (auto simp: read_directory_def found Let_def hs_def ho_def split: if_splits)
  from read_entries_bounds [OF this(2)]
  have files: "dict_ok files" "46 * length files \<le> length content - (pos - hs)"
    "\<And>p. p \<in> set files \<Longrightarrow> toc_bounded (ho + (pos - hs - ho)) (snd p) \<and> toc_path (snd p) = path_join [archive, fst p]"
    by simp_all
  have "ho + (pos - hs - ho) \<le> pos" using fit by simp
  moreover have "pos + 22 \<le> length content" by (rule find_end_record_bounds(2) [OF found])
  ultimately show ?thesis
    using files by (fastforce simp: toc_bounded_def dest: map_of_SomeD)
qed

theorem directory_bounds_witness:
  "\<exists>files. read_directory (ustr ''a'') (Some (write_archive [])) = Inr files
     \<and> dict_ok files \<and> 46 * length files \<le> length (write_archive [])"
proof -
  have "read_directory (ustr ''a'') (Some (write_archive [])) = Inr []"
    using read_directory_write [of "[]" "ustr ''a''" "[]"] by (simp add: write_archive_def Let_def)
  with directory_bounds [OF this] show ?thesis by simp
qed

section \<open>Names, line endings and times\<close>

lemma cp437_table_props: "length cp437_table = 256" "distinct cp437_table"
  by (simp add: cp437_table_def) (unfold cp437_table_def distinct_append, simp)

lemma cp437_ascii: "b < 128 \<Longrightarrow> cp437_table ! b = b"
  by (simp add: cp437_table_def nth_append)

lemma unat_byte: "unat (b :: byte) < 256"
  using unsigned_less [of b] by simp

lemma decode_historical:
  "\<not> bit flags 11 \<Longrightarrow> decode_name flags name = Inr (map (\<lambda>b. cp437_table ! unat b) name)"
  by (auto simp: decode_name_def Let_def list_all_iff cp437_ascii)

text \<open>
  Names without the UTF-8 flag. Decoding never fails, keeps ASCII as it is, and two
  different byte strings give two different names: reading an archive cannot merge two such
  members.
\<close>

theorem historical_names_injective:
  assumes "\<not> bit flags 11"
  shows "(decode_name flags a = decode_name flags b \<longleftrightarrow> a = b)
    \<and> (\<exists>n. decode_name flags a = Inr n)
    \<and> (list_all (\<lambda>b. unat b < 128) a \<longrightarrow> decode_name flags a = Inr (map unat a))"
proof -
  have inj: "inj (\<lambda>b::byte. cp437_table ! unat b)"
  proof (rule injI)
    fix x y :: byte
    assume "cp437_table ! unat x = cp437_table ! unat y"
    then have "unat x = unat y"
      using cp437_table_props unat_byte by (simp add: nth_eq_iff_index_eq)
    then show "x = y" by (rule unsigned_word_eqI)
  qed
  show ?thesis
    by (auto simp: decode_historical [OF assms] inj_map_eq_map [OF inj] list_all_iff cp437_ascii)
qed

theorem historical_names_injective_witness:
  "decode_name 0 (ascii_bytes ''ab'') = Inr (ustr ''ab'') \<and> decode_name 0 [0x80] \<noteq> decode_name 0 [0x81]"
proof -
  have f: "\<not> bit (0::nat) 11" by simp
  have "map unat (ascii_bytes ''ab'') = ustr ''ab''" by (simp add: ascii_bytes_def ustr_def)
  moreover have "list_all (\<lambda>b. unat b < 128) (ascii_bytes ''ab'')" by (simp add: ascii_bytes_def)
  ultimately show ?thesis
    using historical_names_injective [OF f, of "ascii_bytes ''ab''"]
      historical_names_injective [OF f, of "[0x80]" "[0x81]"] by simp
qed

lemma normalize_simps [simp]:
  "normalize_line_endings [] = []"
  "normalize_line_endings [x] = [if x = 13 then 10 else x]"
  "normalize_line_endings (x # y # xs) =
     (if x = 13 \<and> y = 10 then 10 # normalize_line_endings xs
      else (if x = 13 then 10 else x) # normalize_line_endings (y # xs))"
  by (simp_all add: normalize_line_endings_def)

lemma no_cr_after: "13 \<notin> set (normalize_line_endings s)"
  by (induction s rule: replace_crlf.induct) auto

lemma normalize_no_cr: "13 \<notin> set s \<Longrightarrow> normalize_line_endings s = s"
  by (induction s rule: replace_crlf.induct) auto

text \<open>The text of a list of lines with a choice of line ending for each.\<close>

fun join_lines :: "(bytes \<times> bytes) list \<Rightarrow> bytes" where
  "join_lines [] = []"
| "join_lines ((line, ending) # ls) = line @ ending @ join_lines ls"

definition line_ok :: "bytes \<times> bytes \<Rightarrow> bool" where
  "line_ok p \<longleftrightarrow> 13 \<notin> set (fst p) \<and> 10 \<notin> set (fst p) \<and> snd p \<in> {[10], [13, 10]}"

lemma normalize_line:
  "13 \<notin> set line \<Longrightarrow> normalize_line_endings (line @ 10 # r) = line @ 10 # normalize_line_endings r"
proof (induction line)
  case Nil
  then show ?case by (cases r) auto
next
  case (Cons a line)
  then show ?case by (cases line) auto
qed

lemma normalize_line_crlf:
  "13 \<notin> set line \<Longrightarrow>
   normalize_line_endings (line @ 13 # 10 # r) = line @ 10 # normalize_line_endings r"
proof (induction line)
  case (Cons a line)
  then show ?case by (cases line) auto
qed simp

text \<open>
  Line endings. After \<^verbatim>\<open>_normalize_line_endings\<close> no carriage return is left, and a text
  whose lines end in LF or CRLF, in any mixture, becomes the same lines ended by LF; text
  without carriage returns is not touched, so that normalising twice changes nothing.
\<close>

theorem line_endings_normalized:
  "13 \<notin> set (normalize_line_endings s)
   \<and> normalize_line_endings (normalize_line_endings s) = normalize_line_endings s
   \<and> (list_all line_ok ls \<longrightarrow>
        normalize_line_endings (join_lines ls) = join_lines (map (\<lambda>p. (fst p, [10])) ls))"
proof (intro conjI impI)
  show "normalize_line_endings (normalize_line_endings s) = normalize_line_endings s"
    by (rule normalize_no_cr [OF no_cr_after])
  show "list_all line_ok ls \<Longrightarrow>
      normalize_line_endings (join_lines ls) = join_lines (map (\<lambda>p. (fst p, [10])) ls)"
    by (induction ls rule: join_lines.induct)
      (auto simp: line_ok_def normalize_line normalize_line_crlf)
qed (rule no_cr_after)

theorem line_endings_normalized_witness:
  "normalize_line_endings (join_lines [([97], [13, 10]), ([98], [10])]) = [97, 10, 98, 10]"
  using line_endings_normalized [of _ "[([97], [13, 10]), ([98], [10])]"] by (simp add: line_ok_def)

end
