(* ===== verification/MB_Zipimporter.thy ===== *)
theory MB_Zipimporter
  imports MB_Zipformat
begin

text \<open>
  The \<^verbatim>\<open>zipimporter\<close> objects of \<^verbatim>\<open>maubot/lib/zipimport.py\<close>: finding the archive in a path, the
  directory cache shared by all importers, the search for a module, loading it into
  \<^verbatim>\<open>sys.modules\<close>, and the reader of package resources.

  The file system is a function from paths to nodes. Importlib's magic number,
  unmarshalling, compiling, \<^verbatim>\<open>time.mktime\<close>, zlib and running a code object are the
  interpreter's: they are the fields of \<open>interp\<close>, and running code is an argument of
  \<open>load_module\<close>.
\<close>

section \<open>Objects\<close>

text \<open>What \<^verbatim>\<open>stat\<close> says of a path; a regular file that cannot be opened has no content.\<close>

datatype fnode = Missing | NotRegular | Regular "bytes option"

type_synonym file_system = "ustring \<Rightarrow> fnode"

fun file_content :: "fnode \<Rightarrow> bytes option" where
  "file_content (Regular c) = c"
| "file_content _ = None"

record 'code interp =
  MAGIC_NUMBER :: bytes
  check_hash_based_pycs :: string
  marshal_loads :: "bytes \<Rightarrow> exn + 'code option"
  py_compile :: "ustring \<Rightarrow> bytes \<Rightarrow> exn + 'code"
  mktime :: "dostime \<Rightarrow> int"
  zlib_decompress :: "(bytes \<Rightarrow> exn + bytes) option"

record zipimporter =
  zi_files :: zip_files
  zi_archive :: ustring
  zi_prefix :: ustring

type_synonym directory_cache = "(ustring, zip_files) dict"

section \<open>Creating an importer\<close>

text \<open>\<^verbatim>\<open>_bootstrap_external._path_split\<close>.\<close>

definition path_split :: "ustring \<Rightarrow> ustring \<times> ustring" where
  "path_split path =
     (if path_sep \<in> set path
      then (rev (tl (dropWhile (\<lambda>c. c \<noteq> path_sep) (rev path))),
            rev (takeWhile (\<lambda>c. c \<noteq> path_sep) (rev path)))
      else ([], path))"

text \<open>The loop of \<^verbatim>\<open>__init__\<close>: back up one path element until something exists.\<close>

function find_archive ::
    "file_system \<Rightarrow> ustring \<Rightarrow> ustring list \<Rightarrow> exn + (ustring \<times> ustring list)" where
  "find_archive fs path prefix =
     (case fs path of
        Missing \<Rightarrow>
          if fst (path_split path) = path then Inl (ZipImportError ''not a Zip file'')
          else find_archive fs (fst (path_split path)) (prefix @ [snd (path_split path)])
      | NotRegular \<Rightarrow> Inl (ZipImportError ''not a Zip file'')
      | Regular _ \<Rightarrow> Inr (path, prefix))"
  by pat_completeness auto

lemma path_split_shorter:
  "fst (path_split path) \<noteq> path \<Longrightarrow> length (fst (path_split path)) < length path"
proof -
  assume ne: "fst (path_split path) \<noteq> path"
  show ?thesis
  proof (cases "path_sep \<in> set path")
    case True
    then have "dropWhile (\<lambda>c. c \<noteq> path_sep) (rev path) \<noteq> []" by (auto simp: dropWhile_eq_Nil_conv)
    then have "length (tl (dropWhile (\<lambda>c. c \<noteq> path_sep) (rev path)))
        < length (dropWhile (\<lambda>c. c \<noteq> path_sep) (rev path))" by simp
    also have "\<dots> \<le> length path" by (metis length_dropWhile_le length_rev)
    finally show ?thesis using True by (simp add: path_split_def)
  next
    case False
    then show ?thesis using ne by (simp add: path_split_def)
  qed
qed

termination find_archive
  by (relation "measure (\<lambda>(fs, path, prefix). length path)") (auto dest: path_split_shorter)

declare find_archive.simps [simp del]

definition zipimporter_init ::
    "file_system \<Rightarrow> ustring \<Rightarrow> directory_cache \<Rightarrow> exn + (zipimporter \<times> directory_cache)" where
  "zipimporter_init fs path cache =
     (if path = [] then Inl (ZipImportError ''archive path is empty'')
      else case find_archive fs path [] of
        Inl e \<Rightarrow> Inl e
      | Inr (archive, prefix) \<Rightarrow>
          let joined = path_join (rev prefix);
              new = (\<lambda>files. \<lparr>zi_files = files, zi_archive = archive,
                        zi_prefix = (if joined = [] then [] else joined @ [path_sep])\<rparr>) in
          (case map_of cache archive of
             Some files \<Rightarrow> Inr (new files, cache)
           | None \<Rightarrow>
               (case read_directory archive (file_content (fs archive)) of
                  Inl e \<Rightarrow> Inl e
                | Inr files \<Rightarrow> Inr (new files, dict_set archive files cache))))"

definition reset_cache ::
    "file_system \<Rightarrow> zipimporter \<Rightarrow> directory_cache \<Rightarrow> exn + (zipimporter \<times> directory_cache)" where
  "reset_cache fs self cache =
     (case read_directory (zi_archive self) (file_content (fs (zi_archive self))) of
        Inl e \<Rightarrow> Inl e
      | Inr files \<Rightarrow> Inr (self\<lparr>zi_files := files\<rparr>, dict_set (zi_archive self) files cache))"

definition remove_cache :: "zipimporter \<Rightarrow> directory_cache \<Rightarrow> directory_cache" where
  "remove_cache self cache = dict_del (zi_archive self) cache"

section \<open>Searching\<close>

definition zip_searchorder :: "(ustring \<times> bool \<times> bool) list" where
  "zip_searchorder =
     [(path_sep # ustr ''__init__.pyc'', True, True),
      (path_sep # ustr ''__init__.py'', False, True),
      (ustr ''.pyc'', True, False),
      (ustr ''.py'', False, False)]"

definition rpartition_last :: "nat \<Rightarrow> ustring \<Rightarrow> ustring" where
  "rpartition_last c s = rev (takeWhile (\<lambda>x. x \<noteq> c) (rev s))"

definition get_module_path :: "zipimporter \<Rightarrow> ustring \<Rightarrow> ustring" where
  "get_module_path self fullname = zi_prefix self @ rpartition_last 46 fullname"

definition zi_is_dir :: "zipimporter \<Rightarrow> ustring \<Rightarrow> bool" where
  "zi_is_dir self path \<longleftrightarrow> in_dict (path @ [path_sep]) (zi_files self)"

fun search_info :: "zipimporter \<Rightarrow> ustring \<Rightarrow> (ustring \<times> bool \<times> bool) list \<Rightarrow> bool option" where
  "search_info self path [] = None"
| "search_info self path ((suffix, isbytecode, ispackage) # order) =
     (if in_dict (path @ suffix) (zi_files self) then Some ispackage
      else search_info self path order)"

definition get_module_info :: "zipimporter \<Rightarrow> ustring \<Rightarrow> bool option" where
  "get_module_info self fullname = search_info self (get_module_path self fullname) zip_searchorder"

text \<open>\<^verbatim>\<open>find_loader\<close>: whether the importer itself is returned, and the namespace portions.\<close>

definition find_loader :: "zipimporter \<Rightarrow> ustring \<Rightarrow> zipimporter option \<times> ustring list" where
  "find_loader self fullname =
     (if get_module_info self fullname \<noteq> None then (Some self, [])
      else let modpath = get_module_path self fullname in
        if zi_is_dir self modpath then (None, [zi_archive self @ path_sep # modpath])
        else (None, []))"

definition find_module :: "zipimporter \<Rightarrow> ustring \<Rightarrow> zipimporter option" where
  "find_module self fullname = fst (find_loader self fullname)"

definition zi_get_data ::
    "'code interp \<Rightarrow> file_system \<Rightarrow> zipimporter \<Rightarrow> ustring \<Rightarrow> exn + bytes" where
  "zi_get_data py fs self pathname =
     (let pre = zi_archive self @ [path_sep];
          key = (if take (length pre) pathname = pre then drop (length pre) pathname else pathname) in
      case map_of (zi_files self) key of
        None \<Rightarrow> Inl OSError
      | Some t \<Rightarrow> zip_get_data (zlib_decompress py) (file_content (fs (zi_archive self))) t)"

definition get_mtime_of_source :: "'code interp \<Rightarrow> zipimporter \<Rightarrow> ustring \<Rightarrow> exn + int" where
  "get_mtime_of_source py self path =
     (if path = [] \<or> last path \<notin> set (ustr ''co'') then Inl AssertionError
      else case map_of (zi_files self) (butlast path) of
        None \<Rightarrow> Inr 0
      | Some t \<Rightarrow> Inr (parse_dostime (mktime py) (toc_date t) (toc_time t)))"

text \<open>The code of one candidate: \<open>Inr None\<close> asks for the next one.\<close>

definition candidate_code ::
    "'code interp \<Rightarrow> file_system \<Rightarrow> zipimporter \<Rightarrow> ustring \<Rightarrow> bool \<Rightarrow> toc_entry \<Rightarrow> exn + 'code option" where
  "candidate_code py fs self fullpath isbytecode t =
     (case zip_get_data (zlib_decompress py) (file_content (fs (zi_archive self))) t of
        Inl e \<Rightarrow> Inl e
      | Inr data \<Rightarrow>
          if isbytecode then
            (case get_mtime_of_source py self fullpath of
               Inl e \<Rightarrow> Inl e
             | Inr mtime \<Rightarrow> unmarshal_code (MAGIC_NUMBER py) (check_hash_based_pycs py)
                              (marshal_loads py) data mtime)
          else map_sum id Some (compile_source (py_compile py) (toc_path t) data))"

fun search_code ::
    "'code interp \<Rightarrow> file_system \<Rightarrow> zipimporter \<Rightarrow> ustring \<Rightarrow> (ustring \<times> bool \<times> bool) list
      \<Rightarrow> exn + ('code \<times> bool \<times> ustring)" where
  "search_code py fs self path [] = Inl (ZipImportError (''can'' @ [CHR 0x27] @ ''t find module''))"
| "search_code py fs self path ((suffix, isbytecode, ispackage) # order) =
     (case map_of (zi_files self) (path @ suffix) of
        None \<Rightarrow> search_code py fs self path order
      | Some t \<Rightarrow>
          (case candidate_code py fs self (path @ suffix) isbytecode t of
             Inl e \<Rightarrow> Inl e
           | Inr None \<Rightarrow> search_code py fs self path order
           | Inr (Some code) \<Rightarrow> Inr (code, ispackage, toc_path t)))"

definition get_module_code ::
    "'code interp \<Rightarrow> file_system \<Rightarrow> zipimporter \<Rightarrow> ustring \<Rightarrow> exn + ('code \<times> bool \<times> ustring)" where
  "get_module_code py fs self fullname =
     search_code py fs self (get_module_path self fullname) zip_searchorder"

definition zi_get_code :: "'code interp \<Rightarrow> file_system \<Rightarrow> zipimporter \<Rightarrow> ustring \<Rightarrow> exn + 'code" where
  "zi_get_code py fs self fullname = map_sum id fst (get_module_code py fs self fullname)"

definition zi_get_filename :: "'code interp \<Rightarrow> file_system \<Rightarrow> zipimporter \<Rightarrow> ustring \<Rightarrow> exn + ustring" where
  "zi_get_filename py fs self fullname = map_sum id (snd \<circ> snd) (get_module_code py fs self fullname)"

definition zi_is_package :: "zipimporter \<Rightarrow> ustring \<Rightarrow> exn + bool" where
  "zi_is_package self fullname =
     (case get_module_info self fullname of
        None \<Rightarrow> Inl (ZipImportError (''can'' @ [CHR 0x27] @ ''t find module''))
      | Some b \<Rightarrow> Inr b)"

text \<open>\<^verbatim>\<open>get_source\<close>: the bytes are decoded as UTF-8; \<open>Inr None\<close> is a module without source.\<close>

definition zi_get_source ::
    "'code interp \<Rightarrow> file_system \<Rightarrow> zipimporter \<Rightarrow> ustring \<Rightarrow> exn + ustring option" where
  "zi_get_source py fs self fullname =
     (case get_module_info self fullname of
        None \<Rightarrow> Inl (ZipImportError (''can'' @ [CHR 0x27] @ ''t find module''))
      | Some mi \<Rightarrow>
          let path = get_module_path self fullname;
              fullpath = (if mi then path_join [path, ustr ''__init__.py''] else path @ ustr ''.py'') in
          (case map_of (zi_files self) fullpath of
             None \<Rightarrow> Inr None
           | Some t \<Rightarrow>
               (case zip_get_data (zlib_decompress py) (file_content (fs (zi_archive self))) t of
                  Inl e \<Rightarrow> Inl e
                | Inr data \<Rightarrow>
                    (case utf8_decode (map unat data) of
                       None \<Rightarrow> Inl UnicodeDecodeError
                     | Some s \<Rightarrow> Inr (Some s)))))"

section \<open>Loading a module\<close>

text \<open>
  An entry of \<^verbatim>\<open>sys.modules\<close>. \<open>mod_is_module\<close> says whether it is a module object (anything
  can be stored there); \<open>mod_loader\<close> is the archive of its loader. Of its attributes the program
  asks whether they are classes and subclasses of \<^verbatim>\<open>Plugin\<close>.
\<close>

datatype pyattr = PluginClass string | OtherClass | NotAClass

record pymodule =
  mod_is_module :: bool
  mod_attrs :: "(string, pyattr) dict"
  mod_loader :: "ustring option"
  mod_path :: "ustring list option"
  mod_file :: "ustring option"

type_synonym sys_modules = "(ustring, pymodule) dict"

definition new_module :: pymodule where
  "new_module = \<lparr>mod_is_module = True, mod_attrs = [], mod_loader = None, mod_path = None, mod_file = None\<rparr>"

definition load_module ::
    "'code interp \<Rightarrow> ('code \<Rightarrow> ustring \<Rightarrow> sys_modules \<Rightarrow> exn option \<times> sys_modules)
      \<Rightarrow> file_system \<Rightarrow> zipimporter \<Rightarrow> ustring \<Rightarrow> sys_modules \<Rightarrow> (sys_modules, pymodule) res" where
  "load_module py exec fs self fullname modules =
     (case get_module_code py fs self fullname of
        Inl e \<Rightarrow> Raise e modules
      | Inr (code, ispackage, modpath) \<Rightarrow>
          let mdl = (case map_of modules fullname of
                       Some m \<Rightarrow> if mod_is_module m then m else new_module
                     | None \<Rightarrow> new_module);
              mdl = mdl\<lparr>mod_loader := Some (zi_archive self)\<rparr>;
              mdl = (if ispackage
                     then mdl\<lparr>mod_path := Some [path_join [zi_archive self, get_module_path self fullname]]\<rparr>
                     else mdl);
              mdl = mdl\<lparr>mod_file := Some modpath\<rparr> in
          (case exec code fullname (dict_set fullname mdl modules) of
             (Some e, modules') \<Rightarrow>
               if in_dict fullname modules' then Raise e (dict_del fullname modules')
               else Raise KeyError modules'
           | (None, modules') \<Rightarrow>
               (case map_of modules' fullname of
                  None \<Rightarrow> Raise (ImportError ''Loaded module not found in sys.modules'') modules'
                | Some m \<Rightarrow> Ok m modules')))"

section \<open>Resources\<close>

definition resource_name :: "ustring \<Rightarrow> ustring \<Rightarrow> ustring" where
  "resource_name fullname resource =
     map (\<lambda>c. if c = 46 then 47 else c) fullname @ 47 # resource"

definition is_os_error :: "exn \<Rightarrow> bool" where
  "is_os_error e \<longleftrightarrow> e = OSError \<or> e = FileNotFoundError"

definition open_resource ::
    "'code interp \<Rightarrow> file_system \<Rightarrow> zipimporter \<Rightarrow> ustring \<Rightarrow> ustring \<Rightarrow> exn + bytes" where
  "open_resource py fs self fullname resource =
     (case zi_get_data py fs self (resource_name fullname resource) of
        Inr data \<Rightarrow> Inr data
      | Inl e \<Rightarrow> if is_os_error e then Inl FileNotFoundError else Inl e)"

definition is_resource ::
    "'code interp \<Rightarrow> file_system \<Rightarrow> zipimporter \<Rightarrow> ustring \<Rightarrow> ustring \<Rightarrow> exn + bool" where
  "is_resource py fs self fullname name =
     (case zi_get_data py fs self (resource_name fullname name) of
        Inr data \<Rightarrow> Inr True
      | Inl e \<Rightarrow> if is_os_error e then Inr False else Inl e)"

text \<open>The parts of a \<^verbatim>\<open>pathlib.Path\<close>: the root, if any, and the names without \<^verbatim>\<open>.\<close>.\<close>

fun usplit :: "ustring \<Rightarrow> ustring list" where
  "usplit [] = [[]]"
| "usplit (x # xs) =
     (if x = path_sep then [] # usplit xs else (x # hd (usplit xs)) # tl (usplit xs))"

definition path_root :: "ustring \<Rightarrow> ustring list" where
  "path_root s =
     (let n = length (takeWhile (\<lambda>c. c = path_sep) s) in
      if n = 0 then [] else if n = 2 then [[path_sep, path_sep]] else [[path_sep]])"

definition path_parts :: "ustring \<Rightarrow> ustring list" where
  "path_parts s = path_root s @ filter (\<lambda>p. p \<noteq> [] \<and> p \<noteq> ustr ''.'') (usplit s)"

text \<open>\<^verbatim>\<open>relative_to\<close>; \<open>None\<close> is the \<^verbatim>\<open>ValueError\<close>.\<close>

definition relative_to :: "ustring list \<Rightarrow> ustring list \<Rightarrow> ustring list option" where
  "relative_to p base = (if take (length base) p = base then Some (drop (length base) p) else None)"

text \<open>The loop of \<^verbatim>\<open>contents\<close> over the names of the archive.\<close>

fun contents_loop :: "ustring list \<Rightarrow> ustring list \<Rightarrow> ustring list \<Rightarrow> ustring list" where
  "contents_loop package_path subdirs_seen [] = []"
| "contents_loop package_path subdirs_seen (filename # names) =
     (case relative_to (path_parts filename) package_path of
        None \<Rightarrow> contents_loop package_path subdirs_seen names
      | Some rel \<Rightarrow>
          if length rel \<le> 1
          then (if rel = [] then [] else last rel) # contents_loop package_path subdirs_seen names
          else let parent_name = last (butlast rel) in
            if parent_name \<in> set subdirs_seen
            then contents_loop package_path subdirs_seen names
            else parent_name # contents_loop package_path (parent_name # subdirs_seen) names)"

definition resource_contents ::
    "'code interp \<Rightarrow> file_system \<Rightarrow> zipimporter \<Rightarrow> ustring \<Rightarrow> exn + ustring list" where
  "resource_contents py fs self fullname =
     (case zi_get_filename py fs self fullname of
        Inl e \<Rightarrow> Inl e
      | Inr filename \<Rightarrow>
          (case relative_to (path_parts filename) (path_parts (zi_archive self)) of
             None \<Rightarrow> Inl (ValueError ''not in the subpath'')
           | Some rel \<Rightarrow>
               if rel = [] \<or> last rel \<noteq> ustr ''__init__.py'' then Inl AssertionError
               else Inr (contents_loop (butlast rel) [] (map fst (zi_files self)))))"

definition get_resource_reader :: "zipimporter \<Rightarrow> ustring \<Rightarrow> (zipimporter \<times> ustring) option" where
  "get_resource_reader self fullname =
     (case zi_is_package self fullname of Inr True \<Rightarrow> Some (self, fullname) | _ \<Rightarrow> None)"

section \<open>Finding the archive\<close>

lemma path_split_join:
  "path_sep \<in> set path \<Longrightarrow> fst (path_split path) @ path_sep # snd (path_split path) = path"
proof -
  assume sep: "path_sep \<in> set path"
  let ?d = "dropWhile (\<lambda>c. c \<noteq> path_sep) (rev path)"
  have ne: "?d \<noteq> []" using sep by (auto simp: dropWhile_eq_Nil_conv)
  then have d: "?d = path_sep # tl ?d" using hd_dropWhile [OF ne] by (metis list.collapse)
  have "path = rev (takeWhile (\<lambda>c. c \<noteq> path_sep) (rev path) @ ?d)" by simp
  also have "\<dots> = rev (tl ?d) @ path_sep # rev (takeWhile (\<lambda>c. c \<noteq> path_sep) (rev path))"
    by (subst d) simp
  finally show ?thesis using sep by (simp add: path_split_def)
qed

lemma ujoin_Cons: "xs \<noteq> [] \<Longrightarrow> ujoin (x # xs) = x @ path_sep # ujoin xs"
  by (cases xs) auto

text \<open>
  The paths the loop tries: the first existing one ends it, and they are all rejoined to
  the given path. \<open>stat\<close> of the empty path fails.
\<close>

lemma find_archive_sound:
  assumes "find_archive fs path prefix = Inr (archive, parts)" and "fs [] = Missing"
  shows "(\<exists>c. fs archive = Regular c) \<and> ujoin (archive # rev parts) = ujoin (path # rev prefix)
     \<and> archive \<noteq> []"
  using assms
proof (induction fs path prefix rule: find_archive.induct)
  case (1 fs path prefix)
  show ?case
  proof (cases "fs path")
    case Missing
    then have step: "fst (path_split path) \<noteq> path"
      "find_archive fs (fst (path_split path)) (prefix @ [snd (path_split path)]) = Inr (archive, parts)"
      using 1(2) by (auto simp: find_archive.simps [of fs path] split: if_splits)
    have "path_sep \<in> set path"
    proof (rule ccontr)
      assume "path_sep \<notin> set path"
      then have "fst (path_split path) = []" "path_split [] = ([], [])" by (simp_all add: path_split_def)
      with step(2) 1(3) show False by (simp add: find_archive.simps [of fs "[]"])
    qed
    from path_split_join [OF this] 1(1) [OF Missing step 1(3)] show ?thesis
      by (cases "prefix = []") (auto simp: ujoin_Cons)
  next
    case (Regular c)
    then show ?thesis using 1(2,3) by (auto simp: find_archive.simps [of fs path])
  qed (use 1(2) in \<open>simp add: find_archive.simps [of fs path]\<close>)
qed

text \<open>
  Finding the archive. The loop of the importer's constructor ends for every path, and
  when it finds an archive, that is a regular file whose path followed by the remaining
  elements is the given path.
\<close>

theorem archive_found:
  assumes "find_archive fs path [] = Inr (archive, parts)" and "fs [] = Missing"
  shows "(\<exists>c. fs archive = Regular c) \<and> archive \<noteq> [] \<and> ujoin (archive # rev parts) = path"
  using find_archive_sound [OF assms] by simp

definition one_file :: "ustring \<Rightarrow> bytes \<Rightarrow> file_system" where
  "one_file name c = (\<lambda>p. if p = name then Regular (Some c) else Missing)"

theorem archive_found_witness:
  "find_archive (one_file (ustr ''/a.mbp'') []) (ustr ''/a.mbp/b/c'') [] =
     Inr (ustr ''/a.mbp'', [ustr ''c'', ustr ''b'']) \<and>
   ujoin (ustr ''/a.mbp'' # rev [ustr ''c'', ustr ''b'']) = ustr ''/a.mbp/b/c''"
proof -
  have run: "find_archive (one_file (ustr ''/a.mbp'') []) (ustr ''/a.mbp/b/c'') [] =
     Inr (ustr ''/a.mbp'', [ustr ''c'', ustr ''b''])"
    by (simp add: find_archive.simps one_file_def path_split_def ustr_def path_sep_def)
  have "one_file (ustr ''/a.mbp'') [] [] = Missing" by (simp add: one_file_def ustr_def)
  with run archive_found [OF run] show ?thesis by blast
qed

section \<open>The directory cache\<close>

text \<open>Every cached directory is what reading the file now would give.\<close>

definition coherent :: "file_system \<Rightarrow> directory_cache \<Rightarrow> bool" where
  "coherent fs cache \<longleftrightarrow>
     (\<forall>(a, files) \<in> set cache. read_directory a (file_content (fs a)) = Inr files)"

lemma coherentD:
  "coherent fs cache \<Longrightarrow> map_of cache a = Some files \<Longrightarrow> read_directory a (file_content (fs a)) = Inr files"
  unfolding coherent_def by (drule map_of_SomeD) fastforce

lemma coherent_set:
  "coherent fs cache \<Longrightarrow> read_directory a (file_content (fs a)) = Inr files \<Longrightarrow>
   coherent fs (dict_set a files cache)"
  using set_dict_set_subset [of a files cache] by (fastforce simp: coherent_def)

lemma coherent_del_changed: "coherent fs cache \<Longrightarrow> coherent (fs(a := node)) (dict_del a cache)"
  by (auto simp: coherent_def dict_del_def)

lemma coherent_set_changed:
  assumes "coherent fs cache" and "dict_ok cache"
    and "read_directory a (file_content node) = Inr files"
  shows "coherent (fs(a := node)) (dict_set a files cache)"
proof -
  have "dict_ok (dict_set a files cache)" using assms(2) by simp
  then have "(x, f) \<in> set (dict_set a files cache) \<Longrightarrow> map_of (dict_set a files cache) x = Some f" for x f
    by (metis dict_ok_def map_of_is_SomeI)
  then show ?thesis
    using assms(1,3) by (fastforce simp: coherent_def dest: map_of_SomeD split: if_splits)
qed

text \<open>A new importer either takes the cached directory or reads it and stores it.\<close>

lemma zipimporter_init_cases:
  assumes "zipimporter_init fs path cache = Inr (zi, cache')"
  shows "map_of cache (zi_archive zi) = Some (zi_files zi) \<and> cache' = cache
    \<or> read_directory (zi_archive zi) (file_content (fs (zi_archive zi))) = Inr (zi_files zi)
       \<and> cache' = dict_set (zi_archive zi) (zi_files zi) cache"
proof -
  from assms obtain archive prefix where found: "find_archive fs path [] = Inr (archive, prefix)"
    by (auto simp: zipimporter_init_def split: if_splits sum.splits)
  show ?thesis
  proof (cases "map_of cache archive")
    case None
    with assms found show ?thesis
      by (auto simp: zipimporter_init_def Let_def split: if_splits sum.splits)
  next
    case (Some files)
    with assms found show ?thesis by (auto simp: zipimporter_init_def Let_def split: if_splits)
  qed
qed

lemma zipimporter_init_coherent:
  assumes "zipimporter_init fs path cache = Inr (zi, cache')" and "coherent fs cache" and "dict_ok cache"
  shows "read_directory (zi_archive zi) (file_content (fs (zi_archive zi))) = Inr (zi_files zi)
     \<and> coherent fs cache' \<and> dict_ok cache'"
  using zipimporter_init_cases [OF assms(1)] assms(2,3) coherentD coherent_set dict_ok_set by metis

text \<open>
  The directory cache. As long as the cache agrees with the files, a new importer has the
  directory of its archive as the file is now, and the cache stays in agreement. When an
  archive is replaced, dropping it from the cache or resetting the importer restores the
  agreement, and a reset importer has the new directory.
\<close>

theorem directory_cache_coherent:
  assumes "coherent fs cache" and "dict_ok cache"
  shows "(\<forall>path zi cache'. zipimporter_init fs path cache = Inr (zi, cache') \<longrightarrow>
            read_directory (zi_archive zi) (file_content (fs (zi_archive zi))) = Inr (zi_files zi)
            \<and> coherent fs cache' \<and> dict_ok cache')
       \<and> coherent (fs(zi_archive self := node)) (remove_cache self cache)
       \<and> (\<forall>zi cache'. reset_cache (fs(zi_archive self := node)) self cache = Inr (zi, cache') \<longrightarrow>
            read_directory (zi_archive self) (file_content node) = Inr (zi_files zi)
            \<and> coherent (fs(zi_archive self := node)) cache' \<and> dict_ok cache')"
proof (intro conjI allI impI)
  fix zi cache'
  assume "reset_cache (fs(zi_archive self := node)) self cache = Inr (zi, cache')"
  then show "read_directory (zi_archive self) (file_content node) = Inr (zi_files zi)"
    "coherent (fs(zi_archive self := node)) cache'" "dict_ok cache'"
    using assms by (auto simp: reset_cache_def intro: coherent_set_changed split: sum.splits)
qed (use assms zipimporter_init_coherent in \<open>auto simp: remove_cache_def coherent_del_changed\<close>)

theorem directory_cache_coherent_witness:
  "\<exists>zi cache'. zipimporter_init (one_file (ustr ''/a'') (write_archive [])) (ustr ''/a'') [] = Inr (zi, cache')
     \<and> read_directory (ustr ''/a'') (Some (write_archive [])) = Inr (zi_files zi)
     \<and> coherent (one_file (ustr ''/a'') (write_archive [])) cache'"
proof -
  define fs where "fs = one_file (ustr ''/a'') (write_archive [])"
  have "read_directory (ustr ''/a'') (Some (write_archive [])) = Inr []"
    using read_directory_write [of "[]" "ustr ''/a''" "[]"] by (simp add: write_archive_def Let_def)
  then obtain zi cache' where run: "zipimporter_init fs (ustr ''/a'') [] = Inr (zi, cache')"
    "zi_archive zi = ustr ''/a''"
    by (simp add: zipimporter_init_def find_archive.simps fs_def one_file_def ustr_def path_join_def)
  have "coherent fs []" by (simp add: coherent_def)
  note ok = directory_cache_coherent [OF this dict_ok_Nil]
  have "file_content (fs (ustr ''/a'')) = Some (write_archive [])" by (simp add: fs_def one_file_def)
  with conjunct1 [OF ok, rule_format, OF run(1)] run show ?thesis
    unfolding fs_def [symmetric] by auto
qed

section \<open>Searching and loading\<close>

lemma search_info_None:
  "search_info self path order = None \<Longrightarrow>
   search_code py fs self path order = Inl (ZipImportError (''can'' @ [CHR 0x27] @ ''t find module''))"
  by (induction self path order rule: search_info.induct) (auto simp: in_dict_def split: if_splits)

lemma search_code_Inr:
  "search_code py fs self path order = Inr (code, ispackage, modpath) \<Longrightarrow>
   \<exists>suffix isbytecode t. (suffix, isbytecode, ispackage) \<in> set order
     \<and> map_of (zi_files self) (path @ suffix) = Some t \<and> modpath = toc_path t
     \<and> candidate_code py fs self (path @ suffix) isbytecode t = Inr (Some code)"
proof (induction order)
  case (Cons c order)
  obtain suffix isbytecode pkg where c: "c = (suffix, isbytecode, pkg)" by (metis surj_pair)
  consider "search_code py fs self path order = Inr (code, ispackage, modpath)"
    | t where "map_of (zi_files self) (path @ suffix) = Some t"
        "candidate_code py fs self (path @ suffix) isbytecode t = Inr (Some code)"
        "pkg = ispackage" "modpath = toc_path t"
    using Cons.prems by (auto simp: c split: option.splits sum.splits)
  then show ?case
  proof cases
    case 1
    then show ?thesis using Cons.IH by (meson list.set_intros(2))
  next
    case 2
    then show ?thesis unfolding c by (intro exI [of _ suffix] exI [of _ isbytecode] exI [of _ t]) simp
  qed
qed simp

lemma search_code_found: "search_code py fs self path order = Inr r \<Longrightarrow> search_info self path order \<noteq> None"
  using search_info_None [of self path order py fs] by auto

text \<open>A source candidate is never skipped.\<close>

lemma search_code_source:
  assumes "map_of (zi_files self) (path @ suffix) = Some t"
  shows "search_code py fs self path ((suffix, False, ispackage) # order) =
     map_sum id (\<lambda>code. (code, ispackage, toc_path t))
       (case zip_get_data (zlib_decompress py) (file_content (fs (zi_archive self))) t of
          Inl e \<Rightarrow> Inl e
        | Inr data \<Rightarrow> py_compile py (toc_path t) (normalize_line_endings data))"
proof (cases "zip_get_data (zlib_decompress py) (file_content (fs (zi_archive self))) t")
  case (Inr data)
  then show ?thesis
    by (cases "py_compile py (toc_path t) (normalize_line_endings data)")
      (simp_all add: assms candidate_code_def compile_source_def)
qed (simp add: assms candidate_code_def)

lemma search_code_absent:
  "map_of (zi_files self) (path @ suffix) = None \<Longrightarrow>
   search_code py fs self path ((suffix, isbytecode, ispackage) # order) = search_code py fs self path order"
  by simp

text \<open>Without compiled files a module that is found is compiled from its source.\<close>

lemma source_module_code:
  fixes self :: zipimporter and fullname :: ustring
  defines "path \<equiv> get_module_path self fullname"
  assumes nopyc: "\<forall>(suffix, isbytecode, _) \<in> set zip_searchorder. isbytecode \<longrightarrow> \<not> in_dict (path @ suffix) (zi_files self)"
    and found: "find_module self fullname = Some self"
  shows "\<exists>pkg t. zi_is_package self fullname = Inr pkg
      \<and> map_of (zi_files self) (path @ (if pkg then path_sep # ustr ''__init__.py'' else ustr ''.py'')) = Some t
      \<and> get_module_code py fs self fullname =
          map_sum id (\<lambda>code. (code, pkg, toc_path t))
            (case zip_get_data (zlib_decompress py) (file_content (fs (zi_archive self))) t of
               Inl e \<Rightarrow> Inl e
             | Inr data \<Rightarrow> py_compile py (toc_path t) (normalize_line_endings data))"
proof -
  have pyc: "map_of (zi_files self) (path @ path_sep # ustr ''__init__.pyc'') = None"
    "map_of (zi_files self) (path @ ustr ''.pyc'') = None"
    using nopyc by (auto simp: zip_searchorder_def in_dict_def)
  have info: "get_module_info self fullname \<noteq> None"
    using found by (auto simp: find_module_def find_loader_def Let_def split: if_splits)
  define pkg where "pkg \<longleftrightarrow> in_dict (path @ path_sep # ustr ''__init__.py'') (zi_files self)"
  obtain t where t: "map_of (zi_files self)
      (path @ (if pkg then path_sep # ustr ''__init__.py'' else ustr ''.py'')) = Some t"
    "zi_is_package self fullname = Inr pkg"
    using info pyc
    by (auto simp: get_module_info_def zip_searchorder_def zi_is_package_def in_dict_def pkg_def
        path_def [symmetric] split: if_splits option.splits)
  have "get_module_code py fs self fullname =
      map_sum id (\<lambda>code. (code, pkg, toc_path t))
        (case zip_get_data (zlib_decompress py) (file_content (fs (zi_archive self))) t of
           Inl e \<Rightarrow> Inl e
         | Inr data \<Rightarrow> py_compile py (toc_path t) (normalize_line_endings data))" (is "_ = ?r")
    unfolding get_module_code_def zip_searchorder_def path_def [symmetric]
  proof (cases pkg)
    case True
    then show "search_code py fs self path
       [(path_sep # ustr ''__init__.pyc'', True, True), (path_sep # ustr ''__init__.py'', False, True),
        (ustr ''.pyc'', True, False), (ustr ''.py'', False, False)] = ?r"
      using t(1) pyc by (simp add: search_code_absent search_code_source del: search_code.simps)
  next
    case False
    then have "map_of (zi_files self) (path @ path_sep # ustr ''__init__.py'') = None"
      by (simp add: pkg_def in_dict_def)
    then show "search_code py fs self path
       [(path_sep # ustr ''__init__.pyc'', True, True), (path_sep # ustr ''__init__.py'', False, True),
        (ustr ''.pyc'', True, False), (ustr ''.py'', False, False)] = ?r"
      using False t(1) pyc by (simp add: search_code_absent search_code_source del: search_code.simps)
  qed
  with t show ?thesis by blast
qed

text \<open>
  Searching. A module whose code is found is one that \<^verbatim>\<open>find_module\<close> announces; its code
  comes from one of the four candidate files of the archive and its file name is that file's
  path. A module that is not announced cannot be loaded. In an archive without compiled
  files, an announced module is compiled from its source, the package taking precedence,
  and \<^verbatim>\<open>is_package\<close> agrees with how it is loaded.
\<close>

theorem module_search_consistent:
  fixes self :: zipimporter and fullname :: ustring
  defines "path \<equiv> get_module_path self fullname"
  shows "(\<forall>code ispackage modpath. get_module_code py fs self fullname = Inr (code, ispackage, modpath) \<longrightarrow>
            find_module self fullname = Some self
            \<and> (\<exists>suffix isbytecode t. (suffix, isbytecode, ispackage) \<in> set zip_searchorder
                 \<and> map_of (zi_files self) (path @ suffix) = Some t \<and> modpath = toc_path t
                 \<and> candidate_code py fs self (path @ suffix) isbytecode t = Inr (Some code)))
       \<and> (find_module self fullname = None \<longrightarrow> (\<exists>m. get_module_code py fs self fullname = Inl (ZipImportError m)))
       \<and> ((\<forall>(suffix, isbytecode, _) \<in> set zip_searchorder. isbytecode \<longrightarrow> \<not> in_dict (path @ suffix) (zi_files self)) \<longrightarrow>
          find_module self fullname = Some self \<longrightarrow>
          (\<exists>pkg t. zi_is_package self fullname = Inr pkg
             \<and> map_of (zi_files self) (path @ (if pkg then path_sep # ustr ''__init__.py'' else ustr ''.py'')) = Some t
             \<and> get_module_code py fs self fullname =
                 map_sum id (\<lambda>code. (code, pkg, toc_path t))
                   (case zip_get_data (zlib_decompress py) (file_content (fs (zi_archive self))) t of
                      Inl e \<Rightarrow> Inl e
                    | Inr data \<Rightarrow> py_compile py (toc_path t) (normalize_line_endings data))))"
proof (intro conjI allI impI)
  fix code ispackage modpath
  assume run: "get_module_code py fs self fullname = Inr (code, ispackage, modpath)"
  then show "find_module self fullname = Some self"
    using search_code_found
    by (fastforce simp: get_module_code_def find_module_def find_loader_def get_module_info_def)
  show "\<exists>suffix isbytecode t. (suffix, isbytecode, ispackage) \<in> set zip_searchorder
      \<and> map_of (zi_files self) (path @ suffix) = Some t \<and> modpath = toc_path t
      \<and> candidate_code py fs self (path @ suffix) isbytecode t = Inr (Some code)"
    using search_code_Inr [OF run [unfolded get_module_code_def]] by (simp add: path_def)
next
  assume "find_module self fullname = None"
  then have "search_info self path zip_searchorder = None"
    by (auto simp: find_module_def find_loader_def get_module_info_def path_def split: if_splits)
  then show "\<exists>m. get_module_code py fs self fullname = Inl (ZipImportError m)"
    by (auto simp: get_module_code_def path_def dest: search_info_None)
qed (use source_module_code [of self fullname py fs] in \<open>simp add: path_def\<close>)

text \<open>
  Loading. When loading a module succeeds, the result is what \<^verbatim>\<open>sys.modules\<close> then holds under
  its name; when running its code fails, the name is not left behind. A module that
  cannot be found leaves \<^verbatim>\<open>sys.modules\<close> as it was.
\<close>

theorem load_module_atomic:
  "(\<forall>m modules'. load_module py exec fs self fullname modules = Ok m modules' \<longrightarrow>
      map_of modules' fullname = Some m)
   \<and> (\<forall>e modules'. load_module py exec fs self fullname modules = Raise e modules' \<longrightarrow>
      modules' = modules \<and> get_module_code py fs self fullname = Inl e
      \<or> map_of modules' fullname = None)"
  unfolding load_module_def
  by (auto simp: Let_def in_dict_def split: sum.splits prod.splits option.splits if_splits)

section \<open>Compiled modules and times\<close>

text \<open>
  C37. Stale compiled files. A compiled module is used only if it carries the interpreter's magic
  number and, unless it is hash-based, its time stamp is within one second of the time
  stamp of the source in the archive (when there is one).
\<close>

theorem stale_bytecode_rejected:
  assumes "candidate_code py fs self fullpath True t = Inr (Some code)"
  shows "\<exists>data. zip_get_data (zlib_decompress py) (file_content (fs (zi_archive self))) t = Inr data
     \<and> 16 \<le> length data \<and> take 4 data = MAGIC_NUMBER py
     \<and> marshal_loads py (drop 16 data) = Inr (Some code)
     \<and> (u32 data 4 = 0 \<longrightarrow> (\<forall>src. map_of (zi_files self) (butlast fullpath) = Some src \<longrightarrow>
          (let mtime = parse_dostime (mktime py) (toc_date src) (toc_time src) in
           mtime = 0 \<or> \<bar>int (u32 data 8) - mtime\<bar> \<le> 1)))"
proof -
  from assms obtain data where data:
    "zip_get_data (zlib_decompress py) (file_content (fs (zi_archive self))) t = Inr data"
    by (auto simp: candidate_code_def split: sum.splits)
  from assms data obtain mt where mt: "get_mtime_of_source py self fullpath = Inr mt"
    and code: "unmarshal_code (MAGIC_NUMBER py) (check_hash_based_pycs py) (marshal_loads py) data mt
       = Inr (Some code)"
    by (auto simp: candidate_code_def split: sum.splits)
  have "mt = parse_dostime (mktime py) (toc_date src) (toc_time src)"
    if "map_of (zi_files self) (butlast fullpath) = Some src" for src
    using mt that by (auto simp: get_mtime_of_source_def split: if_splits)
  with data code show ?thesis
    by (auto simp: unmarshal_code_def eq_mtime_def Let_def split: if_splits sum.splits option.splits)
qed

lemma pack_div_mod: "r < k \<Longrightarrow> (a * k + r) div k = a" "r < k \<Longrightarrow> (a * k + r) mod k = r" for a k r :: nat
  by simp_all

text \<open>
  DOS time stamps. Packing a date and a time into the 16-bit fields of an archive and
  reading them back gives the same fields, seconds being kept in steps of two.
\<close>

theorem dostime_roundtrip:
  assumes "year < 128" and "month < 16" and "day < 32"
    and "hours < 32" and "minutes < 64" and "half < 32"
  shows "dostime_fields (year * 2 ^ 9 + month * 2 ^ 5 + day) (hours * 2 ^ 11 + minutes * 2 ^ 5 + half) =
     \<lparr>dt_year = year + 1980, dt_month = month, dt_day = day,
      dt_hours = hours, dt_minutes = minutes, dt_seconds = 2 * half\<rparr>"
proof -
  have "month * 32 + day < 512" "minutes * 32 + half < 2048" using assms by simp_all
  then have date: "(year * 512 + month * 32 + day) div 512 = year" "(year * 512 + month * 32 + day) mod 512 = month * 32 + day"
    and time: "(hours * 2048 + minutes * 32 + half) div 2048 = hours"
    by (simp_all add: pack_div_mod add.assoc)
  have date2: "(year * 512 + month * 32 + day) div 32 = year * 16 + month" "(year * 512 + month * 32 + day) mod 32 = day"
    using pack_div_mod [OF assms(3), of "year * 16 + month"] by (simp_all add: algebra_simps)
  have time2: "(hours * 2048 + minutes * 32 + half) div 32 = hours * 64 + minutes" "(hours * 2048 + minutes * 32 + half) mod 32 = half"
    using pack_div_mod [OF assms(6), of "hours * 64 + minutes"] by (simp_all add: algebra_simps)
  show ?thesis unfolding dostime_fields_def
    using assms by (simp add: date date2 time time2 pack_div_mod)
qed

theorem dostime_roundtrip_witness:
  "dostime_fields (44 * 2 ^ 9 + 5 * 2 ^ 5 + 17) (13 * 2 ^ 11 + 37 * 2 ^ 5 + 15) =
     \<lparr>dt_year = 2024, dt_month = 5, dt_day = 17, dt_hours = 13, dt_minutes = 37, dt_seconds = 30\<rparr>"
  using dostime_roundtrip [of 44 5 17 13 37 15] by simp

text \<open>
  Resources. \<^verbatim>\<open>is_resource\<close> tells exactly whether opening the resource succeeds, and a resource
  that is denied is a missing file; both fail with the same error on a broken archive.
\<close>

theorem resource_agreement:
  "(is_resource py fs self fullname name = Inr True \<longleftrightarrow> (\<exists>data. open_resource py fs self fullname name = Inr data))
   \<and> (is_resource py fs self fullname name = Inr False \<longleftrightarrow> open_resource py fs self fullname name = Inl FileNotFoundError)"
  by (auto simp: is_resource_def open_resource_def is_os_error_def split: sum.splits)

section \<open>A small archive\<close>

text \<open>An interpreter whose code objects are byte strings, and an archive with two modules.\<close>

definition ex_py :: "bytes interp" where
  "ex_py = \<lparr>MAGIC_NUMBER = [1, 2, 3, 4], check_hash_based_pycs = ''default'',
     marshal_loads = (\<lambda>d. Inr (Some d)), py_compile = (\<lambda>p s. Inr s),
     mktime = (\<lambda>d. int (dt_day d)), zlib_decompress = None\<rparr>"

definition ex_members :: "member list" where
  "ex_members =
     [\<lparr>m_name = ascii_bytes ''m/__init__.py'', m_data = [120, 13, 10], m_time = 0, m_date = 33, m_crc = 0\<rparr>,
      \<lparr>m_name = ascii_bytes ''n.pyc'', m_data = [1, 2, 3, 4, 0, 0, 0, 0, 2, 0, 0, 0, 0, 0, 0, 0, 7],
       m_time = 0, m_date = 33, m_crc = 0\<rparr>,
      \<lparr>m_name = ascii_bytes ''n.py'', m_data = [121], m_time = 0, m_date = 33, m_crc = 0\<rparr>]"

definition ex_fs :: file_system where
  "ex_fs = one_file (ustr ''/a.mbp'') (write_archive ex_members)"

definition ex_importer :: zipimporter where
  "ex_importer = \<lparr>zi_files = toc_of (ustr ''/a.mbp'') 0 ex_members, zi_archive = ustr ''/a.mbp'', zi_prefix = []\<rparr>"

lemma ex_files:
  "map_of (zi_files ex_importer) (ustr ''m/__init__.pyc'') = None"
  "map_of (zi_files ex_importer) (ustr ''m/__init__.py'') = Some (member_toc (ustr ''/a.mbp'') 0 (ex_members ! 0))"
  "map_of (zi_files ex_importer) (ustr ''m.pyc'') = None"
  "map_of (zi_files ex_importer) (ustr ''n.pyc'') =
     Some (member_toc (ustr ''/a.mbp'') (length (local_part (ex_members ! 0))) (ex_members ! 1))"
  "map_of (zi_files ex_importer) (ustr ''n.py'') =
     Some (member_toc (ustr ''/a.mbp'') (length (local_part (ex_members ! 0)) + length (local_part (ex_members ! 1)))
       (ex_members ! 2))"
  by (simp_all add: ex_importer_def ex_members_def member_key_def ustr_def ascii_bytes_def)

lemma ex_content:
  "file_content (ex_fs (zi_archive ex_importer)) = Some (local_part (ex_members ! 0) @ local_part (ex_members ! 1)
     @ local_part (ex_members ! 2) @ central_dir 0 ex_members
     @ end_record (length (central_dir 0 ex_members)) (length (concat (map local_part ex_members))))"
proof -
  have "write_archive [a, b, c] = local_part a @ local_part b @ local_part c @ central_dir 0 [a, b, c]
     @ end_record (length (central_dir 0 [a, b, c])) (length (concat (map local_part [a, b, c])))" for a b c
    by (simp add: write_archive_def Let_def)
  from this [of "ex_members ! 0" "ex_members ! 1" "ex_members ! 2"] show ?thesis
    by (simp add: ex_fs_def one_file_def ex_importer_def ex_members_def)
qed

lemma ex_data:
  "zip_get_data None (file_content (ex_fs (zi_archive ex_importer))) (member_toc (ustr ''/a.mbp'') 0 (ex_members ! 0)) = Inr [120, 13, 10]"
  "zip_get_data None (file_content (ex_fs (zi_archive ex_importer)))
     (member_toc (ustr ''/a.mbp'') (length (local_part (ex_members ! 0))) (ex_members ! 1)) =
   Inr [1, 2, 3, 4, 0, 0, 0, 0, 2, 0, 0, 0, 0, 0, 0, 0, 7]"
proof -
  have names: "length (m_name (ex_members ! 0)) < 65536" "length (m_name (ex_members ! 1)) < 65536"
    and data: "m_data (ex_members ! 0) = [120, 13, 10]"
      "m_data (ex_members ! 1) = [1, 2, 3, 4, 0, 0, 0, 0, 2, 0, 0, 0, 0, 0, 0, 0, 7]"
    by (simp_all add: ex_members_def ascii_bytes_def)
  show "zip_get_data None (file_content (ex_fs (zi_archive ex_importer))) (member_toc (ustr ''/a.mbp'') 0 (ex_members ! 0)) = Inr [120, 13, 10]"
    using get_data_local [OF names(1), of None "[]"] unfolding ex_content data by simp
  show "zip_get_data None (file_content (ex_fs (zi_archive ex_importer)))
     (member_toc (ustr ''/a.mbp'') (length (local_part (ex_members ! 0))) (ex_members ! 1)) =
   Inr [1, 2, 3, 4, 0, 0, 0, 0, 2, 0, 0, 0, 0, 0, 0, 0, 7]"
    using get_data_local [OF names(2), of None "local_part (ex_members ! 0)"] unfolding ex_content data by simp
qed

lemma ex_paths:
  "get_module_path ex_importer (ustr ''m'') = ustr ''m''"
  "ustr ''m'' @ path_sep # ustr x = ustr (''m/'' @ x)" "ustr ''m'' @ ustr x = ustr (''m'' @ x)"
  by (simp_all add: get_module_path_def rpartition_last_def ex_importer_def ustr_def path_sep_def)

theorem module_search_consistent_witness:
  "find_module ex_importer (ustr ''m'') = Some ex_importer \<and>
   (\<exists>pkg t. zi_is_package ex_importer (ustr ''m'') = Inr pkg
      \<and> get_module_code ex_py ex_fs ex_importer (ustr ''m'') =
          map_sum id (\<lambda>code. (code, pkg, toc_path t))
            (case zip_get_data None (file_content (ex_fs (zi_archive ex_importer))) t of
               Inl e \<Rightarrow> Inl e | Inr data \<Rightarrow> Inr (normalize_line_endings data)))"
proof -
  have nopyc: "\<forall>(suffix, isbytecode, _) \<in> set zip_searchorder. isbytecode \<longrightarrow>
      \<not> in_dict (get_module_path ex_importer (ustr ''m'') @ suffix) (zi_files ex_importer)"
    by (simp add: zip_searchorder_def ex_paths in_dict_def ex_files)
  have found: "find_module ex_importer (ustr ''m'') = Some ex_importer"
    by (simp add: find_module_def find_loader_def get_module_info_def zip_searchorder_def
        ex_paths in_dict_def ex_files)
  have py: "py_compile ex_py = (\<lambda>p s. Inr s)" "zlib_decompress ex_py = None" by (simp_all add: ex_py_def)
  show ?thesis
    using conjunct2 [OF conjunct2 [OF module_search_consistent [of ex_py ex_fs ex_importer "ustr ''m''"]],
        rule_format, OF nopyc [rule_format] found] found
    unfolding py by blast
qed

lemma ex_code: "get_module_code ex_py ex_fs ex_importer (ustr ''m'') = Inr ([120, 10], True, ustr ''/a.mbp/m/__init__.py'')"
proof -
  have path: "toc_path (member_toc (ustr ''/a.mbp'') 0 (ex_members ! 0)) = ustr ''/a.mbp/m/__init__.py''"
    by (simp add: member_toc_def member_key_def ex_members_def ascii_bytes_def ustr_def path_join_def
        rstrip_sep_def path_sep_def)
  show ?thesis
    unfolding get_module_code_def zip_searchorder_def ex_paths
    by (simp add: ex_paths ex_files ex_data candidate_code_def ex_py_def compile_source_def path)
qed

theorem load_module_atomic_witness:
  "map_of (state_of (load_module ex_py (\<lambda>c n ms. (Some (RuntimeError ''boom''), ms)) ex_fs ex_importer (ustr ''m'') []))
     (ustr ''m'') = None"
proof -
  obtain ms where run: "load_module ex_py (\<lambda>c n ms. (Some (RuntimeError ''boom''), ms)) ex_fs ex_importer (ustr ''m'') []
      = Raise (RuntimeError ''boom'') ms"
    by (simp add: load_module_def ex_code Let_def in_dict_def)
  show ?thesis
    using conjunct2 [OF load_module_atomic, rule_format, OF run] by (auto simp: run ex_code)
qed

theorem stale_bytecode_rejected_witness:
  "candidate_code ex_py ex_fs ex_importer (ustr ''n.pyc'') True
     (member_toc (ustr ''/a.mbp'') (length (local_part (ex_members ! 0))) (ex_members ! 1)) = Inr (Some [7])
   \<and> (\<exists>data. take 4 data = [1, 2, 3, 4] \<and> marshal_loads ex_py (drop 16 data) = Inr (Some [7]))"
proof -
  have "get_mtime_of_source ex_py ex_importer (ustr ''n.pyc'') = Inr 1"
  proof -
    have "butlast (ustr ''n.pyc'') = ustr ''n.py''" "ustr ''n.pyc'' \<noteq> []" "last (ustr ''n.pyc'') \<in> set (ustr ''co'')"
      by (simp_all add: ustr_def)
    then show ?thesis
      by (simp add: get_mtime_of_source_def ex_files parse_dostime_def ex_py_def dostime_fields_def
          member_toc_def ex_members_def)
  qed
  then have run: "candidate_code ex_py ex_fs ex_importer (ustr ''n.pyc'') True
      (member_toc (ustr ''/a.mbp'') (length (local_part (ex_members ! 0))) (ex_members ! 1)) = Inr (Some [7])"
    by (simp add: candidate_code_def ex_data(2) [unfolded One_nat_def] ex_py_def unmarshal_code_def
        u32_def eq_mtime_def)
  have "MAGIC_NUMBER ex_py = [1, 2, 3, 4]" by (simp add: ex_py_def)
  with stale_bytecode_rejected [OF run] run show ?thesis by metis
qed

end
