(* ===== verification/MB_Loader.thy ===== *)
theory MB_Loader
  imports MB_Zipimporter
begin

text \<open>
  Plugin loaders: \<^verbatim>\<open>maubot/loader/abc.py\<close>, \<^verbatim>\<open>meta.py\<close> and \<^verbatim>\<open>zip.py\<close>. A loader is an object on a heap
  (\<open>loaders\<close>, addressed by index); the class attributes \<^verbatim>\<open>id_cache\<close> and \<^verbatim>\<open>path_cache\<close> map to
  addresses. The importer, the directory cache and \<^verbatim>\<open>sys.modules\<close> are those of
  \<^verbatim>\<open>MB_Zipimporter\<close>. A method runs on the pair of the object's own fields and the world, so that
  the fields it has set before it raises are kept.

  \<^verbatim>\<open>ZipFile\<close>, the YAML parser, the deserialiser of the plugin definition and the comparison of
  versions are fields of \<open>loader_env\<close>, as is running a code object.
\<close>

section \<open>Data\<close>

datatype database_type = SQLALCHEMY | ASYNCPG | OtherDatabase string

record plugin_meta =
  meta_id :: string
  meta_version :: string
  meta_modules :: "string list"
  meta_main_class :: string
  meta_maubot :: string
  meta_database :: bool
  meta_database_type :: database_type
  meta_config :: bool
  meta_webapp :: bool

text \<open>With the patterns that only builds and the standalone mode look at.\<close>

record full_meta = plugin_meta +
  extra_files :: "string list"

fun database_type_value :: "database_type \<Rightarrow> string" where
  "database_type_value SQLALCHEMY = ''sqlalchemy''"
| "database_type_value ASYNCPG = ''asyncpg''"
| "database_type_value (OtherDatabase s) = s"

definition database_type_str :: "plugin_meta \<Rightarrow> string option" where
  "database_type_str m =
     (if meta_database m then Some (database_type_value (meta_database_type m)) else None)"

text \<open>An open \<^verbatim>\<open>ZipFile\<close>: its file list and its \<^verbatim>\<open>read\<close> method.\<close>

record zip_file =
  zf_filelist :: "string list"
  zf_read :: "string \<Rightarrow> exn + bytes"

record ('yaml, 'code) loader_env =
  le_py :: "'code interp"
  le_exec :: "'code \<Rightarrow> ustring \<Rightarrow> sys_modules \<Rightarrow> exn option \<times> sys_modules"
  le_co_names :: "'code \<Rightarrow> string list"
  le_ZipFile :: "bytes option \<Rightarrow> exn + zip_file"
  le_yaml_load :: "bytes \<Rightarrow> exn + 'yaml"
  le_deserialize :: "'yaml \<Rightarrow> exn + plugin_meta"
  le_newer_than_current :: "string \<Rightarrow> bool"
  le_abspath :: "ustring \<Rightarrow> ustring"
  le_listdir :: "file_system \<Rightarrow> ustring \<Rightarrow> ustring list"
  le_can_rename :: "ustring \<Rightarrow> bool"
  le_time :: ustring
  trash_path :: ustring
  directories :: "ustring list"

text \<open>
  A Python set of plugin instances: the address of each element with the id it had when it
  was added, because the set finds elements by the hash they had then.
\<close>

type_synonym refs = "(string \<times> nat) list"

record loader =
  l_path :: "ustring option"
  l_meta :: "plugin_meta option"
  l_main_class :: string
  l_main_module :: string
  l_loaded :: "string option"
  l_importer :: "zipimporter option"
  l_file :: "zip_file option"
  l_references :: refs

record lworld =
  loaders :: "loader list"
  id_cache :: "(string, nat) dict"
  path_cache :: "(ustring, nat) dict"
  dir_cache :: directory_cache
  modules :: sys_modules
  fs :: file_system

section \<open>Reading the plugin definition\<close>

text \<open>\<^verbatim>\<open>ZipFile(path)\<close> of a path, or of an uploaded file.\<close>

fun open_zip :: "('y, 'c, 'm) loader_env_scheme \<Rightarrow> fnode \<Rightarrow> exn + zip_file" where
  "open_zip E Missing = Inl FileNotFoundError"
| "open_zip E NotRegular = Inl OSError"
| "open_zip E (Regular c) = le_ZipFile E c"

text \<open>The three \<^verbatim>\<open>try\<close> blocks of \<^verbatim>\<open>_read_meta\<close>.\<close>

definition open_error :: "exn \<Rightarrow> exn" where
  "open_error e =
     (case e of
        FileNotFoundError \<Rightarrow> MaubotZipMetaError ''Maubot plugin not found''
      | BadZipFile \<Rightarrow> MaubotZipMetaError ''File is not a maubot plugin''
      | KeyError \<Rightarrow> MaubotZipMetaError ''File does not contain a maubot plugin definition''
      | _ \<Rightarrow> e)"

definition yaml_error :: "exn \<Rightarrow> exn" where
  "yaml_error e =
     (case e of
        YAMLError \<Rightarrow> MaubotZipMetaError ''Maubot plugin definition file is not valid YAML''
      | KeyError \<Rightarrow> MaubotZipMetaError ''Maubot plugin definition file is not valid YAML''
      | IndexError \<Rightarrow> MaubotZipMetaError ''Maubot plugin definition file is not valid YAML''
      | ValueError _ \<Rightarrow> MaubotZipMetaError ''Maubot plugin definition file is not valid YAML''
      | UnicodeDecodeError \<Rightarrow> MaubotZipMetaError ''Maubot plugin definition file is not valid YAML''
      | _ \<Rightarrow> e)"

definition deserialize_error :: "exn \<Rightarrow> exn" where
  "deserialize_error e =
     (case e of
        SerializerError \<Rightarrow> MaubotZipMetaError ''Maubot plugin definition in file is invalid''
      | _ \<Rightarrow> e)"

definition read_meta :: "('y, 'c, 'm) loader_env_scheme \<Rightarrow> fnode \<Rightarrow> exn + (zip_file \<times> plugin_meta)" where
  "read_meta E source =
     (case open_zip E source of
        Inl e \<Rightarrow> Inl (open_error e)
      | Inr file \<Rightarrow>
     (case zf_read file ''maubot.yaml'' of
        Inl e \<Rightarrow> Inl (open_error e)
      | Inr data \<Rightarrow>
     (case le_yaml_load E data of
        Inl e \<Rightarrow> Inl (yaml_error e)
      | Inr meta_dict \<Rightarrow>
     (case le_deserialize E meta_dict of
        Inl e \<Rightarrow> Inl (deserialize_error e)
      | Inr meta \<Rightarrow>
          if le_newer_than_current E (meta_maubot meta)
          then Inl (MaubotZipMetaError (''Plugin requires maubot '' @ meta_maubot meta))
          else Inr (file, meta)))))"

definition verify_meta ::
    "('y, 'c, 'm) loader_env_scheme \<Rightarrow> fnode \<Rightarrow> exn + (string \<times> string \<times> database_type option)" where
  "verify_meta E source =
     map_sum id (\<lambda>(_, meta). (meta_id meta, meta_version meta,
       if meta_database meta then Some (meta_database_type meta) else None)) (read_meta E source)"

section \<open>Methods of a loader\<close>

type_synonym ('z, 'a) lmeth = "(loader \<times> 'z lworld_scheme, 'a) res"

text \<open>The path of a live loader; a deleted one has none, and its methods raise.\<close>

definition self_path :: "loader \<Rightarrow> ustring" where
  "self_path l = (case l_path l of Some p \<Rightarrow> p | None \<Rightarrow> [])"

definition load_meta :: "('y, 'c, 'm) loader_env_scheme \<Rightarrow> loader \<times> 'z lworld_scheme \<Rightarrow> ('z, unit) lmeth" where
  "load_meta E = (\<lambda>(l, w).
     case (if l_path l = None then Inl AttributeError else read_meta E (fs w (self_path l))) of
       Inl e \<Rightarrow> Raise e (l, w)
     | Inr (file, meta) \<Rightarrow>
         if (case l_meta l of None \<Rightarrow> False | Some m \<Rightarrow> meta_id meta \<noteq> meta_id m)
         then Raise (MaubotZipMetaError ''Maubot plugin ID changed during reload'') (l, w)
         else let l = l\<lparr>l_meta := Some meta\<rparr> in
           if CHR ''/'' \<in> set (meta_main_class meta) then
             (let parts = str_split (CHR ''/'') (meta_main_class meta) in
              Ok () (l\<lparr>l_main_module := parts ! 0, l_main_class := parts ! 1, l_file := Some file\<rparr>, w))
           else if meta_modules meta = [] then Raise IndexError (l, w)
           else Ok () (l\<lparr>l_main_module := last (meta_modules meta),
                         l_main_class := meta_main_class meta, l_file := Some file\<rparr>, w))"

definition import_error :: "exn \<Rightarrow> exn" where
  "import_error e =
     (case e of
        ZipImportError _ \<Rightarrow> MaubotZipMetaError ''File not found or not a maubot plugin''
      | _ \<Rightarrow> e)"

text \<open>\<^verbatim>\<open>_get_importer\<close>: the importer it returns is the one stored in the object.\<close>

definition get_importer ::
    "bool \<Rightarrow> loader \<times> 'z lworld_scheme \<Rightarrow> ('z, zipimporter) lmeth" where
  "get_importer reset = (\<lambda>(l, w).
     bind (case l_importer l of
             Some zi \<Rightarrow>
               if zi_archive zi = self_path l then Ok zi (l, w)
               else (case zipimporter_init (fs w) (self_path l) (dir_cache w) of
                       Inl e \<Rightarrow> Raise (import_error e) (l, w)
                     | Inr (zi, c) \<Rightarrow> Ok zi (l\<lparr>l_importer := Some zi\<rparr>, w\<lparr>dir_cache := c\<rparr>))
           | None \<Rightarrow>
               (case zipimporter_init (fs w) (self_path l) (dir_cache w) of
                  Inl e \<Rightarrow> Raise (import_error e) (l, w)
                | Inr (zi, c) \<Rightarrow> Ok zi (l\<lparr>l_importer := Some zi\<rparr>, w\<lparr>dir_cache := c\<rparr>)))
       (\<lambda>zi (l, w).
          if reset then
            (case reset_cache (fs w) zi (dir_cache w) of
               Inl e \<Rightarrow> Raise (import_error e) (l, w)
             | Inr (zi, c) \<Rightarrow> Ok zi (l\<lparr>l_importer := Some zi\<rparr>, w\<lparr>dir_cache := c\<rparr>))
          else Ok zi (l, w)))"

text \<open>\<^verbatim>\<open>importer.remove_cache()\<close> and then raising.\<close>

definition fail_uncached :: "zipimporter \<Rightarrow> exn \<Rightarrow> loader \<times> 'z lworld_scheme \<Rightarrow> ('z, 'a) lmeth" where
  "fail_uncached zi e = (\<lambda>(l, w). Raise e (l, w\<lparr>dir_cache := remove_cache zi (dir_cache w)\<rparr>))"

text \<open>
  The second loop of \<^verbatim>\<open>_run_preload_checks\<close>. \<^verbatim>\<open>find_module\<close> reports a missing module by its result,
  which the loop does not look at.
\<close>

fun check_modules ::
    "zipimporter \<Rightarrow> string list \<Rightarrow> loader \<times> 'z lworld_scheme \<Rightarrow> ('z, unit) lmeth" where
  "check_modules zi [] lw = Ok () lw"
| "check_modules zi (m # ms) lw =
     (case (Inr (find_module zi (ustr m)) :: exn + zipimporter option) of
        Inl (ZipImportError _) \<Rightarrow>
          fail_uncached zi (MaubotZipPreLoadError (''Module '' @ m @ '' not found in file'')) lw
      | Inl e \<Rightarrow> Raise e lw
      | Inr _ \<Rightarrow> check_modules zi ms lw)"

definition modules_of :: "loader \<Rightarrow> string list" where
  "modules_of l = (case l_meta l of Some m \<Rightarrow> meta_modules m | None \<Rightarrow> [])"

definition run_preload_checks ::
    "('y, 'c, 'm) loader_env_scheme \<Rightarrow> zipimporter \<Rightarrow> loader \<times> 'z lworld_scheme \<Rightarrow> ('z, unit) lmeth" where
  "run_preload_checks E zi = (\<lambda>(l, w).
     case zi_get_code (le_py E) (fs w) zi (ustr (replace_char (CHR ''.'') (CHR ''/'') (l_main_module l))) of
       Inl (ZipImportError _) \<Rightarrow>
         fail_uncached zi (MaubotZipPreLoadError (''Main module '' @ l_main_module l @ '' not found in file'')) (l, w)
     | Inl e \<Rightarrow> Raise e (l, w)
     | Inr code \<Rightarrow>
         if l_main_class l \<notin> set (le_co_names E code)
         then fail_uncached zi (MaubotZipPreLoadError
                (''Main class '' @ l_main_class l @ '' not in '' @ l_main_module l)) (l, w)
         else check_modules zi (modules_of l) (l, w))"

text \<open>The loop over \<^verbatim>\<open>meta.modules\<close> in \<^verbatim>\<open>_load\<close>.\<close>

fun load_modules ::
    "('y, 'c, 'm) loader_env_scheme \<Rightarrow> zipimporter \<Rightarrow> string list \<Rightarrow> loader \<times> 'z lworld_scheme \<Rightarrow> ('z, unit) lmeth" where
  "load_modules E zi [] lw = Ok () lw"
| "load_modules E zi (m # ms) (l, w) =
     (case load_module (le_py E) (le_exec E) (fs w) zi (ustr m) (modules w) of
        Ok _ mods \<Rightarrow> load_modules E zi ms (l, w\<lparr>modules := mods\<rparr>)
      | Raise (ZipImportError _) mods \<Rightarrow>
          fail_uncached zi (MaubotZipLoadError (''Module '' @ m @ '' not found in file'')) (l, w\<lparr>modules := mods\<rparr>)
      | Raise (SystemExit n) mods \<Rightarrow> Raise (SystemExit n) (l, w\<lparr>modules := mods\<rparr>)
      | Raise e mods \<Rightarrow>
          fail_uncached zi (MaubotZipLoadError (''Failed to load module '' @ m)) (l, w\<lparr>modules := mods\<rparr>))"

text \<open>The end of \<^verbatim>\<open>_load\<close>: finding the main class.\<close>

definition main_class_of ::
    "zipimporter \<Rightarrow> loader \<times> 'z lworld_scheme \<Rightarrow> ('z, string) lmeth" where
  "main_class_of zi = (\<lambda>(l, w).
     case map_of (modules w) (ustr (l_main_module l)) of
       None \<Rightarrow> fail_uncached zi (MaubotZipLoadError
                 (''Main module '' @ l_main_module l @ '' of plugin not found'')) (l, w)
     | Some md \<Rightarrow>
         (case map_of (mod_attrs md) (l_main_class l) of
            None \<Rightarrow> fail_uncached zi (MaubotZipLoadError
                      (''Main class '' @ l_main_class l @ '' of plugin not found'')) (l, w)
          | Some NotAClass \<Rightarrow> Raise TypeError (l, w)
          | Some OtherClass \<Rightarrow> fail_uncached zi
              (MaubotZipLoadError ''Main class of plugin does not extend maubot.Plugin'') (l, w)
          | Some (PluginClass c) \<Rightarrow> Ok c (l\<lparr>l_loaded := Some c\<rparr>, w)))"

definition load :: "('y, 'c, 'm) loader_env_scheme \<Rightarrow> bool \<Rightarrow> loader \<times> 'z lworld_scheme \<Rightarrow> ('z, string) lmeth" where
  "load E reset = (\<lambda>(l, w).
     case (if reset then None else l_loaded l) of
       Some c \<Rightarrow> Ok c (l, w)
     | None \<Rightarrow>
         bind (load_meta E (l, w)) (\<lambda>_ lw.
         bind (get_importer reset lw) (\<lambda>zi lw.
         bind (run_preload_checks E zi lw) (\<lambda>_ lw.
         bind (load_modules E zi (modules_of (fst lw)) lw) (\<lambda>_ lw.
         main_class_of zi lw)))))"

definition unload :: "loader \<times> 'z lworld_scheme \<Rightarrow> ('z, unit) lmeth" where
  "unload = (\<lambda>(l, w).
     case l_path l of
       None \<Rightarrow> Raise TypeError (l, w)
     | Some p \<Rightarrow>
         Ok () (l\<lparr>l_loaded := None\<rparr>,
           w\<lparr>modules := filter (\<lambda>(n, m). \<not> (case mod_file m of Some f \<Rightarrow> take (length p) f = p
                                             | None \<Rightarrow> p = [])) (modules w)\<rparr>))"

text \<open>\<^verbatim>\<open>reload\<close> of the loader at address \<open>a\<close>.\<close>

definition reload ::
    "('y, 'c, 'm) loader_env_scheme \<Rightarrow> nat \<Rightarrow> ustring option \<Rightarrow> loader \<times> 'z lworld_scheme \<Rightarrow> ('z, string) lmeth" where
  "reload E a new_path lw =
     bind (unload lw) (\<lambda>_ (l, w).
     case new_path of
       Some p \<Rightarrow>
         if l_path l \<noteq> Some p
         then load E True (l\<lparr>l_path := Some p\<rparr>,
                w\<lparr>path_cache := dict_set p a (dict_del (self_path l) (path_cache w))\<rparr>)
         else load E True (l, w)
     | None \<Rightarrow> load E True (l, w))"

section \<open>Creating, finding and deleting loaders\<close>

definition new_loader :: "ustring \<Rightarrow> loader" where
  "new_loader path = \<lparr>l_path = Some path, l_meta = None, l_main_class = [], l_main_module = [],
     l_loaded = None, l_importer = None, l_file = None, l_references = []\<rparr>"

definition loader_id :: "loader \<Rightarrow> string" where
  "loader_id l = (case l_meta l of Some m \<Rightarrow> meta_id m | None \<Rightarrow> [])"

text \<open>The part of \<^verbatim>\<open>__init__\<close> that reads and checks the file.\<close>

definition preload :: "('y, 'c, 'm) loader_env_scheme \<Rightarrow> loader \<times> 'z lworld_scheme \<Rightarrow> ('z, unit) lmeth" where
  "preload E lw = bind (load_meta E lw) (\<lambda>_ lw.
     bind (get_importer False lw) (\<lambda>zi lw. run_preload_checks E zi lw))"

text \<open>\<^verbatim>\<open>ZippedPluginLoader.__init__\<close>: a new object on the heap, unless it raises.\<close>

definition loader_init ::
    "('y, 'c, 'm) loader_env_scheme \<Rightarrow> ustring \<Rightarrow> 'z lworld_scheme \<Rightarrow> ('z lworld_scheme, nat) res" where
  "loader_init E path w =
     (case preload E (new_loader path, w) of
        Raise e (l, w) \<Rightarrow> Raise e w
      | Ok _ (l, w) \<Rightarrow>
          if in_dict (loader_id l) (id_cache w)
          then Raise (IDConflictError (''Plugin with id '' @ loader_id l @ '' already loaded'')) w
          else let a = length (loaders w) in
            Ok a (w\<lparr>loaders := loaders w @ [l],
                    path_cache := dict_set path a (path_cache w),
                    id_cache := dict_set (loader_id l) a (id_cache w)\<rparr>))"

definition find_plugin :: "string \<Rightarrow> 'z lworld_scheme \<Rightarrow> exn + nat" where
  "find_plugin plugin_id w =
     (case map_of (id_cache w) plugin_id of Some a \<Rightarrow> Inr a | None \<Rightarrow> Inl KeyError)"

definition get_loader ::
    "('y, 'c, 'm) loader_env_scheme \<Rightarrow> ustring \<Rightarrow> 'z lworld_scheme \<Rightarrow> ('z lworld_scheme, nat) res" where
  "get_loader E path w =
     (let path = le_abspath E path in
      case map_of (path_cache w) path of
        Some a \<Rightarrow> Ok a w
      | None \<Rightarrow> loader_init E path w)"

text \<open>Running a method of the loader at an address.\<close>

definition on_loader ::
    "nat \<Rightarrow> (loader \<times> 'z lworld_scheme \<Rightarrow> ('z, 'a) lmeth) \<Rightarrow> 'z lworld_scheme \<Rightarrow> ('z lworld_scheme, 'a) res" where
  "on_loader a f w =
     (case f (loaders w ! a, w) of
        Ok x (l, w') \<Rightarrow> Ok x (w'\<lparr>loaders := (loaders w')[a := l]\<rparr>)
      | Raise e (l, w') \<Rightarrow> Raise e (w'\<lparr>loaders := (loaders w')[a := l]\<rparr>))"

definition os_remove :: "ustring \<Rightarrow> 'z lworld_scheme \<Rightarrow> ('z lworld_scheme, unit) res" where
  "os_remove p w =
     (case fs w p of
        Missing \<Rightarrow> Raise FileNotFoundError w
      | NotRegular \<Rightarrow> Raise OSError w
      | Regular c \<Rightarrow> Ok () (w\<lparr>fs := (fs w)(p := Missing)\<rparr>))"

text \<open>\<^verbatim>\<open>os.remove\<close> inside \<^verbatim>\<open>try ... except FileNotFoundError: pass\<close>.\<close>

definition remove_if_exists :: "ustring \<Rightarrow> 'z lworld_scheme \<Rightarrow> ('z lworld_scheme, unit) res" where
  "remove_if_exists p w =
     catch (os_remove p w) (\<lambda>e w'. if e = FileNotFoundError then Ok () w' else Raise e w')"

definition os_path_join :: "ustring \<Rightarrow> ustring \<Rightarrow> ustring" where
  "os_path_join a b =
     (if b \<noteq> [] \<and> hd b = path_sep then b
      else if a = [] \<or> last a = path_sep then a @ b else a @ path_sep # b)"

definition os_rename ::
    "('y, 'c, 'm) loader_env_scheme \<Rightarrow> ustring \<Rightarrow> ustring \<Rightarrow> 'z lworld_scheme \<Rightarrow> ('z lworld_scheme, unit) res" where
  "os_rename E src dst w =
     (if fs w src = Missing \<or> \<not> le_can_rename E dst then Raise OSError w
      else Ok () (w\<lparr>fs := ((fs w)(dst := fs w src))(src := (if src = dst then fs w src else Missing))\<rparr>))"

definition trash ::
    "('y, 'c, 'm) loader_env_scheme \<Rightarrow> ustring \<Rightarrow> ustring option \<Rightarrow> string \<Rightarrow> 'z lworld_scheme
      \<Rightarrow> ('z lworld_scheme, unit) res" where
  "trash E file_path new_name reason w =
     (if trash_path E = ustr ''delete'' then remove_if_exists file_path w
      else let name = (case new_name of
                         Some n \<Rightarrow> if n \<noteq> [] then n
                           else le_time E @ ustr (''-'' @ reason @ ''-'') @ snd (path_split file_path)
                       | None \<Rightarrow> le_time E @ ustr (''-'' @ reason @ ''-'') @ snd (path_split file_path)) in
        catch (os_rename E file_path (le_abspath E (os_path_join (trash_path E) name)) w)
          (\<lambda>e w'. remove_if_exists file_path w'))"

text \<open>\<^verbatim>\<open>delete\<close> of the loader at address \<open>a\<close>; trashing works on the world.\<close>

definition loader_delete ::
    "('y, 'c, 'm) loader_env_scheme \<Rightarrow> loader \<times> 'z lworld_scheme \<Rightarrow> ('z, unit) lmeth" where
  "loader_delete E lw =
     bind (unload lw) (\<lambda>_ (l, w).
       let p = self_path l;
           w = w\<lparr>path_cache := dict_del p (path_cache w), id_cache := dict_del (loader_id l) (id_cache w)\<rparr>;
           w = (case l_importer l of
                  Some zi \<Rightarrow> w\<lparr>dir_cache := remove_cache zi (dir_cache w)\<rparr> | None \<Rightarrow> w);
           l = l\<lparr>l_importer := None, l_loaded := None\<rparr> in
       case trash E p None ''delete'' w of
         Raise e w \<Rightarrow> Raise e (l, w)
       | Ok _ w \<Rightarrow> Ok () (l\<lparr>l_meta := None, l_path := None\<rparr>, w))"

text \<open>\<^verbatim>\<open>sync_list_files\<close>: \<^verbatim>\<open>os.path.dirname\<close> keeps what stands before the last separator.\<close>

definition os_dirname :: "string \<Rightarrow> string" where
  "os_dirname p =
     (let head = rev (dropWhile (\<lambda>c. c \<noteq> CHR ''/'') (rev p)) in
      if list_all (\<lambda>c. c = CHR ''/'') head then head else str_rstrip head ''/'')"

definition sync_list_files :: "loader \<Rightarrow> string \<Rightarrow> exn + string list" where
  "sync_list_files l directory =
     (case l_file l of
        None \<Rightarrow> Inl AttributeError
      | Some f \<Rightarrow> Inr (filter (\<lambda>n. os_dirname n = str_rstrip directory ''/'') (zf_filelist f)))"

definition sync_read_file :: "loader \<Rightarrow> string \<Rightarrow> exn + bytes" where
  "sync_read_file l path = (case l_file l of None \<Rightarrow> Inl AttributeError | Some f \<Rightarrow> zf_read f path)"

section \<open>Preloading all plugins\<close>

fun is_id_conflict :: "exn \<Rightarrow> bool" where
  "is_id_conflict (IDConflictError _) = True"
| "is_id_conflict _ = False"

text \<open>Failures of the two kinds that \<^verbatim>\<open>load_all\<close> handles put the file into the trash.\<close>

definition load_one ::
    "('y, 'c, 'm) loader_env_scheme \<Rightarrow> ustring \<Rightarrow> 'z lworld_scheme \<Rightarrow> ('z lworld_scheme, unit) res" where
  "load_one E path w =
     (case get_loader E path w of
        Ok a w \<Rightarrow> Ok () w
      | Raise e w \<Rightarrow>
          if is_maubot_zip_import_error e \<or> is_id_conflict e
          then trash E path None ''error'' w else Raise e w)"

definition is_mbp :: "ustring \<Rightarrow> bool" where
  "is_mbp file \<longleftrightarrow> 4 \<le> length file \<and> drop (length file - 4) file = ustr ''.mbp''"

fun load_files ::
    "('y, 'c, 'm) loader_env_scheme \<Rightarrow> ustring \<Rightarrow> ustring list \<Rightarrow> 'z lworld_scheme \<Rightarrow> ('z lworld_scheme, unit) res" where
  "load_files E directory [] w = Ok () w"
| "load_files E directory (file # files) w =
     (if is_mbp file
      then bind (load_one E (le_abspath E (os_path_join directory file)) w)
             (\<lambda>_ w. load_files E directory files w)
      else load_files E directory files w)"

fun load_directories ::
    "('y, 'c, 'm) loader_env_scheme \<Rightarrow> ustring list \<Rightarrow> 'z lworld_scheme \<Rightarrow> ('z lworld_scheme, unit) res" where
  "load_directories E [] w = Ok () w"
| "load_directories E (d # ds) w =
     bind (load_files E d (le_listdir E (fs w) d) w) (\<lambda>_ w. load_directories E ds w)"

definition load_all :: "('y, 'c, 'm) loader_env_scheme \<Rightarrow> 'z lworld_scheme \<Rightarrow> ('z lworld_scheme, unit) res" where
  "load_all E w = load_directories E (directories E) w"

section \<open>What the methods keep\<close>

text \<open>
  Loading changes only the directory cache and \<^verbatim>\<open>sys.modules\<close> of the world; the object keeps its
  path, its references and, once it has a definition, its plugin id.
\<close>

definition frame :: "'z lworld_scheme \<Rightarrow> 'z lworld_scheme" where
  "frame w = w\<lparr>dir_cache := [], modules := []\<rparr>"

definition plugin_key :: "loader \<Rightarrow> string option" where
  "plugin_key l = map_option meta_id (l_meta l)"

definition keeps :: "loader \<times> 'z lworld_scheme \<Rightarrow> loader \<times> 'z lworld_scheme \<Rightarrow> bool" where
  "keeps s t \<longleftrightarrow> frame (snd t) = frame (snd s)
     \<and> l_path (fst t) = l_path (fst s) \<and> l_references (fst t) = l_references (fst s)
     \<and> (plugin_key (fst s) \<noteq> None \<longrightarrow> plugin_key (fst t) = plugin_key (fst s))"

lemma plugin_key_simps [simp]:
  "plugin_key (l\<lparr>l_path := p\<rparr>) = plugin_key l" "plugin_key (l\<lparr>l_loaded := c\<rparr>) = plugin_key l"
  "plugin_key (l\<lparr>l_importer := i\<rparr>) = plugin_key l" "plugin_key (l\<lparr>l_references := r\<rparr>) = plugin_key l"
  by (simp_all add: plugin_key_def)

lemma keeps_refl [simp, intro]: "keeps s s"
  by (auto simp: keeps_def)

lemma keeps_trans: "keeps s t \<Longrightarrow> keeps t v \<Longrightarrow> keeps s v"
  unfolding keeps_def by metis

lemma frame_update [simp]:
  "frame (w\<lparr>dir_cache := d\<rparr>) = frame w" "frame (w\<lparr>modules := m\<rparr>) = frame w"
  by (simp_all add: frame_def)

lemma frame_eqD:
  assumes "frame w = frame w'"
  shows "loaders w = loaders w'" "id_cache w = id_cache w'" "path_cache w = path_cache w'"
    "fs w = fs w'" "lworld.more w = lworld.more w'"
proof -
  have "loaders (frame w) = loaders (frame w')" "id_cache (frame w) = id_cache (frame w')"
    "path_cache (frame w) = path_cache (frame w')" "fs (frame w) = fs (frame w')"
    "lworld.more (frame w) = lworld.more (frame w')" using assms by simp_all
  then show "loaders w = loaders w'" "id_cache w = id_cache w'" "path_cache w = path_cache w'"
    "fs w = fs w'" "lworld.more w = lworld.more w'" by (simp_all add: frame_def)
qed

lemma holds_keeps_bind:
  assumes "holds (keeps s) r" and "\<And>x t. r = Ok x t \<Longrightarrow> holds (keeps t) (k x t)"
  shows "holds (keeps s) (bind r k)"
  using assms by (cases r) (auto simp: holds_def intro: keeps_trans)

lemma load_meta_keeps: "holds (keeps lw) (load_meta E lw)"
  by (cases lw) (auto simp: load_meta_def keeps_def plugin_key_def Let_def split: sum.splits option.splits if_splits)

lemma get_importer_keeps: "holds (keeps lw) (get_importer reset lw)"
proof -
  obtain l w where lw: "lw = (l, w)" by (cases lw)
  show ?thesis
    unfolding lw get_importer_def split_conv
    by (rule holds_keeps_bind)
      (auto simp: keeps_def plugin_key_def split: sum.splits option.splits if_splits)
qed

lemma fail_uncached_keeps: "holds (keeps lw) (fail_uncached zi e lw)"
  by (cases lw) (simp add: fail_uncached_def keeps_def)

lemma check_modules_Ok [simp]: "check_modules zi ms lw = Ok () lw"
  by (induction ms) auto

lemma run_preload_checks_keeps: "holds (keeps lw) (run_preload_checks E zi lw)"
  by (cases lw) (simp add: run_preload_checks_def fail_uncached_keeps split: sum.splits exn.splits)

lemma load_modules_keeps: "holds (keeps lw) (load_modules E zi ms lw)"
proof (induction E zi ms lw rule: load_modules.induct)
  case (2 E zi m ms l w)
  define r where "r = load_module (le_py E) (le_exec E) (fs w) zi (ustr m) (modules w)"
  have step: "keeps (l, w) (l, w\<lparr>modules := mods\<rparr>)" for mods by (simp add: keeps_def)
  have fail: "holds (keeps (l, w)) (fail_uncached zi e (l, w\<lparr>modules := mods\<rparr>))" for e mods
    by (simp add: fail_uncached_def keeps_def)
  show ?case
  proof (cases r)
    case (Ok x mods)
    with 2 have "holds (keeps (l, w\<lparr>modules := mods\<rparr>)) (load_modules E zi ms (l, w\<lparr>modules := mods\<rparr>))"
      by (simp add: r_def)
    then show ?thesis
      using Ok step by (auto simp: r_def [symmetric] holds_def intro: keeps_trans)
  next
    case (Raise e mods)
    then show ?thesis using fail step by (cases e) (simp_all add: r_def [symmetric])
  qed
qed simp

lemma main_class_of_keeps: "holds (keeps lw) (main_class_of zi lw)"
  by (cases lw) (auto simp: main_class_of_def fail_uncached_keeps plugin_key_def keeps_def [of _ "(_\<lparr>l_loaded := _\<rparr>, _)"]
      split: option.splits pyattr.splits)

lemma load_keeps: "holds (keeps lw) (load E reset lw)"
  unfolding load_def
  by (cases lw) (auto split: option.splits if_splits
      intro!: holds_keeps_bind load_meta_keeps get_importer_keeps run_preload_checks_keeps
        load_modules_keeps main_class_of_keeps)

lemma unload_keeps: "holds (keeps lw) (unload lw)"
  by (cases lw) (simp add: unload_def keeps_def plugin_key_def split: option.splits)

section \<open>The caches\<close>

text \<open>
  Every cached plugin id belongs to a live loader with that id, every cached path to a live
  loader with that path that is also cached under its id.
\<close>

definition caches_ok :: "loader list \<Rightarrow> (string, nat) dict \<Rightarrow> (ustring, nat) dict \<Rightarrow> bool" where
  "caches_ok ls ids paths \<longleftrightarrow> dict_ok ids \<and> dict_ok paths
     \<and> (\<forall>k a. map_of ids k = Some a \<longrightarrow> a < length ls
          \<and> l_path (ls ! a) \<noteq> None \<and> plugin_key (ls ! a) = Some k)
     \<and> (\<forall>p a. map_of paths p = Some a \<longrightarrow> l_path (ls ! a) = Some p
          \<and> (\<exists>k. map_of ids k = Some a))"

definition loader_ok :: "'z lworld_scheme \<Rightarrow> bool" where
  "loader_ok w \<longleftrightarrow> caches_ok (loaders w) (id_cache w) (path_cache w)"

lemma caches_okD:
  assumes "caches_ok ls ids paths"
  shows "map_of ids k = Some a \<Longrightarrow> a < length ls" "map_of ids k = Some a \<Longrightarrow> \<exists>p. l_path (ls ! a) = Some p"
    "map_of ids k = Some a \<Longrightarrow> plugin_key (ls ! a) = Some k"
    "map_of paths p = Some a \<Longrightarrow> l_path (ls ! a) = Some p" "map_of paths p = Some a \<Longrightarrow> \<exists>k. map_of ids k = Some a"
  using assms by (auto simp: caches_ok_def)

lemma caches_ok_update:
  assumes "caches_ok ls ids paths" and "a < length ls" and "l_path l = l_path (ls ! a)"
    and "plugin_key (ls ! a) \<noteq> None \<longrightarrow> plugin_key l = plugin_key (ls ! a)"
  shows "caches_ok (ls[a := l]) ids paths"
  using assms by (auto simp: caches_ok_def nth_list_update)

text \<open>Moving a cached loader to a new path, as \<^verbatim>\<open>reload\<close> does.\<close>

lemma caches_ok_move:
  assumes ok: "caches_ok ls ids paths" and k: "map_of ids k = Some a" and old: "l_path (ls ! a) = Some old"
    and l: "l_path l = Some p" "plugin_key l = plugin_key (ls ! a)"
  shows "caches_ok (ls[a := l]) ids (dict_set p a (dict_del old paths))"
proof -
  have a: "a < length ls" by (rule caches_okD(1) [OF ok k])
  have "q = old" if "map_of paths q = Some a" for q
    using caches_okD(4) [OF ok that] old by simp
  then show ?thesis
    using ok k a l by (auto simp: caches_ok_def nth_list_update split: if_splits) (metis option.inject)
qed

text \<open>Forgetting a cached loader under its id and its path, as \<^verbatim>\<open>delete\<close> does.\<close>

lemma caches_ok_forget:
  assumes ok: "caches_ok ls ids paths" and k: "map_of ids k = Some a" and p: "l_path (ls ! a) = Some p"
  shows "caches_ok (ls[a := l]) (dict_del k ids) (dict_del p paths)"
proof -
  have key: "plugin_key (ls ! a) = Some k" by (rule caches_okD(3) [OF ok k])
  have ids: "j = k" if "map_of ids j = Some a" for j
    using caches_okD(3) [OF ok that] key by simp
  have paths: "q = p" if "map_of paths q = Some a" for q
    using caches_okD(4) [OF ok that] p by simp
  have path_id: "\<exists>j. j \<noteq> k \<and> map_of ids j = Some b" if "map_of paths q = Some b" "b \<noteq> a" for q b
    using caches_okD(5) [OF ok that(1)] that(2) k by (metis option.inject)
  show ?thesis
    unfolding caches_ok_def
  proof (intro conjI allI impI)
    fix q b assume q: "map_of (dict_del p paths) q = Some b"
    then have "map_of paths q = Some b" "b \<noteq> a" using paths by (auto split: if_splits)
    with path_id show "\<exists>j. map_of (dict_del k ids) j = Some b" by fastforce
    show "l_path (ls[a := l] ! b) = Some q"
      using caches_okD(4) [OF ok \<open>map_of paths q = Some b\<close>] \<open>b \<noteq> a\<close> by simp
  next
    fix j b assume j: "map_of (dict_del k ids) j = Some b"
    then have jb: "map_of ids j = Some b" "b \<noteq> a" using ids by (auto split: if_splits)
    show "b < length (ls[a := l])" using caches_okD(1) [OF ok jb(1)] by simp
    show "l_path (ls[a := l] ! b) \<noteq> None" using caches_okD(2) [OF ok jb(1)] jb(2) by auto
    show "plugin_key (ls[a := l] ! b) = Some j" using caches_okD(3) [OF ok jb(1)] jb(2) by simp
  qed (use ok in \<open>auto simp: caches_ok_def\<close>)
qed

text \<open>A new loader with a fresh id.\<close>

lemma caches_ok_new:
  assumes ok: "caches_ok ls ids paths" and fresh: "map_of ids k = None"
    and l: "plugin_key l = Some k" "l_path l = Some p"
  shows "caches_ok (ls @ [l]) (dict_set k (length ls) ids) (dict_set p (length ls) paths)"
proof -
  have "b < length ls" if "map_of paths q = Some b" for q b
    using caches_okD(1,5) [OF ok] that by blast
  then show ?thesis
    using ok fresh l unfolding caches_ok_def
    by (auto simp: nth_append less_SucI split: if_splits) (metis option.distinct(1))+
qed

text \<open>A cached loader is cached under one id only, and under one path only.\<close>

lemma id_cache_inj:
  "loader_ok w \<Longrightarrow> map_of (id_cache w) k = Some a \<Longrightarrow> map_of (id_cache w) k' = Some a \<Longrightarrow> k = k'"
  unfolding loader_ok_def by (metis caches_okD(3) option.inject)

lemma path_cache_inj:
  "loader_ok w \<Longrightarrow> map_of (path_cache w) p = Some a \<Longrightarrow> map_of (path_cache w) p' = Some a \<Longrightarrow> p = p'"
  unfolding loader_ok_def by (metis caches_okD(4) option.inject)

text \<open>
  The world with the fields of the object at \<open>a\<close> written back, and the invariant in the middle
  of one of its methods.
\<close>

definition commit :: "nat \<Rightarrow> loader \<times> 'z lworld_scheme \<Rightarrow> 'z lworld_scheme" where
  "commit a lw = (snd lw)\<lparr>loaders := (loaders (snd lw))[a := fst lw]\<rparr>"

definition lok :: "nat \<Rightarrow> loader \<times> 'z lworld_scheme \<Rightarrow> bool" where
  "lok a lw \<longleftrightarrow> a < length (loaders (snd lw)) \<and> loader_ok (commit a lw)"

lemma commit_self [simp]: "commit a (loaders w ! a, w) = w"
  by (simp add: commit_def)

lemma state_on_loader: "state_of (on_loader a f w) = commit a (state_of (f (loaders w ! a, w)))"
  by (auto simp: on_loader_def commit_def split: res.splits)

lemma loader_ok_keeps:
  assumes "lok a s" and "keeps s t"
  shows "lok a t"
proof -
  obtain l w l' w' where st: "s = (l, w)" "t = (l', w')" by (cases s; cases t)
  have "frame w' = frame w" using assms(2) by (simp add: keeps_def st)
  note eq = frame_eqD [OF this]
  have a: "a < length (loaders w)" using assms(1) by (simp add: lok_def st)
  have "caches_ok ((loaders w)[a := l]) (id_cache w) (path_cache w)"
    using assms(1) by (simp add: lok_def st loader_ok_def commit_def)
  from caches_ok_update [OF this, of a l'] assms(2) a show ?thesis using a by (simp add: lok_def st eq loader_ok_def commit_def keeps_def)
qed

lemma holds_lok_keeps: "lok a s \<Longrightarrow> holds (keeps s) r \<Longrightarrow> holds (lok a) r"
  by (auto simp: holds_def intro: loader_ok_keeps)

lemma load_ok: "lok a lw \<Longrightarrow> holds (lok a) (load E reset lw)"
  by (rule holds_lok_keeps [OF _ load_keeps])

lemma unload_ok: "lok a lw \<Longrightarrow> holds (lok a) (unload lw)"
  by (rule holds_lok_keeps [OF _ unload_keeps])

lemma lok_move:
  assumes "lok a (l, w)" and "map_of (id_cache w) k = Some a" and "l_path l = Some old"
  shows "lok a (l\<lparr>l_path := Some p\<rparr>, w\<lparr>path_cache := dict_set p a (dict_del old (path_cache w))\<rparr>)"
proof -
  have a: "a < length (loaders w)" "caches_ok ((loaders w)[a := l]) (id_cache w) (path_cache w)"
    using assms(1) by (auto simp: lok_def loader_ok_def commit_def)
  show ?thesis
    using caches_ok_move [OF a(2) assms(2), of old "l\<lparr>l_path := Some p\<rparr>" p] a(1) assms(3)
    by (simp add: lok_def loader_ok_def commit_def)
qed

lemma id_cache_unload: "unload (l, w) = Ok x (l', w') \<Longrightarrow> id_cache w' = id_cache w \<and> l_path l' = l_path l \<and> l_path l \<noteq> None"
  by (auto simp: unload_def split: option.splits)

lemma reload_ok:
  assumes "lok a (l, w)" and "map_of (id_cache w) k = Some a"
  shows "holds (lok a) (reload E a new_path (l, w))"
proof (cases "unload (l, w)")
  case (Ok x s)
  obtain l1 w1 where s: "s = (l1, w1)" by (cases s)
  have u: "lok a (l1, w1)" using unload_ok [OF assms(1)] Ok by (simp add: s)
  have c: "map_of (id_cache w1) k = Some a" "l_path l1 \<noteq> None"
    using id_cache_unload [of l w x l1 w1] Ok assms(2) by (auto simp: s)
  then obtain old where old: "l_path l1 = Some old" by auto
  show ?thesis
    using Ok u by (auto simp: reload_def s self_path_def old intro!: load_ok lok_move [OF u c(1) old]
        split: option.splits)
next
  case (Raise e s)
  then show ?thesis using unload_ok [OF assms(1)] by (simp add: reload_def)
qed

text \<open>Trashing a file changes the file system only.\<close>

definition file_frame :: "'z lworld_scheme \<Rightarrow> 'z lworld_scheme" where
  "file_frame w = w\<lparr>fs := \<lambda>_. Missing\<rparr>"

lemma file_frame_eqD:
  assumes "file_frame w = file_frame w'"
  shows "loaders w = loaders w'" "id_cache w = id_cache w'" "path_cache w = path_cache w'"
    "dir_cache w = dir_cache w'" "modules w = modules w'" "lworld.more w = lworld.more w'"
proof -
  have "loaders (file_frame w) = loaders (file_frame w')" "id_cache (file_frame w) = id_cache (file_frame w')"
    "path_cache (file_frame w) = path_cache (file_frame w')" "dir_cache (file_frame w) = dir_cache (file_frame w')"
    "modules (file_frame w) = modules (file_frame w')" "lworld.more (file_frame w) = lworld.more (file_frame w')"
    using assms by simp_all
  then show "loaders w = loaders w'" "id_cache w = id_cache w'" "path_cache w = path_cache w'"
    "dir_cache w = dir_cache w'" "modules w = modules w'" "lworld.more w = lworld.more w'"
    by (simp_all add: file_frame_def)
qed

lemma trash_frame: "file_frame (state_of (trash E p n r w)) = file_frame w"
  by (auto simp: trash_def remove_if_exists_def os_remove_def os_rename_def file_frame_def Let_def
      split: fnode.splits option.splits if_splits)

lemma loader_ok_files:
  assumes "file_frame v = file_frame w"
  shows "loader_ok v \<longleftrightarrow> loader_ok w"
  unfolding loader_ok_def file_frame_eqD [OF assms] ..

lemma trash_ok: "loader_ok w \<Longrightarrow> holds loader_ok (trash E p n r w)"
  by (simp add: holds_def loader_ok_files [OF trash_frame])

lemma delete_ok:
  assumes "lok a (l, w)" and "map_of (id_cache w) k = Some a"
  shows "holds (\<lambda>lw. loader_ok (commit a lw)) (loader_delete E (l, w))"
proof (cases "unload (l, w)")
  case (Ok x s)
  obtain l1 w1 where s: "s = (l1, w1)" by (cases s)
  have u: "lok a (l1, w1)" using unload_ok [OF assms(1)] Ok by (simp add: s)
  have c: "map_of (id_cache w1) k = Some a" "l_path l1 \<noteq> None"
    using id_cache_unload [of l w x l1 w1] Ok assms(2) by (auto simp: s)
  then obtain p where p: "l_path l1 = Some p" by auto
  have ok: "caches_ok ((loaders w1)[a := l1]) (id_cache w1) (path_cache w1)" "a < length (loaders w1)"
    using u by (auto simp: lok_def loader_ok_def commit_def)
  have key: "loader_id l1 = k" using caches_okD(3) [OF ok(1) c(1)] ok(2)
    by (auto simp: plugin_key_def loader_id_def)
  define w2 where "w2 = w1\<lparr>path_cache := dict_del p (path_cache w1), id_cache := dict_del k (id_cache w1)\<rparr>"
  define w3 where "w3 = (case l_importer l1 of
      Some zi \<Rightarrow> w2\<lparr>dir_cache := remove_cache zi (dir_cache w2)\<rparr> | None \<Rightarrow> w2)"
  have w3: "loaders w3 = loaders w1" "id_cache w3 = dict_del k (id_cache w1)" "path_cache w3 = dict_del p (path_cache w1)"
    by (auto simp: w3_def w2_def split: option.splits)
  note forget = caches_ok_forget [OF ok(1) c(1), of p, simplified]
  have fin: "loader_ok (commit a (l', state_of (trash E p None ''delete'' w3)))" for l'
    using forget ok(2) p unfolding loader_ok_def commit_def
    by (simp add: file_frame_eqD [OF trash_frame] w3)
  have run: "loader_delete E (l, w) = (let l2 = l1\<lparr>l_importer := None, l_loaded := None\<rparr> in
      case trash E p None ''delete'' w3 of
        Raise e w \<Rightarrow> Raise e (l2, w) | Ok _ w \<Rightarrow> Ok () (l2\<lparr>l_meta := None, l_path := None\<rparr>, w))"
    using Ok by (cases "l_importer l1")
      (simp_all add: loader_delete_def s self_path_def p key Let_def w3_def w2_def)
  show ?thesis
    unfolding run Let_def
    by (cases "trash E p None ''delete'' w3") (use fin in \<open>simp_all add: holds_def\<close>)
next
  case (Raise e s)
  then show ?thesis using unload_ok [OF assms(1)] by (auto simp: loader_delete_def holds_def lok_def)
qed

lemma keeps_new_loader:
  assumes "keeps (new_loader path, w) (l, w')"
  shows "l_path l = Some path" and "frame w' = frame w"
  using assms by (simp_all add: keeps_def new_loader_def)

lemma load_meta_key: "load_meta E lw = Ok x (l, w) \<Longrightarrow> plugin_key l \<noteq> None"
  by (cases lw) (auto simp: load_meta_def plugin_key_def Let_def split: sum.splits if_splits)

lemma preload_keeps: "holds (keeps lw) (preload E lw)"
  unfolding preload_def
  by (intro holds_keeps_bind load_meta_keeps get_importer_keeps run_preload_checks_keeps)

lemma preload_key:
  assumes "preload E lw = Ok x (l, w)"
  shows "plugin_key l \<noteq> None"
proof (cases "load_meta E lw")
  case (Ok y s)
  then have "plugin_key (fst s) \<noteq> None" using load_meta_key [of E lw y "fst s" "snd s"] by simp
  moreover have "holds (keeps s) (bind (get_importer False s) (\<lambda>zi lw. run_preload_checks E zi lw))"
    by (intro holds_keeps_bind get_importer_keeps run_preload_checks_keeps)
  ultimately show ?thesis using assms Ok by (simp add: preload_def keeps_def)
qed (use assms in \<open>simp add: preload_def\<close>)

lemma loader_init_ok:
  assumes "loader_ok w"
  shows "holds loader_ok (loader_init E path w)"
proof -
  have k: "holds (keeps (new_loader path, w)) (preload E (new_loader path, w))" by (rule preload_keeps)
  show ?thesis
  proof (cases "preload E (new_loader path, w)")
    case (Ok x s)
    obtain l w1 where s: "s = (l, w1)" by (cases s)
    have l: "l_path l = Some path" "frame w1 = frame w" using keeps_new_loader k Ok s by auto
    have key: "plugin_key l = Some (loader_id l)"
      using preload_key [OF Ok [unfolded s]] by (auto simp: plugin_key_def loader_id_def)
    have "caches_ok (loaders w1) (id_cache w1) (path_cache w1)"
      using assms frame_eqD [OF l(2)] by (simp add: loader_ok_def)
    from caches_ok_new [OF this _ key l(1)] this show ?thesis
      by (simp add: loader_init_def Ok s in_dict_def loader_ok_def Let_def)
  next
    case (Raise e s)
    then have "frame (snd s) = frame w" using k by (simp add: keeps_def)
    from frame_eqD [OF this] show ?thesis
      using assms Raise by (cases s) (simp add: loader_init_def loader_ok_def)
  qed
qed

lemma get_loader_ok: "loader_ok w \<Longrightarrow> holds loader_ok (get_loader E path w)"
  by (simp add: get_loader_def Let_def loader_init_ok split: option.splits)

lemma load_one_ok: "loader_ok w \<Longrightarrow> holds loader_ok (load_one E path w)"
  using get_loader_ok [of w E "path"] trash_ok
  by (auto simp: load_one_def holds_def split: res.splits)

lemma load_files_ok: "loader_ok w \<Longrightarrow> holds loader_ok (load_files E d files w)"
  by (induction E d files w rule: load_files.induct) (auto intro!: holds_bind load_one_ok)

lemma load_directories_ok: "loader_ok w \<Longrightarrow> holds loader_ok (load_directories E ds w)"
  by (induction E ds w rule: load_directories.induct) (auto intro!: holds_bind load_files_ok)

text \<open>
  What happens to the loaders: plugins are looked up or created by path, found by id and
  loaded, reloaded or deleted, all plugins are preloaded, and files change on disk.
\<close>

inductive loader_step :: "('y, 'c, 'm) loader_env_scheme \<Rightarrow> 'z lworld_scheme \<Rightarrow> 'z lworld_scheme \<Rightarrow> bool" for E where
  get: "loader_step E w (state_of (get_loader E path w))"
| load: "find_plugin k w = Inr a \<Longrightarrow> loader_step E w (state_of (on_loader a (load E reset) w))"
| reload: "find_plugin k w = Inr a \<Longrightarrow> loader_step E w (state_of (on_loader a (reload E a new_path) w))"
| delete: "find_plugin k w = Inr a \<Longrightarrow> loader_step E w (state_of (on_loader a (loader_delete E) w))"
| all: "loader_step E w (state_of (load_all E w))"
| files: "loader_step E w (w\<lparr>fs := f\<rparr>)"

inductive loader_reachable :: "('y, 'c, 'm) loader_env_scheme \<Rightarrow> 'z lworld_scheme \<Rightarrow> bool" for E where
  init: "loaders w = [] \<Longrightarrow> id_cache w = [] \<Longrightarrow> path_cache w = [] \<Longrightarrow> loader_reachable E w"
| step: "loader_reachable E w \<Longrightarrow> loader_step E w v \<Longrightarrow> loader_reachable E v"

lemma find_plugin_Inr: "find_plugin k w = Inr a \<longleftrightarrow> map_of (id_cache w) k = Some a"
  by (simp add: find_plugin_def split: option.splits)

lemma lok_found: "loader_ok w \<Longrightarrow> map_of (id_cache w) k = Some a \<Longrightarrow> lok a (loaders w ! a, w)"
  by (simp add: lok_def loader_ok_def caches_okD(1))

lemma loader_step_ok:
  assumes "loader_step E w v" and "loader_ok w"
  shows "loader_ok v"
  using assms
proof (cases rule: loader_step.cases)
  case (get path)
  then show ?thesis using get_loader_ok [OF assms(2)] by (simp add: holds_def)
next
  case (load k a reset)
  then show ?thesis
    using load_ok [OF lok_found [OF assms(2)], of k a E reset]
    by (auto simp: find_plugin_Inr holds_def state_on_loader lok_def)
next
  case (reload k a new_path)
  then show ?thesis
    using reload_ok [OF lok_found [OF assms(2)], of k a k E new_path]
    by (auto simp: find_plugin_Inr holds_def state_on_loader lok_def)
next
  case (delete k a)
  then show ?thesis
    using delete_ok [OF lok_found [OF assms(2)], of k a k E]
    by (auto simp: find_plugin_Inr holds_def state_on_loader)
next
  case all
  then show ?thesis using load_directories_ok [OF assms(2)] by (simp add: load_all_def holds_def)
next
  case (files f)
  then show ?thesis using assms(2) by (simp add: loader_ok_def)
qed

lemma loader_reachable_ok: "loader_reachable E w \<Longrightarrow> loader_ok w"
proof (induction rule: loader_reachable.induct)
  case (init w)
  then show ?case by (simp add: loader_ok_def caches_ok_def)
qed (rule loader_step_ok)

text \<open>
  C13. The plugin caches. However plugins are loaded, reloaded, moved, deleted and replaced on
  disk, successfully or not, the loader found under a plugin id is a live loader of that
  plugin, the loader found under a path has that path and is also found under its id, and no
  loader is found under two ids or two paths.
\<close>

theorem loader_caches_invariant:
  assumes "loader_reachable E w"
  shows "(\<forall>k a. find_plugin k w = Inr a \<longrightarrow> a < length (loaders w)
            \<and> (\<exists>m. l_meta (loaders w ! a) = Some m \<and> meta_id m = k) \<and> l_path (loaders w ! a) \<noteq> None)
       \<and> (\<forall>p a. map_of (path_cache w) p = Some a \<longrightarrow> l_path (loaders w ! a) = Some p
            \<and> (\<exists>k. find_plugin k w = Inr a))
       \<and> (\<forall>k k' a. find_plugin k w = Inr a \<longrightarrow> find_plugin k' w = Inr a \<longrightarrow> k = k')
       \<and> (\<forall>p p' a. map_of (path_cache w) p = Some a \<longrightarrow> map_of (path_cache w) p' = Some a \<longrightarrow> p = p')"
proof -
  have ok: "loader_ok w" using assms by (rule loader_reachable_ok)
  have c: "caches_ok (loaders w) (id_cache w) (path_cache w)" using ok by (simp add: loader_ok_def)
  show ?thesis
    using caches_okD [OF c] id_cache_inj [OF ok] path_cache_inj [OF ok]
    unfolding find_plugin_Inr by (fastforce simp: plugin_key_def)
qed

section \<open>Loading and reloading\<close>

lemma get_importer_reset:
  assumes "get_importer True (l, w) = Ok zi (l', w')" and "l_path l \<noteq> None"
  shows "l_importer l' = Some zi" and "l_meta l' = l_meta l" and "l_path l' = l_path l" and "fs w' = fs w"
    and "read_directory (zi_archive zi) (file_content (fs w (zi_archive zi))) = Inr (zi_files zi)"
  using assms
  by (auto simp: get_importer_def bind_eq_Ok reset_cache_def split: option.splits if_splits sum.splits)

lemma fail_uncached_not_Ok [simp]: "fail_uncached zi e lw \<noteq> Ok x s"
  by (cases lw) (simp add: fail_uncached_def)

lemma preload_checks_Ok: "run_preload_checks E zi lw = Ok x s \<Longrightarrow> s = lw"
  by (cases lw) (auto simp: run_preload_checks_def split: sum.splits exn.splits if_splits)

lemma load_modules_Ok:
  "load_modules E zi ms (l, w) = Ok x (l', w') \<Longrightarrow> l' = l \<and> fs w' = fs w"
  by (induction ms arbitrary: w) (auto split: res.splits exn.splits)

lemma main_class_of_Ok:
  "main_class_of zi (l, w) = Ok c (l', w') \<Longrightarrow> w' = w \<and> l' = l\<lparr>l_loaded := Some c\<rparr>
     \<and> (\<exists>md. map_of (modules w) (ustr (l_main_module l)) = Some md
            \<and> map_of (mod_attrs md) (l_main_class l) = Some (PluginClass c))"
  by (auto simp: main_class_of_def split: option.splits pyattr.splits)

lemma load_meta_Ok:
  assumes "load_meta E (l, w) = Ok x (l', w')"
  shows "w' = w \<and> l_path l' = l_path l \<and> l_path l \<noteq> None
    \<and> (\<exists>file m. read_meta E (fs w (self_path l)) = Inr (file, m) \<and> l_meta l' = Some m \<and> l_file l' = Some file)"
  using assms by (auto simp: load_meta_def Let_def split: sum.splits if_splits)

text \<open>A successful fresh load, step by step.\<close>

lemma load_fresh:
  assumes "load E reset (l, w) = Ok c (l', w')" and "reset \<or> l_loaded l = None"
  obtains l1 zi l2 w2 w3 where "load_meta E (l, w) = Ok () (l1, w)" "get_importer reset (l1, w) = Ok zi (l2, w2)"
    "load_modules E zi (modules_of l2) (l2, w2) = Ok () (l2, w3)" "main_class_of zi (l2, w3) = Ok c (l', w')"
    "fs w3 = fs w2"
proof -
  have none: "(if reset then None else l_loaded l) = None" using assms(2) by auto
  from assms(1) obtain s1 zi s2 s3 s4 where
    "load_meta E (l, w) = Ok () s1" "get_importer reset s1 = Ok zi s2"
    "run_preload_checks E zi s2 = Ok () s3" "load_modules E zi (modules_of (fst s3)) s3 = Ok () s4"
    "main_class_of zi s4 = Ok c (l', w')"
    unfolding load_def by (auto simp: none bind_eq_Ok)
  then show thesis
    using that [of "fst s1" zi "fst s3" "snd s3" "snd s4"] load_meta_Ok [of E l w "()" "fst s1" "snd s1"]
      preload_checks_Ok [of E zi s2 "()" s3] load_modules_Ok [of E zi "modules_of (fst s3)" "fst s3" "snd s3" "()" "fst s4" "snd s4"]
    by (metis prod.collapse)
qed


text \<open>The state in which \<^verbatim>\<open>reload\<close> starts to load.\<close>

definition reload_start :: "nat \<Rightarrow> ustring option \<Rightarrow> loader \<times> 'z lworld_scheme \<Rightarrow> loader \<times> 'z lworld_scheme" where
  "reload_start a new_path = (\<lambda>(l, w).
     case new_path of
       Some p \<Rightarrow>
         if l_path l \<noteq> Some p
         then (l\<lparr>l_path := Some p\<rparr>, w\<lparr>path_cache := dict_set p a (dict_del (self_path l) (path_cache w))\<rparr>)
         else (l, w)
     | None \<Rightarrow> (l, w))"

lemma reload_alt:
  "unload lw = Ok () s \<Longrightarrow> reload E a new_path lw = load E True (reload_start a new_path s)"
  by (cases s) (simp add: reload_def reload_start_def split: option.splits)

text \<open>
  Reloading. A successful reload works on the file as it is now, at the new path if one was
  given: the loader has the definition in that file, its importer has the directory of
  that file, the plugin id is unchanged, and the old modules were dropped first.
\<close>

theorem reload_uses_current_file:
  assumes "reload E a new_path (l, w) = Ok c (l', w')" and "l_meta l = Some m"
  defines "p \<equiv> (case new_path of Some q \<Rightarrow> q | None \<Rightarrow> self_path l)"
  shows "l_path l' = Some p \<and> l_loaded l' = Some c
    \<and> (\<exists>file m'. read_meta E (fs w p) = Inr (file, m') \<and> l_meta l' = Some m' \<and> meta_id m' = meta_id m)
    \<and> (\<exists>zi. l_importer l' = Some zi
          \<and> read_directory (zi_archive zi) (file_content (fs w (zi_archive zi))) = Inr (zi_files zi))"
proof -
  obtain old where old: "l_path l = Some old"
    using assms(1) by (auto simp: reload_def unload_def bind_eq_Ok split: option.splits)
  obtain l1 w1 where u: "unload (l, w) = Ok () (l1, w1)" "fs w1 = fs w" "l_meta l1 = Some m" "l_path l1 = Some old"
    using old assms(2) by (simp add: unload_def)
  obtain l0 w0 where s0: "reload_start a new_path (l1, w1) = (l0, w0)" by (cases "reload_start a new_path (l1, w1)")
  have fresh: "load E True (l0, w0) = Ok c (l', w')" using assms(1) u(1) s0 by (simp add: reload_alt)
  have l0: "l_path l0 = Some p" "l_meta l0 = Some m" "fs w0 = fs w"
    using s0 u old by (auto simp: reload_start_def p_def self_path_def split: option.splits if_splits)
  have kept: "plugin_key l' = plugin_key l0"
    using load_keeps [of "(l0, w0)" E True] fresh l0(2) by (simp add: keeps_def plugin_key_def)
  obtain k1 zi l2 w2 w3 where run: "load_meta E (l0, w0) = Ok () (k1, w0)" "get_importer True (k1, w0) = Ok zi (l2, w2)"
    "main_class_of zi (l2, w3) = Ok c (l', w')"
    using load_fresh [OF fresh] by metis
  have l1: "l_path k1 = Some p" using load_meta_Ok [OF run(1)] l0(1) by simp
  note imp = get_importer_reset [OF run(2)]
  have l': "l' = l2\<lparr>l_loaded := Some c\<rparr>" using main_class_of_Ok [OF run(3)] by simp
  have "self_path l0 = p" using l0(1) by (simp add: self_path_def)
  then obtain zf m' where "read_meta E (fs w p) = Inr (zf, m')" "l_meta k1 = Some m'"
    using load_meta_Ok [OF run(1)] l0(3) by auto
  then show ?thesis
    using imp l1 kept l0(2,3) unfolding l' by (auto simp: plugin_key_def)
qed

text \<open>After \<^verbatim>\<open>_unload\<close>, \<^verbatim>\<open>sys.modules\<close> has nothing from the plugin's file.\<close>

lemma unload_drops_modules:
  assumes "unload (l, w) = Ok x (l', w')" and "(n, md) \<in> set (modules w')" and "mod_file md = Some f"
  shows "take (length (self_path l)) f \<noteq> self_path l"
  using assms by (auto simp: unload_def self_path_def split: option.splits)

text \<open>
  Missing modules. The preload checks accept any list of modules: a definition that names
  modules which are not in the archive passes them like one that does not.
\<close>

theorem preload_ignores_missing_modules:
  fixes ms :: "string list"
  assumes "run_preload_checks E zi (l, w) = Ok () (l, w)" and "l_meta l = Some m"
  defines "l' \<equiv> l\<lparr>l_meta := Some (m\<lparr>meta_modules := ms\<rparr>)\<rparr>"
  shows "run_preload_checks E zi (l', w) = Ok () (l', w)"
  using assms(1) by (auto simp: run_preload_checks_def l'_def split: sum.splits exn.splits if_splits)

section \<open>Preloading\<close>

text \<open>What stays true while files are loaded: cached paths stay cached, missing files stay missing.\<close>

definition settled :: "ustring \<Rightarrow> 'z lworld_scheme \<Rightarrow> bool" where
  "settled p w \<longleftrightarrow> in_dict p (path_cache w) \<or> fs w p = Missing"

lemma loader_init_state:
  "path_cache (state_of (loader_init E p w)) = (if is_Ok then dict_set p (length (loaders w)) (path_cache w) else path_cache w)
   \<and> fs (state_of (loader_init E p w)) = fs w"
  if "is_Ok \<longleftrightarrow> (\<exists>a v. loader_init E p w = Ok a v)" for is_Ok
proof -
  have k: "holds (keeps (new_loader p, w)) (preload E (new_loader p, w))" by (rule preload_keeps)
  show ?thesis
  proof (cases "preload E (new_loader p, w)")
    case (Ok x s)
    then have "frame (snd s) = frame w" using k by (simp add: keeps_def)
    from frame_eqD [OF this] show ?thesis using Ok that by (cases s) (simp add: loader_init_def Let_def)
  next
    case (Raise e s)
    then have "frame (snd s) = frame w" using k by (simp add: keeps_def)
    from frame_eqD [OF this] show ?thesis using Raise that by (cases s) (simp add: loader_init_def)
  qed
qed

lemma get_loader_state:
  assumes "le_abspath E p = p"
  shows "fs (state_of (get_loader E p w)) = fs w"
    and "in_dict q (path_cache w) \<Longrightarrow> in_dict q (path_cache (state_of (get_loader E p w)))"
    and "get_loader E p w = Ok a v \<Longrightarrow> in_dict p (path_cache v)"
proof -
  note init = loader_init_state [OF refl, where E = E and p = p and w = w]
  show "fs (state_of (get_loader E p w)) = fs w"
    using init assms by (simp add: get_loader_def split: option.splits)
  show "in_dict q (path_cache w) \<Longrightarrow> in_dict q (path_cache (state_of (get_loader E p w)))"
    using init assms by (auto simp: get_loader_def in_dict_def split: option.splits if_splits)
  show "get_loader E p w = Ok a v \<Longrightarrow> in_dict p (path_cache v)"
    using init assms by (auto simp: get_loader_def in_dict_def split: option.splits)
qed

lemma trash_delete:
  assumes "trash_path E = ustr ''delete''" and "trash E p n r w = Ok x v"
  shows "fs v p = Missing" and "fs w q = Missing \<Longrightarrow> fs v q = Missing" and "path_cache v = path_cache w"
  using assms
  by (auto simp: trash_def remove_if_exists_def os_remove_def split: fnode.splits)

lemma load_one_settles:
  assumes "trash_path E = ustr ''delete''" and "le_abspath E p = p" and "load_one E p w = Ok x v"
  shows "settled p v" and "settled q w \<Longrightarrow> settled q v"
proof -
  note g = get_loader_state [OF assms(2), where w = w]
  show "settled p v"
    using assms(3) g(3) by (auto simp: load_one_def settled_def dest: trash_delete(1) [OF assms(1)]
        split: res.splits if_splits)
  show "settled q w \<Longrightarrow> settled q v"
  proof (cases "get_loader E p w")
    case (Ok a u)
    then show "settled q w \<Longrightarrow> settled q v" using assms(3) g(1) g(2) [where q = q] by (auto simp: load_one_def settled_def)
  next
    case (Raise e u)
    then have t: "trash E p None ''error'' u = Ok x v" using assms(3) by (auto simp: load_one_def split: if_splits)
    show "settled q w \<Longrightarrow> settled q v"
      using g(1) g(2) [where q = q] Raise trash_delete(2,3) [OF assms(1) t] by (auto simp: settled_def)
  qed
qed

lemma load_files_settles:
  assumes "trash_path E = ustr ''delete''" and "\<And>p. le_abspath E (le_abspath E p) = le_abspath E p"
    and "load_files E d files w = Ok x v"
  shows "(settled q w \<longrightarrow> settled q v)
    \<and> (\<forall>f. f \<in> set files \<longrightarrow> is_mbp f \<longrightarrow> settled (le_abspath E (os_path_join d f)) v)"
  using assms(3)
proof (induction files arbitrary: w q)
  case (Cons f files)
  show ?case
  proof (cases "is_mbp f")
    case False
    then show ?thesis using Cons by auto
  next
    case True
    then obtain u where one: "load_one E (le_abspath E (os_path_join d f)) w = Ok () u"
      and rest: "load_files E d files u = Ok x v"
      using Cons.prems by (auto simp: bind_eq_Ok)
    note s = load_one_settles [OF assms(1,2) one]
    show ?thesis
      using Cons.IH [OF rest] Cons.IH [OF rest, of "le_abspath E (os_path_join d f)"] s by auto
  qed
qed simp

lemma load_directories_settles:
  assumes "trash_path E = ustr ''delete''" and "\<And>p. le_abspath E (le_abspath E p) = le_abspath E p"
    and "load_directories E ds w = Ok x v"
  shows "settled q w \<longrightarrow> settled q v"
  using assms(3)
proof (induction ds arbitrary: w)
  case (Cons d ds)
  then obtain u where "load_files E d (le_listdir E (fs w) d) w = Ok () u" "load_directories E ds u = Ok x v"
    by (auto simp: bind_eq_Ok)
  then show ?case using Cons.IH load_files_settles [OF assms(1,2)] by blast
qed simp

text \<open>
  Preloading. When \<^verbatim>\<open>load_all\<close> has run to its end with the trash set to delete files, every plugin
  file that was in the first of the configured directories is either a cached plugin or gone
  from the disk: a broken or conflicting file is not left to fail again.
\<close>

theorem load_all_settles:
  assumes "trash_path E = ustr ''delete''" and "\<And>p. le_abspath E (le_abspath E p) = le_abspath E p"
    and "directories E = d # ds" and "load_all E w = Ok () v"
    and "f \<in> set (le_listdir E (fs w) d)" and "is_mbp f"
  shows "in_dict (le_abspath E (os_path_join d f)) (path_cache v)
    \<or> fs v (le_abspath E (os_path_join d f)) = Missing"
proof -
  obtain u where one: "load_files E d (le_listdir E (fs w) d) w = Ok () u" and rest: "load_directories E ds u = Ok () v"
    using assms(3,4) by (auto simp: load_all_def bind_eq_Ok)
  have "settled (le_abspath E (os_path_join d f)) u"
    using load_files_settles [OF assms(1,2) one] assms(5,6) by blast
  with load_directories_settles [OF assms(1,2) rest, of "le_abspath E (os_path_join d f)"]
  show ?thesis by (auto simp: settled_def)
qed

section \<open>A small plugin\<close>

definition ex_meta :: plugin_meta where
  "ex_meta = \<lparr>meta_id = ''a.b'', meta_version = ''1.0'', meta_modules = [''m''], meta_main_class = ''Main'',
     meta_maubot = ''0.1'', meta_database = False, meta_database_type = SQLALCHEMY,
     meta_config = False, meta_webapp = True\<rparr>"

definition ex_zip :: zip_file where
  "ex_zip = \<lparr>zf_filelist = [''maubot.yaml''], zf_read = (\<lambda>_. Inr [])\<rparr>"

definition ex_exec :: "bytes \<Rightarrow> ustring \<Rightarrow> sys_modules \<Rightarrow> exn option \<times> sys_modules" where
  "ex_exec code name mods = (None,
     dict_set name (new_module\<lparr>mod_attrs := [(''Main'', PluginClass ''m.Main'')], mod_file := Some (ustr ''/a.mbp/m/__init__.py'')\<rparr>) mods)"

definition ex_env :: "(unit, bytes) loader_env" where
  "ex_env = \<lparr>le_py = ex_py, le_exec = ex_exec, le_co_names = (\<lambda>_. [''Main'']),
     le_ZipFile = (\<lambda>_. Inr ex_zip), le_yaml_load = (\<lambda>_. Inr ()), le_deserialize = (\<lambda>_. Inr ex_meta),
     le_newer_than_current = (\<lambda>_. False), le_abspath = (\<lambda>p. p), le_listdir = (\<lambda>f d. [ustr ''a.mbp'']),
     le_can_rename = (\<lambda>_. False), le_time = ustr ''0'', trash_path = ustr ''delete'',
     directories = [ustr ''/'']\<rparr>"

definition ex_world :: lworld where
  "ex_world = \<lparr>loaders = [], id_cache = [], path_cache = [], dir_cache = [], modules = [], fs = ex_fs\<rparr>"

definition ex_loader :: loader where
  "ex_loader = \<lparr>l_path = Some (ustr ''/a.mbp''), l_meta = Some ex_meta, l_main_class = ''Main'', l_main_module = ''m'',
     l_loaded = None, l_importer = Some ex_importer, l_file = Some ex_zip, l_references = []\<rparr>"

definition ex_world1 :: lworld where
  "ex_world1 = ex_world\<lparr>loaders := [ex_loader], id_cache := [(''a.b'', 0)], path_cache := [(ustr ''/a.mbp'', 0)],
     dir_cache := [(ustr ''/a.mbp'', zi_files ex_importer)]\<rparr>"

lemma ex_fs_file: "ex_fs (ustr ''/a.mbp'') = Regular (Some (write_archive ex_members))"
  by (simp add: ex_fs_def one_file_def)

lemma ex_directory: "read_directory (ustr ''/a.mbp'') (Some (write_archive ex_members)) = Inr (zi_files ex_importer)"
proof -
  have "\<And>m. m \<in> set ex_members \<Longrightarrow> member_ok m"
    by (auto simp: ex_members_def member_ok_def ascii_bytes_def)
  moreover have "distinct (map member_key ex_members)"
    by (simp add: ex_members_def member_key_def ascii_bytes_def)
  moreover have "length (write_archive ex_members) < 2 ^ 32"
    by (simp add: write_archive_def ex_members_def Let_def local_part_def central_part_def ascii_bytes_def)
  ultimately show ?thesis
    using read_directory_write [of ex_members "ustr ''/a.mbp''" "[]"] by (simp add: ex_importer_def)
qed

lemma ex_importer_init:
  "zipimporter_init ex_fs (ustr ''/a.mbp'') [] = Inr (ex_importer, [(ustr ''/a.mbp'', zi_files ex_importer)])"
proof -
  have "find_archive ex_fs (ustr ''/a.mbp'') [] = Inr (ustr ''/a.mbp'', [])"
    by (simp add: find_archive.simps ex_fs_file)
  moreover have "ustr ''/a.mbp'' \<noteq> []" by (simp add: ustr_def)
  ultimately show ?thesis
    by (simp add: zipimporter_init_def ex_fs_file ex_directory path_join_def Let_def)
      (simp add: ex_importer_def)
qed

lemma ex_read_meta: "read_meta ex_env (ex_fs (ustr ''/a.mbp'')) = Inr (ex_zip, ex_meta)"
  by (simp add: read_meta_def ex_fs_file ex_env_def ex_zip_def)

lemma ex_archive: "zi_archive ex_importer = ustr ''/a.mbp''"
  by (simp add: ex_importer_def)

lemma ex_checks:
  "l_main_module l = ''m'' \<Longrightarrow> l_main_class l = ''Main'' \<Longrightarrow> fs w = ex_fs \<Longrightarrow>
   run_preload_checks ex_env ex_importer (l, w) = Ok () (l, w)"
  by (simp add: run_preload_checks_def zi_get_code_def ex_env_def ex_code replace_char_def)

lemma ex_load_meta:
  "load_meta ex_env (l, w) = Ok () (l\<lparr>l_meta := Some ex_meta, l_main_module := ''m'', l_main_class := ''Main'', l_file := Some ex_zip\<rparr>, w)"
  if "l_path l = Some (ustr ''/a.mbp'')" "l_meta l = None \<or> l_meta l = Some ex_meta" "fs w = ex_fs"
  using that by (auto simp: load_meta_def self_path_def ex_read_meta Let_def) (simp_all add: ex_meta_def)

lemma ex_get: "get_loader ex_env (ustr ''/a.mbp'') ex_world = Ok 0 ex_world1"
proof -
  have "preload ex_env (new_loader (ustr ''/a.mbp''), ex_world) =
      Ok () (ex_loader, ex_world\<lparr>dir_cache := [(ustr ''/a.mbp'', zi_files ex_importer)]\<rparr>)"
    by (simp add: preload_def ex_load_meta new_loader_def ex_world_def get_importer_def ex_importer_init
        self_path_def ex_checks ex_loader_def)
  moreover have "le_abspath ex_env (ustr ''/a.mbp'') = ustr ''/a.mbp''" by (simp add: ex_env_def)
  ultimately show ?thesis
    by (simp add: get_loader_def ex_world_def loader_init_def Let_def in_dict_def ex_loader_def loader_id_def
        ex_meta_def ex_world1_def)
qed

theorem loader_caches_invariant_witness:
  "find_plugin ''a.b'' ex_world1 = Inr 0 \<and> (\<exists>m. l_meta (loaders ex_world1 ! 0) = Some m \<and> meta_id m = ''a.b'')"
proof -
  have "loader_reachable ex_env ex_world" by (rule loader_reachable.init) (simp_all add: ex_world_def)
  moreover have "loader_step ex_env ex_world ex_world1"
    using loader_step.get [of ex_env ex_world "ustr ''/a.mbp''"] by (simp add: ex_get)
  ultimately have r: "loader_reachable ex_env ex_world1" by (rule loader_reachable.step)
  have f: "find_plugin ''a.b'' ex_world1 = Inr 0" by (simp add: find_plugin_def ex_world1_def)
  with loader_caches_invariant [OF r] show ?thesis by blast
qed

definition ex_module :: pymodule where
  "ex_module = new_module\<lparr>mod_attrs := [(''Main'', PluginClass ''m.Main'')], mod_file := Some (ustr ''/a.mbp/m/__init__.py'')\<rparr>"

lemma ex_load_modules:
  assumes "fs w = ex_fs" and "modules w = []"
  shows "load_modules ex_env ex_importer [''m''] (l, w) = Ok () (l, w\<lparr>modules := [(ustr ''m'', ex_module)]\<rparr>)"
  using assms by (simp add: ex_env_def load_module_def ex_code Let_def ex_exec_def ex_module_def)

lemma ex_main_class:
  "l_main_module l = ''m'' \<Longrightarrow> l_main_class l = ''Main'' \<Longrightarrow> modules w = [(ustr ''m'', ex_module)] \<Longrightarrow>
   main_class_of zi (l, w) = Ok ''m.Main'' (l\<lparr>l_loaded := Some ''m.Main''\<rparr>, w)"
  by (simp add: main_class_of_def ex_module_def)

lemma ex_get_importer_reset:
  assumes "l_importer l = Some ex_importer" and "l_path l = Some (ustr ''/a.mbp'')" and "fs w = ex_fs"
  shows "get_importer True (l, w) =
     Ok ex_importer (l, w\<lparr>dir_cache := dict_set (ustr ''/a.mbp'') (zi_files ex_importer) (dir_cache w)\<rparr>)"
proof -
  have "l\<lparr>l_importer := Some ex_importer\<rparr> = l" using assms(1) by simp
  then show ?thesis
    using assms by (simp add: get_importer_def self_path_def ex_archive reset_cache_def ex_fs_file ex_directory)
qed

lemma ex_reload:
  "\<exists>l' w'. reload ex_env 0 None (ex_loader, ex_world1) = Ok ''m.Main'' (l', w')"
proof -
  have u: "unload (ex_loader, ex_world1) = Ok () (ex_loader, ex_world1)"
    by (simp add: unload_def ex_loader_def ex_world1_def ex_world_def)
  have meta: "load_meta ex_env (ex_loader, ex_world1) = Ok () (ex_loader, ex_world1)"
    using ex_load_meta [of ex_loader ex_world1] by (simp add: ex_loader_def ex_world1_def ex_world_def)
  obtain w2 where imp: "get_importer True (ex_loader, ex_world1) = Ok ex_importer (ex_loader, w2)"
    and w2: "fs w2 = ex_fs" "modules w2 = []"
    using ex_get_importer_reset [of ex_loader ex_world1] by (simp add: ex_loader_def ex_world1_def ex_world_def)
  have l: "l_main_module ex_loader = ''m''" "l_main_class ex_loader = ''Main''" "modules_of ex_loader = [''m'']"
    by (simp_all add: ex_loader_def modules_of_def ex_meta_def)
  show ?thesis
    by (simp add: reload_def u load_def meta imp ex_checks l w2 ex_load_modules ex_main_class del: load_modules.simps)
qed

theorem reload_uses_current_file_witness:
  "\<exists>l' w'. reload ex_env 0 None (ex_loader, ex_world1) = Ok ''m.Main'' (l', w')
     \<and> l_path l' = Some (ustr ''/a.mbp'') \<and> l_loaded l' = Some ''m.Main''"
proof -
  obtain l' w' where run: "reload ex_env 0 None (ex_loader, ex_world1) = Ok ''m.Main'' (l', w')"
    using ex_reload by blast
  have "l_meta ex_loader = Some ex_meta" "self_path ex_loader = ustr ''/a.mbp''"
    by (simp_all add: ex_loader_def self_path_def)
  with reload_uses_current_file [OF run] run show ?thesis by auto
qed

lemma ex_load: "\<exists>l' w'. load ex_env False (ex_loader, ex_world1) = Ok ''m.Main'' (l', w')"
proof -
  have meta: "load_meta ex_env (ex_loader, ex_world1) = Ok () (ex_loader, ex_world1)"
    using ex_load_meta [of ex_loader ex_world1] by (simp add: ex_loader_def ex_world1_def ex_world_def)
  have l: "l_main_module ex_loader = ''m''" "l_main_class ex_loader = ''Main''" "modules_of ex_loader = [''m'']"
    "l_loaded ex_loader = None" "get_importer False (ex_loader, ex_world1) = Ok ex_importer (ex_loader, ex_world1)"
    by (simp_all add: ex_loader_def modules_of_def ex_meta_def get_importer_def ex_archive self_path_def)
  have w: "fs ex_world1 = ex_fs" "modules ex_world1 = []" by (simp_all add: ex_world1_def ex_world_def)
  show ?thesis
    by (simp add: load_def meta ex_checks l w ex_load_modules ex_main_class del: load_modules.simps)
qed


theorem preload_ignores_missing_modules_witness:
  "run_preload_checks ex_env ex_importer (ex_loader\<lparr>l_meta := Some (ex_meta\<lparr>meta_modules := [''missing'']\<rparr>)\<rparr>, ex_world1)
     = Ok () (ex_loader\<lparr>l_meta := Some (ex_meta\<lparr>meta_modules := [''missing'']\<rparr>)\<rparr>, ex_world1)
   \<and> find_module ex_importer (ustr ''missing'') = None"
proof -
  have "run_preload_checks ex_env ex_importer (ex_loader, ex_world1) = Ok () (ex_loader, ex_world1)"
    by (rule ex_checks) (simp_all add: ex_loader_def ex_world1_def ex_world_def)
  moreover have "l_meta ex_loader = Some ex_meta" by (simp add: ex_loader_def)
  moreover have "find_module ex_importer (ustr ''missing'') = None"
    by (simp add: find_module_def find_loader_def get_module_info_def zip_searchorder_def in_dict_def
        ex_importer_def ex_members_def get_module_path_def rpartition_last_def zi_is_dir_def member_key_def
        ustr_def ascii_bytes_def path_sep_def)
  ultimately show ?thesis using preload_ignores_missing_modules by blast
qed

theorem load_all_settles_witness:
  "\<exists>v. load_all ex_env ex_world = Ok () v \<and>
     (in_dict (ustr ''/a.mbp'') (path_cache v) \<or> fs v (ustr ''/a.mbp'') = Missing)"
proof -
  have join: "le_abspath ex_env (os_path_join (ustr ''/'') (ustr ''a.mbp'')) = ustr ''/a.mbp''"
    by (simp add: ex_env_def os_path_join_def ustr_def path_sep_def)
  have mbp: "is_mbp (ustr ''a.mbp'')" by (simp add: is_mbp_def ustr_def)
  have env: "directories ex_env = [ustr ''/'']" "le_listdir ex_env f d = [ustr ''a.mbp'']"
    "trash_path ex_env = ustr ''delete''" "le_abspath ex_env (le_abspath ex_env p) = le_abspath ex_env p" for f d p
    by (simp_all add: ex_env_def)
  have run: "load_all ex_env ex_world = Ok () ex_world1"
    by (simp add: load_all_def env mbp join load_one_def ex_get)
  show ?thesis
    using load_all_settles [OF env(3,4) env(1) run, of "ustr ''a.mbp''"] run by (simp add: env mbp join)
qed

end
