(* ===== verification/MB_World.thy ===== *)
theory MB_World
  imports MB_Loader MB_Server "HOL-Library.AList"
begin

text \<open>
  The state that clients and plugin instances share: the objects on a heap, the two object
  caches, the two database tables (\<^verbatim>\<open>maubot/db/client.py\<close>, \<^verbatim>\<open>maubot/db/instance.py\<close> and the schema of
  \<^verbatim>\<open>maubot/db/upgrade\<close>), the plugin web apps and the pending background tasks. The world of the
  loaders is its first part.

  Calls to the homeserver, to the encryption library, to plugin code and to plugin databases
  are recorded in \<open>trace\<close>; what they return is given by the oracles of \<open>env\<close>, which see the trace,
  so that the same call may end differently at different times. The database itself is the
  two tables with their constraints; a violated constraint raises.
\<close>

section \<open>Rows and tables\<close>

record client_row =
  c_id :: string
  homeserver :: "string option"
  access_token :: "string option"
  device_id :: string
  c_enabled :: bool
  next_batch :: string
  filter_id :: string
  c_sync :: bool
  autojoin :: bool
  online :: bool
  displayname :: string
  avatar_url :: string

datatype database_engine = SQLITE | POSTGRES

fun database_engine_value :: "database_engine \<Rightarrow> string" where
  "database_engine_value SQLITE = ''sqlite''"
| "database_engine_value POSTGRES = ''postgres''"

record inst_row =
  i_id :: string
  i_type :: string
  i_enabled :: bool
  primary_user :: string
  config_str :: string
  engine :: "database_engine option"

definition database_engine_str :: "'z inst_row_scheme \<Rightarrow> string option" where
  "database_engine_str r = map_option database_engine_value (engine r)"

section \<open>Objects\<close>

text \<open>
  An event handler: the event type and the function, which is a method of the client, of its
  encryption machine or of a plugin (by instance id and attribute name).
\<close>

datatype handler_fn = ClientFn string | CryptoFn | PluginFn string string

type_synonym handler = "string \<times> handler_fn"

text \<open>The \<^verbatim>\<open>MaubotMatrixClient\<close> of a client, as far as the program changes it.\<close>

record matrix_client =
  mx_base_url :: string
  mx_token :: string
  mx_device :: string
  mx_syncing :: bool
  mx_handlers :: "handler list"
  mx_presence_online :: bool
  mx_crypto :: bool

record client = client_row +
  postinited :: bool
  c_references :: refs
  c_started :: bool
  sync_ok :: bool
  trust_state :: "string option"
  remote_displayname :: "string option"
  remote_avatar_url :: "string option"
  mx :: matrix_client
  crypto :: bool

text \<open>
  The attributes that the decorators of \<^verbatim>\<open>maubot/handlers\<close> set on a function, an attribute of a plugin
  object, and a plugin object as its instance keeps it.
\<close>

record py_func =
  fn_event_handler :: "bool option"
  fn_event_types :: "string list option"
  fn_web_handler :: "(string \<times> string \<times> web_handler) list option"

record plugin_attr =
  pa_name :: string
  pa_gettable :: bool
  pa_val :: py_func

record plugin_obj =
  po_class :: string
  po_client :: nat
  po_webapp :: "nat option"
  po_handlers :: "handler list"

datatype inst_db = SqlAlchemyEngine string | SqliteDatabase string | ProxyPostgres string

record inst = inst_row +
  i_loader :: "nat option"
  i_client :: "nat option"
  i_plugin :: "plugin_obj option"
  i_config :: bool
  base_cfg_str :: "string option"
  inst_db :: "inst_db option"
  inst_db_tables :: "json option"
  inst_webapp :: "(nat \<times> string) option"
  i_started :: bool

datatype task = StartClient nat nat | SaveInstance nat

datatype event =
    Versions string | Whoami string | CreateFilter string | SetDisplayname string string
  | SetAvatarUrl string string | GetProfile string | SyncStart string string | SyncStop string
  | CryptoCall string string | PluginInit string string | PluginPreStart string
  | PluginStart string | PluginPreStop string | SchedStop string | PluginStop string | ConfigUpdate string
  | DbStart string | DbStop string | DbDelete string | DbIntrospect string

record world = lworld +
  clients :: "client list"
  instances :: "inst list"
  client_cache :: "(string, nat) dict"
  inst_cache :: "(string, nat) dict"
  client_table :: "(string, client_row) dict"
  inst_table :: "(string, inst_row) dict"
  srv :: server
  tasks :: "task list"
  trace :: "event list"

record ('yaml, 'code) env = "('yaml, 'code) loader_env" +
  net_versions :: "event list \<Rightarrow> matrix_client \<Rightarrow> exn option"
  net_whoami :: "event list \<Rightarrow> matrix_client \<Rightarrow> exn + (string \<times> string)"
  net_create_filter :: "event list \<Rightarrow> matrix_client \<Rightarrow> exn + string"
  net_set_displayname :: "event list \<Rightarrow> matrix_client \<Rightarrow> string \<Rightarrow> exn option"
  net_set_avatar_url :: "event list \<Rightarrow> matrix_client \<Rightarrow> string \<Rightarrow> exn option"
  net_profile :: "event list \<Rightarrow> matrix_client \<Rightarrow> exn + (string option \<times> string option)"
  crypto_available :: bool
  crypto_device_id :: "event list \<Rightarrow> string \<Rightarrow> exn + string"
  crypto_call :: "event list \<Rightarrow> string \<Rightarrow> string \<Rightarrow> exn option"
  crypto_shared :: "event list \<Rightarrow> string \<Rightarrow> bool"
  crypto_trust :: "event list \<Rightarrow> string \<Rightarrow> exn + string"
  plugin_init :: "event list \<Rightarrow> string \<Rightarrow> exn option"
  plugin_attrs :: "string \<Rightarrow> plugin_attr list"
  plugin_pre_start :: "event list \<Rightarrow> string \<Rightarrow> exn option"
  plugin_start :: "event list \<Rightarrow> string \<Rightarrow> exn option"
  plugin_pre_stop :: "event list \<Rightarrow> string \<Rightarrow> exn option"
  plugin_stop :: "event list \<Rightarrow> string \<Rightarrow> exn option"
  plugin_config_update :: "event list \<Rightarrow> string \<Rightarrow> exn option"
  has_config_class :: "string \<Rightarrow> bool"
  parse_base_config :: "bytes \<Rightarrow> exn + string option"
  db_start :: "event list \<Rightarrow> inst_db \<Rightarrow> exn option"
  db_stop :: "event list \<Rightarrow> inst_db \<Rightarrow> exn option"
  db_introspect :: "event list \<Rightarrow> inst_db \<Rightarrow> exn + json"
  has_postgres :: bool
  sqlite_dir :: ustring
  feature_instance_database :: bool

section \<open>Updating objects and recording calls\<close>

definition upd_client :: "nat \<Rightarrow> (client \<Rightarrow> client) \<Rightarrow> world \<Rightarrow> world" where
  "upd_client a f w = w\<lparr>clients := (clients w)[a := f (clients w ! a)]\<rparr>"

definition upd_inst :: "nat \<Rightarrow> (inst \<Rightarrow> inst) \<Rightarrow> world \<Rightarrow> world" where
  "upd_inst a f w = w\<lparr>instances := (instances w)[a := f (instances w ! a)]\<rparr>"

definition upd_loader :: "nat \<Rightarrow> (loader \<Rightarrow> loader) \<Rightarrow> world \<Rightarrow> world" where
  "upd_loader a f w = w\<lparr>loaders := (loaders w)[a := f (loaders w ! a)]\<rparr>"

definition log_event :: "event \<Rightarrow> world \<Rightarrow> world" where
  "log_event e w = w\<lparr>trace := trace w @ [e]\<rparr>"

text \<open>A call that returns nothing, and one that returns a value.\<close>

definition perform :: "event \<Rightarrow> exn option \<Rightarrow> world \<Rightarrow> (world, unit) res" where
  "perform e r w = (case r of None \<Rightarrow> Ok () (log_event e w) | Some x \<Rightarrow> Raise x (log_event e w))"

definition query :: "event \<Rightarrow> exn + 'a \<Rightarrow> world \<Rightarrow> (world, 'a) res" where
  "query e r w = (case r of Inr v \<Rightarrow> Ok v (log_event e w) | Inl x \<Rightarrow> Raise x (log_event e w))"

section \<open>Sets of instances\<close>

text \<open>
  \<^verbatim>\<open>set.add\<close>, \<^verbatim>\<open>set.remove\<close> and membership of an instance. The set compares the hash (the id the
  element had when it was added) and then identity or the equality that \<^verbatim>\<open>attr.dataclass\<close> generates,
  which compares the columns.
\<close>

definition same_inst :: "world \<Rightarrow> nat \<Rightarrow> nat \<Rightarrow> bool" where
  "same_inst w a b \<longleftrightarrow> a = b \<or>
     inst_row.truncate (instances w ! a) = inst_row.truncate (instances w ! b)"

definition refs_has :: "world \<Rightarrow> nat \<Rightarrow> refs \<Rightarrow> bool" where
  "refs_has w a rs \<longleftrightarrow> list_ex (\<lambda>(k, b). k = i_id (instances w ! a) \<and> same_inst w a b) rs"

definition refs_add :: "world \<Rightarrow> nat \<Rightarrow> refs \<Rightarrow> refs" where
  "refs_add w a rs = (if refs_has w a rs then rs else rs @ [(i_id (instances w ! a), a)])"

fun refs_drop :: "world \<Rightarrow> nat \<Rightarrow> refs \<Rightarrow> refs" where
  "refs_drop w a [] = []"
| "refs_drop w a ((k, b) # rs) =
     (if k = i_id (instances w ! a) \<and> same_inst w a b then rs else (k, b) # refs_drop w a rs)"

definition refs_remove :: "world \<Rightarrow> nat \<Rightarrow> refs \<Rightarrow> refs option" where
  "refs_remove w a rs = (if refs_has w a rs then Some (refs_drop w a rs) else None)"

section \<open>The client table\<close>

definition NotNullViolation :: exn where
  "NotNullViolation = OtherException ''NotNullViolation''"

definition ForeignKeyViolation :: exn where
  "ForeignKeyViolation = OtherException ''ForeignKeyViolation''"

definition UniqueViolation :: exn where
  "UniqueViolation = OtherException ''UniqueViolation''"

definition row_complete :: "'z client_row_scheme \<Rightarrow> bool" where
  "row_complete r \<longleftrightarrow> homeserver r \<noteq> None \<and> access_token r \<noteq> None"

definition db_client_get :: "string \<Rightarrow> world \<Rightarrow> client_row option" where
  "db_client_get k w = map_of (client_table w) k"

definition db_client_insert :: "client_row \<Rightarrow> world \<Rightarrow> (world, unit) res" where
  "db_client_insert r w =
     (if \<not> row_complete r then Raise NotNullViolation w
      else if in_dict (c_id r) (client_table w) then Raise UniqueViolation w
      else Ok () (w\<lparr>client_table := dict_set (c_id r) r (client_table w)\<rparr>))"

definition db_client_update :: "client_row \<Rightarrow> world \<Rightarrow> (world, unit) res" where
  "db_client_update r w =
     (if \<not> in_dict (c_id r) (client_table w) then Ok () w
      else if \<not> row_complete r then Raise NotNullViolation w
      else Ok () (w\<lparr>client_table := dict_set (c_id r) r (client_table w)\<rparr>))"

definition db_client_delete :: "string \<Rightarrow> world \<Rightarrow> (world, unit) res" where
  "db_client_delete k w =
     (if in_dict k (client_table w) \<and> list_ex (\<lambda>(_, r). primary_user r = k) (inst_table w)
      then Raise ForeignKeyViolation w
      else Ok () (w\<lparr>client_table := dict_del k (client_table w)\<rparr>))"

definition db_put_next_batch :: "string \<Rightarrow> nat \<Rightarrow> world \<Rightarrow> (world, unit) res" where
  "db_put_next_batch token a w =
     (let k = c_id (clients w ! a);
          w = (case map_of (client_table w) k of
                 Some r \<Rightarrow> w\<lparr>client_table := dict_set k (r\<lparr>next_batch := token\<rparr>) (client_table w)\<rparr>
               | None \<Rightarrow> w) in
      Ok () (upd_client a (\<lambda>c. c\<lparr>next_batch := token\<rparr>) w))"

section \<open>The instance table\<close>

definition db_inst_get :: "string \<Rightarrow> world \<Rightarrow> inst_row option" where
  "db_inst_get k w = map_of (inst_table w) k"

definition db_inst_insert :: "inst_row \<Rightarrow> world \<Rightarrow> (world, unit) res" where
  "db_inst_insert r w =
     (if in_dict (i_id r) (inst_table w) then Raise UniqueViolation w
      else if \<not> in_dict (primary_user r) (client_table w) then Raise ForeignKeyViolation w
      else Ok () (w\<lparr>inst_table := dict_set (i_id r) r (inst_table w)\<rparr>))"

definition db_inst_update :: "inst_row \<Rightarrow> world \<Rightarrow> (world, unit) res" where
  "db_inst_update r w =
     (if \<not> in_dict (i_id r) (inst_table w) then Ok () w
      else if \<not> in_dict (primary_user r) (client_table w) then Raise ForeignKeyViolation w
      else Ok () (w\<lparr>inst_table := dict_set (i_id r) r (inst_table w)\<rparr>))"

definition db_inst_delete :: "string \<Rightarrow> world \<Rightarrow> (world, unit) res" where
  "db_inst_delete k w = Ok () (w\<lparr>inst_table := dict_del k (inst_table w)\<rparr>)"

text \<open>\<^verbatim>\<open>UPDATE instance SET id=$1 WHERE id=$2\<close>, then the object's own id.\<close>

definition db_inst_update_id :: "nat \<Rightarrow> string \<Rightarrow> world \<Rightarrow> (world, unit) res" where
  "db_inst_update_id a new_id w =
     (let k = i_id (instances w ! a) in
      case map_of (inst_table w) k of
        Some r \<Rightarrow>
          if new_id \<noteq> k \<and> in_dict new_id (inst_table w) then Raise UniqueViolation w
          else Ok () (upd_inst a (\<lambda>i. i\<lparr>i_id := new_id\<rparr>)
                 (w\<lparr>inst_table := dict_set new_id (r\<lparr>i_id := new_id\<rparr>) (dict_del k (inst_table w))\<rparr>))
      | None \<Rightarrow> Ok () (upd_inst a (\<lambda>i. i\<lparr>i_id := new_id\<rparr>) w))"

text \<open>\<^verbatim>\<open>SELECT ... FROM client\<close> and \<^verbatim>\<open>FROM instance\<close>: one row for every primary key.\<close>

definition db_client_all :: "world \<Rightarrow> (string \<times> client_row) list" where
  "db_client_all w = AList.clearjunk (client_table w)"

definition db_inst_all :: "world \<Rightarrow> (string \<times> inst_row) list" where
  "db_inst_all w = AList.clearjunk (inst_table w)"

section \<open>The interface of a cached table\<close>

text \<open>
  \<^verbatim>\<open>Client.get\<close> and \<^verbatim>\<open>PluginInstance.get\<close> share a contract: a cached object is returned as it is, a
  result is cached under the key that was asked for, and looking something up never drops or
  replaces a cached object. The first argument stands for the optional arguments with
  which an object is created when there is none.
\<close>

definition lookups :: "('x \<Rightarrow> 'k \<Rightarrow> 'w \<Rightarrow> ('w, 'a) res) \<Rightarrow> ('x \<times> 'k) list \<Rightarrow> 'w \<Rightarrow> 'w" where
  "lookups get xs w = fold (\<lambda>(x, k) w. state_of (get x k w)) xs w"

locale object_cache =
  fixes lookup :: "'w \<Rightarrow> 'k \<Rightarrow> nat option"
    and key :: "'w \<Rightarrow> nat \<Rightarrow> 'k"
    and invar :: "'w \<Rightarrow> bool"
    and get :: "'x \<Rightarrow> 'k \<Rightarrow> 'w \<Rightarrow> ('w, nat option) res"
  assumes get_hit: "lookup w k = Some a \<Longrightarrow> get x k w = Ok (Some a) w"
    and get_fills: "invar w \<Longrightarrow> get x k w = Ok (Some a) w' \<Longrightarrow> lookup w' k = Some a"
    and get_grows: "invar w \<Longrightarrow> lookup w j = Some b \<Longrightarrow> lookup (state_of (get x k w)) j = Some b"
    and get_invar: "invar w \<Longrightarrow> invar (state_of (get x k w))"
    and cached_key: "invar w \<Longrightarrow> lookup w k = Some a \<Longrightarrow> key w a = k"
begin

lemma lookups_invar: "invar w \<Longrightarrow> invar (lookups get xs w)"
  by (induction xs arbitrary: w) (auto simp: lookups_def get_invar)

lemma lookups_grows: "invar w \<Longrightarrow> lookup w j = Some b \<Longrightarrow> lookup (lookups get xs w) j = Some b"
  by (induction xs arbitrary: w) (auto simp: lookups_def get_invar get_grows)

text \<open>An object found once is found again, the same one, whatever was looked up in between.\<close>

lemma get_stable:
  assumes "invar w" and "get x k w = Ok (Some a) w'"
  shows "get y k (lookups get xs w') = Ok (Some a) (lookups get xs w')"
proof -
  have "invar w'" using get_invar [OF assms(1), of x k] assms(2) by simp
  then show ?thesis by (intro get_hit lookups_grows get_fills [OF assms])
qed

lemma get_key:
  assumes "invar w" and "get x k w = Ok (Some a) w'"
  shows "key w' a = k"
  using get_invar [OF assms(1), of x k] assms(2) by (intro cached_key get_fills [OF assms]) simp

text \<open>Two different keys never give the same object.\<close>

lemma get_distinct:
  assumes "invar w" and "get x k w = Ok (Some a) w'" and "get y j (lookups get xs w') = Ok (Some b) v" and "k \<noteq> j"
  shows "a \<noteq> b"
proof -
  have i: "invar (lookups get xs w')" using get_invar [OF assms(1), of x k] assms(2) by (simp add: lookups_invar)
  have "lookup (lookups get xs w') k = Some a"
    using get_invar [OF assms(1), of x k] assms(2) by (intro lookups_grows get_fills [OF assms(1,2)]) simp
  then have "lookup v k = Some a" using get_grows [OF i, of k a y j] assms(3) by simp
  moreover have "invar v" using get_invar [OF i, of y j] assms(3) by simp
  ultimately show ?thesis using get_key [OF i assms(3)] cached_key assms(4) by metis
qed

end

section \<open>Lemmas on updates\<close>

lemma upd_client_simps [simp]:
  "instances (upd_client a f w) = instances w" "client_cache (upd_client a f w) = client_cache w"
  "inst_cache (upd_client a f w) = inst_cache w" "client_table (upd_client a f w) = client_table w"
  "inst_table (upd_client a f w) = inst_table w" "tasks (upd_client a f w) = tasks w"
  "trace (upd_client a f w) = trace w" "loaders (upd_client a f w) = loaders w" "srv (upd_client a f w) = srv w"
  "length (clients (upd_client a f w)) = length (clients w)" "id_cache (upd_client a f w) = id_cache w"
  "a < length (clients w) \<Longrightarrow> clients (upd_client a f w) ! a = f (clients w ! a)"
  "a \<noteq> b \<Longrightarrow> clients (upd_client a f w) ! b = clients w ! b"
  by (simp_all add: upd_client_def)

lemma upd_inst_simps [simp]:
  "clients (upd_inst a f w) = clients w" "client_cache (upd_inst a f w) = client_cache w"
  "inst_cache (upd_inst a f w) = inst_cache w" "client_table (upd_inst a f w) = client_table w"
  "inst_table (upd_inst a f w) = inst_table w" "tasks (upd_inst a f w) = tasks w"
  "trace (upd_inst a f w) = trace w" "loaders (upd_inst a f w) = loaders w" "srv (upd_inst a f w) = srv w"
  "length (instances (upd_inst a f w)) = length (instances w)" "id_cache (upd_inst a f w) = id_cache w"
  "a < length (instances w) \<Longrightarrow> instances (upd_inst a f w) ! a = f (instances w ! a)"
  "a \<noteq> b \<Longrightarrow> instances (upd_inst a f w) ! b = instances w ! b"
  by (simp_all add: upd_inst_def)

lemma upd_loader_simps [simp]:
  "clients (upd_loader a f w) = clients w" "client_cache (upd_loader a f w) = client_cache w"
  "inst_cache (upd_loader a f w) = inst_cache w" "client_table (upd_loader a f w) = client_table w"
  "inst_table (upd_loader a f w) = inst_table w" "tasks (upd_loader a f w) = tasks w"
  "trace (upd_loader a f w) = trace w" "instances (upd_loader a f w) = instances w" "srv (upd_loader a f w) = srv w"
  "length (loaders (upd_loader a f w)) = length (loaders w)" "id_cache (upd_loader a f w) = id_cache w"
  "a < length (loaders w) \<Longrightarrow> loaders (upd_loader a f w) ! a = f (loaders w ! a)"
  "a \<noteq> b \<Longrightarrow> loaders (upd_loader a f w) ! b = loaders w ! b"
  by (simp_all add: upd_loader_def)

lemma log_event_simps [simp]:
  "clients (log_event e w) = clients w" "instances (log_event e w) = instances w"
  "client_cache (log_event e w) = client_cache w" "inst_cache (log_event e w) = inst_cache w"
  "client_table (log_event e w) = client_table w" "inst_table (log_event e w) = inst_table w"
  "tasks (log_event e w) = tasks w" "loaders (log_event e w) = loaders w" "srv (log_event e w) = srv w"
  "id_cache (log_event e w) = id_cache w"
  by (simp_all add: log_event_def)

lemma state_perform [simp]: "state_of (perform e r w) = log_event e w"
  by (simp add: perform_def split: option.splits)

lemma state_query [simp]: "state_of (query e r w) = log_event e w"
  by (simp add: query_def split: sum.splits)

lemma perform_eq_Ok: "perform e r w = Ok x v \<longleftrightarrow> r = None \<and> v = log_event e w"
  by (auto simp: perform_def split: option.splits)

lemma query_eq_Ok: "query e r w = Ok x v \<longleftrightarrow> r = Inr x \<and> v = log_event e w"
  by (auto simp: query_def split: sum.splits)

section \<open>A small world\<close>

text \<open>A plugin class with one handler of messages.\<close>

definition ex_attr :: plugin_attr where
  "ex_attr = \<lparr>pa_name = ''on_msg'', pa_gettable = True,
     pa_val = \<lparr>fn_event_handler = Some True, fn_event_types = Some [''m.room.message''], fn_web_handler = None\<rparr>\<rparr>"

text \<open>An environment in which every call succeeds and the homeserver knows the token's owner.\<close>

definition ex_net :: "exn + (string \<times> string) \<Rightarrow> (unit, bytes) env" where
  "ex_net who = loader_env.extend ex_env (env.fields
     (\<lambda>_ _. None) (\<lambda>_ _. who) (\<lambda>_ _. Inr ''f1'') (\<lambda>_ _ _. None) (\<lambda>_ _ _. None) (\<lambda>_ _. Inr (None, None))
     False (\<lambda>_ _. Inr []) (\<lambda>_ _ _. None) (\<lambda>_ _. True) (\<lambda>_ _. Inr ''verified'')
     (\<lambda>_ _. None) (\<lambda>_. [ex_attr]) (\<lambda>_ _. None) (\<lambda>_ _. None) (\<lambda>_ _. None) (\<lambda>_ _. None) (\<lambda>_ _. None)
     (\<lambda>_. False) (\<lambda>_. Inr None)
     (\<lambda>_ _. None) (\<lambda>_ _. None) (\<lambda>_ _. Inr JNull) False (ustr ''/db'') True)"

definition ex_row :: client_row where
  "ex_row = \<lparr>c_id = ''@a:b'', homeserver = Some ''https://b'', access_token = Some ''tok'', device_id = [],
     c_enabled = True, next_batch = [], filter_id = [], c_sync = True, autojoin = True, online = True,
     displayname = ''disable'', avatar_url = ''disable''\<rparr>"

definition ex_store :: world where
  "ex_store = lworld.extend ex_world1 (world.fields [] [] [] [] [(''@a:b'', ex_row)] [] (server_init ''/plugin/'' ''https://x'') [] [])"

lemma ex_store_simps [simp]:
  "clients ex_store = []" "instances ex_store = []" "client_cache ex_store = []" "inst_cache ex_store = []"
  "client_table ex_store = [(''@a:b'', ex_row)]" "inst_table ex_store = []" "tasks ex_store = []" "trace ex_store = []"
  "loaders ex_store = [ex_loader]" "id_cache ex_store = [(''a.b'', 0)]" "srv ex_store = server_init ''/plugin/'' ''https://x''"
  by (simp_all add: ex_store_def lworld.defs world.defs ex_world1_def ex_world_def)

lemma ex_net_simps [simp]:
  "net_versions (ex_net who) t m = None" "net_whoami (ex_net who) t m = who" "crypto_available (ex_net who) = False"
  "net_create_filter (ex_net who) t m = Inr ''f1''" "net_profile (ex_net who) t m = Inr (None, None)"
  "plugin_init (ex_net who) t k = None" "plugin_start (ex_net who) t k = None" "plugin_pre_stop (ex_net who) t k = None"
  "plugin_stop (ex_net who) t k = None" "plugin_pre_start (ex_net who) t k = None" "plugin_attrs (ex_net who) c = [ex_attr]"
  "has_config_class (ex_net who) c = False"
  by (simp_all add: ex_net_def loader_env.defs env.defs)

end
