(* ===== verification/MB_Client.thy ===== *)
theory MB_Client
  imports MB_World
begin

text \<open>
  \<^verbatim>\<open>maubot/client.py\<close>, the part that does not run plugin instances: creating and finding clients,
  their Matrix client, encryption, the settings that the management API changes, and the
  handlers of room tombstones and invites. Starting and stopping a client is in
  \<^verbatim>\<open>MB_Lifecycle\<close>.
\<close>

section \<open>Creating and finding clients\<close>

definition client_row_of :: "client \<Rightarrow> client_row" where
  "client_row_of c = client_row.truncate c"

text \<open>\<^verbatim>\<open>await self.update()\<close>.\<close>

definition client_update :: "nat \<Rightarrow> world \<Rightarrow> (world, unit) res" where
  "client_update a w = db_client_update (client_row_of (clients w ! a)) w"

definition or_else :: "string option \<Rightarrow> string option \<Rightarrow> string option" where
  "or_else x y = (if opt_truthy x then x else y)"

definition str_of :: "string option \<Rightarrow> string" where
  "str_of x = (case x of Some s \<Rightarrow> s | None \<Rightarrow> [])"

definition make_client ::
    "'z client_row_scheme \<Rightarrow> string option \<Rightarrow> string option \<Rightarrow> string option \<Rightarrow> matrix_client" where
  "make_client c hs token dev =
     \<lparr>mx_base_url = str_of (or_else hs (homeserver c)),
      mx_token = str_of (or_else token (access_token c)),
      mx_device = str_of (or_else dev (Some (device_id c))),
      mx_syncing = False, mx_handlers = [], mx_presence_online = True, mx_crypto = False\<rparr>"

definition enable_crypto :: "('y, 'c) env \<Rightarrow> 'z client_row_scheme \<Rightarrow> bool" where
  "enable_crypto E c \<longleftrightarrow> device_id c \<noteq> [] \<and> crypto_available E"

text \<open>
  \<^verbatim>\<open>OlmMachine(self.client, ...)\<close> adds its five event handlers to the Matrix client.
\<close>

definition crypto_handlers :: "handler list" where
  "crypto_handlers = [(''DEVICE_OTK_COUNT'', CryptoFn), (''DEVICE_LISTS'', CryptoFn),
     (''TO_DEVICE_ENCRYPTED'', CryptoFn), (''ROOM_KEY_REQUEST'', CryptoFn), (''ROOM_MEMBER'', CryptoFn)]"

definition prepare_crypto :: "client \<Rightarrow> client" where
  "prepare_crypto c =
     c\<lparr>crypto := True, mx := (mx c)\<lparr>mx_crypto := True, mx_handlers := mx_handlers (mx c) @ crypto_handlers\<rparr>\<rparr>"

definition remove_crypto_event_handlers :: "client \<Rightarrow> client" where
  "remove_crypto_event_handlers c =
     (if \<not> crypto c then c
      else c\<lparr>mx := (mx c)\<lparr>mx_handlers := filter (\<lambda>h. h \<notin> set crypto_handlers) (mx_handlers (mx c))\<rparr>\<rparr>)"

definition invite_handler :: handler where
  "invite_handler = (''ROOM_MEMBER'', ClientFn ''_handle_invite'')"

definition add_handler :: "handler \<Rightarrow> matrix_client \<Rightarrow> matrix_client" where
  "add_handler h m = m\<lparr>mx_handlers := mx_handlers m @ [h]\<rparr>"

text \<open>The fields that \<^verbatim>\<open>postinit\<close> sets.\<close>

definition postinit_fields :: "('y, 'c) env \<Rightarrow> client \<Rightarrow> client" where
  "postinit_fields E c =
     (let c = c\<lparr>postinited := True, c_references := [], c_started := False, sync_ok := True,
                trust_state := None, remote_displayname := None, remote_avatar_url := None,
                mx := make_client c None None None\<rparr>;
          c = (if enable_crypto E c then prepare_crypto c else c\<lparr>crypto := False\<rparr>);
          m = (mx c)\<lparr>mx_presence_online := online c\<rparr>;
          m = (if autojoin c then add_handler invite_handler m else m);
          m = add_handler (''ROOM_TOMBSTONE'', ClientFn ''_handle_tombstone'') m;
          m = add_handler (''SYNC_SUCCESSFUL'', ClientFn ''_set_sync_ok(True)'')
                (add_handler (''SYNC_ERRORED'', ClientFn ''_set_sync_ok(False)'') m) in
      c\<lparr>mx := m\<rparr>)"

definition postinit :: "('y, 'c) env \<Rightarrow> nat \<Rightarrow> world \<Rightarrow> (world, unit) res" where
  "postinit E a w =
     (if postinited (clients w ! a) then Raise (RuntimeError ''postinit() called twice'') w
      else Ok () (upd_client a (postinit_fields E)
             (w\<lparr>client_cache := dict_set (c_id (clients w ! a)) a (client_cache w)\<rparr>)))"

text \<open>A new object, from a row or from arguments.\<close>

definition client_init :: "client_row \<Rightarrow> client" where
  "client_init r = client_row.extend r
     (client.fields False [] False False None None None (make_client r None None None) False)"

definition new_client :: "client_row \<Rightarrow> world \<Rightarrow> nat \<times> world" where
  "new_client r w = (length (clients w), w\<lparr>clients := clients w @ [client_init r]\<rparr>)"

text \<open>The defaults of \<^verbatim>\<open>Client.__init__\<close>.\<close>

definition default_row :: "string \<Rightarrow> string \<Rightarrow> string \<Rightarrow> string \<Rightarrow> client_row" where
  "default_row k hs token dev =
     \<lparr>c_id = k, homeserver = Some hs, access_token = Some token, device_id = dev, c_enabled = False,
      next_batch = [], filter_id = [], c_sync = True, autojoin = True, online = True,
      displayname = ''disable'', avatar_url = ''disable''\<rparr>"

definition client_get ::
    "('y, 'c) env \<Rightarrow> string option \<Rightarrow> string option \<Rightarrow> string option \<Rightarrow> string \<Rightarrow> world
      \<Rightarrow> (world, nat option) res" where
  "client_get E hs token dev user_id w =
     (case map_of (client_cache w) user_id of
        Some a \<Rightarrow> Ok (Some a) w
      | None \<Rightarrow>
     (case db_client_get user_id w of
        Some r \<Rightarrow>
          let (a, w) = new_client r w in bind (postinit E a w) (\<lambda>_ w. Ok (Some a) w)
      | None \<Rightarrow>
          if opt_truthy hs \<and> opt_truthy token then
            (let r = default_row user_id (the hs) (the token) (str_of dev) in
             bind (db_client_insert r w) (\<lambda>_ w.
             let (a, w) = new_client r w in bind (postinit E a w) (\<lambda>_ w. Ok (Some a) w)))
          else Ok None w))"

text \<open>\<^verbatim>\<open>Client.all\<close>: the objects of all rows, in table order.\<close>

fun client_all_rows :: "('y, 'c) env \<Rightarrow> (string \<times> client_row) list \<Rightarrow> world \<Rightarrow> (world, nat list) res" where
  "client_all_rows E [] w = Ok [] w"
| "client_all_rows E ((k, r) # rows) w =
     bind (case map_of (client_cache w) (c_id r) of
             Some a \<Rightarrow> Ok a w
           | None \<Rightarrow> (let (a, w) = new_client r w in bind (postinit E a w) (\<lambda>_ w. Ok a w)))
       (\<lambda>a w. bind (client_all_rows E rows w) (\<lambda>as w. Ok (a # as) w))"

definition client_all :: "('y, 'c) env \<Rightarrow> world \<Rightarrow> (world, nat list) res" where
  "client_all E w = client_all_rows E (db_client_all w) w"

definition client_delete :: "nat \<Rightarrow> world \<Rightarrow> (world, unit) res" where
  "client_delete a w =
     (let k = c_id (clients w ! a) in
      db_client_delete k (w\<lparr>client_cache := dict_del k (client_cache w)\<rparr>))"

section \<open>Sync, encryption and profile\<close>

definition client_mx :: "nat \<Rightarrow> world \<Rightarrow> matrix_client" where
  "client_mx a w = mx (clients w ! a)"

definition upd_mx :: "nat \<Rightarrow> (matrix_client \<Rightarrow> matrix_client) \<Rightarrow> world \<Rightarrow> world" where
  "upd_mx a f w = upd_client a (\<lambda>c. c\<lparr>mx := f (mx c)\<rparr>) w"

definition start_sync :: "nat \<Rightarrow> world \<Rightarrow> world" where
  "start_sync a w =
     (let c = clients w ! a in
      if c_sync c then log_event (SyncStart (c_id c) (filter_id c)) (upd_mx a (\<lambda>m. m\<lparr>mx_syncing := True\<rparr>) w)
      else w)"

definition stop_sync :: "nat \<Rightarrow> world \<Rightarrow> world" where
  "stop_sync a w = log_event (SyncStop (c_id (clients w ! a))) (upd_mx a (\<lambda>m. m\<lparr>mx_syncing := False\<rparr>) w)"

definition crypto_do :: "('y, 'c) env \<Rightarrow> string \<Rightarrow> nat \<Rightarrow> world \<Rightarrow> (world, unit) res" where
  "crypto_do E what a w =
     (let k = c_id (clients w ! a) in perform (CryptoCall k what) (crypto_call E (trace w) k what) w)"

definition start_crypto :: "('y, 'c) env \<Rightarrow> nat \<Rightarrow> world \<Rightarrow> (world, unit) res" where
  "start_crypto E a w =
     (let c = clients w ! a in
      bind (crypto_do E ''open'' a w) (\<lambda>_ w.
      bind (query (CryptoCall (c_id c) ''get_device_id'') (crypto_device_id E (trace w) (c_id c)) w) (\<lambda>dev w.
      bind (if dev \<noteq> [] \<and> dev \<noteq> device_id c
            then bind (crypto_do E ''delete'' a w) (\<lambda>_ w. Ok [] w) else Ok dev w) (\<lambda>dev w.
      bind (crypto_do E ''load'' a w) (\<lambda>_ w.
      bind (if dev = [] then crypto_do E ''put_device_id'' a w else Ok () w) (\<lambda>_ w.
      bind (if \<not> crypto_shared E (trace w) (c_id c) then crypto_do E ''share_keys'' a w else Ok () w) (\<lambda>_ w.
      bind (query (CryptoCall (c_id c) ''resolve_trust'') (crypto_trust E (trace w) (c_id c)) w) (\<lambda>t w.
      Ok () (upd_client a (\<lambda>c. c\<lparr>trust_state := Some t\<rparr>) w)))))))))"

text \<open>\<^verbatim>\<open>_update_remote_profile\<close> swallows every exception.\<close>

definition update_remote_profile :: "('y, 'c) env \<Rightarrow> nat \<Rightarrow> world \<Rightarrow> (world, unit) res" where
  "update_remote_profile E a w =
     catch (bind (query (GetProfile (c_id (clients w ! a))) (net_profile E (trace w) (client_mx a w)) w)
              (\<lambda>(d, av) w. Ok () (upd_client a (\<lambda>c. c\<lparr>remote_displayname := d, remote_avatar_url := av\<rparr>) w)))
       (\<lambda>e w. Ok () w)"

definition client_clear_cache :: "nat \<Rightarrow> world \<Rightarrow> (world, unit) res" where
  "client_clear_cache a w =
     bind (client_update a (upd_client a (\<lambda>c. c\<lparr>filter_id := [], next_batch := []\<rparr>) (stop_sync a w)))
       (\<lambda>_ w. Ok () (start_sync a w))"

section \<open>Settings\<close>

definition save_if :: "bool \<Rightarrow> nat \<Rightarrow> world \<Rightarrow> (world, unit) res" where
  "save_if save a w = (if save then client_update a w else Ok () w)"

definition update_enabled :: "bool option \<Rightarrow> bool \<Rightarrow> nat \<Rightarrow> world \<Rightarrow> (world, unit) res" where
  "update_enabled enabled save a w =
     (if enabled = None \<or> enabled = Some (c_enabled (clients w ! a)) then Ok () w
      else save_if save a (upd_client a (\<lambda>c. c\<lparr>c_enabled := the enabled\<rparr>) w))"

definition update_displayname ::
    "('y, 'c) env \<Rightarrow> string option \<Rightarrow> bool \<Rightarrow> nat \<Rightarrow> world \<Rightarrow> (world, unit) res" where
  "update_displayname E name save a w =
     (if name = None \<or> name = Some (displayname (clients w ! a)) then Ok () w
      else let n = the name; w = upd_client a (\<lambda>c. c\<lparr>displayname := n\<rparr>) w in
        bind (if n \<noteq> ''disable''
              then perform (SetDisplayname (c_id (clients w ! a)) n)
                     (net_set_displayname E (trace w) (client_mx a w) n) w
              else update_remote_profile E a w)
          (\<lambda>_ w. save_if save a w))"

definition update_avatar_url ::
    "('y, 'c) env \<Rightarrow> string option \<Rightarrow> bool \<Rightarrow> nat \<Rightarrow> world \<Rightarrow> (world, unit) res" where
  "update_avatar_url E url save a w =
     (if url = None \<or> url = Some (avatar_url (clients w ! a)) then Ok () w
      else let n = the url; w = upd_client a (\<lambda>c. c\<lparr>avatar_url := n\<rparr>) w in
        bind (if n \<noteq> ''disable''
              then perform (SetAvatarUrl (c_id (clients w ! a)) n)
                     (net_set_avatar_url E (trace w) (client_mx a w) n) w
              else update_remote_profile E a w)
          (\<lambda>_ w. save_if save a w))"

definition update_sync :: "bool option \<Rightarrow> bool \<Rightarrow> nat \<Rightarrow> world \<Rightarrow> (world, unit) res" where
  "update_sync sync save a w =
     (if sync = None \<or> sync = Some (c_sync (clients w ! a)) then Ok () w
      else let s = the sync; w = upd_client a (\<lambda>c. c\<lparr>c_sync := s\<rparr>) w;
               w = (if c_started (clients w ! a) then (if s then start_sync a w else stop_sync a w) else w) in
        save_if save a w)"

definition update_autojoin :: "bool option \<Rightarrow> bool \<Rightarrow> nat \<Rightarrow> world \<Rightarrow> (world, unit) res" where
  "update_autojoin v save a w =
     (if v = None \<or> v = Some (autojoin (clients w ! a)) then Ok () w
      else let b = the v;
               w = upd_mx a (if b then add_handler invite_handler
                     else (\<lambda>m. m\<lparr>mx_handlers := remove1 invite_handler (mx_handlers m)\<rparr>)) w in
        save_if save a (upd_client a (\<lambda>c. c\<lparr>autojoin := b\<rparr>) w))"

definition update_online :: "bool option \<Rightarrow> bool \<Rightarrow> nat \<Rightarrow> world \<Rightarrow> (world, unit) res" where
  "update_online v save a w =
     (if v = None \<or> v = Some (online (clients w ! a)) then Ok () w
      else let b = the v in
        save_if save a (upd_client a (\<lambda>c. c\<lparr>online := b\<rparr>) (upd_mx a (\<lambda>m. m\<lparr>mx_presence_online := b\<rparr>) w)))"

text \<open>The switch to the new Matrix client in \<^verbatim>\<open>update_access_details\<close>.\<close>

definition details_switch ::
    "('y, 'c) env \<Rightarrow> matrix_client \<Rightarrow> string option \<Rightarrow> string option \<Rightarrow> string \<Rightarrow> nat \<Rightarrow> world \<Rightarrow> (world, unit) res" where
  "details_switch E m token hs dev a w =
     (let w = upd_client a (\<lambda>c. let c = remove_crypto_event_handlers c in
            c\<lparr>mx := m\<lparr>mx_handlers := mx_handlers (mx c)\<rparr>, homeserver := hs, access_token := token,
              device_id := dev\<rparr>) (stop_sync a w) in
      bind (if enable_crypto E (clients w ! a)
            then start_crypto E a (upd_client a prepare_crypto w)
            else Ok () (upd_client a (\<lambda>c. c\<lparr>crypto := False\<rparr>) w))
        (\<lambda>_ w. Ok () (start_sync a w)))"

text \<open>
  \<^verbatim>\<open>update_access_details\<close>. The checks come first and change nothing; the object's
  \<^verbatim>\<open>homeserver\<close> and \<^verbatim>\<open>access_token\<close> are then set to the arguments, whichever were given.
\<close>

definition update_access_details ::
    "('y, 'c) env \<Rightarrow> string option \<Rightarrow> string option \<Rightarrow> string option \<Rightarrow> nat \<Rightarrow> world \<Rightarrow> (world, unit) res" where
  "update_access_details E token hs dev_arg a w =
     (let c = clients w ! a; dev = (case dev_arg of None \<Rightarrow> device_id c | Some d \<Rightarrow> d) in
      if \<not> opt_truthy token \<and> \<not> opt_truthy hs then Ok () w
      else if token = access_token c \<and> hs = homeserver c \<and> dev = device_id c then Ok () w
      else let m = make_client c hs token (Some dev) in
        bind (query (Whoami (c_id c)) (net_whoami E (trace w) m) w) (\<lambda>(user_id, whoami_dev) w.
          if user_id \<noteq> c_id c then Raise (ValueError (''MXID mismatch: '' @ user_id)) w
          else if whoami_dev \<noteq> [] \<and> dev \<noteq> [] \<and> whoami_dev \<noteq> dev
          then Raise (ValueError (''Device ID mismatch: '' @ whoami_dev)) w
          else details_switch E m token hs dev a w))"

section \<open>Room events\<close>

text \<open>\<^verbatim>\<open>_set_sync_ok\<close>, the handler of the two sync events.\<close>

definition set_sync_ok :: "bool \<Rightarrow> nat \<Rightarrow> world \<Rightarrow> world" where
  "set_sync_ok ok a w = upd_client a (\<lambda>c. c\<lparr>sync_ok := ok\<rparr>) w"

text \<open>\<^verbatim>\<open>_handle_invite\<close>: the rooms to join.\<close>

definition handle_invite :: "string \<Rightarrow> string \<Rightarrow> string \<Rightarrow> string \<Rightarrow> string list" where
  "handle_invite own_id state_key membership room_id =
     (if state_key = own_id \<and> membership = ''invite'' then [room_id] else [])"

record tombstone =
  ts_state_key :: string
  ts_room_id :: string
  ts_sender :: string
  ts_replacement :: "string option"

text \<open>What the homeserver says of the replacement room, for \<^verbatim>\<open>_handle_tombstone\<close>.\<close>

record room_info =
  ri_is_joined :: bool
  ri_join :: "exn + string"
  ri_power_levels :: "exn + (int \<times> int)"
  ri_create :: "exn + unit"
  ri_leave :: "exn option"

datatype room_act = Join string string | Leave string

text \<open>
  \<^verbatim>\<open>_handle_tombstone\<close> is a middleware: the result says whether the event is passed on. The pair in
  \<open>ri_power_levels\<close> is the sender's level and the level needed to invite.
\<close>

definition user_server :: "string \<Rightarrow> string" where
  "user_server user_id = snd (split_once (CHR '':'') user_id)"

definition handle_tombstone :: "room_info \<Rightarrow> tombstone \<Rightarrow> (exn + bool) \<times> room_act list" where
  "handle_tombstone info evt =
     (if ts_state_key evt \<noteq> [] then (Inr False, [])
      else if \<not> opt_truthy (ts_replacement evt) then (Inr True, [])
      else let new_room = the (ts_replacement evt);
               joining = (if ri_is_joined info then [] else [Join new_room (user_server (ts_sender evt))]) in
        case (if ri_is_joined info then Inr new_room else ri_join info) of
          Inl e \<Rightarrow> (Inl e, joining)
        | Inr room_id \<Rightarrow>
            (case ri_power_levels info of
               Inl e \<Rightarrow> (Inl e, joining)
             | Inr (sender_level, invite_level) \<Rightarrow>
                 (case ri_create info of
                    Inl e \<Rightarrow> (Inl e, joining)
                  | Inr _ \<Rightarrow>
                      let has_permission = (invite_level \<le> sender_level) in
                      if \<not> ri_is_joined info \<and> \<not> has_permission then
                        (case ri_leave info of
                           Some e \<Rightarrow> (Inl e, joining @ [Leave room_id])
                         | None \<Rightarrow> (Inr False, joining @ [Leave room_id]))
                      else if \<not> has_permission then (Inr False, joining)
                      else (Inr True, joining))))"

section \<open>Client objects\<close>

text \<open>The cached clients are on the heap under their ids, and the table's rows carry their keys.\<close>

definition client_inv :: "world \<Rightarrow> bool" where
  "client_inv w \<longleftrightarrow> (\<forall>k r. map_of (client_table w) k = Some r \<longrightarrow> c_id r = k)
     \<and> (\<forall>k a. map_of (client_cache w) k = Some a \<longrightarrow> a < length (clients w) \<and> c_id (clients w ! a) = k)"

lemma c_id_init [simp]: "c_id (client_init r) = c_id r"
  by (simp add: client_init_def client_row.defs)

lemma c_id_postinit_fields [simp]: "c_id (postinit_fields E c) = c_id c"
  by (simp add: postinit_fields_def prepare_crypto_def Let_def)

lemma not_postinited [simp]: "\<not> postinited (client_init r)"
  by (simp add: client_init_def client_row.defs client.defs)

text \<open>What allocating and initialising a client does to the world.\<close>

definition with_client :: "('y, 'c) env \<Rightarrow> client_row \<Rightarrow> world \<Rightarrow> world" where
  "with_client E r w = w\<lparr>clients := clients w @ [postinit_fields E (client_init r)],
     client_cache := dict_set (c_id r) (length (clients w)) (client_cache w)\<rparr>"

lemma new_client_postinit:
  "(let (a, w) = new_client r w in bind (postinit E a w) (\<lambda>_ w. Ok (f a) w)) =
   Ok (f (length (clients w))) (with_client E r w)"
  by (simp add: new_client_def postinit_def with_client_def upd_client_def Let_def)

lemma client_get_cases:
  obtains a where "map_of (client_cache w) k = Some a" "client_get E hs token dev k w = Ok (Some a) w"
  | r where "map_of (client_cache w) k = None" "map_of (client_table w) k = Some r"
      "client_get E hs token dev k w = Ok (Some (length (clients w))) (with_client E r w)"
  | r where "map_of (client_cache w) k = None" "map_of (client_table w) k = None" "c_id r = k"
      "opt_truthy hs" "opt_truthy token"
      "client_get E hs token dev k w = Ok (Some (length (clients w)))
         (with_client E r (w\<lparr>client_table := dict_set k r (client_table w)\<rparr>))"
  | "map_of (client_cache w) k = None" "map_of (client_table w) k = None"
      "client_get E hs token dev k w = Ok None w"
proof (cases "map_of (client_cache w) k")
  case (Some a)
  then show ?thesis using that(1) by (simp add: client_get_def)
next
  case None
  show ?thesis
  proof (cases "map_of (client_table w) k")
    case (Some r)
    then show ?thesis using None that(2) new_client_postinit [of r w E Some]
      by (simp add: client_get_def db_client_get_def)
  next
    case none: None
    define r where "r = default_row k (the hs) (the token) (str_of dev)"
    have r: "c_id r = k" "row_complete r" by (simp_all add: r_def default_row_def row_complete_def)
    show ?thesis
    proof (cases "opt_truthy hs \<and> opt_truthy token")
      case True
      have "client_get E hs token dev k w = Ok (Some (length (clients w)))
          (with_client E r (w\<lparr>client_table := dict_set k r (client_table w)\<rparr>))"
        using None none True r new_client_postinit [of r "w\<lparr>client_table := dict_set k r (client_table w)\<rparr>" E Some]
        by (simp add: client_get_def db_client_get_def db_client_insert_def in_dict_def r_def [symmetric])
      then show ?thesis using that(3) [OF None none r(1)] True by simp
    next
      case False
      then show ?thesis using None none that(4) by (auto simp: client_get_def db_client_get_def)
    qed
  qed
qed

lemma client_inv_with_client:
  "client_inv w \<Longrightarrow> client_inv (with_client E r w)"
  by (auto simp: client_inv_def with_client_def nth_append less_SucI split: if_splits)

lemma client_inv_table:
  "client_inv w \<Longrightarrow> c_id r = k \<Longrightarrow> client_inv (w\<lparr>client_table := dict_set k r (client_table w)\<rparr>)"
  by (simp add: client_inv_def)

interpretation clients_by_id: object_cache
  "\<lambda>w k. map_of (client_cache w) k" "\<lambda>w a. c_id (clients w ! a)" client_inv
  "\<lambda>(hs, token, dev) k w. client_get E hs token dev k w"
proof unfold_locales
  fix w k a and x :: "string option \<times> string option \<times> string option"
  show "map_of (client_cache w) k = Some a \<Longrightarrow> (case x of (hs, token, dev) \<Rightarrow> client_get E hs token dev) k w = Ok (Some a) w"
    by (cases x) (simp add: client_get_def)
next
  fix w k a w' and x :: "string option \<times> string option \<times> string option"
  assume "client_inv w" "(case x of (hs, token, dev) \<Rightarrow> client_get E hs token dev) k w = Ok (Some a) w'"
  then show "map_of (client_cache w') k = Some a"
    by (cases x, simp) (rule client_get_cases [of w k E "fst x" "fst (snd x)" "snd (snd x)"];
      auto simp: with_client_def client_inv_def)
next
  fix w j b k and x :: "string option \<times> string option \<times> string option"
  assume "client_inv w" "map_of (client_cache w) j = Some b"
  then show "map_of (client_cache (state_of ((case x of (hs, token, dev) \<Rightarrow> client_get E hs token dev) k w))) j = Some b"
    by (cases x, simp) (rule client_get_cases [of w k E "fst x" "fst (snd x)" "snd (snd x)"];
      auto simp: with_client_def client_inv_def)
next
  fix w k and x :: "string option \<times> string option \<times> string option"
  assume "client_inv w"
  then show "client_inv (state_of ((case x of (hs, token, dev) \<Rightarrow> client_get E hs token dev) k w))"
    by (cases x, simp) (rule client_get_cases [of w k E "fst x" "fst (snd x)" "snd (snd x)"];
      auto intro: client_inv_with_client client_inv_table)
next
  fix w k a
  show "client_inv w \<Longrightarrow> map_of (client_cache w) k = Some a \<Longrightarrow> c_id (clients w ! a) = k"
    by (simp add: client_inv_def)
qed

text \<open>
  One object per client. The client found for a user id has that id, and every later lookup of
  the id gives the same object, whatever other clients are looked up or created in
  between and whatever arguments are given; different ids give different objects.
\<close>

theorem client_objects_unique:
  assumes "client_inv w" and "client_get E hs token dev k w = Ok (Some a) w'"
  defines "later \<equiv> \<lambda>xs. lookups (\<lambda>(hs, token, dev) j v. client_get E hs token dev j v) xs w'"
  shows "c_id (clients w' ! a) = k
    \<and> (\<forall>xs hs2 token2 dev2. client_get E hs2 token2 dev2 k (later xs) = Ok (Some a) (later xs))
    \<and> (\<forall>xs hs2 token2 dev2 j b v. client_get E hs2 token2 dev2 j (later xs) = Ok (Some b) v \<longrightarrow> j \<noteq> k \<longrightarrow> b \<noteq> a)"
proof -
  have get: "(case (hs, token, dev) of (hs, token, dev) \<Rightarrow> client_get E hs token dev) k w = Ok (Some a) w'"
    using assms(2) by simp
  show ?thesis
    using clients_by_id.get_key [OF assms(1) get] clients_by_id.get_stable [OF assms(1) get]
      clients_by_id.get_distinct [OF assms(1) get]
    unfolding later_def by fastforce
qed

section \<open>Settings\<close>

text \<open>The table has the row of the object.\<close>

definition persisted :: "nat \<Rightarrow> world \<Rightarrow> bool" where
  "persisted a w \<longleftrightarrow> map_of (client_table w) (c_id (clients w ! a)) = Some (client_row_of (clients w ! a))"

lemma c_id_row_of [simp]: "c_id (client_row_of c) = c_id c"
  by (simp add: client_row_of_def client_row.defs)

lemma row_of_fields [simp]:
  "c_sync (client_row_of c) = c_sync c" "c_enabled (client_row_of c) = c_enabled c"
  by (simp_all add: client_row_of_def client_row.defs)

lemma client_update_persists:
  assumes "client_update a w = Ok () w'" and "in_dict (c_id (clients w ! a)) (client_table w)"
  shows "persisted a w'" and "clients w' = clients w"
  using assms by (auto simp: client_update_def db_client_update_def persisted_def split: if_splits)

lemma upd_mx_simps [simp]:
  "client_table (upd_mx a f w) = client_table w" "length (clients (upd_mx a f w)) = length (clients w)"
  "a < length (clients w) \<Longrightarrow> clients (upd_mx a f w) ! a = (clients w ! a)\<lparr>mx := f (mx (clients w ! a))\<rparr>"
  by (simp_all add: upd_mx_def)

lemma start_sync_simps [simp]:
  "client_table (start_sync a w) = client_table w" "length (clients (start_sync a w)) = length (clients w)"
  "a < length (clients w) \<Longrightarrow> client_row_of (clients (start_sync a w) ! a) = client_row_of (clients w ! a)"
  by (simp_all add: start_sync_def Let_def client_row_of_def client_row.defs)

lemma stop_sync_simps [simp]:
  "client_table (stop_sync a w) = client_table w" "length (clients (stop_sync a w)) = length (clients w)"
  "a < length (clients w) \<Longrightarrow> client_row_of (clients (stop_sync a w) ! a) = client_row_of (clients w ! a)"
  by (simp_all add: stop_sync_def client_row_of_def client_row.defs)

lemma update_remote_profile_simps:
  assumes "update_remote_profile E a w = Ok x w'" and "a < length (clients w)"
  shows "client_table w' = client_table w" and "client_row_of (clients w' ! a) = client_row_of (clients w ! a)"
  using assms by (auto simp: update_remote_profile_def query_def client_row_of_def client_row.defs split: sum.splits)

lemma row_of_c_id: "client_row_of c = client_row_of d \<Longrightarrow> c_id c = c_id d"
  using c_id_row_of by metis

text \<open>
  Settings are saved. After a setting of a known client has been changed with saving on, the
  setting has the given value and the database row is the object's row.
\<close>

theorem settings_persisted:
  assumes "a < length (clients w)" and "in_dict (c_id (clients w ! a)) (client_table w)" and "persisted a w"
  shows "(update_enabled (Some b) True a w = Ok () w' \<longrightarrow> persisted a w' \<and> c_enabled (clients w' ! a) = b)
    \<and> (update_sync (Some b) True a w = Ok () w' \<longrightarrow> persisted a w' \<and> c_sync (clients w' ! a) = b)
    \<and> (update_autojoin (Some b) True a w = Ok () w' \<longrightarrow> persisted a w' \<and> autojoin (clients w' ! a) = b)
    \<and> (update_online (Some b) True a w = Ok () w' \<longrightarrow> persisted a w' \<and> online (clients w' ! a) = b
         \<and> mx_presence_online (mx (clients w' ! a)) = (if online (clients w ! a) = b then mx_presence_online (mx (clients w ! a)) else b))"
proof (intro conjI impI)
  note upd = client_update_persists [where a = a and w' = w']
  assume "update_enabled (Some b) True a w = Ok () w'"
  then show "persisted a w'" "c_enabled (clients w' ! a) = b"
    using assms upd by (auto simp: update_enabled_def save_if_def split: if_splits)
next
  note upd = client_update_persists [where a = a and w' = w']
  assume run: "update_sync (Some b) True a w = Ok () w'"
  have "persisted a w' \<and> c_sync (clients w' ! a) = b"
  proof (cases "c_sync (clients w ! a) = b")
    case False
    define v where "v = upd_client a (\<lambda>c. c\<lparr>c_sync := b\<rparr>) w"
    define u where "u = (if c_started (clients v ! a) then (if b then start_sync a v else stop_sync a v) else v)"
    have row: "client_row_of (clients u ! a) = client_row_of (clients v ! a)" "client_table u = client_table w"
      using assms(1) by (simp_all add: u_def v_def)
    have "c_id (clients u ! a) = c_id (clients w ! a)" "c_sync (clients u ! a) = b"
      using row_of_c_id [OF row(1)] arg_cong [OF row(1), of c_sync] assms(1) by (simp_all add: v_def)
    moreover have "client_update a u = Ok () w'"
      using run False by (auto simp: update_sync_def save_if_def Let_def u_def v_def)
    ultimately show ?thesis using upd [of u] assms(2) row(2) by simp
  qed (use run assms in \<open>auto simp: update_sync_def\<close>)
  then show "persisted a w'" "c_sync (clients w' ! a) = b" by simp_all
next
  note upd = client_update_persists [where a = a and w' = w']
  assume "update_autojoin (Some b) True a w = Ok () w'"
  then show "persisted a w'" "autojoin (clients w' ! a) = b"
    using assms upd by (auto simp: update_autojoin_def save_if_def Let_def split: if_splits)
next
  note upd = client_update_persists [where a = a and w' = w']
  assume "update_online (Some b) True a w = Ok () w'"
  then show "persisted a w'" "online (clients w' ! a) = b"
    "mx_presence_online (mx (clients w' ! a)) = (if online (clients w ! a) = b then mx_presence_online (mx (clients w ! a)) else b)"
    using assms upd by (auto simp: update_online_def save_if_def Let_def split: if_splits)
qed

section \<open>Access details\<close>

text \<open>The columns of all clients and the table stay as they are.\<close>

definition rows_kept :: "world \<Rightarrow> world \<Rightarrow> bool" where
  "rows_kept w v \<longleftrightarrow> map client_row_of (clients v) = map client_row_of (clients w) \<and> client_table v = client_table w"

lemma rows_kept_refl [simp]: "rows_kept w w"
  by (simp add: rows_kept_def)

lemma rows_kept_log [simp]: "rows_kept w (log_event e v) \<longleftrightarrow> rows_kept w v"
  by (simp add: rows_kept_def)

lemma rows_kept_upd:
  assumes "rows_kept w v" and "\<And>c. client_row_of (f c) = client_row_of c"
  shows "rows_kept w (upd_client a f v)"
proof -
  have "map client_row_of ((clients v)[a := f (clients v ! a)]) = map client_row_of (clients v)"
    using assms(2) by (cases "a < length (clients v)") (simp_all add: map_update list_update_same_conv list_update_beyond)
  then show ?thesis using assms(1) by (simp add: rows_kept_def upd_client_def)
qed

lemma rows_kept_nth: "rows_kept w v \<Longrightarrow> a < length (clients w) \<Longrightarrow> client_row_of (clients v ! a) = client_row_of (clients w ! a)"
  unfolding rows_kept_def by (metis length_map nth_map)

lemma row_of_trust [simp]: "client_row_of (c\<lparr>trust_state := t\<rparr>) = client_row_of c"
  "client_row_of (c\<lparr>mx := m\<rparr>) = client_row_of c" "client_row_of (c\<lparr>crypto := b\<rparr>) = client_row_of c"
  "client_row_of (prepare_crypto c) = client_row_of c"
  by (simp_all add: client_row_of_def client_row.defs prepare_crypto_def)

lemma holds_perform [simp]: "holds I (perform e r w) \<longleftrightarrow> I (log_event e w)"
  by (simp add: holds_def)

lemma holds_query [simp]: "holds I (query e r w) \<longleftrightarrow> I (log_event e w)"
  by (simp add: holds_def)

lemma start_crypto_rows: "rows_kept w v \<Longrightarrow> holds (rows_kept w) (start_crypto E a v)"
  unfolding start_crypto_def crypto_do_def Let_def
  by (intro holds_bind) (auto simp: rows_kept_upd intro!: holds_bind split: if_splits)

lemma start_sync_rows: "rows_kept w v \<Longrightarrow> rows_kept w (start_sync a v)"
  by (simp add: start_sync_def upd_mx_def Let_def rows_kept_upd)

lemma update_access_details_run:
  assumes "opt_truthy token \<or> opt_truthy hs"
    and "\<not> (token = access_token (clients w ! a) \<and> hs = homeserver (clients w ! a) \<and> dev = device_id (clients w ! a))"
  defines "m \<equiv> make_client (clients w ! a) hs token (Some dev)"
    and "w1 \<equiv> log_event (Whoami (c_id (clients w ! a))) w"
  shows "update_access_details E token hs (Some dev) a w =
      (case net_whoami E (trace w) m of
         Inl e \<Rightarrow> Raise e w1
       | Inr (user, d) \<Rightarrow>
           if user \<noteq> c_id (clients w ! a) then Raise (ValueError (''MXID mismatch: '' @ user)) w1
           else if d \<noteq> [] \<and> dev \<noteq> [] \<and> d \<noteq> dev then Raise (ValueError (''Device ID mismatch: '' @ d)) w1
           else details_switch E m token hs dev a w1)"
proof -
  have c1: "(\<not> opt_truthy token \<and> \<not> opt_truthy hs) = False" using assms(1) by simp
  have c2: "(token = access_token (clients w ! a) \<and> hs = homeserver (clients w ! a) \<and> dev = device_id (clients w ! a)) = False"
    using assms(2) by simp
  have run: "update_access_details E token hs (Some dev) a w =
      bind (query (Whoami (c_id (clients w ! a))) (net_whoami E (trace w) m) w) (\<lambda>(user_id, whoami_dev) w'.
          if user_id \<noteq> c_id (clients w ! a) then Raise (ValueError (''MXID mismatch: '' @ user_id)) w'
          else if whoami_dev \<noteq> [] \<and> dev \<noteq> [] \<and> whoami_dev \<noteq> dev
          then Raise (ValueError (''Device ID mismatch: '' @ whoami_dev)) w'
          else details_switch E m token hs dev a w')"
    by (simp only: update_access_details_def Let_def option.case c1 c2 if_False m_def)
  show ?thesis
    unfolding run w1_def by (cases "net_whoami E (trace w) m") (simp_all add: query_def split: prod.split)
qed

lemma details_switch_Ok:
  assumes "details_switch E m token hs dev a w = Ok x w'" and a: "a < length (clients w)"
  shows "homeserver (clients w' ! a) = hs" and "access_token (clients w' ! a) = token"
    and "device_id (clients w' ! a) = dev" and "client_table w' = client_table w"
    and "c_id (clients w' ! a) = c_id (clients w ! a)"
proof -
  define w2 where "w2 = upd_client a (\<lambda>c. let c = remove_crypto_event_handlers c in
      c\<lparr>mx := m\<lparr>mx_handlers := mx_handlers (mx c)\<rparr>, homeserver := hs, access_token := token, device_id := dev\<rparr>) (stop_sync a w)"
  define w3 where "w3 = (if enable_crypto E (clients w2 ! a) then start_crypto E a (upd_client a prepare_crypto w2)
      else Ok () (upd_client a (\<lambda>c. c\<lparr>crypto := False\<rparr>) w2))"
  have sync: "clients (stop_sync a w) ! a = (clients w ! a)\<lparr>mx := (mx (clients w ! a))\<lparr>mx_syncing := False\<rparr>\<rparr>"
    using a by (simp add: stop_sync_def upd_mx_def)
  have w2: "homeserver (clients w2 ! a) = hs" "access_token (clients w2 ! a) = token" "device_id (clients w2 ! a) = dev"
    "client_table w2 = client_table w" "a < length (clients w2)" "c_id (clients w2 ! a) = c_id (clients w ! a)"
    using a by (simp_all add: w2_def Let_def sync remove_crypto_event_handlers_def)
  obtain v where v: "w3 = Ok () v" "w' = start_sync a v"
    using assms(1) by (auto simp: details_switch_def w2_def [symmetric] w3_def [symmetric] bind_eq_Ok)
  have "holds (rows_kept w2) w3" by (simp add: w3_def start_crypto_rows rows_kept_upd)
  then have kept: "rows_kept w2 w'" by (simp add: v start_sync_rows)
  have fields: "homeserver c = homeserver (client_row_of c)" "access_token c = access_token (client_row_of c)"
    "device_id c = device_id (client_row_of c)" "c_id c = c_id (client_row_of c)" for c
    by (simp_all add: client_row_of_def client_row.defs)
  note row = rows_kept_nth [OF kept w2(5)]
  show "homeserver (clients w' ! a) = hs" "access_token (clients w' ! a) = token"
    "device_id (clients w' ! a) = dev" "c_id (clients w' ! a) = c_id (clients w ! a)"
    using row w2 fields by metis+
  show "client_table w' = client_table w" using kept w2(4) by (simp add: rows_kept_def)
qed

text \<open>
  C35. New access details. The homeserver is asked first: unless it says that the token belongs to
  the client's own user, and to the expected device if both are known, the call raises and no
  client is changed. When it succeeds, the client has the given homeserver, token and device.
\<close>

theorem access_details_checked:
  assumes a: "a < length (clients w)" and some: "opt_truthy token \<or> opt_truthy hs"
    and new: "\<not> (token = access_token (clients w ! a) \<and> hs = homeserver (clients w ! a) \<and> dev = device_id (clients w ! a))"
  defines "m \<equiv> make_client (clients w ! a) hs token (Some dev)"
  shows "case net_whoami E (trace w) m of
       Inl e \<Rightarrow> \<exists>w'. update_access_details E token hs (Some dev) a w = Raise e w' \<and> clients w' = clients w
     | Inr (user, d) \<Rightarrow>
         if user \<noteq> c_id (clients w ! a) \<or> (d \<noteq> [] \<and> dev \<noteq> [] \<and> d \<noteq> dev)
         then \<exists>e w'. update_access_details E token hs (Some dev) a w = Raise (ValueError e) w' \<and> clients w' = clients w
         else (\<forall>w'. update_access_details E token hs (Some dev) a w = Ok () w' \<longrightarrow>
                 homeserver (clients w' ! a) = hs \<and> access_token (clients w' ! a) = token
                 \<and> device_id (clients w' ! a) = dev)"
  unfolding m_def update_access_details_run [OF some new]
  using a by (auto dest: details_switch_Ok split: sum.splits)

text \<open>
  Half-given access details. When only a new token is given, a successful change leaves the client
  without a homeserver, and saving the client then fails.
\<close>

theorem partial_access_details_lost:
  assumes a: "a < length (clients w)" and token: "opt_truthy token"
    and run: "update_access_details E token None (Some dev) a w = Ok () w'"
    and hs: "homeserver (clients w ! a) \<noteq> None" and row: "in_dict (c_id (clients w ! a)) (client_table w)"
  shows "homeserver (clients w' ! a) = None \<and> client_update a w' = Raise NotNullViolation w'"
proof -
  have new: "\<not> (token = access_token (clients w ! a) \<and> None = homeserver (clients w ! a) \<and> dev = device_id (clients w ! a))"
    using hs by auto
  obtain m where m: "details_switch E m token None dev a (log_event (Whoami (c_id (clients w ! a))) w) = Ok () w'"
    using run unfolding update_access_details_run [OF disjI1 [OF token] new]
    by (auto split: sum.splits if_splits)
  note d = details_switch_Ok [OF m]
  have "homeserver (client_row_of (clients w' ! a)) = None"
    using d(1) a by (simp add: client_row_of_def client_row.defs)
  then show ?thesis
    using d a row by (simp add: client_update_def db_client_update_def row_complete_def)
qed

section \<open>Tombstones\<close>

text \<open>
  Following a tombstone. The event is passed on only if there is no replacement room or its sender
  may invite to it; a room that the client had joined before is never left, and a room
  joined just now is left again exactly if the sender may not invite.
\<close>

theorem tombstone_policy:
  assumes "handle_tombstone info evt = (r, acts)"
  shows "(r = Inr True \<longrightarrow> \<not> opt_truthy (ts_replacement evt)
            \<or> (\<exists>s i. ri_power_levels info = Inr (s, i) \<and> i \<le> s))
    \<and> (ri_is_joined info \<longrightarrow> acts = [])
    \<and> (\<forall>room. Leave room \<in> set acts \<longrightarrow> ri_join info = Inr room
         \<and> (\<exists>s i. ri_power_levels info = Inr (s, i) \<and> s < i))
    \<and> (ts_state_key evt \<noteq> [] \<longrightarrow> acts = [] \<and> r = Inr False)"
  using assms
  by (auto simp: handle_tombstone_def Let_def split: if_splits sum.splits option.splits)

section \<open>Examples\<close>

definition ex_who :: "(unit, bytes) env" where
  "ex_who = ex_net (Inr (''@a:b'', []))"

definition ex_client :: client where
  "ex_client = postinit_fields ex_who (client_init ex_row)"

definition ex_store1 :: world where
  "ex_store1 = ex_store\<lparr>clients := [ex_client], client_cache := [(''@a:b'', 0)]\<rparr>"

lemma ex_client_get: "client_get ex_who None None None ''@a:b'' ex_store = Ok (Some 0) ex_store1"
proof -
  have "c_id ex_row = ''@a:b''" by (simp add: ex_row_def)
  then have "with_client ex_who ex_row ex_store = ex_store1"
    by (simp add: with_client_def ex_store1_def ex_client_def)
  then show ?thesis
    using new_client_postinit [of ex_row ex_store ex_who Some]
    by (simp add: client_get_def db_client_get_def)
qed

lemma ex_store1_simps [simp]:
  "clients ex_store1 = [ex_client]" "client_cache ex_store1 = [(''@a:b'', 0)]" "client_table ex_store1 = [(''@a:b'', ex_row)]"
  "instances ex_store1 = []" "inst_cache ex_store1 = []" "inst_table ex_store1 = []" "loaders ex_store1 = [ex_loader]"
  "id_cache ex_store1 = [(''a.b'', 0)]" "trace ex_store1 = []" "tasks ex_store1 = []"
  by (simp_all add: ex_store1_def)

lemma ex_client_row: "client_row_of ex_client = ex_row"
  by (simp add: ex_client_def client_row_of_def client_row.defs client_init_def postinit_fields_def Let_def
      enable_crypto_def ex_row_def client.defs)

lemma ex_client_fields:
  "c_id ex_client = ''@a:b''" "homeserver ex_client = Some ''https://b''" "access_token ex_client = Some ''tok''"
  "device_id ex_client = []" "c_enabled ex_client = True" "filter_id ex_client = []" "c_sync ex_client = True"
  "displayname ex_client = ''disable''" "avatar_url ex_client = ''disable''" "c_references ex_client = []"
  "c_started ex_client = False" "crypto ex_client = False"
  by (simp_all add: ex_client_def client_row.defs client_init_def postinit_fields_def Let_def
      enable_crypto_def ex_row_def client.defs ex_who_def)

theorem client_objects_unique_witness:
  "c_id (clients ex_store1 ! 0) = ''@a:b''
   \<and> client_get ex_who (Some ''h'') None None ''@a:b'' ex_store1 = Ok (Some 0) ex_store1"
proof -
  have "client_inv ex_store" by (simp add: client_inv_def ex_row_def)
  from client_objects_unique [OF this ex_client_get] show ?thesis
    by (auto dest!: spec [of _ "[]"] simp: lookups_def)
qed

theorem settings_persisted_witness:
  "\<exists>w'. update_enabled (Some False) True 0 ex_store1 = Ok () w' \<and> persisted 0 w' \<and> \<not> c_enabled (clients w' ! 0)"
proof -
  have ok: "(0::nat) < length (clients ex_store1)" "in_dict (c_id (clients ex_store1 ! 0)) (client_table ex_store1)" "persisted 0 ex_store1"
    by (simp_all add: ex_client_fields in_dict_def persisted_def ex_client_row)
  have row: "row_complete (client_row_of (ex_client\<lparr>c_enabled := False\<rparr>))" "c_id (client_row_of (ex_client\<lparr>c_enabled := False\<rparr>)) = ''@a:b''"
    by (simp_all add: row_complete_def client_row_of_def client_row.defs ex_client_fields)
  obtain w' where run: "update_enabled (Some False) True 0 ex_store1 = Ok () w'"
    using row by (simp add: update_enabled_def save_if_def client_update_def db_client_update_def ex_client_fields
        in_dict_def upd_client_def)
  show ?thesis using settings_persisted [OF ok, of False w'] run by blast
qed

lemma ex_switch:
  "\<exists>w'. update_access_details ex_who (Some ''new'') hs (Some []) 0 ex_store1 = Ok () w'" if "hs = None \<or> hs = Some ''https://b''" for hs
proof -
  have "opt_truthy (Some ''new'') \<or> opt_truthy hs" by (simp add: opt_truthy_def)
  moreover have "\<not> (Some ''new'' = access_token (clients ex_store1 ! 0) \<and> hs = homeserver (clients ex_store1 ! 0)
      \<and> [] = device_id (clients ex_store1 ! 0))" by (simp add: ex_client_fields)
  ultimately show ?thesis
    by (simp add: update_access_details_run ex_who_def ex_client_fields details_switch_def enable_crypto_def
        upd_client_def stop_sync_def upd_mx_def Let_def log_event_def)
qed

theorem access_details_checked_witness:
  "\<exists>w'. update_access_details ex_who (Some ''new'') (Some ''https://b'') (Some []) 0 ex_store1 = Ok () w'
     \<and> access_token (clients w' ! 0) = Some ''new''"
proof -
  have ok: "(0::nat) < length (clients ex_store1)" "opt_truthy (Some ''new'') \<or> opt_truthy (Some ''https://b'')"
    "\<not> (Some ''new'' = access_token (clients ex_store1 ! 0) \<and> Some ''https://b'' = homeserver (clients ex_store1 ! 0)
        \<and> [] = device_id (clients ex_store1 ! 0))"
    by (simp_all add: ex_client_fields opt_truthy_def)
  obtain w' where run: "update_access_details ex_who (Some ''new'') (Some ''https://b'') (Some []) 0 ex_store1 = Ok () w'"
    using ex_switch by blast
  show ?thesis
    using access_details_checked [OF ok, of ex_who] run by (auto simp: ex_who_def ex_client_fields)
qed

theorem partial_access_details_lost_witness:
  "\<exists>w'. update_access_details ex_who (Some ''new'') None (Some []) 0 ex_store1 = Ok () w'
     \<and> client_update 0 w' = Raise NotNullViolation w'"
proof -
  obtain w' where run: "update_access_details ex_who (Some ''new'') None (Some []) 0 ex_store1 = Ok () w'"
    using ex_switch by blast
  have "(0::nat) < length (clients ex_store1)" "opt_truthy (Some ''new'')" "homeserver (clients ex_store1 ! 0) \<noteq> None"
    "in_dict (c_id (clients ex_store1 ! 0)) (client_table ex_store1)"
    by (simp_all add: ex_client_fields opt_truthy_def in_dict_def)
  with partial_access_details_lost [OF this(1,2) run] run show ?thesis by blast
qed

theorem tombstone_policy_witness:
  "\<exists>r. handle_tombstone \<lparr>ri_is_joined = False, ri_join = Inr ''!new'', ri_power_levels = Inr (0, 50), ri_create = Inr (), ri_leave = None\<rparr>
       \<lparr>ts_state_key = [], ts_room_id = ''!old'', ts_sender = ''@x:y'', ts_replacement = Some ''!new''\<rparr>
     = (r, [Join ''!new'' ''y'', Leave ''!new'']) \<and> r \<noteq> Inr True"
proof -
  have run: "handle_tombstone \<lparr>ri_is_joined = False, ri_join = Inr ''!new'', ri_power_levels = Inr (0, 50), ri_create = Inr (), ri_leave = None\<rparr>
       \<lparr>ts_state_key = [], ts_room_id = ''!old'', ts_sender = ''@x:y'', ts_replacement = Some ''!new''\<rparr>
     = (Inr False, [Join ''!new'' ''y'', Leave ''!new''])"
    by (simp add: handle_tombstone_def opt_truthy_def user_server_def split_once_def)
  with tombstone_policy [OF run] show ?thesis by auto
qed

end
