(* ===== verification/MB_Plugin.thy ===== *)
theory MB_Plugin
  imports MB_Client
begin

text \<open>
  What plugins are built on: the decorators of \<^verbatim>\<open>maubot/handlers/event.py\<close> and
  \<^verbatim>\<open>maubot/handlers/web.py\<close>, and the base class of plugins, \<^verbatim>\<open>maubot/plugin_base.py\<close>, which registers
  the decorated methods when a plugin starts and takes them back when it stops. The
  plugin's own code (\<^verbatim>\<open>pre_start\<close>, \<^verbatim>\<open>start\<close>, \<^verbatim>\<open>pre_stop\<close>, \<^verbatim>\<open>stop\<close>) is an oracle of the environment; its
  class gives the attributes that \<^verbatim>\<open>dir\<close> lists.
\<close>

section \<open>Decorators\<close>

text \<open>\<^verbatim>\<open>event.on\<close>, with an event type or directly on the function.\<close>

definition on_event :: "string option \<Rightarrow> py_func \<Rightarrow> py_func" where
  "on_event var func =
     (let func = func\<lparr>fn_event_handler := Some True\<rparr> in
      case var of
        Some t \<Rightarrow>
          (case fn_event_types func of
             Some ts \<Rightarrow> func\<lparr>fn_event_types := Some (if t \<in> set ts then ts else ts @ [t])\<rparr>
           | None \<Rightarrow> func\<lparr>fn_event_types := Some [t]\<rparr>)
      | None \<Rightarrow> func\<lparr>fn_event_types := Some [''ALL'']\<rparr>)"

definition off_event :: "py_func \<Rightarrow> py_func" where
  "off_event func = func\<lparr>fn_event_handler := Some False\<rparr>"

text \<open>\<^verbatim>\<open>web.handle\<close> and its short forms. The handler that is registered is the function itself.\<close>

definition web_handle :: "string \<Rightarrow> string \<Rightarrow> web_handler \<Rightarrow> py_func \<Rightarrow> py_func" where
  "web_handle meth path h func =
     (let handlers = (case fn_web_handler func of Some hs \<Rightarrow> hs | None \<Rightarrow> []) in
      func\<lparr>fn_web_handler := Some (handlers @ [(meth, path, h)])\<rparr>)"

definition web_head :: "string \<Rightarrow> web_handler \<Rightarrow> py_func \<Rightarrow> py_func" where
  "web_head path = web_handle ''HEAD'' path"

definition web_options :: "string \<Rightarrow> web_handler \<Rightarrow> py_func \<Rightarrow> py_func" where
  "web_options path = web_handle ''OPTIONS'' path"

definition web_get :: "string \<Rightarrow> web_handler \<Rightarrow> py_func \<Rightarrow> py_func" where
  "web_get path = web_handle ''GET'' path"

definition web_post :: "string \<Rightarrow> web_handler \<Rightarrow> py_func \<Rightarrow> py_func" where
  "web_post path = web_handle ''POST'' path"

definition web_put :: "string \<Rightarrow> web_handler \<Rightarrow> py_func \<Rightarrow> py_func" where
  "web_put path = web_handle ''PUT'' path"

definition web_patch :: "string \<Rightarrow> web_handler \<Rightarrow> py_func \<Rightarrow> py_func" where
  "web_patch path = web_handle ''PATCH'' path"

definition web_delete :: "string \<Rightarrow> web_handler \<Rightarrow> py_func \<Rightarrow> py_func" where
  "web_delete path = web_handle ''DELETE'' path"

definition web_view :: "string \<Rightarrow> web_handler \<Rightarrow> py_func \<Rightarrow> py_func" where
  "web_view path = web_handle ''*'' path"

section \<open>Registering handlers\<close>

text \<open>The plugin object of the instance at \<open>a\<close>.\<close>

definition plugin_at :: "nat \<Rightarrow> world \<Rightarrow> plugin_obj" where
  "plugin_at a w = the (i_plugin (instances w ! a))"

text \<open>The event types of an attribute; a missing attribute ends the first \<^verbatim>\<open>try\<close> block.\<close>

definition attr_event_types :: "plugin_attr \<Rightarrow> string list" where
  "attr_event_types at =
     (if fn_event_handler (pa_val at) = Some True
      then (case fn_event_types (pa_val at) of Some ts \<Rightarrow> ts | None \<Rightarrow> []) else [])"

definition register_event :: "handler \<Rightarrow> nat \<Rightarrow> world \<Rightarrow> world" where
  "register_event h a w =
     upd_mx (po_client (plugin_at a w)) (add_handler h)
       (upd_inst a (\<lambda>i. i\<lparr>i_plugin := map_option (\<lambda>p. p\<lparr>po_handlers := po_handlers p @ [h]\<rparr>) (i_plugin i)\<rparr>) w)"

definition upd_webapp :: "nat \<Rightarrow> (webapp \<Rightarrow> webapp) \<Rightarrow> world \<Rightarrow> world" where
  "upd_webapp p f w = w\<lparr>srv := (srv w)\<lparr>webapps := (webapps (srv w))[p := f (webapps (srv w) ! p)]\<rparr>\<rparr>"

text \<open>A plugin without a web app skips its web handlers, with a warning.\<close>

definition register_web :: "plugin_attr \<Rightarrow> nat \<Rightarrow> world \<Rightarrow> world" where
  "register_web at a w =
     (case fn_web_handler (pa_val at) of
        None \<Rightarrow> w
      | Some hs \<Rightarrow>
          (case po_webapp (plugin_at a w) of
             None \<Rightarrow> w
           | Some p \<Rightarrow> upd_webapp p (fold (\<lambda>(meth, path, h). webapp_add_route meth path h) hs) w))"

definition register_attr :: "nat \<Rightarrow> plugin_attr \<Rightarrow> world \<Rightarrow> world" where
  "register_attr a at w =
     (if \<not> pa_gettable at then w
      else register_web at a
             (fold (\<lambda>t. register_event (t, PluginFn (i_id (instances w ! a)) (pa_name at)) a)
               (attr_event_types at) w))"

definition register_handler_class :: "plugin_attr list \<Rightarrow> nat \<Rightarrow> world \<Rightarrow> world" where
  "register_handler_class attrs a w = fold (register_attr a) attrs w"

section \<open>Starting and stopping\<close>

definition internal_start :: "('y, 'c) env \<Rightarrow> nat \<Rightarrow> world \<Rightarrow> (world, unit) res" where
  "internal_start E a w =
     (let k = i_id (instances w ! a) in
      bind (perform (PluginPreStart k) (plugin_pre_start E (trace w) k) w) (\<lambda>_ w.
      let w = register_handler_class (plugin_attrs E (po_class (plugin_at a w))) a w in
      perform (PluginStart k) (plugin_start E (trace w) k) w))"

definition remove_handlers :: "handler list \<Rightarrow> matrix_client \<Rightarrow> matrix_client" where
  "remove_handlers hs m = m\<lparr>mx_handlers := fold remove1 hs (mx_handlers m)\<rparr>"

text \<open>\<^verbatim>\<open>internal_stop\<close>; an instance without a plugin object raises.\<close>

definition internal_stop :: "('y, 'c) env \<Rightarrow> nat \<Rightarrow> world \<Rightarrow> (world, unit) res" where
  "internal_stop E a w =
     (let k = i_id (instances w ! a) in
      if i_plugin (instances w ! a) = None then Raise AttributeError w
      else bind (perform (PluginPreStop k) (plugin_pre_stop E (trace w) k) w) (\<lambda>_ w.
        let p = plugin_at a w;
            w = upd_mx (po_client p) (remove_handlers (po_handlers p)) w;
            w = (case po_webapp p of Some app \<Rightarrow> upd_webapp app webapp_clear w | None \<Rightarrow> w);
            w = log_event (SchedStop k) w in
        perform (PluginStop k) (plugin_stop E (trace w) k) w))"

section \<open>What starting and stopping do\<close>

text \<open>The event handlers of a class, for the instance with id \<open>k\<close>, in the order of registration.\<close>

definition class_handlers :: "string \<Rightarrow> plugin_attr list \<Rightarrow> handler list" where
  "class_handlers k attrs =
     concat (map (\<lambda>at. map (\<lambda>t. (t, PluginFn k (pa_name at))) (attr_event_types at)) (filter pa_gettable attrs))"

text \<open>A world with more event handlers, in the plugin object's list and at its client.\<close>

definition registered :: "handler list \<Rightarrow> nat \<Rightarrow> world \<Rightarrow> world" where
  "registered hs a w =
     upd_mx (po_client (plugin_at a w)) (\<lambda>m. m\<lparr>mx_handlers := mx_handlers m @ hs\<rparr>)
       (upd_inst a (\<lambda>i. i\<lparr>i_plugin := map_option (\<lambda>p. p\<lparr>po_handlers := po_handlers p @ hs\<rparr>) (i_plugin i)\<rparr>) w)"

lemma registered_simps [simp]:
  "length (instances (registered hs a w)) = length (instances w)"
  "length (clients (registered hs a w)) = length (clients w)"
  "srv (registered hs a w) = srv w" "trace (registered hs a w) = trace w"
  "loaders (registered hs a w) = loaders w" "tasks (registered hs a w) = tasks w"
  "inst_table (registered hs a w) = inst_table w" "client_table (registered hs a w) = client_table w"
  "inst_cache (registered hs a w) = inst_cache w" "client_cache (registered hs a w) = client_cache w"
  by (simp_all add: registered_def upd_mx_def)

lemma registered_inst:
  "a < length (instances w) \<Longrightarrow> instances (registered hs a w) ! a =
     (instances w ! a)\<lparr>i_plugin := map_option (\<lambda>p. p\<lparr>po_handlers := po_handlers p @ hs\<rparr>) (i_plugin (instances w ! a))\<rparr>"
  by (simp add: registered_def upd_mx_def)

lemma registered_client:
  "po_client (plugin_at a w) < length (clients w) \<Longrightarrow>
   mx_handlers (mx (clients (registered hs a w) ! po_client (plugin_at a w))) =
   mx_handlers (mx (clients w ! po_client (plugin_at a w))) @ hs"
  by (simp add: registered_def)

lemma plugin_at_registered:
  "a < length (instances w) \<Longrightarrow> i_plugin (instances w ! a) \<noteq> None \<Longrightarrow>
   plugin_at a (registered hs a w) = (plugin_at a w)\<lparr>po_handlers := po_handlers (plugin_at a w) @ hs\<rparr>"
  by (auto simp: plugin_at_def registered_inst)

lemma registered_Nil: "registered [] a w = w"
proof -
  have "(\<lambda>m :: matrix_client. m\<lparr>mx_handlers := mx_handlers m @ []\<rparr>) = (\<lambda>m. m)"
    "map_option (\<lambda>p :: plugin_obj. p\<lparr>po_handlers := po_handlers p @ []\<rparr>) = (\<lambda>x. x)"
    by (auto simp: option.map_id fun_eq_iff map_option_case split: option.splits)
  then show ?thesis by (simp add: registered_def upd_mx_def upd_inst_def upd_client_def)
qed

lemma registered_append:
  assumes "a < length (instances w)" and "i_plugin (instances w ! a) \<noteq> None"
  shows "registered js a (registered hs a w) = registered (hs @ js) a w"
proof -
  have "map_option (\<lambda>p. p\<lparr>po_handlers := po_handlers p @ js\<rparr>)
      (map_option (\<lambda>p. p\<lparr>po_handlers := po_handlers p @ hs\<rparr>) x) =
      map_option (\<lambda>p. p\<lparr>po_handlers := po_handlers p @ hs @ js\<rparr>) x" for x :: "plugin_obj option"
    by (cases x) simp_all
  then show ?thesis
    using assms plugin_at_registered [OF assms, of hs] nth_list_update_eq
    by (cases "po_client (plugin_at a w) < length (clients w)")
      (simp_all add: registered_def upd_mx_def upd_inst_def upd_client_def list_update_beyond)
qed

lemma register_event_registered: "register_event h a w = registered [h] a w"
  by (simp add: register_event_def registered_def add_handler_def [abs_def])

lemma fold_register_event:
  assumes "a < length (instances w)" and "i_plugin (instances w ! a) \<noteq> None"
  shows "fold (\<lambda>t. register_event (f t) a) ts w = registered (map f ts) a w"
  using assms
proof (induction ts arbitrary: w)
  case (Cons t ts)
  then have "i_plugin (instances (registered [f t] a w) ! a) \<noteq> None" by (simp add: registered_inst)
  with Cons show ?case by (simp add: register_event_registered registered_append)
qed (simp add: registered_Nil)

text \<open>A world with other web apps.\<close>

lemma upd_webapp_simps [simp]:
  "instances (upd_webapp p f w) = instances w" "clients (upd_webapp p f w) = clients w"
  "trace (upd_webapp p f w) = trace w" "plugin_at a (upd_webapp p f w) = plugin_at a w"
  "loaders (upd_webapp p f w) = loaders w" "tasks (upd_webapp p f w) = tasks w"
  "inst_table (upd_webapp p f w) = inst_table w" "client_table (upd_webapp p f w) = client_table w"
  "inst_cache (upd_webapp p f w) = inst_cache w" "client_cache (upd_webapp p f w) = client_cache w"
  "length (webapps (srv (upd_webapp p f w))) = length (webapps (srv w))"
  "p < length (webapps (srv w)) \<Longrightarrow> webapps (srv (upd_webapp p f w)) ! p = f (webapps (srv w) ! p)"
  by (simp_all add: upd_webapp_def plugin_at_def)

text \<open>Registration is the handlers of the class and new routes in the web app, nothing else.\<close>

definition same_but_srv :: "world \<Rightarrow> world \<Rightarrow> bool" where
  "same_but_srv v w \<longleftrightarrow> v\<lparr>srv := srv w\<rparr> = w \<and> length (webapps (srv v)) = length (webapps (srv w))"

lemma same_but_srvD:
  assumes "same_but_srv v w"
  shows "instances v = instances w" "clients v = clients w" "trace v = trace w" "loaders v = loaders w"
    "tasks v = tasks w" "inst_table v = inst_table w" "client_table v = client_table w"
    "inst_cache v = inst_cache w" "client_cache v = client_cache w"
    "length (webapps (srv v)) = length (webapps (srv w))"
proof -
  have eq: "v\<lparr>srv := srv w\<rparr> = w" using assms by (simp add: same_but_srv_def)
  show "instances v = instances w" "clients v = clients w" "trace v = trace w" "loaders v = loaders w"
    "tasks v = tasks w" "inst_table v = inst_table w" "client_table v = client_table w"
    "inst_cache v = inst_cache w" "client_cache v = client_cache w"
    by (subst eq [symmetric], simp)+
  show "length (webapps (srv v)) = length (webapps (srv w))" using assms by (simp add: same_but_srv_def)
qed

lemma same_but_srv_trans: "same_but_srv u v \<Longrightarrow> same_but_srv v w \<Longrightarrow> same_but_srv u w"
  unfolding same_but_srv_def by (metis (no_types, lifting) world.update_convs(7) world.surjective)

lemma register_web_same: "same_but_srv (register_web at a w) w"
  by (simp add: register_web_def same_but_srv_def upd_webapp_def split: option.splits)

lemma registered_srv: "registered hs a (v\<lparr>srv := s\<rparr>) = (registered hs a v)\<lparr>srv := s\<rparr>"
  by (simp add: registered_def plugin_at_def upd_mx_def upd_client_def upd_inst_def)

lemma registered_same:
  assumes "same_but_srv v w"
  shows "same_but_srv (registered hs a v) (registered hs a w)"
  using assms registered_srv [of hs a "srv w" v] by (simp add: same_but_srv_def)

lemma same_but_srv_refl [simp]: "same_but_srv w w"
  by (simp add: same_but_srv_def)

lemma register_handler_class_effect:
  assumes "a < length (instances w)" and "i_plugin (instances w ! a) \<noteq> None"
  shows "same_but_srv (register_handler_class attrs a w) (registered (class_handlers (i_id (instances w ! a)) attrs) a w)"
  using assms
proof (induction attrs arbitrary: w)
  case (Cons at attrs)
  define k hs where "k = i_id (instances w ! a)" and "hs = class_handlers k [at]"
  have one: "same_but_srv (register_attr a at w) (registered hs a w)"
  proof (cases "pa_gettable at")
    case True
    then have "register_attr a at w = register_web at a (registered hs a w)"
      using fold_register_event [OF Cons.prems, of "\<lambda>t. (t, PluginFn k (pa_name at))"] by (simp add: register_attr_def hs_def k_def class_handlers_def)
    then show ?thesis by (simp add: register_web_same)
  qed (simp add: register_attr_def hs_def class_handlers_def registered_Nil)
  note d = same_but_srvD [OF one]
  have v: "a < length (instances (register_attr a at w))" "i_plugin (instances (register_attr a at w) ! a) \<noteq> None"
    "i_id (instances (register_attr a at w) ! a) = k"
    using Cons.prems by (simp_all add: d registered_inst k_def)
  have "same_but_srv (register_handler_class attrs a (register_attr a at w))
      (registered (class_handlers k attrs) a (register_attr a at w))"
    using Cons.IH [OF v(1,2)] by (simp add: v(3))
  from same_but_srv_trans [OF this registered_same [OF one]]
  have "same_but_srv (register_handler_class attrs a (register_attr a at w)) (registered (hs @ class_handlers k attrs) a w)"
    by (simp add: registered_append [OF Cons.prems])
  moreover have "hs @ class_handlers k attrs = class_handlers k (at # attrs)"
    by (simp add: hs_def class_handlers_def)
  ultimately show ?case by (simp add: register_handler_class_def k_def)
qed (simp add: register_handler_class_def class_handlers_def registered_Nil)

lemma internal_start_Ok:
  assumes "a < length (instances w)" and "i_plugin (instances w ! a) \<noteq> None" and "internal_start E a w = Ok x w'"
  defines "hs \<equiv> class_handlers (i_id (instances w ! a)) (plugin_attrs E (po_class (plugin_at a w)))"
  shows "instances w' = instances (registered hs a w)" "clients w' = clients (registered hs a w)"
    "length (webapps (srv w')) = length (webapps (srv w))"
proof -
  define v where "v = log_event (PluginPreStart (i_id (instances w ! a))) w"
  have v: "a < length (instances v)" "i_plugin (instances v ! a) \<noteq> None" "plugin_at a v = plugin_at a w"
    "instances v = instances w" "clients v = clients w" "srv v = srv w"
    using assms(1,2) by (simp_all add: v_def plugin_at_def)
  define u where "u = register_handler_class (plugin_attrs E (po_class (plugin_at a w))) a v"
  have w': "w' = log_event (PluginStart (i_id (instances w ! a))) u"
    using assms(3) v(3) by (auto simp: internal_start_def bind_eq_Ok perform_eq_Ok Let_def u_def v_def)
  have "same_but_srv u (registered hs a v)"
    using register_handler_class_effect [OF v(1,2)] by (simp add: u_def hs_def v)
  note d = same_but_srvD [OF this]
  show "instances w' = instances (registered hs a w)" "clients w' = clients (registered hs a w)"
    by (simp_all add: w' d registered_def upd_mx_def upd_client_def upd_inst_def v)
  show "length (webapps (srv w')) = length (webapps (srv w))" by (simp add: w' d v)
qed

lemma fold_remove1_append:
  "set xs \<inter> set hs = {} \<Longrightarrow> fold remove1 hs (xs @ hs) = xs"
proof (induction hs arbitrary: xs)
  case (Cons h hs)
  then have "remove1 h (xs @ h # hs) = xs @ hs" by (simp add: remove1_append)
  with Cons show ?case by simp
qed simp

lemma class_handlers_fn: "(t, f) \<in> set (class_handlers k attrs) \<Longrightarrow> \<exists>n. f = PluginFn k n"
  by (auto simp: class_handlers_def)


end
