(* ===== verification/MB_Instance.thy ===== *)
theory MB_Instance
  imports MB_Plugin
begin

text \<open>
  \<^verbatim>\<open>maubot/instance.py\<close>: plugin instances. An instance refers to its loader and its client by
  address and is an element of the \<^verbatim>\<open>references\<close> sets of both.
\<close>

section \<open>Basic operations\<close>

definition inst_update :: "nat \<Rightarrow> world \<Rightarrow> (world, unit) res" where
  "inst_update a w = db_inst_update (inst_row.truncate (instances w ! a)) w"

definition inst_update_enabled :: "bool option \<Rightarrow> nat \<Rightarrow> world \<Rightarrow> (world, unit) res" where
  "inst_update_enabled enabled a w =
     (if enabled \<noteq> None \<and> enabled \<noteq> Some (i_enabled (instances w ! a))
      then inst_update a (upd_inst a (\<lambda>i. i\<lparr>i_enabled := the enabled\<rparr>) w)
      else Ok () w)"

definition update_db_engine :: "database_engine option \<Rightarrow> nat \<Rightarrow> world \<Rightarrow> (world, unit) res" where
  "update_db_engine db_engine a w =
     (if db_engine \<noteq> None \<and> db_engine \<noteq> engine (instances w ! a)
      then inst_update a (upd_inst a (\<lambda>i. i\<lparr>engine := db_engine\<rparr>) w)
      else Ok () w)"

definition inst_postinit :: "nat \<Rightarrow> world \<Rightarrow> world" where
  "inst_postinit a w =
     upd_inst a (\<lambda>i. i\<lparr>i_config := False, i_started := False, i_loader := None, i_client := None,
         i_plugin := None, inst_db := None, inst_db_tables := None, inst_webapp := None, base_cfg_str := None\<rparr>)
       (w\<lparr>inst_cache := dict_set (i_id (instances w ! a)) a (inst_cache w)\<rparr>)"

definition inst_init :: "inst_row \<Rightarrow> inst" where
  "inst_init r = inst_row.extend r (inst.fields None None None False None None None None False)"

definition new_inst :: "inst_row \<Rightarrow> world \<Rightarrow> nat \<times> world" where
  "new_inst r w = (length (instances w), w\<lparr>instances := instances w @ [inst_init r]\<rparr>)"

definition inst_get :: "string option \<Rightarrow> string option \<Rightarrow> string \<Rightarrow> world \<Rightarrow> (world, nat option) res" where
  "inst_get ty user k w =
     (case map_of (inst_cache w) k of
        Some a \<Rightarrow> Ok (Some a) w
      | None \<Rightarrow>
     (case db_inst_get k w of
        Some r \<Rightarrow> let (a, w) = new_inst r w in Ok (Some a) (inst_postinit a w)
      | None \<Rightarrow>
          if opt_truthy ty \<and> opt_truthy user then
            (let r = \<lparr>i_id = k, i_type = the ty, i_enabled = True, primary_user = the user, config_str = [], engine = None\<rparr> in
             bind (db_inst_insert r w) (\<lambda>_ w.
             let (a, w) = new_inst r w in Ok (Some a) (inst_postinit a w)))
          else Ok None w))"

fun inst_all_rows :: "(string \<times> inst_row) list \<Rightarrow> world \<Rightarrow> nat list \<times> world" where
  "inst_all_rows [] w = ([], w)"
| "inst_all_rows ((k, r) # rows) w =
     (let (a, w) = (case map_of (inst_cache w) (i_id r) of
                      Some a \<Rightarrow> (a, w)
                    | None \<Rightarrow> (let (a, w) = new_inst r w in (a, inst_postinit a w)));
          (as, w) = inst_all_rows rows w in
      (a # as, w))"

definition inst_all :: "world \<Rightarrow> nat list \<times> world" where
  "inst_all w = inst_all_rows (db_inst_all w) w"

section \<open>Dependencies and web apps\<close>

definition enable_webapp :: "nat \<Rightarrow> world \<Rightarrow> world" where
  "enable_webapp a w =
     (let (app, s) = get_instance_subapp (i_id (instances w ! a)) (srv w) in
      upd_inst a (\<lambda>i. i\<lparr>inst_webapp := Some app\<rparr>) (w\<lparr>srv := s\<rparr>))"

definition disable_webapp :: "nat \<Rightarrow> world \<Rightarrow> world" where
  "disable_webapp a w =
     upd_inst a (\<lambda>i. i\<lparr>inst_webapp := None\<rparr>)
       (w\<lparr>srv := remove_instance_webapp (i_id (instances w ! a)) (srv w)\<rparr>)"

text \<open>\<^verbatim>\<open>self.loader.meta\<close>; a deleted loader has none.\<close>

definition meta_of :: "nat \<Rightarrow> world \<Rightarrow> (world, plugin_meta) res" where
  "meta_of a w =
     (case i_loader (instances w ! a) of
        None \<Rightarrow> Raise AttributeError w
      | Some l \<Rightarrow> (case l_meta (loaders w ! l) of None \<Rightarrow> Raise AttributeError w | Some m \<Rightarrow> Ok m w))"

definition add_reference :: "nat \<Rightarrow> world \<Rightarrow> world" where
  "add_reference a w =
     (case (i_loader (instances w ! a), i_client (instances w ! a)) of
        (Some l, Some c) \<Rightarrow>
          upd_client c (\<lambda>x. x\<lparr>c_references := refs_add w a (c_references x)\<rparr>)
            (upd_loader l (\<lambda>x. x\<lparr>l_references := refs_add w a (l_references x)\<rparr>) w)
      | _ \<Rightarrow> w)"

definition fail_load :: "nat \<Rightarrow> world \<Rightarrow> (world, bool) res" where
  "fail_load a w = bind (inst_update_enabled (Some False) a w) (\<lambda>_ w. Ok False w)"

definition load_loader :: "nat \<Rightarrow> world \<Rightarrow> (world, bool) res" where
  "load_loader a w =
     (if i_loader (instances w ! a) \<noteq> None then Ok True w
      else case find_plugin (i_type (instances w ! a)) w of
        Inr l \<Rightarrow> Ok True (upd_inst a (\<lambda>i. i\<lparr>i_loader := Some l\<rparr>) w)
      | Inl _ \<Rightarrow> fail_load a w)"

definition load_client :: "('y, 'c) env \<Rightarrow> nat \<Rightarrow> world \<Rightarrow> (world, bool) res" where
  "load_client E a w =
     (if i_client (instances w ! a) \<noteq> None then Ok True w
      else bind (client_get E None None None (primary_user (instances w ! a)) w) (\<lambda>c w.
        case c of
          Some c \<Rightarrow> Ok True (upd_inst a (\<lambda>i. i\<lparr>i_client := Some c\<rparr>) w)
        | None \<Rightarrow> fail_load a w))"

definition inst_load :: "('y, 'c) env \<Rightarrow> nat \<Rightarrow> world \<Rightarrow> (world, bool) res" where
  "inst_load E a w =
     bind (load_loader a w) (\<lambda>ok w. if \<not> ok then Ok False w
     else bind (load_client E a w) (\<lambda>ok w. if \<not> ok then Ok False w
     else bind (meta_of a w) (\<lambda>m w.
       Ok True (add_reference a (if meta_webapp m then enable_webapp a w else w)))))"

section \<open>Databases\<close>

definition sqlite_db_path :: "('y, 'c) env \<Rightarrow> nat \<Rightarrow> world \<Rightarrow> ustring" where
  "sqlite_db_path E a w = os_path_join (sqlite_dir E) (ustr (i_id (instances w ! a) @ ''.db''))"

definition set_db :: "inst_db option \<Rightarrow> nat \<Rightarrow> world \<Rightarrow> world" where
  "set_db d a w = upd_inst a (\<lambda>i. i\<lparr>inst_db := d\<rparr>) w"

text \<open>Opening the database of a plugin that uses the asyncpg interface.\<close>

definition open_asyncpg :: "('y, 'c) env \<Rightarrow> bool \<Rightarrow> nat \<Rightarrow> world \<Rightarrow> (world, unit) res" where
  "open_asyncpg E actually_start a w =
     (let k = i_id (instances w ! a) in
      if engine (instances w ! a) = Some POSTGRES \<and> \<not> has_postgres E
      then Raise (RuntimeError ''Postgres not configured for plugin databases'') w
      else let d = (if engine (instances w ! a) = Some POSTGRES then ProxyPostgres k else SqliteDatabase k);
               w = set_db (Some d) a w in
        if actually_start then perform (DbStart k) (db_start E (trace w) d) w else Ok () w)"

definition start_database :: "('y, 'c) env \<Rightarrow> bool \<Rightarrow> nat \<Rightarrow> world \<Rightarrow> (world, unit) res" where
  "start_database E actually_start a w =
     bind (meta_of a w) (\<lambda>m w.
     case meta_database_type m of
       SQLALCHEMY \<Rightarrow>
         bind (case engine (instances w ! a) of
                 None \<Rightarrow> update_db_engine (Some SQLITE) a w
               | Some POSTGRES \<Rightarrow> Raise (RuntimeError ''legacy database interface does not support postgres'') w
               | Some SQLITE \<Rightarrow> Ok () w)
           (\<lambda>_ w. Ok () (set_db (Some (SqlAlchemyEngine (i_id (instances w ! a)))) a w))
     | ASYNCPG \<Rightarrow>
         bind (if engine (instances w ! a) = None
               then update_db_engine (Some (if fs w (sqlite_db_path E a w) \<noteq> Missing \<or> \<not> has_postgres E
                                            then SQLITE else POSTGRES)) a w
               else Ok () w)
           (\<lambda>_ w. open_asyncpg E actually_start a w)
     | OtherDatabase t \<Rightarrow> Raise (RuntimeError (''Unrecognized database type '' @ t)) w)"

definition stop_database :: "('y, 'c) env \<Rightarrow> nat \<Rightarrow> world \<Rightarrow> (world, unit) res" where
  "stop_database E a w =
     (case inst_db (instances w ! a) of
        None \<Rightarrow> Raise (RuntimeError ''Unknown database type NoneType'') w
      | Some (SqlAlchemyEngine k) \<Rightarrow> Ok () (log_event (DbStop k) w)
      | Some d \<Rightarrow> perform (DbStop (i_id (instances w ! a))) (db_stop E (trace w) d) w)"

text \<open>\<^verbatim>\<open>ProxyPostgresDatabase.delete\<close> swallows its errors.\<close>

definition delete_database :: "('y, 'c) env \<Rightarrow> nat \<Rightarrow> world \<Rightarrow> (world, unit) res" where
  "delete_database E a w =
     bind (meta_of a w) (\<lambda>m w.
     bind (case meta_database_type m of
             SQLALCHEMY \<Rightarrow> trash E (sqlite_db_path E a w) None ''deleted'' w
           | ASYNCPG \<Rightarrow>
               bind (if inst_db (instances w ! a) = None then start_database E False a w else Ok () w) (\<lambda>_ w.
               case inst_db (instances w ! a) of
                 Some (ProxyPostgres k) \<Rightarrow> Ok () (log_event (DbDelete k) w)
               | _ \<Rightarrow> trash E (sqlite_db_path E a w) None ''deleted'' w)
           | OtherDatabase t \<Rightarrow> Raise (RuntimeError (''Unrecognized database type '' @ t)) w)
       (\<lambda>_ w. Ok () (set_db None a w)))"

text \<open>\<^verbatim>\<open>get_db_tables\<close>: the introspection result is kept until the instance is restarted.\<close>

definition get_db_tables :: "('y, 'c) env \<Rightarrow> nat \<Rightarrow> world \<Rightarrow> (world, json) res" where
  "get_db_tables E a w =
     (case inst_db_tables (instances w ! a) of
        Some t \<Rightarrow> Ok t w
      | None \<Rightarrow>
          (case inst_db (instances w ! a) of
             None \<Rightarrow> Raise AttributeError w
           | Some d \<Rightarrow>
               bind (query (DbIntrospect (i_id (instances w ! a))) (db_introspect E (trace w) d) w) (\<lambda>t w.
                 Ok t (upd_inst a (\<lambda>i. i\<lparr>inst_db_tables := Some t\<rparr>) w))))"

section \<open>Starting and stopping\<close>

text \<open>\<^verbatim>\<open>except Exception\<close> lets \<^verbatim>\<open>SystemExit\<close> through.\<close>

fun is_exception :: "exn \<Rightarrow> bool" where
  "is_exception (SystemExit _) = False"
| "is_exception _ = True"

text \<open>\<^verbatim>\<open>try: f() except Exception: update_enabled(False); return\<close>: \<open>False\<close> is the early return.\<close>

definition or_disable :: "nat \<Rightarrow> (world, unit) res \<Rightarrow> (world, bool) res" where
  "or_disable a r =
     catch (bind r (\<lambda>_ w. Ok True w)) (\<lambda>e w. if is_exception e then fail_load a w else Raise e w)"

text \<open>The web app follows a definition that changed while the plugin was reloaded.\<close>

definition sync_webapp :: "plugin_meta \<Rightarrow> nat \<Rightarrow> world \<Rightarrow> world" where
  "sync_webapp m a w =
     (if meta_webapp m \<and> inst_webapp (instances w ! a) = None then enable_webapp a w
      else if \<not> meta_webapp m \<and> inst_webapp (instances w ! a) \<noteq> None then disable_webapp a w
      else w)"

definition load_base_config :: "('y, 'c) env \<Rightarrow> nat \<Rightarrow> world \<Rightarrow> (world, unit) res" where
  "load_base_config E a w =
     (let l = the (i_loader (instances w ! a)) in
      case (case sync_read_file (loaders w ! l) ''base-config.yaml'' of
              Inl e \<Rightarrow> Inl e | Inr b \<Rightarrow> parse_base_config E b) of
        Inr s \<Rightarrow> Ok () (upd_inst a (\<lambda>i. i\<lparr>base_cfg_str := s, i_config := True\<rparr>) w)
      | Inl e \<Rightarrow>
          if e = FileNotFoundError \<or> e = KeyError
          then Ok () (upd_inst a (\<lambda>i. i\<lparr>base_cfg_str := None, i_config := True\<rparr>) w)
          else Raise e w)"

text \<open>\<^verbatim>\<open>cls(client=self.client.client, ..., webapp=self.inst_webapp, ...)\<close>.\<close>

definition new_plugin :: "string \<Rightarrow> inst \<Rightarrow> plugin_obj" where
  "new_plugin cls i =
     \<lparr>po_class = cls, po_client = the (i_client i), po_webapp = map_option fst (inst_webapp i), po_handlers = []\<rparr>"

definition start_plugin :: "('y, 'c) env \<Rightarrow> string \<Rightarrow> nat \<Rightarrow> world \<Rightarrow> (world, unit) res" where
  "start_plugin E cls a w =
     (let k = i_id (instances w ! a) in
      bind (perform (PluginInit k cls) (plugin_init E (trace w) k) w) (\<lambda>_ w.
      let w = upd_inst a (\<lambda>i. i\<lparr>i_plugin := Some (new_plugin cls i)\<rparr>) w in
      bind (or_disable a (internal_start E a w)) (\<lambda>ok w.
      if \<not> ok then Ok () w
      else Ok () (upd_inst a (\<lambda>i. i\<lparr>i_started := True, inst_db_tables := None\<rparr>) w))))"

definition start_loaded :: "('y, 'c) env \<Rightarrow> nat \<Rightarrow> world \<Rightarrow> (world, unit) res" where
  "start_loaded E a w =
     bind (on_loader (the (i_loader (instances w ! a))) (load E False) w) (\<lambda>cls w.
     bind (meta_of a w) (\<lambda>m w.
     let w = sync_webapp m a w in
     bind (if meta_database m then or_disable a (start_database E True a w) else Ok True w) (\<lambda>ok w.
     if \<not> ok then Ok () w
     else bind (if has_config_class E cls then load_base_config E a w else Ok () w) (\<lambda>_ w.
       start_plugin E cls a w))))"

definition inst_start :: "('y, 'c) env \<Rightarrow> nat \<Rightarrow> world \<Rightarrow> (world, unit) res" where
  "inst_start E a w =
     (if i_started (instances w ! a) then Ok () w
      else if \<not> i_enabled (instances w ! a) then Ok () w
      else bind (if i_client (instances w ! a) = None \<or> i_loader (instances w ! a) = None
                 then inst_load E a w else Ok True w)
             (\<lambda>ok w. if \<not> ok then Ok () w else start_loaded E a w))"

definition swallow :: "(world, unit) res \<Rightarrow> (world, unit) res" where
  "swallow r = catch r (\<lambda>e w. if is_exception e then Ok () w else Raise e w)"

definition inst_stop :: "('y, 'c) env \<Rightarrow> nat \<Rightarrow> world \<Rightarrow> (world, unit) res" where
  "inst_stop E a w =
     (if \<not> i_started (instances w ! a) then Ok () w
      else let w = upd_inst a (\<lambda>i. i\<lparr>i_started := False\<rparr>) w in
        bind (swallow (internal_stop E a w)) (\<lambda>_ w.
        let w = upd_inst a (\<lambda>i. i\<lparr>i_plugin := None\<rparr>) w in
        bind (if inst_db (instances w ! a) \<noteq> None then swallow (stop_database E a w) else Ok () w) (\<lambda>_ w.
        Ok () (upd_inst a (\<lambda>i. i\<lparr>inst_db_tables := None\<rparr>) w))))"

section \<open>Deleting and changing an instance\<close>

text \<open>\<^verbatim>\<open>references.remove(self)\<close> raises \<^verbatim>\<open>KeyError\<close> when the set does not find the instance.\<close>

definition unref_loader :: "nat \<Rightarrow> nat \<Rightarrow> world \<Rightarrow> (world, unit) res" where
  "unref_loader l a w =
     (case refs_remove w a (l_references (loaders w ! l)) of
        None \<Rightarrow> Raise KeyError w
      | Some rs \<Rightarrow> Ok () (upd_loader l (\<lambda>x. x\<lparr>l_references := rs\<rparr>) w))"

definition unref_client :: "nat \<Rightarrow> nat \<Rightarrow> world \<Rightarrow> (world, unit) res" where
  "unref_client c a w =
     (case refs_remove w a (c_references (clients w ! c)) of
        None \<Rightarrow> Raise KeyError w
      | Some rs \<Rightarrow> Ok () (upd_client c (\<lambda>x. x\<lparr>c_references := rs\<rparr>) w))"

definition inst_delete :: "('y, 'c) env \<Rightarrow> nat \<Rightarrow> world \<Rightarrow> (world, unit) res" where
  "inst_delete E a w =
     bind (case i_loader (instances w ! a) of Some l \<Rightarrow> unref_loader l a w | None \<Rightarrow> Ok () w) (\<lambda>_ w.
     bind (case i_client (instances w ! a) of Some c \<Rightarrow> unref_client c a w | None \<Rightarrow> Ok () w) (\<lambda>_ w.
     let k = i_id (instances w ! a) in
     bind (db_inst_delete k (w\<lparr>inst_cache := dict_del k (inst_cache w)\<rparr>)) (\<lambda>_ w.
     bind (if inst_db (instances w ! a) \<noteq> None
           then bind (stop_database E a w) (\<lambda>_ w. delete_database E a w) else Ok () w) (\<lambda>_ w.
     Ok () (if inst_webapp (instances w ! a) \<noteq> None then disable_webapp a w else w)))))"

definition update_id :: "string option \<Rightarrow> nat \<Rightarrow> world \<Rightarrow> (world, unit) res" where
  "update_id new_id a w =
     (case new_id of
        None \<Rightarrow> Ok () w
      | Some n \<Rightarrow> if str_lower n \<noteq> i_id (instances w ! a) then db_inst_update_id a (str_lower n) w else Ok () w)"

definition update_config :: "('y, 'c) env \<Rightarrow> string option \<Rightarrow> nat \<Rightarrow> world \<Rightarrow> (world, unit) res" where
  "update_config E cfg a w =
     (if cfg = None \<or> cfg = Some (config_str (instances w ! a)) then Ok () w
      else let w = upd_inst a (\<lambda>i. i\<lparr>config_str := the cfg\<rparr>) w; k = i_id (instances w ! a) in
        bind (if i_started (instances w ! a) \<and> i_plugin (instances w ! a) \<noteq> None
              then perform (ConfigUpdate k) (plugin_config_update E (trace w) k) w else Ok () w)
          (\<lambda>_ w. inst_update a w))"

text \<open>\<^verbatim>\<open>save_config\<close>, called by a plugin with the text of its new configuration.\<close>

definition save_config :: "string \<Rightarrow> nat \<Rightarrow> world \<Rightarrow> world" where
  "save_config val a w =
     (if val \<noteq> config_str (instances w ! a)
      then (upd_inst a (\<lambda>i. i\<lparr>config_str := val\<rparr>) w)\<lparr>tasks := tasks w @ [SaveInstance a]\<rparr>
      else w)"

definition switch_client :: "nat \<Rightarrow> nat \<Rightarrow> world \<Rightarrow> (world, unit) res" where
  "switch_client c a w =
     (let w = upd_inst a (\<lambda>i. i\<lparr>primary_user := c_id (clients w ! c)\<rparr>) w in
      bind (case i_client (instances w ! a) of Some old \<Rightarrow> unref_client old a w | None \<Rightarrow> Ok () w) (\<lambda>_ w.
      let w = upd_inst a (\<lambda>i. i\<lparr>i_client := Some c\<rparr>) w in
      inst_update a (upd_client c (\<lambda>x. x\<lparr>c_references := refs_add w a (c_references x)\<rparr>) w)))"

definition update_primary_user :: "('y, 'c) env \<Rightarrow> string option \<Rightarrow> nat \<Rightarrow> world \<Rightarrow> (world, bool) res" where
  "update_primary_user E user a w =
     (if user = None \<or> user = Some (primary_user (instances w ! a)) then Ok True w
      else bind (client_get E None None None (the user) w) (\<lambda>c w.
        case c of
          None \<Rightarrow> Ok False w
        | Some c \<Rightarrow>
            bind (inst_stop E a w) (\<lambda>_ w.
            bind (switch_client c a w) (\<lambda>_ w.
            bind (inst_start E a w) (\<lambda>_ w. Ok True w)))))"

definition switch_loader :: "nat \<Rightarrow> nat \<Rightarrow> world \<Rightarrow> (world, unit) res" where
  "switch_loader l a w =
     (let w = upd_inst a (\<lambda>i. i\<lparr>i_type := loader_id (loaders w ! l)\<rparr>) w in
      bind (case i_loader (instances w ! a) of Some old \<Rightarrow> unref_loader old a w | None \<Rightarrow> Ok () w) (\<lambda>_ w.
      let w = upd_inst a (\<lambda>i. i\<lparr>i_loader := Some l\<rparr>) w in
      inst_update a (upd_loader l (\<lambda>x. x\<lparr>l_references := refs_add w a (l_references x)\<rparr>) w)))"

definition update_type :: "('y, 'c) env \<Rightarrow> string option \<Rightarrow> nat \<Rightarrow> world \<Rightarrow> (world, bool) res" where
  "update_type E ty a w =
     (if ty = None \<or> ty = Some (i_type (instances w ! a)) then Ok True w
      else case find_plugin (the ty) w of
        Inl _ \<Rightarrow> Ok False w
      | Inr l \<Rightarrow>
          bind (inst_stop E a w) (\<lambda>_ w.
          bind (switch_loader l a w) (\<lambda>_ w.
          bind (inst_start E a w) (\<lambda>_ w. Ok True w))))"

definition inst_update_started :: "('y, 'c) env \<Rightarrow> bool option \<Rightarrow> nat \<Rightarrow> world \<Rightarrow> (world, unit) res" where
  "inst_update_started E started a w =
     (if started \<noteq> None \<and> started \<noteq> Some (i_started (instances w ! a))
      then (if the started then inst_start E a w else inst_stop E a w) else Ok () w)"

section \<open>JSON forms\<close>

definition json_opt :: "string option \<Rightarrow> json" where
  "json_opt x = (case x of Some s \<Rightarrow> JStr s | None \<Rightarrow> JNull)"

definition inst_to_dict :: "('y, 'c) env \<Rightarrow> nat \<Rightarrow> world \<Rightarrow> json" where
  "inst_to_dict E a w =
     (let i = instances w ! a in
      JObj [(''id'', JStr (i_id i)), (''type'', JStr (i_type i)), (''enabled'', JBool (i_enabled i)),
            (''started'', JBool (i_started i)), (''primary_user'', JStr (primary_user i)),
            (''config'', JStr (config_str i)), (''base_config'', json_opt (base_cfg_str i)),
            (''database'', JBool (inst_db i \<noteq> None \<and> feature_instance_database E)),
            (''database_interface'',
              case i_loader i of
                None \<Rightarrow> JStr ''unknown''
              | Some l \<Rightarrow> (case l_meta (loaders w ! l) of Some m \<Rightarrow> json_opt (database_type_str m) | None \<Rightarrow> JNull)),
            (''database_engine'', json_opt (database_engine_str i))])"

definition client_to_dict :: "('y, 'c) env \<Rightarrow> (string \<Rightarrow> string option) \<Rightarrow> nat \<Rightarrow> world \<Rightarrow> json" where
  "client_to_dict E fingerprint a w =
     (let c = clients w ! a in
      JObj [(''id'', JStr (c_id c)), (''homeserver'', json_opt (homeserver c)),
            (''access_token'', json_opt (access_token c)), (''device_id'', JStr (device_id c)),
            (''fingerprint'', if crypto c then json_opt (fingerprint (c_id c)) else JNull),
            (''enabled'', JBool (c_enabled c)), (''started'', JBool (c_started c)), (''sync'', JBool (c_sync c)),
            (''sync_ok'', JBool (sync_ok c)), (''autojoin'', JBool (autojoin c)), (''online'', JBool (online c)),
            (''displayname'', JStr (displayname c)), (''avatar_url'', JStr (avatar_url c)),
            (''remote_displayname'', json_opt (remote_displayname c)),
            (''remote_avatar_url'', json_opt (remote_avatar_url c)),
            (''instances'', JArr (map (\<lambda>(k, i). inst_to_dict E i w) (c_references c))),
            (''trust_state'', json_opt (trust_state c))])"

text \<open>JSON strings are restricted to the code points 0 to 255, and so is the path here.\<close>

definition loader_to_dict :: "('y, 'c) env \<Rightarrow> nat \<Rightarrow> world \<Rightarrow> json" where
  "loader_to_dict E a w =
     (let l = loaders w ! a in
      case l_meta l of
        None \<Rightarrow> JNull
      | Some m \<Rightarrow>
          JObj [(''id'', JStr (meta_id m)), (''version'', JStr (meta_version m)),
                (''instances'', JArr (map (\<lambda>(k, i). inst_to_dict E i w) (l_references l))),
                (''path'', JStr (map char_of (self_path l)))])"

section \<open>Instance objects\<close>

definition inst_inv :: "world \<Rightarrow> bool" where
  "inst_inv w \<longleftrightarrow> (\<forall>k r. map_of (inst_table w) k = Some r \<longrightarrow> i_id r = k)
     \<and> (\<forall>k a. map_of (inst_cache w) k = Some a \<longrightarrow> a < length (instances w) \<and> i_id (instances w ! a) = k)"

lemma i_id_init [simp]: "i_id (inst_init r) = i_id r"
  by (simp add: inst_init_def inst_row.defs)

definition fresh_inst :: "inst_row \<Rightarrow> inst" where
  "fresh_inst r = (inst_init r)\<lparr>i_config := False, i_started := False, i_loader := None, i_client := None,
         i_plugin := None, inst_db := None, inst_db_tables := None, inst_webapp := None, base_cfg_str := None\<rparr>"

definition with_inst :: "inst_row \<Rightarrow> world \<Rightarrow> world" where
  "with_inst r w = w\<lparr>instances := instances w @ [fresh_inst r],
     inst_cache := dict_set (i_id r) (length (instances w)) (inst_cache w)\<rparr>"

lemma new_inst_postinit:
  "(let (a, w) = new_inst r w in Ok (Some a) (inst_postinit a w)) = Ok (Some (length (instances w))) (with_inst r w)"
  by (simp add: new_inst_def inst_postinit_def with_inst_def upd_inst_def fresh_inst_def)

lemma inst_get_cases:
  obtains a where "map_of (inst_cache w) k = Some a" "inst_get ty user k w = Ok (Some a) w"
  | r where "map_of (inst_cache w) k = None" "map_of (inst_table w) k = Some r"
      "inst_get ty user k w = Ok (Some (length (instances w))) (with_inst r w)"
  | r where "map_of (inst_cache w) k = None" "map_of (inst_table w) k = None" "i_id r = k"
      "inst_get ty user k w = Ok (Some (length (instances w)))
         (with_inst r (w\<lparr>inst_table := dict_set k r (inst_table w)\<rparr>))"
  | e where "inst_get ty user k w = Raise e w"
  | "map_of (inst_cache w) k = None" "inst_get ty user k w = Ok None w"
proof (cases "map_of (inst_cache w) k")
  case (Some a)
  then show ?thesis using that(1) by (simp add: inst_get_def)
next
  case None
  show ?thesis
  proof (cases "map_of (inst_table w) k")
    case (Some r)
    then show ?thesis using None that(2) new_inst_postinit [of r w] by (simp add: inst_get_def db_inst_get_def)
  next
    case none: None
    define r where "r = \<lparr>i_id = k, i_type = the ty, i_enabled = True, primary_user = the user, config_str = [], engine = None\<rparr>"
    have run: "inst_get ty user k w = (if opt_truthy ty \<and> opt_truthy user
        then bind (db_inst_insert r w) (\<lambda>_ w. let (a, w) = new_inst r w in Ok (Some a) (inst_postinit a w))
        else Ok None w)"
      using None none by (simp add: inst_get_def db_inst_get_def r_def Let_def)
    have r: "i_id r = k" by (simp add: r_def)
    consider "\<not> (opt_truthy ty \<and> opt_truthy user)" | "opt_truthy ty \<and> opt_truthy user" "in_dict (primary_user r) (client_table w)"
      | "opt_truthy ty \<and> opt_truthy user" "\<not> in_dict (primary_user r) (client_table w)" by blast
    then show ?thesis
    proof cases
      case 1
      then show ?thesis using that(5) None run by auto
    next
      case 2
      then have "inst_get ty user k w = Ok (Some (length (instances w))) (with_inst r (w\<lparr>inst_table := dict_set k r (inst_table w)\<rparr>))"
        using run none r new_inst_postinit [of r "w\<lparr>inst_table := dict_set k r (inst_table w)\<rparr>"]
        by (simp add: db_inst_insert_def in_dict_def)
      then show ?thesis by (rule that(3) [OF None none r])
    next
      case 3
      then show ?thesis using that(4) run none r by (simp add: db_inst_insert_def in_dict_def)
    qed
  qed
qed

lemma inst_inv_with_inst: "inst_inv w \<Longrightarrow> inst_inv (with_inst r w)"
  by (auto simp: inst_inv_def with_inst_def fresh_inst_def nth_append less_SucI split: if_splits)

lemma inst_inv_table:
  "inst_inv w \<Longrightarrow> i_id r = k \<Longrightarrow> inst_inv (w\<lparr>inst_table := dict_set k r (inst_table w)\<rparr>)"
  by (simp add: inst_inv_def)

interpretation insts_by_id: object_cache
  "\<lambda>w k. map_of (inst_cache w) k" "\<lambda>w a. i_id (instances w ! a)" inst_inv
  "\<lambda>(ty, user) k w. inst_get ty user k w"
proof unfold_locales
  fix w k a and x :: "string option \<times> string option"
  show "map_of (inst_cache w) k = Some a \<Longrightarrow> (case x of (ty, user) \<Rightarrow> inst_get ty user) k w = Ok (Some a) w"
    by (cases x) (simp add: inst_get_def)
next
  fix w k a w' and x :: "string option \<times> string option"
  assume "inst_inv w" "(case x of (ty, user) \<Rightarrow> inst_get ty user) k w = Ok (Some a) w'"
  then show "map_of (inst_cache w') k = Some a"
    by (cases x, simp) (rule inst_get_cases [of w k "fst x" "snd x"]; auto simp: with_inst_def inst_inv_def)
next
  fix w j b k and x :: "string option \<times> string option"
  assume "inst_inv w" "map_of (inst_cache w) j = Some b"
  then show "map_of (inst_cache (state_of ((case x of (ty, user) \<Rightarrow> inst_get ty user) k w))) j = Some b"
    by (cases x, simp) (rule inst_get_cases [of w k "fst x" "snd x"]; auto simp: with_inst_def inst_inv_def)
next
  fix w k and x :: "string option \<times> string option"
  assume "inst_inv w"
  then show "inst_inv (state_of ((case x of (ty, user) \<Rightarrow> inst_get ty user) k w))"
    by (cases x, simp) (rule inst_get_cases [of w k "fst x" "snd x"];
      auto intro: inst_inv_with_inst inst_inv_table)
next
  fix w k a
  show "inst_inv w \<Longrightarrow> map_of (inst_cache w) k = Some a \<Longrightarrow> i_id (instances w ! a) = k"
    by (simp add: inst_inv_def)
qed

text \<open>
  One object per instance. The instance found for an id has that id, every later lookup of the id
  gives the same object whatever is looked up in between, and different ids give different objects.
\<close>

theorem instance_objects_unique:
  assumes "inst_inv w" and "inst_get ty user k w = Ok (Some a) w'"
  defines "later \<equiv> \<lambda>xs. lookups (\<lambda>(ty, user) j v. inst_get ty user j v) xs w'"
  shows "i_id (instances w' ! a) = k
    \<and> (\<forall>xs ty2 user2. inst_get ty2 user2 k (later xs) = Ok (Some a) (later xs))
    \<and> (\<forall>xs ty2 user2 j b v. inst_get ty2 user2 j (later xs) = Ok (Some b) v \<longrightarrow> j \<noteq> k \<longrightarrow> b \<noteq> a)"
proof -
  have get: "(case (ty, user) of (ty, user) \<Rightarrow> inst_get ty user) k w = Ok (Some a) w'"
    using assms(2) by simp
  show ?thesis
    using insts_by_id.get_key [OF assms(1) get] insts_by_id.get_stable [OF assms(1) get]
      insts_by_id.get_distinct [OF assms(1) get]
    unfolding later_def by fastforce
qed

text \<open>
  Renaming an instance. Changing the id of an instance leaves its object cached under the old id
  only: looking up the new id makes a second object for the same row, and the first object
  can no longer be deleted, because the sets that refer to it do not find it any more.
\<close>

theorem renamed_instance_duplicated:
  assumes inv: "inst_inv w" and cached: "map_of (inst_cache w) k = Some a" and row: "map_of (inst_table w) k = Some r"
    and fresh: "map_of (inst_table w) (str_lower n) = None" "map_of (inst_cache w) (str_lower n) = None"
    and refs: "i_loader (instances w ! a) = Some l" "l_references (loaders w ! l) = [(k, a)]"
    and run: "update_id (Some n) a w = Ok () w'"
  shows "(\<exists>b w''. inst_get None None (str_lower n) w' = Ok (Some b) w'' \<and> b \<noteq> a)
    \<and> inst_get None None k w' = Ok (Some a) w'
    \<and> inst_delete E a w' = Raise KeyError w'"
proof -
  have a: "a < length (instances w)" "i_id (instances w ! a) = k" using inv cached by (auto simp: inst_inv_def)
  have ne: "str_lower n \<noteq> k" using row fresh by auto
  define r' where "r' = r\<lparr>i_id := str_lower n\<rparr>"
  have w': "w' = upd_inst a (\<lambda>i. i\<lparr>i_id := str_lower n\<rparr>)
      (w\<lparr>inst_table := dict_set (str_lower n) r' (dict_del k (inst_table w))\<rparr>)"
    using run ne row fresh by (simp add: update_id_def a db_inst_update_id_def in_dict_def r'_def)
  have "inst_get None None (str_lower n) w' = Ok (Some (length (instances w'))) (with_inst r' w')"
    using new_inst_postinit [of r' w'] fresh by (simp add: inst_get_def db_inst_get_def w')
  moreover have "length (instances w') \<noteq> a" using a by (simp add: w')
  moreover have "refs_remove w' a (l_references (loaders w' ! l)) = None"
    using refs ne a by (simp add: refs_remove_def refs_has_def w')
  moreover have "i_loader (instances w' ! a) = Some l" using refs a by (simp add: w')
  ultimately show ?thesis
    using cached by (simp add: inst_get_def inst_delete_def unref_loader_def w')
qed

section \<open>Running state\<close>

text \<open>Operations that may change the fields of instances but never create or drop one.\<close>

definition sized :: "nat \<Rightarrow> world \<Rightarrow> bool" where
  "sized n w \<longleftrightarrow> length (instances w) = n"

named_theorems sized_intros

lemma sized_simps [simp]:
  "sized n (upd_inst a f w) \<longleftrightarrow> sized n w" "sized n (upd_client a g w) \<longleftrightarrow> sized n w"
  "sized n (upd_loader a h w) \<longleftrightarrow> sized n w" "sized n (log_event e w) \<longleftrightarrow> sized n w"
  "sized n (w\<lparr>srv := s\<rparr>) \<longleftrightarrow> sized n w" "sized n (set_db d a w) \<longleftrightarrow> sized n w"
  "sized n (enable_webapp a w) \<longleftrightarrow> sized n w" "sized n (disable_webapp a w) \<longleftrightarrow> sized n w"
  by (simp_all add: sized_def set_db_def enable_webapp_def disable_webapp_def split: prod.splits)

lemma inst_update_sized [sized_intros]: "sized n w \<Longrightarrow> holds (sized n) (inst_update a w)"
  by (simp add: inst_update_def db_inst_update_def sized_def)

lemma update_enabled_sized [sized_intros]: "sized n w \<Longrightarrow> holds (sized n) (inst_update_enabled v a w)"
  by (simp add: inst_update_enabled_def inst_update_sized)

lemma update_db_engine_sized [sized_intros]: "sized n w \<Longrightarrow> holds (sized n) (update_db_engine v a w)"
  by (simp add: update_db_engine_def inst_update_sized)

lemma meta_of_state [simp]: "state_of (meta_of a w) = w"
  by (simp add: meta_of_def split: option.splits)

lemma meta_of_sized [sized_intros]: "sized n w \<Longrightarrow> holds (sized n) (meta_of a w)"
  by (simp add: holds_def)

lemma meta_of_Ok: "meta_of a w = Ok m v \<Longrightarrow> v = w"
  by (auto simp: meta_of_def split: option.splits)

lemma fail_load_sized [sized_intros]: "sized n w \<Longrightarrow> holds (sized n) (fail_load a w)"
  unfolding fail_load_def by (intro holds_bind sized_intros) auto

lemma start_database_sized [sized_intros]: "sized n w \<Longrightarrow> holds (sized n) (start_database E b a w)"
  unfolding start_database_def open_asyncpg_def
  by (intro holds_bind meta_of_sized)
    (auto simp: Let_def intro!: holds_bind sized_intros split: database_type.splits option.splits database_engine.splits)

lemma fail_load_disables:
  assumes "fail_load a w = Ok b v" and "a < length (instances w)"
  shows "\<not> b" and "\<not> i_enabled (instances v ! a)"
  using assms
  by (auto simp: fail_load_def inst_update_enabled_def inst_update_def db_inst_update_def bind_eq_Ok
      split: if_splits)

text \<open>The early return of a guarded step: it disabled the instance.\<close>

lemma or_disable_Ok:
  assumes "or_disable a r = Ok b v" and "holds (sized n) r" and "a < n"
  shows "(b \<and> r = Ok () v) \<or> (\<not> b \<and> \<not> i_enabled (instances v ! a))"
proof (cases r)
  case (Ok x u)
  then show ?thesis using assms(1) by (auto simp: or_disable_def)
next
  case (Raise e u)
  then have "fail_load a u = Ok b v" using assms(1) by (auto simp: or_disable_def split: if_splits)
  moreover have "a < length (instances u)" using assms(2,3) Raise by (simp add: sized_def)
  ultimately show ?thesis using fail_load_disables by blast
qed

text \<open>Loading the plugin code leaves everything but the loader alone.\<close>

lemma on_loader_load:
  assumes "on_loader l (load E reset) w = Ok c (w' :: world)"
  shows "instances w' = instances w" "clients w' = clients w" "inst_table w' = inst_table w"
    "client_table w' = client_table w" "tasks w' = tasks w" "srv w' = srv w" "inst_cache w' = inst_cache w"
    "client_cache w' = client_cache w" "trace w' = trace w"
proof -
  from assms obtain l' v where run: "load E reset (loaders w ! l, w) = Ok c (l', v)"
    and w': "w' = v\<lparr>loaders := (loaders v)[l := l']\<rparr>"
    by (auto simp: on_loader_def split: res.splits)
  have "frame v = frame w" using load_keeps [of "(loaders w ! l, w)" E reset] run by (simp add: keeps_def)
  then have "instances (frame v) = instances (frame w)" "clients (frame v) = clients (frame w)"
    "inst_table (frame v) = inst_table (frame w)" "client_table (frame v) = client_table (frame w)"
    "tasks (frame v) = tasks (frame w)" "srv (frame v) = srv (frame w)" "inst_cache (frame v) = inst_cache (frame w)"
    "client_cache (frame v) = client_cache (frame w)" "trace (frame v) = trace (frame w)" by simp_all
  then show "instances w' = instances w" "clients w' = clients w" "inst_table w' = inst_table w"
    "client_table w' = client_table w" "tasks w' = tasks w" "srv w' = srv w" "inst_cache w' = inst_cache w"
    "client_cache w' = client_cache w" "trace w' = trace w" by (simp_all add: frame_def w')
qed

lemma sync_webapp_sized [simp]: "sized n (sync_webapp m a w) \<longleftrightarrow> sized n w"
  by (simp add: sync_webapp_def)

lemma load_base_config_sized [sized_intros]: "sized n w \<Longrightarrow> holds (sized n) (load_base_config E a w)"
  by (simp add: load_base_config_def Let_def split: sum.splits)

lemma register_handler_class_sized:
  "i_plugin (instances w ! a) \<noteq> None \<Longrightarrow> a < length (instances w) \<Longrightarrow>
   length (instances (register_handler_class attrs a w)) = length (instances w)"
  using same_but_srvD(1) [OF register_handler_class_effect, of a w attrs] by simp

lemma internal_start_sized [sized_intros]:
  assumes "sized n w" and "a < n" and "i_plugin (instances w ! a) \<noteq> None"
  shows "holds (sized n) (internal_start E a w)"
  unfolding internal_start_def Let_def
  by (intro holds_bind) (use assms in \<open>auto simp: sized_def perform_eq_Ok register_handler_class_sized\<close>)

lemma start_plugin_Ok:
  assumes "start_plugin E cls a w = Ok x w'" and "a < length (instances w)"
  shows "i_started (instances w' ! a) \<and> (\<exists>p. i_plugin (instances w' ! a) = Some p \<and> po_class p = cls)
    \<or> \<not> i_enabled (instances w' ! a)"
proof -
  define w1 where "w1 = upd_inst a (\<lambda>i. i\<lparr>i_plugin := Some (new_plugin cls i)\<rparr>)
      (log_event (PluginInit (i_id (instances w ! a)) cls) w)"
  have w1: "a < length (instances w1)" "i_plugin (instances w1 ! a) = Some (new_plugin cls (instances w ! a))"
    using assms(2) by (simp_all add: w1_def)
  define r where "r = internal_start E a w1"
  obtain b v where run: "or_disable a r = Ok b v" "w' = (if b then upd_inst a (\<lambda>i. i\<lparr>i_started := True, inst_db_tables := None\<rparr>) v else v)"
  proof -
    have "bind (or_disable a r) (\<lambda>ok w. if \<not> ok then Ok () w
        else Ok () (upd_inst a (\<lambda>i. i\<lparr>i_started := True, inst_db_tables := None\<rparr>) w)) = Ok x w'"
      using assms(1) by (auto simp: start_plugin_def Let_def bind_eq_Ok perform_eq_Ok w1_def [symmetric] r_def [symmetric])
    then show thesis using that by (cases "or_disable a r") (auto split: if_splits)
  qed
  have "holds (sized (length (instances w1))) r" using w1 by (simp add: r_def internal_start_sized sized_def)
  from or_disable_Ok [OF run(1) this w1(1)] show ?thesis
  proof
    assume b: "b \<and> r = Ok () v"
    then have "instances v ! a = instances (registered (class_handlers (i_id (instances w1 ! a))
        (plugin_attrs E (po_class (plugin_at a w1)))) a w1) ! a"
      using internal_start_Ok(1) [of a w1 E "()" v] w1 by (simp add: r_def)
    then show ?thesis using b run(2) w1 internal_start_Ok(1) [of a w1 E "()" v]
      by (simp add: registered_inst new_plugin_def r_def)
  qed (simp add: run(2))
qed

lemma start_loaded_Ok:
  assumes "start_loaded E a w = Ok x w'" and "a < length (instances w)"
  shows "i_started (instances w' ! a) \<and> i_plugin (instances w' ! a) \<noteq> None
    \<or> \<not> i_enabled (instances w' ! a)"
proof -
  let ?n = "length (instances w)"
  obtain cls m w1 where w1: "on_loader (the (i_loader (instances w ! a))) (load E False) w = Ok cls w1"
    "meta_of a w1 = Ok m w1" and rest: "bind (if meta_database m then or_disable a (start_database E True a (sync_webapp m a w1)) else Ok True (sync_webapp m a w1))
       (\<lambda>ok w. if \<not> ok then Ok () w else bind (if has_config_class E cls then load_base_config E a w else Ok () w)
          (\<lambda>_ w. start_plugin E cls a w)) = Ok x w'"
    using assms(1) unfolding start_loaded_def bind_eq_Ok Let_def by (metis meta_of_Ok)
  have "sized ?n w1" using on_loader_load(1) [OF w1(1)] by (simp add: sized_def)
  then have s1: "sized ?n (sync_webapp m a w1)" by simp
  then have hdb: "holds (sized ?n) (start_database E True a (sync_webapp m a w1))" by (rule start_database_sized)
  from rest obtain ok w2 where w2: "(if meta_database m then or_disable a (start_database E True a (sync_webapp m a w1)) else Ok True (sync_webapp m a w1)) = Ok ok w2"
    and fin: "(if \<not> ok then Ok () w2 else bind (if has_config_class E cls then load_base_config E a w2 else Ok () w2)
          (\<lambda>_ w. start_plugin E cls a w)) = Ok x w'"
    by (auto simp: bind_eq_Ok)
  have cases2: "ok \<and> sized ?n w2 \<or> \<not> ok \<and> \<not> i_enabled (instances w2 ! a)"
  proof (cases "meta_database m")
    case True
    with w2 or_disable_Ok [OF _ hdb assms(2)] hdb show ?thesis by force
  qed (use w2 s1 in auto)
  then show ?thesis
  proof
    assume ok: "ok \<and> sized ?n w2"
    with fin obtain w3 where w3: "(if has_config_class E cls then load_base_config E a w2 else Ok () w2) = Ok () w3"
      "start_plugin E cls a w3 = Ok x w'" by (auto simp: bind_eq_Ok)
    have "holds (sized ?n) (if has_config_class E cls then load_base_config E a w2 else Ok () w2)"
      using ok by (simp add: load_base_config_sized)
    then have "a < length (instances w3)" using w3(1) assms(2) by (simp add: sized_def)
    from start_plugin_Ok [OF w3(2) this] show ?thesis by blast
  next
    assume "\<not> ok \<and> \<not> i_enabled (instances w2 ! a)"
    with fin show ?thesis by simp
  qed
qed

lemma client_get_frame:
  assumes "client_get E hs token dev k w = Ok r w'"
  shows "instances w' = instances w \<and> loaders w' = loaders w \<and> id_cache w' = id_cache w
    \<and> inst_cache w' = inst_cache w \<and> inst_table w' = inst_table w \<and> tasks w' = tasks w"
  by (rule client_get_cases [of w k E hs token dev]) (use assms in \<open>auto simp: with_client_def\<close>)

lemmas client_get_instances = client_get_frame [THEN conjunct1]

lemma load_loader_Ok:
  assumes "load_loader a w = Ok b v" and "a < length (instances w)" and "i_loader (instances w ! a) = None"
  shows "b \<and> (\<exists>l. find_plugin (i_type (instances w ! a)) w = Inr l \<and> v = upd_inst a (\<lambda>i. i\<lparr>i_loader := Some l\<rparr>) w)
    \<or> \<not> b \<and> \<not> i_enabled (instances v ! a)"
  using assms by (auto simp: load_loader_def dest: fail_load_disables split: sum.splits)

lemma load_client_Ok:
  assumes "load_client E a w = Ok b v" and "a < length (instances w)" and "i_client (instances w ! a) = None"
  shows "b \<and> (\<exists>c u. client_get E None None None (primary_user (instances w ! a)) w = Ok (Some c) u
                \<and> v = upd_inst a (\<lambda>i. i\<lparr>i_client := Some c\<rparr>) u)
    \<or> \<not> b \<and> \<not> i_enabled (instances v ! a)"
proof -
  obtain r u where get: "client_get E None None None (primary_user (instances w ! a)) w = Ok r u"
    and rest: "(case r of Some c \<Rightarrow> Ok True (upd_inst a (\<lambda>i. i\<lparr>i_client := Some c\<rparr>) u) | None \<Rightarrow> fail_load a u) = Ok b v"
    using assms by (auto simp: load_client_def bind_eq_Ok)
  have "a < length (instances u)" using assms(2) client_get_instances(1) [OF get] by simp
  with get rest show ?thesis by (auto dest: fail_load_disables split: option.splits)
qed

lemma refs_has_add: "refs_has w a (refs_add w a rs)"
  by (auto simp: refs_add_def refs_has_def same_inst_def)

lemma refs_has_insts: "instances v = instances w \<Longrightarrow> refs_has v a rs = refs_has w a rs"
  by (simp add: refs_has_def same_inst_def)

text \<open>The two dependencies of a fresh instance, before they are told about it.\<close>

lemma load_client_found:
  assumes inv: "client_inv w" and run: "load_client E a w = Ok True v" and a: "a < length (instances w)"
    and none: "i_client (instances w ! a) = None"
  obtains c where "i_client (instances v ! a) = Some c" "c < length (clients v)"
    "c_id (clients v ! c) = primary_user (instances w ! a)" "loaders v = loaders w" "a < length (instances v)"
    "i_loader (instances v ! a) = i_loader (instances w ! a)"
proof -
  obtain c u where c: "client_get E None None None (primary_user (instances w ! a)) w = Ok (Some c) u"
    "v = upd_inst a (\<lambda>i. i\<lparr>i_client := Some c\<rparr>) u"
    using load_client_Ok [OF run a none] by auto
  have get: "(case (None, None, None) of (hs, token, dev) \<Rightarrow> client_get E hs token dev)
      (primary_user (instances w ! a)) w = Ok (Some c) u" using c(1) by simp
  have "client_inv u"
    using clients_by_id.get_invar [OF inv, of E "(None, None, None)" "primary_user (instances w ! a)"] c(1) by simp
  then have "c < length (clients u)" "c_id (clients u ! c) = primary_user (instances w ! a)"
    using clients_by_id.get_fills [OF inv get] by (auto simp: client_inv_def)
  then show thesis using that [of c] client_get_frame [OF c(1)] a by (simp add: c(2))
qed

lemma add_reference_registers:
  assumes "i_loader (instances v ! a) = Some l" "i_client (instances v ! a) = Some c"
    and "l < length (loaders v)" "c < length (clients v)"
  defines "w' \<equiv> add_reference a v"
  shows "instances w' = instances v" "plugin_key (loaders w' ! l) = plugin_key (loaders v ! l)"
    "c_id (clients w' ! c) = c_id (clients v ! c)"
    "refs_has w' a (l_references (loaders w' ! l))" "refs_has w' a (c_references (clients w' ! c))"
proof -
  have w': "w' = upd_client c (\<lambda>x. x\<lparr>c_references := refs_add v a (c_references x)\<rparr>)
        (upd_loader l (\<lambda>x. x\<lparr>l_references := refs_add v a (l_references x)\<rparr>) v)"
    by (simp add: w'_def add_reference_def assms(1,2))
  show inst: "instances w' = instances v" by (simp add: w')
  show "plugin_key (loaders w' ! l) = plugin_key (loaders v ! l)" "c_id (clients w' ! c) = c_id (clients v ! c)"
    "refs_has w' a (l_references (loaders w' ! l))" "refs_has w' a (c_references (clients w' ! c))"
    unfolding refs_has_insts [OF inst] using assms(3,4) refs_has_add by (simp_all add: w')
qed

lemma enable_webapp_frame:
  "loaders (enable_webapp a w) = loaders w" "clients (enable_webapp a w) = clients w"
  "length (instances (enable_webapp a w)) = length (instances w)"
  "a < length (instances w) \<Longrightarrow> i_loader (instances (enable_webapp a w) ! a) = i_loader (instances w ! a)"
  "a < length (instances w) \<Longrightarrow> i_client (instances (enable_webapp a w) ! a) = i_client (instances w ! a)"
  by (simp_all add: enable_webapp_def split: prod.splits)

lemma inst_load_Ok:
  assumes "inst_load E a w = Ok b w'"
  obtains w1 where "load_loader a w = Ok False w1" "\<not> b" "w' = w1"
  | w1 w2 where "load_loader a w = Ok True w1" "load_client E a w1 = Ok False w2" "\<not> b" "w' = w2"
  | w1 w2 m where "load_loader a w = Ok True w1" "load_client E a w1 = Ok True w2" "b" "meta_of a w2 = Ok m w2"
      "w' = add_reference a (if meta_webapp m then enable_webapp a w2 else w2)"
proof -
  obtain b1 w1 where r1: "load_loader a w = Ok b1 w1"
    and k1: "(if \<not> b1 then Ok False w1 else bind (load_client E a w1) (\<lambda>ok w. if \<not> ok then Ok False w
        else bind (meta_of a w) (\<lambda>m w. Ok True (add_reference a (if meta_webapp m then enable_webapp a w else w))))) = Ok b w'"
    using assms unfolding inst_load_def bind_eq_Ok by blast
  show thesis
  proof (cases b1)
    case True
    with k1 obtain b2 w2 where r2: "load_client E a w1 = Ok b2 w2"
      and k2: "(if \<not> b2 then Ok False w2 else bind (meta_of a w2) (\<lambda>m w. Ok True (add_reference a (if meta_webapp m then enable_webapp a w else w)))) = Ok b w'"
      by (auto simp: bind_eq_Ok)
    show thesis
    proof (cases b2)
      case t2: True
      with k2 obtain m v where m: "meta_of a w2 = Ok m v"
        and e: "b" "w' = add_reference a (if meta_webapp m then enable_webapp a v else v)"
        by (auto simp: bind_eq_Ok)
      have v: "v = w2" by (rule meta_of_Ok [OF m])
      show thesis using that(3) [of w1 w2 m] r1 r2 True t2 m e by (simp add: v)
    qed (use that(2) r1 r2 k2 True in auto)
  qed (use that(1) r1 k1 in auto)
qed

lemma add_reference_sized: "length (instances (add_reference a w)) = length (instances w)"
  by (simp add: add_reference_def split: option.splits prod.splits)

text \<open>Whatever was loaded before, loading ends with the dependencies or with a disabled instance.\<close>

lemma inst_load_outcome:
  assumes "inst_load E a w = Ok b w'" and a: "a < length (instances w)"
  shows "b \<and> a < length (instances w') \<or> \<not> b \<and> \<not> i_enabled (instances w' ! a)"
proof -
  have one: "b1 \<and> length (instances v) = length (instances w) \<or> \<not> b1 \<and> \<not> i_enabled (instances v ! a)"
    if "load_loader a w = Ok b1 v" for b1 v
    using that a load_loader_Ok [OF that a] by (cases "i_loader (instances w ! a)") (auto simp: load_loader_def)
  have two: "b2 \<and> length (instances v) = length (instances u) \<or> \<not> b2 \<and> \<not> i_enabled (instances v ! a)"
    if "load_client E a u = Ok b2 v" "a < length (instances u)" for b2 u v
    using that load_client_Ok [OF that]
    by (cases "i_client (instances u ! a)") (auto simp: load_client_def dest: client_get_instances)
  show ?thesis
    using assms(1)
  proof (cases rule: inst_load_Ok)
    case (1 w1)
    then show ?thesis using one by blast
  next
    case (2 w1 w2)
    then show ?thesis using one [OF 2(1)] two [OF 2(2)] a by auto
  next
    case (3 w1 w2 m)
    then show ?thesis using one [OF 3(1)] two [OF 3(2)] a
      by (auto simp: add_reference_sized enable_webapp_frame)
  qed
qed

text \<open>
  Loading an instance's dependencies. When loading a fresh instance succeeds, it has the loader of its
  type and the client of its primary user, and both count it among their references; when it
  does not, the instance is disabled.
\<close>

theorem load_registers:
  assumes a: "a < length (instances w)" and fresh: "i_loader (instances w ! a) = None" "i_client (instances w ! a) = None"
    and ok: "loader_ok w" "client_inv w" and run: "inst_load E a w = Ok b w'"
  shows "if b
    then \<exists>l c. i_loader (instances w' ! a) = Some l \<and> i_client (instances w' ! a) = Some c
       \<and> plugin_key (loaders w' ! l) = Some (i_type (instances w ! a))
       \<and> c_id (clients w' ! c) = primary_user (instances w ! a)
       \<and> refs_has w' a (l_references (loaders w' ! l)) \<and> refs_has w' a (c_references (clients w' ! c))
    else \<not> i_enabled (instances w' ! a)"
  using run
proof (cases rule: inst_load_Ok)
  case (1 w1)
  then show ?thesis using load_loader_Ok [OF 1(1) a fresh(1)] by simp
next
  case (2 w1 w2)
  then show ?thesis using load_loader_Ok [OF 2(1) a fresh(1)] load_client_Ok [OF 2(2)] a fresh by auto
next
  case (3 w1 w2 m)
  obtain l where l: "find_plugin (i_type (instances w ! a)) w = Inr l" "w1 = upd_inst a (\<lambda>i. i\<lparr>i_loader := Some l\<rparr>) w"
    using load_loader_Ok [OF 3(1) a fresh(1)] by auto
  have ll: "l < length (loaders w)" "plugin_key (loaders w ! l) = Some (i_type (instances w ! a))"
    using ok(1) l(1) caches_okD(1,3) by (auto simp: find_plugin_Inr loader_ok_def)
  have w1: "client_inv w1" "a < length (instances w1)" "i_client (instances w1 ! a) = None"
    using ok(2) a fresh by (simp_all add: client_inv_def l)
  obtain c where c: "i_client (instances w2 ! a) = Some c" "c < length (clients w2)"
    "c_id (clients w2 ! c) = primary_user (instances w1 ! a)" "loaders w2 = loaders w1" "a < length (instances w2)"
    "i_loader (instances w2 ! a) = i_loader (instances w1 ! a)"
    using load_client_found [OF w1(1) 3(2) w1(2,3)] by metis
  define v where "v = (if meta_webapp m then enable_webapp a w2 else w2)"
  have v: "i_loader (instances v ! a) = Some l" "i_client (instances v ! a) = Some c" "loaders v = loaders w"
    "clients v = clients w2"
    using c a by (simp_all add: v_def enable_webapp_frame l)
  from add_reference_registers [of v a l c] show ?thesis
    using 3(3,5) v ll c(2,3) a by (simp add: v_def [symmetric] l)
qed


section \<open>Stopping\<close>

text \<open>What stopping an instance may touch: its own object, handlers of clients, web apps and the trace.\<close>

definition stop_frame :: "nat \<Rightarrow> world \<Rightarrow> world \<Rightarrow> bool" where
  "stop_frame a w v \<longleftrightarrow> length (instances v) = length (instances w) \<and> (\<forall>b. b \<noteq> a \<longrightarrow> instances v ! b = instances w ! b)
     \<and> map client_row_of (clients v) = map client_row_of (clients w)
     \<and> map c_references (clients v) = map c_references (clients w) \<and> loaders v = loaders w
     \<and> client_table v = client_table w \<and> inst_table v = inst_table w \<and> tasks v = tasks w
     \<and> inst_cache v = inst_cache w \<and> client_cache v = client_cache w \<and> id_cache v = id_cache w
     \<and> path_cache v = path_cache w
     \<and> inst_row.truncate (instances v ! a) = inst_row.truncate (instances w ! a)
     \<and> i_loader (instances v ! a) = i_loader (instances w ! a) \<and> i_client (instances v ! a) = i_client (instances w ! a)
     \<and> inst_db (instances v ! a) = inst_db (instances w ! a)"

lemma stop_frame_refl [simp]: "stop_frame a w w"
  by (simp add: stop_frame_def)

lemma stop_frame_log [simp]: "stop_frame a w (log_event e v) \<longleftrightarrow> stop_frame a w v"
  by (simp add: stop_frame_def log_event_def)

lemma stop_frame_inst:
  assumes "stop_frame a w v" and "\<And>i. inst_row.truncate (f i) = inst_row.truncate i"
    and "\<And>i. i_loader (f i) = i_loader i" "\<And>i. i_client (f i) = i_client i" "\<And>i. inst_db (f i) = inst_db i"
  shows "stop_frame a w (upd_inst a f v)"
  using assms by (cases "a < length (instances v)") (auto simp: stop_frame_def upd_inst_def list_update_beyond)

lemma stop_frame_mx:
  assumes "stop_frame a w v"
  shows "stop_frame a w (upd_mx c f v)"
proof -
  have "map g ((clients v)[c := (clients v ! c)\<lparr>mx := m\<rparr>]) = map g (clients v)"
    if "\<And>x. g (x\<lparr>mx := m\<rparr>) = g x" for g :: "client \<Rightarrow> 'q" and m
    using that by (cases "c < length (clients v)") (simp_all add: map_update list_update_same_conv list_update_beyond)
  from this [of client_row_of] this [of c_references] show ?thesis
    using assms by (simp add: stop_frame_def upd_mx_def upd_client_def)
qed

lemma stop_frame_webapp: "stop_frame a w v \<Longrightarrow> stop_frame a w (upd_webapp p f v)"
  by (simp add: stop_frame_def upd_webapp_def)

lemma internal_stop_frame:
  assumes "stop_frame a w v"
  shows "holds (stop_frame a w) (internal_stop E a v)"
  using assms by (auto simp: internal_stop_def Let_def perform_def stop_frame_mx stop_frame_webapp split: option.splits)

lemma stop_database_frame: "stop_frame a w v \<Longrightarrow> holds (stop_frame a w) (stop_database E a v)"
  by (simp add: stop_database_def split: option.splits inst_db.splits)

lemma holds_swallow: "holds I r \<Longrightarrow> holds I (swallow r)"
  by (cases r) (simp_all add: swallow_def)

lemma swallow_Raise: "swallow r = Raise e w \<Longrightarrow> \<not> is_exception e"
  by (cases r) (auto simp: swallow_def split: if_splits)

lemma inst_stop_frame: "holds (stop_frame a w) (inst_stop E a w)"
proof (cases "i_started (instances w ! a)")
  case True
  have "inst_row.truncate (i\<lparr>i_started := b\<rparr>) = inst_row.truncate i" "inst_row.truncate (i\<lparr>i_plugin := p\<rparr>) = inst_row.truncate i"
    "inst_row.truncate (i\<lparr>inst_db_tables := t\<rparr>) = inst_row.truncate i" for i :: inst and b p t
    by (simp_all add: inst_row.defs)
  note upd = stop_frame_inst [of a w, OF _ this(1)] stop_frame_inst [of a w, OF _ this(2)] stop_frame_inst [of a w, OF _ this(3)]
  show ?thesis
    using True by (auto simp: inst_stop_def Let_def intro!: holds_bind holds_swallow internal_stop_frame
        stop_database_frame upd)
qed (simp add: inst_stop_def)

lemma is_exception_iff: "\<not> is_exception e \<longleftrightarrow> (\<exists>n. e = SystemExit n)"
  by (cases e) simp_all

lemma inst_stop_outcome:
  assumes a: "a < length (instances w)" and started: "i_started (instances w ! a)"
  shows "case inst_stop E a w of
      Ok _ w' \<Rightarrow> \<not> i_started (instances w' ! a) \<and> i_plugin (instances w' ! a) = None
        \<and> inst_db_tables (instances w' ! a) = None \<and> stop_frame a w w'
    | Raise e w' \<Rightarrow> (\<exists>n. e = SystemExit n) \<and> \<not> i_started (instances w' ! a) \<and> stop_frame a w w'"
proof -
  define w1 where "w1 = upd_inst a (\<lambda>i. i\<lparr>i_started := False\<rparr>) w"
  define r1 where "r1 = swallow (internal_stop E a w1)"
  have keep: "holds (\<lambda>v. length (instances v) = length (instances w) \<and> \<not> i_started (instances v ! a)) (internal_stop E a v)"
    if "length (instances v) = length (instances w)" "\<not> i_started (instances v ! a)" for v
    using that by (auto simp: internal_stop_def Let_def perform_def upd_mx_def split: option.splits)
  have k1: "holds (\<lambda>v. length (instances v) = length (instances w) \<and> \<not> i_started (instances v ! a)) r1"
    unfolding r1_def using a by (intro holds_swallow keep) (simp_all add: w1_def)
  have run: "inst_stop E a w = bind r1 (\<lambda>_ w.
      let w = upd_inst a (\<lambda>i. i\<lparr>i_plugin := None\<rparr>) w in
      bind (if inst_db (instances w ! a) \<noteq> None then swallow (stop_database E a w) else Ok () w) (\<lambda>_ w.
      Ok () (upd_inst a (\<lambda>i. i\<lparr>inst_db_tables := None\<rparr>) w)))"
    using started by (simp add: inst_stop_def w1_def r1_def)
  have db: "instances (state_of (swallow (stop_database E a v))) = instances v" for v
    by (cases "stop_database E a v")
      (auto simp: swallow_def stop_database_def perform_def split: option.splits inst_db.splits if_splits)
  have frame: "stop_frame a w (state_of (inst_stop E a w))" using inst_stop_frame by (simp add: holds_def)
  show ?thesis
  proof (cases r1)
    case (Ok x v)
    then have v: "a < length (instances v)" "\<not> i_started (instances v ! a)" using k1 a by simp_all
    define u where "u = upd_inst a (\<lambda>i. i\<lparr>i_plugin := None\<rparr>) v"
    define r2 where "r2 = (if inst_db (instances u ! a) \<noteq> None then swallow (stop_database E a u) else Ok () u)"
    have i2: "instances (state_of r2) = instances u" by (simp add: r2_def db)
    have "inst_stop E a w = bind r2 (\<lambda>_ w. Ok () (upd_inst a (\<lambda>i. i\<lparr>inst_db_tables := None\<rparr>) w))"
      by (simp add: run Ok Let_def u_def r2_def)
    moreover have "\<exists>n. e = SystemExit n" if "r2 = Raise e s" for e s
      using that swallow_Raise by (auto simp: r2_def is_exception_iff split: if_splits)
    ultimately show ?thesis
      using frame i2 v by (cases r2) (simp_all add: u_def)
  next
    case (Raise e v)
    then have "\<exists>n. e = SystemExit n" using swallow_Raise by (auto simp: r1_def is_exception_iff)
    then show ?thesis using frame k1 by (simp add: run Raise)
  qed
qed


text \<open>
  A failed start leaves handlers behind. When a plugin's \<^verbatim>\<open>start\<close> raises, the instance is disabled and
  not marked as running, so that stopping it does nothing; but the event handlers of the
  plugin class stay registered at the client.
\<close>

theorem failed_start_leaks_handlers:
  assumes a: "a < length (instances w)" and c: "i_client (instances w ! a) = Some c" "c < length (clients w)"
    and quiet: "\<not> i_started (instances w ! a)" "\<And>t. plugin_init E t (i_id (instances w ! a)) = None"
      "\<And>t. plugin_pre_start E t (i_id (instances w ! a)) = None"
    and fails: "\<And>t. plugin_start E t (i_id (instances w ! a)) = Some (OtherException e)"
    and run: "start_plugin E cls a w = Ok () w'"
  shows "\<not> i_enabled (instances w' ! a) \<and> inst_stop E a w' = Ok () w'
    \<and> set (class_handlers (i_id (instances w ! a)) (plugin_attrs E cls)) \<subseteq> set (mx_handlers (mx (clients w' ! c)))"
proof -
  define k where "k = i_id (instances w ! a)"
  define w1 where "w1 = upd_inst a (\<lambda>i. i\<lparr>i_plugin := Some (new_plugin cls i)\<rparr>) (log_event (PluginInit k cls) w)"
  define v where "v = log_event (PluginPreStart k) w1"
  define u where "u = register_handler_class (plugin_attrs E cls) a v"
  have v: "a < length (instances v)" "i_plugin (instances v ! a) \<noteq> None" "po_client (plugin_at a v) = c" "i_id (instances v ! a) = k"
    "clients v = clients w" "\<not> i_started (instances v ! a)" "po_class (plugin_at a v) = cls"
    using a c quiet(1) by (simp_all add: v_def w1_def plugin_at_def new_plugin_def k_def)
  have "same_but_srv u (registered (class_handlers k (plugin_attrs E cls)) a v)"
    using register_handler_class_effect [OF v(1,2)] by (simp add: u_def v(4))
  note d = same_but_srvD [OF this]
  have u: "mx_handlers (mx (clients u ! c)) = mx_handlers (mx (clients w ! c)) @ class_handlers k (plugin_attrs E cls)"
    "\<not> i_started (instances u ! a)" "a < length (instances u)"
    using registered_client [of a v "class_handlers k (plugin_attrs E cls)"] c(2) v
    by (simp_all add: d registered_inst)
  have k1: "i_id (instances w1 ! a) = k" "po_class (plugin_at a w1) = cls"
    using v(4,7) by (simp_all add: v_def plugin_at_def)
  then have "internal_start E a w1 = Raise (OtherException e) (log_event (PluginStart k) u)"
    using quiet(3) fails v(7) by (simp add: internal_start_def perform_def Let_def u_def v_def k_def [symmetric] plugin_at_def)
  then have "bind (fail_load a (log_event (PluginStart k) u)) (\<lambda>ok w. if \<not> ok then Ok () w
        else Ok () (upd_inst a (\<lambda>i. i\<lparr>i_started := True, inst_db_tables := None\<rparr>) w)) = Ok () w'"
    using run quiet(2) by (simp add: start_plugin_def Let_def perform_def or_disable_def k_def [symmetric] w1_def [symmetric])
  then obtain b w2 where f: "fail_load a (log_event (PluginStart k) u) = Ok b w2" "w2 = w' \<or> b"
    by (auto simp: bind_eq_Ok split: if_splits)
  then have w': "w2 = w'" "\<not> i_enabled (instances w' ! a)" using fail_load_disables [OF f(1)] u(3) by auto
  have "clients w' = clients u" "i_started (instances w' ! a) = i_started (instances u ! a)"
    using f(1) u(3) unfolding w'(1)
    by (auto simp: fail_load_def inst_update_enabled_def inst_update_def db_inst_update_def bind_eq_Ok split: if_splits)
  then show ?thesis using u w'(2) by (simp add: inst_stop_def k_def)
qed

section \<open>Deleting\<close>

text \<open>The parts of the world that the objects are registered in.\<close>

definition registry :: "world \<Rightarrow> (string, nat) dict \<times> (string, inst_row) dict \<times> loader list \<times> client list" where
  "registry w = (inst_cache w, inst_table w, loaders w, clients w)"

lemma registry_simps [simp]:
  "registry (log_event e w) = registry w" "registry (upd_inst a f w) = registry w" "registry (set_db d a w) = registry w"
  "registry (w\<lparr>srv := s\<rparr>) = registry w"
  by (simp_all add: registry_def set_db_def)

lemma trash_world:
  assumes "trash E p n r w = res"
  shows "registry (state_of res) = registry w" "instances (state_of res) = instances w"
    "client_table (state_of res) = client_table w" "client_cache (state_of res) = client_cache w"
    "id_cache (state_of res) = id_cache w" "path_cache (state_of res) = path_cache w" "tasks (state_of res) = tasks w"
proof -
  let ?v = "state_of res"
  have eq: "file_frame ?v = file_frame w" using trash_frame [of E p n r w] assms by simp
  have proj: "g ?v = g w" if "\<And>u. g (file_frame u) = g u" for g :: "world \<Rightarrow> 'q"
    using arg_cong [OF eq, of g] that by metis
  show "registry ?v = registry w" "instances ?v = instances w" "client_table ?v = client_table w"
    "client_cache ?v = client_cache w" "id_cache ?v = id_cache w" "path_cache ?v = path_cache w" "tasks ?v = tasks w"
    by (rule proj; simp add: registry_def file_frame_def)+
qed

lemma delete_database_Ok:
  assumes "delete_database E a w = Ok x w'" and "inst_db (instances w ! a) \<noteq> None"
  shows "registry w' = registry w" "\<exists>v. w' = set_db None a v \<and> instances v = instances w"
proof -
  define r where "r = (case inst_db (instances w ! a) of
      Some (ProxyPostgres k) \<Rightarrow> Ok () (log_event (DbDelete k) w)
    | _ \<Rightarrow> trash E (sqlite_db_path E a w) None ''deleted'' w)"
  let ?t = "trash E (sqlite_db_path E a w) None ''deleted'' w"
  obtain m where m: "meta_of a w = Ok m w"
    using assms(1) by (cases "meta_of a w") (auto simp: delete_database_def dest: meta_of_Ok)
  have "delete_database E a w = bind (case meta_database_type m of SQLALCHEMY \<Rightarrow> ?t | ASYNCPG \<Rightarrow> r
      | OtherDatabase t \<Rightarrow> Raise (RuntimeError (''Unrecognized database type '' @ t)) w) (\<lambda>_ w. Ok () (set_db None a w))"
    using assms(2) by (cases "meta_database_type m") (auto simp: delete_database_def m r_def)
  then obtain v where v: "w' = set_db None a v" "?t = Ok () v \<or> r = Ok () v"
    using assms(1) by (cases "meta_database_type m"; simp; cases ?t; cases r) auto
  have keep: "registry v = registry w \<and> instances v = instances w" if "?t = Ok () v"
    using trash_world(1,2) [OF that] by simp
  have "registry v = registry w \<and> instances v = instances w"
    using v(2) keep by (auto simp: r_def split: option.splits inst_db.splits)
  then show "registry w' = registry w" "\<exists>v. w' = set_db None a v \<and> instances v = instances w"
    using v(1) by auto
qed

lemma refs_drop_subset: "set (refs_drop w a rs) \<subseteq> set rs"
  by (induction rs) (auto split: if_splits)

lemma refs_drop_keys:
  assumes "distinct (map fst rs)" and "refs_has w a rs"
  shows "i_id (instances w ! a) \<notin> fst ` set (refs_drop w a rs)"
  using assms
proof (induction rs)
  case (Cons p rs)
  obtain k b where p: "p = (k, b)" by (cases p)
  show ?case
  proof (cases "k = i_id (instances w ! a)")
    case True
    then have "i_id (instances w ! a) \<notin> fst ` set rs" using Cons.prems(1) by (auto simp: p)
    moreover from this have "same_inst w a b"
      using Cons.prems(2) by (force simp: refs_has_def p True list_ex_iff)
    ultimately show ?thesis by (simp add: p True)
  next
    case False
    then show ?thesis using Cons by (simp add: p refs_has_def)
  qed
qed (simp add: refs_has_def)

lemma refs_drop_insts: "instances v = instances w \<Longrightarrow> refs_drop v a rs = refs_drop w a rs"
  by (induction rs) (auto simp: same_inst_def)

lemma refs_drop_others:
  "(k, b) \<in> set rs \<Longrightarrow> k \<noteq> i_id (instances w ! a) \<Longrightarrow> (k, b) \<in> set (refs_drop w a rs)"
  by (induction rs) auto

lemma unref_loader_Ok:
  assumes "unref_loader l a w = Ok x w'"
  shows "refs_has w a (l_references (loaders w ! l))"
    "w' = upd_loader l (\<lambda>y. y\<lparr>l_references := refs_drop w a (l_references (loaders w ! l))\<rparr>) w"
  using assms by (auto simp: unref_loader_def refs_remove_def split: if_splits)

lemma unref_client_Ok:
  assumes "unref_client c a w = Ok x w'"
  shows "refs_has w a (c_references (clients w ! c))"
    "w' = upd_client c (\<lambda>y. y\<lparr>c_references := refs_drop w a (c_references (clients w ! c))\<rparr>) w"
  using assms by (auto simp: unref_client_def refs_remove_def split: if_splits)

text \<open>Deleting an instance, up to its database and web app.\<close>

lemma inst_delete_run:
  assumes "inst_delete E a w = Ok x w'" and "i_loader (instances w ! a) = Some l" and "i_client (instances w ! a) = Some c"
  defines "k \<equiv> i_id (instances w ! a)"
  defines "v \<equiv> upd_client c (\<lambda>y. y\<lparr>c_references := refs_drop w a (c_references (clients w ! c))\<rparr>)
       (upd_loader l (\<lambda>y. y\<lparr>l_references := refs_drop w a (l_references (loaders w ! l))\<rparr>) w)"
  defines "u \<equiv> v\<lparr>inst_cache := dict_del k (inst_cache w), inst_table := dict_del k (inst_table w)\<rparr>"
  shows "refs_has w a (l_references (loaders w ! l))" "refs_has w a (c_references (clients w ! c))"
    "\<exists>s. (if inst_db (instances w ! a) \<noteq> None
           then bind (stop_database E a u) (\<lambda>_ w. delete_database E a w) else Ok () u) = Ok () s
         \<and> w' = (if inst_webapp (instances s ! a) \<noteq> None then disable_webapp a s else s)"
proof -
  obtain w1 where w1: "unref_loader l a w = Ok () w1"
    using assms(1,2) by (auto simp: inst_delete_def bind_eq_Ok)
  note l = unref_loader_Ok [OF w1]
  obtain w2 where w2: "unref_client c a w1 = Ok () w2"
    using assms(1,2,3) w1 l(2) by (auto simp: inst_delete_def bind_eq_Ok)
  note c = unref_client_Ok [OF w2]
  show "refs_has w a (l_references (loaders w ! l))" by (rule l(1))
  have w1i: "instances w1 = instances w" "clients w1 = clients w" by (simp_all add: l(2))
  show "refs_has w a (c_references (clients w ! c))" using c(1) refs_has_insts [OF w1i(1)] by (simp add: w1i)
  have v: "w2 = v" unfolding c(2) refs_drop_insts [OF w1i(1)] w1i(2) by (simp add: v_def l(2))
  have vs: "instances v = instances w" "inst_cache v = inst_cache w" "inst_table v = inst_table w"
    by (simp_all add: v_def)
  have "bind (if inst_db (instances w ! a) \<noteq> None
        then bind (stop_database E a u) (\<lambda>_ w. delete_database E a w) else Ok () u) (\<lambda>_ w.
      Ok () (if inst_webapp (instances w ! a) \<noteq> None then disable_webapp a w else w)) = Ok x w'"
    using assms(1-3) w1 w2
    by (simp add: inst_delete_def w1i db_inst_delete_def k_def u_def v vs Let_def cong: if_cong)
  then show "\<exists>s. (if inst_db (instances w ! a) \<noteq> None
        then bind (stop_database E a u) (\<lambda>_ w. delete_database E a w) else Ok () u) = Ok () s
      \<and> w' = (if inst_webapp (instances s ! a) \<noteq> None then disable_webapp a s else s)"
    by (auto simp: bind_eq_Ok)
qed

text \<open>
  Deleting. When an instance with its dependencies has been deleted, its id is in neither the cache
  nor the table nor the reference set of its plugin or its client, its database and its web app are given up,
  and every other instance, its row and its references are untouched.
\<close>

theorem delete_forgets:
  assumes a: "a < length (instances w)" and k: "i_id (instances w ! a) = k"
    and l: "i_loader (instances w ! a) = Some l" "l < length (loaders w)" "distinct (map fst (l_references (loaders w ! l)))"
    and c: "i_client (instances w ! a) = Some c" "c < length (clients w)" "distinct (map fst (c_references (clients w ! c)))"
    and run: "inst_delete E a w = Ok () w'"
  shows "map_of (inst_cache w') k = None \<and> map_of (inst_table w') k = None
    \<and> k \<notin> fst ` set (l_references (loaders w' ! l)) \<and> k \<notin> fst ` set (c_references (clients w' ! c))
    \<and> inst_db (instances w' ! a) = None \<and> inst_webapp (instances w' ! a) = None
    \<and> (\<forall>j. j \<noteq> k \<longrightarrow> map_of (inst_cache w') j = map_of (inst_cache w) j \<and> map_of (inst_table w') j = map_of (inst_table w) j
         \<and> (\<forall>b. (j, b) \<in> set (l_references (loaders w' ! l)) \<longleftrightarrow> (j, b) \<in> set (l_references (loaders w ! l))))
    \<and> (\<forall>b. b \<noteq> a \<longrightarrow> instances w' ! b = instances w ! b)"
proof -
  define v where "v = upd_client c (\<lambda>y. y\<lparr>c_references := refs_drop w a (c_references (clients w ! c))\<rparr>)
       (upd_loader l (\<lambda>y. y\<lparr>l_references := refs_drop w a (l_references (loaders w ! l))\<rparr>) w)"
  define u where "u = v\<lparr>inst_cache := dict_del k (inst_cache w), inst_table := dict_del k (inst_table w)\<rparr>"
  note d = inst_delete_run [OF run l(1) c(1), folded v_def, unfolded k, folded u_def]
  obtain s where s: "(if inst_db (instances w ! a) \<noteq> None
        then bind (stop_database E a u) (\<lambda>_ w. delete_database E a w) else Ok () u) = Ok () s"
    and w': "w' = (if inst_webapp (instances s ! a) \<noteq> None then disable_webapp a s else s)"
    using d(3) by blast
  have ui: "instances u = instances w" by (simp add: u_def v_def)
  have "registry s = registry u \<and> inst_db (instances s ! a) = None \<and> length (instances s) = length (instances w)
      \<and> (\<forall>b. b \<noteq> a \<longrightarrow> instances s ! b = instances w ! b)"
  proof (cases "inst_db (instances w ! a) \<noteq> None")
    case True
    then obtain t where t: "stop_database E a u = Ok () t" "delete_database E a t = Ok () s"
      using s by (auto simp: bind_eq_Ok)
    have ti: "instances t = instances w \<and> registry t = registry u"
      using t(1) ui by (auto simp: stop_database_def perform_eq_Ok split: option.splits inst_db.splits)
    then have db: "inst_db (instances t ! a) \<noteq> None" using True by simp
    show ?thesis using delete_database_Ok [OF t(2) db] ti a by (auto simp: set_db_def)
  next
    case False
    then show ?thesis using s ui by auto
  qed
  then have reg: "registry w' = registry u" and insts: "inst_db (instances w' ! a) = None"
    "inst_webapp (instances w' ! a) = None" "\<forall>b. b \<noteq> a \<longrightarrow> instances w' ! b = instances w ! b"
    using a by (cases "inst_webapp (instances s ! a)"; auto simp: w' disable_webapp_def)+
  have regs: "inst_cache w' = dict_del k (inst_cache w)" "inst_table w' = dict_del k (inst_table w)"
    "l_references (loaders w' ! l) = refs_drop w a (l_references (loaders w ! l))"
    "c_references (clients w' ! c) = refs_drop w a (c_references (clients w ! c))"
    using reg l(2) c(2) by (simp_all add: registry_def u_def v_def)
  have others: "(j, b) \<in> set (refs_drop w a rs) \<longleftrightarrow> (j, b) \<in> set rs" if "j \<noteq> k" for j b rs
    using that k refs_drop_others [of j b rs w a] subsetD [OF refs_drop_subset, of "(j, b)" w a rs] by blast
  have gone: "k \<notin> fst ` set (refs_drop w a (l_references (loaders w ! l)))"
    "k \<notin> fst ` set (refs_drop w a (c_references (clients w ! c)))"
    using refs_drop_keys [OF l(3) d(1)] refs_drop_keys [OF c(3) d(2)] by (simp_all add: k)
  show ?thesis using insts gone others by (simp add: regs)
qed

section \<open>Examples\<close>

definition ex_irow :: inst_row where
  "ex_irow = \<lparr>i_id = ''i'', i_type = ''a.b'', i_enabled = True, primary_user = ''@a:b'', config_str = [], engine = None\<rparr>"

text \<open>A stored instance, and the same world after the instance has been looked up.\<close>

definition ex_run0 :: world where
  "ex_run0 = ex_store1\<lparr>loaders := [ex_loader\<lparr>l_loaded := Some ''m.Main''\<rparr>], inst_table := [(''i'', ex_irow)]\<rparr>"

definition ex_run1 :: world where
  "ex_run1 = with_inst ex_irow ex_run0"

lemma ex_run0_simps [simp]:
  "clients ex_run0 = [ex_client]" "instances ex_run0 = []" "inst_cache ex_run0 = []" "inst_table ex_run0 = [(''i'', ex_irow)]"
  "client_cache ex_run0 = [(''@a:b'', 0)]" "client_table ex_run0 = [(''@a:b'', ex_row)]"
  "loaders ex_run0 = [ex_loader\<lparr>l_loaded := Some ''m.Main''\<rparr>]" "id_cache ex_run0 = [(''a.b'', 0)]"
  "tasks ex_run0 = []" "trace ex_run0 = []" "srv ex_run0 = server_init ''/plugin/'' ''https://x''"
  by (simp_all add: ex_run0_def) (simp add: ex_store1_def)

lemma ex_run1_simps [simp]:
  "clients ex_run1 = [ex_client]" "instances ex_run1 = [fresh_inst ex_irow]" "inst_cache ex_run1 = [(''i'', 0)]"
  "inst_table ex_run1 = [(''i'', ex_irow)]" "client_cache ex_run1 = [(''@a:b'', 0)]" "client_table ex_run1 = [(''@a:b'', ex_row)]"
  "loaders ex_run1 = [ex_loader\<lparr>l_loaded := Some ''m.Main''\<rparr>]" "id_cache ex_run1 = [(''a.b'', 0)]"
  "tasks ex_run1 = []" "trace ex_run1 = []" "srv ex_run1 = server_init ''/plugin/'' ''https://x''"
  by (simp_all add: ex_run1_def with_inst_def) (simp_all add: ex_irow_def)

lemma ex_inst_fields [simp]:
  "i_id (fresh_inst ex_irow) = ''i''" "i_type (fresh_inst ex_irow) = ''a.b''" "i_enabled (fresh_inst ex_irow)"
  "primary_user (fresh_inst ex_irow) = ''@a:b''" "i_loader (fresh_inst ex_irow) = None" "i_client (fresh_inst ex_irow) = None"
  "\<not> i_started (fresh_inst ex_irow)" "inst_webapp (fresh_inst ex_irow) = None" "inst_db (fresh_inst ex_irow) = None"
  by (simp_all add: fresh_inst_def inst_init_def inst_row.defs ex_irow_def)

lemma ex_inst_get: "inst_get None None ''i'' ex_run0 = Ok (Some 0) ex_run1"
  using new_inst_postinit [of ex_irow ex_run0] by (simp add: inst_get_def db_inst_get_def ex_run1_def)

lemma ex_invs: "inst_inv ex_run0" "inst_inv ex_run1" "client_inv ex_run1" "loader_ok ex_run1"
proof -
  show "inst_inv ex_run0" "inst_inv ex_run1" "client_inv ex_run1"
    by (simp_all add: inst_inv_def client_inv_def ex_client_fields) (simp_all add: ex_irow_def ex_row_def)
  have "path_cache ex_run1 = [(ustr ''/a.mbp'', 0)]"
    by (simp add: ex_run1_def with_inst_def ex_run0_def ex_store1_def ex_store_def lworld.defs ex_world1_def)
  then show "loader_ok ex_run1"
    by (simp add: loader_ok_def caches_ok_def dict_ok_def ex_loader_def plugin_key_def ex_meta_def)
qed

theorem instance_objects_unique_witness:
  "i_id (instances ex_run1 ! 0) = ''i'' \<and> inst_get (Some ''t'') (Some ''u'') ''i'' ex_run1 = Ok (Some 0) ex_run1"
  using instance_objects_unique [OF ex_invs(1) ex_inst_get] by (auto dest!: spec [of _ "[]"] simp: lookups_def)

lemma ex_loader_fields: "l_meta ex_loader = Some ex_meta" "l_references ex_loader = []" "meta_webapp ex_meta" "\<not> meta_database ex_meta"
  by (simp_all add: ex_loader_def ex_meta_def)

lemma ex_inst_load: "\<exists>w'. inst_load ex_who 0 ex_run1 = Ok True w'"
  by (simp add: inst_load_def load_loader_def load_client_def find_plugin_def client_get_def meta_of_def ex_loader_fields)

theorem load_registers_witness:
  "\<exists>w'. inst_load ex_who 0 ex_run1 = Ok True w' \<and> (\<exists>l. i_loader (instances w' ! 0) = Some l
     \<and> refs_has w' 0 (l_references (loaders w' ! l)))"
proof -
  obtain w' where run: "inst_load ex_who 0 ex_run1 = Ok True w'" using ex_inst_load by blast
  have "(0::nat) < length (instances ex_run1)" "i_loader (instances ex_run1 ! 0) = None" "i_client (instances ex_run1 ! 0) = None"
    by simp_all
  from load_registers [OF this ex_invs(4,3) run] run show ?thesis by auto
qed

text \<open>The instance with its dependencies loaded, and then running.\<close>

definition ex_run2 :: world where
  "ex_run2 = state_of (inst_load ex_who 0 ex_run1)"

lemma ex_run2_load: "inst_load ex_who 0 ex_run1 = Ok True ex_run2"
  using ex_inst_load by (auto simp: ex_run2_def)

lemma ex_run2_alt: "ex_run2 = add_reference 0 (enable_webapp 0
    (upd_inst 0 (\<lambda>i. i\<lparr>i_client := Some 0\<rparr>) (upd_inst 0 (\<lambda>i. i\<lparr>i_loader := Some 0\<rparr>) ex_run1)))"
  by (simp add: ex_run2_def inst_load_def load_loader_def load_client_def find_plugin_def client_get_def meta_of_def ex_loader_fields)

lemma ex_run2_simps:
  "instances ex_run2 = [(fresh_inst ex_irow)\<lparr>i_loader := Some 0, i_client := Some 0, inst_webapp := Some (0, ''https://x/plugin/i/'')\<rparr>]"
  "clients ex_run2 = [ex_client\<lparr>c_references := [(''i'', 0)]\<rparr>]"
  "loaders ex_run2 = [ex_loader\<lparr>l_loaded := Some ''m.Main'', l_references := [(''i'', 0)]\<rparr>]"
  "inst_table ex_run2 = [(''i'', ex_irow)]" "inst_cache ex_run2 = [(''i'', 0)]" "client_table ex_run2 = [(''@a:b'', ex_row)]"
  "client_cache ex_run2 = [(''@a:b'', 0)]" "id_cache ex_run2 = [(''a.b'', 0)]" "length (webapps (srv ex_run2)) = 1" "tasks ex_run2 = []"
  by (simp_all add: ex_run2_alt add_reference_def enable_webapp_def get_instance_subapp_def server_init_def subpath_def
      upd_inst_def upd_client_def upd_loader_def refs_add_def refs_has_def ex_loader_fields ex_client_fields Let_def)

lemma ex_start_loaded: "\<exists>w'. start_loaded ex_who 0 ex_run2 = Ok () w'"
  by (simp add: start_loaded_def on_loader_def load_def ex_run2_simps meta_of_def ex_loader_fields sync_webapp_def
      ex_who_def start_plugin_def perform_def Let_def or_disable_def internal_start_def)


theorem renamed_instance_duplicated_witness:
  "\<exists>w'. update_id (Some ''j'') 0 ex_run2 = Ok () w' \<and> inst_delete ex_who 0 w' = Raise KeyError w'"
proof -
  have lower: "str_lower ''j'' = ''j''" by (simp add: str_lower_def char_lower_def)
  have ok: "inst_inv ex_run2" "map_of (inst_cache ex_run2) ''i'' = Some 0" "map_of (inst_table ex_run2) ''i'' = Some ex_irow"
    "map_of (inst_table ex_run2) (str_lower ''j'') = None" "map_of (inst_cache ex_run2) (str_lower ''j'') = None"
    "i_loader (instances ex_run2 ! 0) = Some 0" "l_references (loaders ex_run2 ! 0) = [(''i'', 0)]"
    by (simp_all add: inst_inv_def ex_run2_simps lower) (simp_all add: ex_irow_def)
  obtain w' where run: "update_id (Some ''j'') 0 ex_run2 = Ok () w'"
    by (simp add: update_id_def lower ex_run2_simps db_inst_update_id_def in_dict_def Let_def)
  show ?thesis using renamed_instance_duplicated [OF ok run, of ex_who] run by blast
qed


text \<open>The same plugin with a \<^verbatim>\<open>start\<close> that raises.\<close>

definition ex_failing :: "(unit, bytes) env" where
  "ex_failing = ex_who\<lparr>plugin_start := \<lambda>_ _. Some (OtherException ''boom'')\<rparr>"

theorem failed_start_leaks_handlers_witness:
  "\<exists>w'. start_plugin ex_failing ''m.Main'' 0 ex_run2 = Ok () w' \<and> \<not> i_enabled (instances w' ! 0)
     \<and> (''m.room.message'', PluginFn ''i'' ''on_msg'') \<in> set (mx_handlers (mx (clients w' ! 0)))"
proof -
  have E: "plugin_init ex_failing t k = None" "plugin_pre_start ex_failing t k = None"
    "plugin_start ex_failing t k = Some (OtherException ''boom'')" "plugin_attrs ex_failing c = [ex_attr]" for t k c
    by (simp_all add: ex_failing_def ex_who_def)
  have ok: "(0::nat) < length (instances ex_run2)" "i_client (instances ex_run2 ! 0) = Some 0" "(0::nat) < length (clients ex_run2)"
    "\<not> i_started (instances ex_run2 ! 0)"
    by (simp_all add: ex_run2_simps)
  obtain w' where run: "start_plugin ex_failing ''m.Main'' 0 ex_run2 = Ok () w'"
    by (simp add: start_plugin_def E perform_def or_disable_def internal_start_def register_handler_class_def
        register_attr_def register_web_def ex_attr_def attr_event_types_def register_event_registered registered_def
        plugin_at_def new_plugin_def fail_load_def inst_update_enabled_def inst_update_def db_inst_update_def
        ex_run2_simps upd_inst_def upd_mx_def upd_client_def log_event_def inst_row.defs in_dict_def Let_def)
  have "class_handlers ''i'' [ex_attr] = [(''m.room.message'', PluginFn ''i'' ''on_msg'')]"
    by (simp add: class_handlers_def ex_attr_def attr_event_types_def)
  with failed_start_leaks_handlers [OF ok E(1,2,3) run] run show ?thesis by (auto simp: ex_run2_simps E(4))
qed

theorem delete_forgets_witness:
  "\<exists>w'. inst_delete ex_who 0 ex_run2 = Ok () w' \<and> map_of (inst_table w') ''i'' = None
     \<and> ''i'' \<notin> fst ` set (l_references (loaders w' ! 0))"
proof -
  have ok: "(0::nat) < length (instances ex_run2)" "i_id (instances ex_run2 ! 0) = ''i''"
    "i_loader (instances ex_run2 ! 0) = Some 0" "(0::nat) < length (loaders ex_run2)" "distinct (map fst (l_references (loaders ex_run2 ! 0)))"
    "i_client (instances ex_run2 ! 0) = Some 0" "(0::nat) < length (clients ex_run2)" "distinct (map fst (c_references (clients ex_run2 ! 0)))"
    by (simp_all add: ex_run2_simps)
  define v where "v = upd_loader 0 (\<lambda>x. x\<lparr>l_references := []\<rparr>) ex_run2"
  define u where "u = upd_client 0 (\<lambda>x. x\<lparr>c_references := []\<rparr>) v"
  have v: "instances v = instances ex_run2" "clients v = clients ex_run2" by (simp_all add: v_def)
  have "unref_loader 0 0 ex_run2 = Ok () v"
    by (simp add: unref_loader_def refs_remove_def refs_has_def same_inst_def ex_run2_simps v_def)
  moreover have "unref_client 0 0 v = Ok () u"
    by (simp add: unref_client_def refs_remove_def refs_has_def same_inst_def v ex_run2_simps u_def)
  moreover have "instances u ! 0 = instances ex_run2 ! 0" by (simp add: u_def v)
  moreover have "inst_db (instances ex_run2 ! 0) = None" "inst_webapp (instances ex_run2 ! 0) \<noteq> None"
    by (simp_all add: ex_run2_simps)
  ultimately have run: "inst_delete ex_who 0 ex_run2 =
      Ok () (disable_webapp 0 (u\<lparr>inst_cache := dict_del ''i'' (inst_cache u), inst_table := dict_del ''i'' (inst_table u)\<rparr>))"
    by (simp add: inst_delete_def ok(2,3,6) v db_inst_delete_def Let_def)
  note forgot = delete_forgets [OF ok run]
  show ?thesis using run conjunct1 [OF conjunct2 [OF forgot]] conjunct1 [OF conjunct2 [OF conjunct2 [OF forgot]]] by blast
qed


end
