(* ===== verification/MB_Links.thy ===== *)
theory MB_Links
  imports MB_Instance
begin

text \<open>
  How the objects of the program refer to each other. The view of a world keeps what the references
  are made of: the ids, dependencies and reference sets of all objects, the caches, and the keys
  and foreign keys of the tables. The invariant \<open>world_ok\<close> says that the two directions of a
  reference agree, and that the foreign key of the schema holds for the cached objects too;
  the operations of \<^verbatim>\<open>maubot/instance.py\<close> are shown to preserve it, however they end.
\<close>

section \<open>Views\<close>

definition lview :: "loader \<Rightarrow> ustring option \<times> string option \<times> refs" where
  "lview l = (l_path l, plugin_key l, l_references l)"

definition cview :: "client \<Rightarrow> string \<times> refs" where
  "cview c = (c_id c, c_references c)"

definition iview :: "inst \<Rightarrow> string \<times> string \<times> nat option \<times> nat option" where
  "iview i = (i_id i, primary_user i, i_loader i, i_client i)"

record view =
  v_loaders :: "(ustring option \<times> string option \<times> refs) list"
  v_ids :: "(string, nat) dict"
  v_paths :: "(ustring, nat) dict"
  v_clients :: "(string \<times> refs) list"
  v_ccache :: "(string, nat) dict"
  v_ctable :: "string \<Rightarrow> string option"
  v_insts :: "(string \<times> string \<times> nat option \<times> nat option) list"
  v_icache :: "(string, nat) dict"
  v_itable :: "string \<Rightarrow> (string \<times> string) option"
  v_tasks :: "task list"

definition view :: "world \<Rightarrow> view" where
  "view w = \<lparr>v_loaders = map lview (loaders w), v_ids = id_cache w, v_paths = path_cache w,
     v_clients = map cview (clients w), v_ccache = client_cache w, v_ctable = map_option c_id \<circ> map_of (client_table w),
     v_insts = map iview (instances w), v_icache = inst_cache w,
     v_itable = map_option (\<lambda>r. (i_id r, primary_user r)) \<circ> map_of (inst_table w), v_tasks = tasks w\<rparr>"

lemma view_eq_iff:
  "view v = view w \<longleftrightarrow> map lview (loaders v) = map lview (loaders w) \<and> id_cache v = id_cache w \<and> path_cache v = path_cache w
     \<and> map cview (clients v) = map cview (clients w) \<and> client_cache v = client_cache w
     \<and> map_option c_id \<circ> map_of (client_table v) = map_option c_id \<circ> map_of (client_table w)
     \<and> map iview (instances v) = map iview (instances w) \<and> inst_cache v = inst_cache w
     \<and> map_option (\<lambda>r. (i_id r, primary_user r)) \<circ> map_of (inst_table v) = map_option (\<lambda>r. (i_id r, primary_user r)) \<circ> map_of (inst_table w)
     \<and> tasks v = tasks w"
  by (simp add: view_def)

lemma map_nth_eq: "map f xs = map f ys \<Longrightarrow> n < length ys \<Longrightarrow> f (xs ! n) = f (ys ! n)"
  by (metis length_map nth_map)

lemma view_length:
  assumes "view v = view w"
  shows "length (instances v) = length (instances w)" "length (clients v) = length (clients w)"
    "length (loaders v) = length (loaders w)"
  using assms by (auto simp: view_eq_iff dest: map_eq_imp_length_eq)

lemma view_inst:
  assumes "view v = view w" and "a < length (instances w)"
  shows "i_id (instances v ! a) = i_id (instances w ! a)" "primary_user (instances v ! a) = primary_user (instances w ! a)"
    "i_loader (instances v ! a) = i_loader (instances w ! a)" "i_client (instances v ! a) = i_client (instances w ! a)"
  using assms map_nth_eq [of iview "instances v" "instances w" a] by (simp_all add: view_eq_iff iview_def)

lemma view_client:
  assumes "view v = view w" and "a < length (clients w)"
  shows "c_id (clients v ! a) = c_id (clients w ! a)" "c_references (clients v ! a) = c_references (clients w ! a)"
  using assms map_nth_eq [of cview "clients v" "clients w" a] by (simp_all add: view_eq_iff cview_def)

lemma view_loader:
  assumes "view v = view w" and "a < length (loaders w)"
  shows "l_path (loaders v ! a) = l_path (loaders w ! a)" "plugin_key (loaders v ! a) = plugin_key (loaders w ! a)"
    "l_references (loaders v ! a) = l_references (loaders w ! a)"
  using assms map_nth_eq [of lview "loaders v" "loaders w" a] by (simp_all add: view_eq_iff lview_def)

lemma view_caches:
  assumes "view v = view w"
  shows "inst_cache v = inst_cache w" "client_cache v = client_cache w" "id_cache v = id_cache w"
    "path_cache v = path_cache w" "tasks v = tasks w"
  using assms by (simp_all add: view_eq_iff)

lemma view_client_table:
  assumes "view v = view w"
  shows "in_dict k (client_table v) = in_dict k (client_table w)"
    "map_option c_id (map_of (client_table v) k) = map_option c_id (map_of (client_table w) k)"
proof -
  show e: "map_option c_id (map_of (client_table v) k) = map_option c_id (map_of (client_table w) k)"
    using assms by (auto simp: view_eq_iff dest: fun_cong [of _ _ k])
  then show "in_dict k (client_table v) = in_dict k (client_table w)"
    by (auto simp: in_dict_def map_option_case split: option.splits)
qed

lemma view_inst_table:
  assumes "view v = view w"
  shows "map_option (\<lambda>r. (i_id r, primary_user r)) (map_of (inst_table v) k) =
    map_option (\<lambda>r. (i_id r, primary_user r)) (map_of (inst_table w) k)"
  using assms by (auto simp: view_eq_iff dest: fun_cong [of _ _ k])

section \<open>The invariant\<close>

text \<open>The dependencies of a cached instance count it, and its row has its primary user.\<close>

definition inst_linked :: "string \<Rightarrow> nat \<Rightarrow> world \<Rightarrow> bool" where
  "inst_linked k b w \<longleftrightarrow>
     (\<forall>l. i_loader (instances w ! b) = Some l \<longrightarrow> l < length (loaders w) \<and> (k, b) \<in> set (l_references (loaders w ! l)))
   \<and> (\<forall>c. i_client (instances w ! b) = Some c \<longrightarrow> c < length (clients w) \<and> (k, b) \<in> set (c_references (clients w ! c)))
   \<and> (\<exists>r. map_of (inst_table w) k = Some r \<and> primary_user r = primary_user (instances w ! b))"

text \<open>The instances that a loader or a client counts are cached and depend on it.\<close>

definition loader_linked :: "nat \<Rightarrow> world \<Rightarrow> bool" where
  "loader_linked l w \<longleftrightarrow> distinct (map fst (l_references (loaders w ! l)))
     \<and> (\<forall>(k, b) \<in> set (l_references (loaders w ! l)). map_of (inst_cache w) k = Some b \<and> i_loader (instances w ! b) = Some l)
     \<and> (l_references (loaders w ! l) \<noteq> [] \<longrightarrow> plugin_key (loaders w ! l) \<noteq> None)"

definition client_linked :: "nat \<Rightarrow> world \<Rightarrow> bool" where
  "client_linked c w \<longleftrightarrow> distinct (map fst (c_references (clients w ! c)))
     \<and> (\<forall>(k, b) \<in> set (c_references (clients w ! c)). map_of (inst_cache w) k = Some b \<and> i_client (instances w ! b) = Some c)"

definition fk_ok :: "world \<Rightarrow> bool" where
  "fk_ok w \<longleftrightarrow> (\<forall>k r. map_of (inst_table w) k = Some r \<longrightarrow> in_dict (primary_user r) (client_table w))
     \<and> (\<forall>k c. map_of (client_cache w) k = Some c \<longrightarrow> in_dict k (client_table w))"

definition world_ok :: "world \<Rightarrow> bool" where
  "world_ok w \<longleftrightarrow> loader_ok w \<and> client_inv w \<and> inst_inv w \<and> fk_ok w
     \<and> (\<forall>k b. map_of (inst_cache w) k = Some b \<longrightarrow> inst_linked k b w)
     \<and> (\<forall>l < length (loaders w). loader_linked l w) \<and> (\<forall>c < length (clients w). client_linked c w)"

text \<open>The instance at \<open>a\<close> is the cached object of its id.\<close>

definition cached :: "nat \<Rightarrow> world \<Rightarrow> bool" where
  "cached a w \<longleftrightarrow> a < length (instances w) \<and> map_of (inst_cache w) (i_id (instances w ! a)) = Some a"

lemma cached_view: "view v = view w \<Longrightarrow> cached a v = cached a w"
  using view_length(1) [of v w] view_inst(1) [of v w a] view_caches(1) [of v w] by (auto simp: cached_def)

lemma world_okD:
  assumes "world_ok w"
  shows "loader_ok w" "client_inv w" "inst_inv w" "fk_ok w" "map_of (inst_cache w) k = Some b \<Longrightarrow> inst_linked k b w"
    "l < length (loaders w) \<Longrightarrow> loader_linked l w" "c < length (clients w) \<Longrightarrow> client_linked c w"
  using assms by (simp_all add: world_ok_def)

lemma cachedD:
  assumes "world_ok w" and "map_of (inst_cache w) k = Some b"
  shows "b < length (instances w)" "i_id (instances w ! b) = k" "cached b w"
  using assms by (auto simp: world_ok_def inst_inv_def cached_def)

lemma loader_ok_view:
  assumes "view v = view w" and "loader_ok w"
  shows "loader_ok v"
proof -
  note ok = caches_okD [OF assms(2) [unfolded loader_ok_def]] and eq = view_loader [OF assms(1)]
  have ids: "a < length (loaders v) \<and> l_path (loaders v ! a) \<noteq> None \<and> plugin_key (loaders v ! a) = Some k"
    if "map_of (id_cache w) k = Some a" for k a
    using ok(1-3) [OF that] by (auto simp: eq view_length(3) [OF assms(1)])
  have paths: "l_path (loaders v ! a) = Some p" if "map_of (path_cache w) p = Some a" for p a
    using ok(1) ok(4,5) [OF that] by (auto simp: eq)
  show ?thesis
    using assms(2) ids paths by (auto simp: loader_ok_def caches_ok_def view_caches [OF assms(1)])
qed

lemma client_inv_view:
  assumes "view v = view w" and "client_inv w"
  shows "client_inv v"
proof -
  have "c_id r = k" if "map_of (client_table v) k = Some r" for k r
    using view_client_table(2) [OF assms(1), of k] assms(2) that
    by (cases "map_of (client_table w) k") (auto simp: client_inv_def)
  moreover have "a < length (clients v) \<and> c_id (clients v ! a) = k" if "map_of (client_cache v) k = Some a" for k a
    using assms(2) that view_caches(2) [OF assms(1)] view_length(2) [OF assms(1)] view_client(1) [OF assms(1), of a]
    by (auto simp: client_inv_def)
  ultimately show ?thesis by (auto simp: client_inv_def)
qed

lemma view_row:
  assumes "view v = view w" and "map_of (inst_table v) k = Some r"
  obtains r' where "map_of (inst_table w) k = Some r'" "i_id r' = i_id r" "primary_user r' = primary_user r"
  using view_inst_table [OF assms(1), of k] assms(2) by (cases "map_of (inst_table w) k") auto

lemma inst_inv_view:
  assumes "view v = view w" and "inst_inv w"
  shows "inst_inv v"
proof -
  have "i_id r = k" if "map_of (inst_table v) k = Some r" for k r
    using view_row [OF assms(1) that] assms(2) by (metis inst_inv_def)
  moreover have "a < length (instances v) \<and> i_id (instances v ! a) = k" if "map_of (inst_cache v) k = Some a" for k a
    using assms(2) that view_caches(1) [OF assms(1)] view_length(1) [OF assms(1)] view_inst(1) [OF assms(1), of a]
    by (auto simp: inst_inv_def)
  ultimately show ?thesis by (auto simp: inst_inv_def)
qed

lemma fk_ok_view:
  assumes "view v = view w" and "fk_ok w"
  shows "fk_ok v"
proof -
  have "in_dict (primary_user r) (client_table v)" if row: "map_of (inst_table v) k = Some r" for k r
  proof -
    obtain r' where "map_of (inst_table w) k = Some r'" "primary_user r' = primary_user r"
      using view_row [OF assms(1) row] by metis
    then show ?thesis using assms(2) view_client_table(1) [OF assms(1)] by (metis fk_ok_def)
  qed
  then show ?thesis
    using assms(2) view_caches(2) [OF assms(1)] view_client_table(1) [OF assms(1)] by (simp add: fk_ok_def)
qed

lemma inst_linked_view:
  assumes "view v = view w" and "inst_linked k b w" and "b < length (instances w)"
  shows "inst_linked k b v"
proof -
  note i = view_inst [OF assms(1,3)] and n = view_length [OF assms(1)]
  obtain r where "map_of (inst_table w) k = Some r" "primary_user r = primary_user (instances w ! b)"
    using assms(2) by (auto simp: inst_linked_def)
  then have "\<exists>r. map_of (inst_table v) k = Some r \<and> primary_user r = primary_user (instances v ! b)"
    using view_row [OF assms(1) [symmetric], of k r] by (metis i(2))
  then show ?thesis
    using assms(2) view_loader(3) [OF assms(1)] view_client(2) [OF assms(1)] by (auto simp: inst_linked_def i n)
qed

lemma loader_linked_view:
  assumes "view v = view w" and "loader_linked l w" and "l < length (loaders w)" and "inst_inv w"
  shows "loader_linked l v"
proof -
  have "i_loader (instances v ! b) = i_loader (instances w ! b)" if "map_of (inst_cache w) k = Some b" for k b
    using that assms(4) view_inst(3) [OF assms(1)] by (auto simp: inst_inv_def)
  then show ?thesis
    using assms(2) by (fastforce simp: loader_linked_def view_loader [OF assms(1,3)] view_caches [OF assms(1)])
qed

lemma client_linked_view:
  assumes "view v = view w" and "client_linked c w" and "c < length (clients w)" and "inst_inv w"
  shows "client_linked c v"
proof -
  have "i_client (instances v ! b) = i_client (instances w ! b)" if "map_of (inst_cache w) k = Some b" for k b
    using that assms(4) view_inst(4) [OF assms(1)] by (auto simp: inst_inv_def)
  then show ?thesis
    using assms(2) by (fastforce simp: client_linked_def view_client [OF assms(1,3)] view_caches [OF assms(1)])
qed

lemma world_ok_view:
  assumes "view v = view w" and "world_ok w"
  shows "world_ok v"
proof -
  note d = world_okD [OF assms(2)]
  have "inst_linked k b v" if "map_of (inst_cache v) k = Some b" for k b
    using that d(3,5) view_caches(1) [OF assms(1)] by (auto simp: inst_inv_def intro: inst_linked_view [OF assms(1)])
  then show ?thesis
    using loader_ok_view [OF assms(1) d(1)] client_inv_view [OF assms(1) d(2)] inst_inv_view [OF assms(1) d(3)]
      fk_ok_view [OF assms(1) d(4)] loader_linked_view [OF assms(1) d(6) _ d(3)] client_linked_view [OF assms(1) d(7) _ d(3)]
    by (simp add: world_ok_def view_length [OF assms(1)])
qed

section \<open>Operations that keep the view\<close>

named_theorems view_intros

lemma view_simps [simp]:
  "view (log_event e w) = view w" "view (w\<lparr>srv := s\<rparr>) = view w" "view (w\<lparr>fs := f\<rparr>) = view w"
  "view (w\<lparr>trace := t\<rparr>) = view w" "view (upd_webapp p g w) = view w" "view (upd_mx c h w) = view w"
proof -
  have "map cview ((clients w)[c := (clients w ! c)\<lparr>mx := h (mx (clients w ! c))\<rparr>]) = map cview (clients w)"
    by (cases "c < length (clients w)") (simp_all add: map_update list_update_same_conv list_update_beyond cview_def)
  then show "view (upd_mx c h w) = view w" by (simp add: view_def upd_mx_def upd_client_def)
qed (simp_all add: view_def log_event_def upd_webapp_def)

lemma view_upd_inst:
  assumes "\<And>i. iview (f i) = iview i"
  shows "view (upd_inst a f w) = view w"
proof -
  have "map iview ((instances w)[a := f (instances w ! a)]) = map iview (instances w)"
    using assms by (cases "a < length (instances w)") (simp_all add: map_update list_update_same_conv list_update_beyond)
  then show ?thesis by (simp add: view_def upd_inst_def)
qed

lemma view_upd_client:
  assumes "\<And>c. cview (f c) = cview c"
  shows "view (upd_client a f w) = view w"
proof -
  have "map cview ((clients w)[a := f (clients w ! a)]) = map cview (clients w)"
    using assms by (cases "a < length (clients w)") (simp_all add: map_update list_update_same_conv list_update_beyond)
  then show ?thesis by (simp add: view_def upd_client_def)
qed

lemma view_set_db [simp]: "view (set_db d a w) = view w"
  by (simp add: set_db_def view_upd_inst iview_def)

text \<open>A call that keeps the view, whatever it returns.\<close>

abbreviation keeps_view :: "world \<Rightarrow> (world, 'a) res \<Rightarrow> bool" where
  "keeps_view w r \<equiv> holds (\<lambda>v. view v = view w) r"

lemma inst_update_runs:
  assumes ok: "world_ok w" and a: "cached a w"
  shows "\<exists>v. inst_update a w = Ok () v \<and> view v = view w \<and> instances v = instances w"
proof -
  define k r where "k = i_id (instances w ! a)" and "r = inst_row.truncate (instances w ! a)"
  have r: "i_id r = k" "primary_user r = primary_user (instances w ! a)" by (simp_all add: k_def r_def inst_row.defs)
  obtain r' where r': "map_of (inst_table w) k = Some r'" "primary_user r' = primary_user (instances w ! a)"
    using a world_okD(5) [OF ok, of k a] by (auto simp: cached_def inst_linked_def k_def)
  have id: "i_id r' = k" using world_okD(3) [OF ok] r'(1) by (simp add: inst_inv_def)
  have "in_dict (primary_user r) (client_table w)" using world_okD(4) [OF ok] r' r(2) by (metis fk_ok_def)
  then have run: "inst_update a w = Ok () (w\<lparr>inst_table := dict_set k r (inst_table w)\<rparr>)"
    using r r' by (simp add: inst_update_def db_inst_update_def r_def [symmetric] in_dict_def)
  have "map_option (\<lambda>r. (i_id r, primary_user r)) \<circ> (map_of (inst_table w))(k \<mapsto> r) =
      map_option (\<lambda>r. (i_id r, primary_user r)) \<circ> map_of (inst_table w)"
    using r r' id by (auto simp: fun_eq_iff)
  then have "view (w\<lparr>inst_table := dict_set k r (inst_table w)\<rparr>) = view w" by (simp add: view_def)
  with run show ?thesis by auto
qed

lemma inst_update_view [view_intros]:
  assumes "world_ok w" and "cached a w" and "view v = view w"
  shows "keeps_view w (inst_update a v)"
  using inst_update_runs [of v a] world_ok_view [OF assms(3,1)] cached_view [OF assms(3)] assms(2,3) by auto

lemma inst_update_enabled_view [view_intros]:
  assumes "world_ok w" and "cached a w" and "view v = view w"
  shows "keeps_view w (inst_update_enabled b a v)"
  using inst_update_view [OF assms(1,2), of "upd_inst a (\<lambda>i. i\<lparr>i_enabled := the b\<rparr>) v"] assms(3)
  by (simp add: inst_update_enabled_def view_upd_inst iview_def)

lemma update_db_engine_view [view_intros]:
  assumes "world_ok w" and "cached a w" and "view v = view w"
  shows "keeps_view w (update_db_engine b a v)"
  using inst_update_view [OF assms(1,2), of "upd_inst a (\<lambda>i. i\<lparr>engine := b\<rparr>) v"] assms(3)
  by (simp add: update_db_engine_def view_upd_inst iview_def)

lemma fail_load_view [view_intros]:
  assumes "world_ok w" and "cached a w" and "view v = view w"
  shows "keeps_view w (fail_load a v)"
  unfolding fail_load_def by (intro holds_bind inst_update_enabled_view [OF assms]) simp

lemma perform_view [view_intros]: "view v = view w \<Longrightarrow> keeps_view w (perform e r v)"
  by simp

lemma query_view [view_intros]: "view v = view w \<Longrightarrow> keeps_view w (query e r v)"
  by simp

lemma trash_view [view_intros]: "view v = view w \<Longrightarrow> keeps_view w (trash E p n r v)"
  using trash_world [OF refl, of E p n r v] by (simp add: holds_def view_eq_iff registry_def)

lemma meta_of_view [view_intros]: "view v = view w \<Longrightarrow> keeps_view w (meta_of a v)"
  by (simp add: holds_def)

lemma start_database_view [view_intros]:
  assumes "world_ok w" and "cached a w" and "view v = view w"
  shows "keeps_view w (start_database E b a v)"
  unfolding start_database_def open_asyncpg_def
  by (intro holds_bind meta_of_view)
    (auto simp: Let_def assms intro!: holds_bind update_db_engine_view assms(1,2)
      split: database_type.splits option.splits database_engine.splits)

lemma stop_database_view [view_intros]: "view v = view w \<Longrightarrow> keeps_view w (stop_database E a v)"
  by (simp add: stop_database_def split: option.splits inst_db.splits)

lemma delete_database_view [view_intros]:
  assumes "world_ok w" and "cached a w" and "view v = view w"
  shows "keeps_view w (delete_database E a v)"
  unfolding delete_database_def
  by (intro holds_bind meta_of_view)
    (auto simp: assms intro!: holds_bind trash_view start_database_view assms(1,2)
      split: database_type.splits option.splits inst_db.splits)

lemma or_disable_view [view_intros]:
  assumes "world_ok w" and "cached a w" and "keeps_view w r"
  shows "keeps_view w (or_disable a r)"
  unfolding or_disable_def
  by (intro holds_catch holds_bind assms(3)) (auto intro: fail_load_view [OF assms(1,2)])

lemma view_enable_webapp [simp]: "view (enable_webapp a w) = view w" "view (disable_webapp a w) = view w"
  by (simp_all add: enable_webapp_def disable_webapp_def view_upd_inst iview_def split: prod.splits)

lemma view_sync_webapp [simp]: "view (sync_webapp m a w) = view w"
  by (simp add: sync_webapp_def)

lemma load_base_config_view [view_intros]: "view v = view w \<Longrightarrow> keeps_view w (load_base_config E a v)"
  by (simp add: load_base_config_def Let_def view_upd_inst iview_def split: sum.splits)

lemma view_register [simp]: "view (register_handler_class attrs a w) = view w"
proof -
  have ev: "view (register_event h a v) = view v" for h v
    by (simp add: register_event_def view_upd_inst iview_def)
  have fold: "view (fold g ts v) = view v" if "\<And>t v. view (g t v) = view v" for g :: "string \<Rightarrow> world \<Rightarrow> world" and ts v
    using that by (induction ts arbitrary: v) simp_all
  have "view (register_web at a v) = view v" for at v
    by (simp add: register_web_def split: option.splits)
  then have "view (register_attr a at v) = view v" for at v
    by (simp add: register_attr_def fold ev)
  then show ?thesis
    by (induction attrs arbitrary: w) (simp_all add: register_handler_class_def)
qed

lemma internal_start_view [view_intros]: "view v = view w \<Longrightarrow> keeps_view w (internal_start E a v)"
  unfolding internal_start_def Let_def by (intro holds_bind perform_view) simp_all

lemma internal_stop_view [view_intros]: "view v = view w \<Longrightarrow> keeps_view w (internal_stop E a v)"
  by (auto simp: internal_stop_def Let_def perform_def split: option.splits)

lemma inst_stop_view [view_intros]: "view v = view w \<Longrightarrow> keeps_view w (inst_stop E a v)"
  unfolding inst_stop_def Let_def
  by (auto simp: view_upd_inst iview_def intro!: holds_bind holds_swallow internal_stop_view stop_database_view)

lemma start_plugin_view [view_intros]:
  assumes "world_ok w" and "cached a w" and "view v = view w"
  shows "keeps_view w (start_plugin E cls a v)"
  unfolding start_plugin_def Let_def
  by (auto simp: view_upd_inst iview_def assms(3)
      intro!: holds_bind perform_view or_disable_view [OF assms(1,2)] internal_start_view)

text \<open>Loading the plugin code keeps the loader's path, id and references.\<close>

lemma on_loader_load_view [view_intros]:
  assumes "view v = view w" and "l < length (loaders w)" and "plugin_key (loaders w ! l) \<noteq> None"
  shows "keeps_view w (on_loader l (load E reset) v)"
proof -
  let ?s = "state_of (load E reset (loaders v ! l, v))"
  obtain l' u where s: "?s = (l', u)" by (cases ?s)
  have k: "keeps (loaders v ! l, v) (l', u)" using load_keeps [of "(loaders v ! l, v)" E reset] s by (simp add: holds_def)
  then have fr: "frame u = frame v" by (simp add: keeps_def)
  have proj: "g u = g v" if "\<And>x. g (frame x) = g x" for g :: "world \<Rightarrow> 'q"
    using arg_cong [OF fr, of g] that by metis
  have lv: "lview l' = lview (loaders v ! l)"
    using k assms(3) view_loader(2) [OF assms(1,2)] by (simp add: keeps_def lview_def)
  have "view u = view v" by (rule proj) (simp add: view_def frame_def)
  moreover have "loaders u = loaders v" by (rule proj) (simp add: frame_def)
  moreover have "l < length (loaders v)" using assms(2) view_length(3) [OF assms(1)] by simp
  ultimately have "view (u\<lparr>loaders := (loaders u)[l := l']\<rparr>) = view v"
    using lv by (simp add: view_def map_update list_update_same_conv)
  then show ?thesis using assms(1) by (simp add: holds_def state_on_loader s commit_def)
qed

lemma start_loaded_view [view_intros]:
  assumes ok: "world_ok w" and a: "cached a w" and l: "i_loader (instances w ! a) = Some l" and v: "view v = view w"
  shows "keeps_view w (start_loaded E a v)"
proof -
  have "i_loader (instances v ! a) = Some l" using view_inst(3) [OF v] a l by (simp add: cached_def)
  moreover have "l < length (loaders w)" "(i_id (instances w ! a), a) \<in> set (l_references (loaders w ! l))"
    using world_okD(5) [OF ok, of _ a] a l by (auto simp: inst_linked_def cached_def)
  moreover from this have "plugin_key (loaders w ! l) \<noteq> None"
    using world_okD(6) [OF ok, of l] by (auto simp: loader_linked_def)
  ultimately show ?thesis
    unfolding start_loaded_def Let_def
    by (intro holds_bind on_loader_load_view [OF v])
      (auto intro!: holds_bind meta_of_view or_disable_view [OF ok a] start_database_view [OF ok a] load_base_config_view
        start_plugin_view [OF ok a])
qed

section \<open>Linking and unlinking\<close>

definition link_loader :: "nat \<Rightarrow> nat \<Rightarrow> world \<Rightarrow> world" where
  "link_loader l a w = upd_loader l (\<lambda>x. x\<lparr>l_references := l_references x @ [(i_id (instances w ! a), a)]\<rparr>)
     (upd_inst a (\<lambda>i. i\<lparr>i_loader := Some l\<rparr>) w)"

definition link_client :: "nat \<Rightarrow> nat \<Rightarrow> world \<Rightarrow> world" where
  "link_client c a w = upd_client c (\<lambda>x. x\<lparr>c_references := c_references x @ [(i_id (instances w ! a), a)]\<rparr>)
     (upd_inst a (\<lambda>i. i\<lparr>i_client := Some c\<rparr>) w)"

definition unlink_loader :: "nat \<Rightarrow> nat \<Rightarrow> world \<Rightarrow> world" where
  "unlink_loader l a w = upd_loader l (\<lambda>x. x\<lparr>l_references := filter (\<lambda>p. fst p \<noteq> i_id (instances w ! a)) (l_references x)\<rparr>)
     (upd_inst a (\<lambda>i. i\<lparr>i_loader := None\<rparr>) w)"

definition unlink_client :: "nat \<Rightarrow> nat \<Rightarrow> world \<Rightarrow> world" where
  "unlink_client c a w = upd_client c (\<lambda>x. x\<lparr>c_references := filter (\<lambda>p. fst p \<noteq> i_id (instances w ! a)) (c_references x)\<rparr>)
     (upd_inst a (\<lambda>i. i\<lparr>i_client := None\<rparr>) w)"

definition forget_inst :: "nat \<Rightarrow> world \<Rightarrow> world" where
  "forget_inst a w = w\<lparr>inst_cache := dict_del (i_id (instances w ! a)) (inst_cache w),
     inst_table := dict_del (i_id (instances w ! a)) (inst_table w)\<rparr>"

text \<open>Which of the world's parts the parts of the invariant depend on.\<close>

lemma loader_ok_same:
  "loaders v = loaders w \<Longrightarrow> id_cache v = id_cache w \<Longrightarrow> path_cache v = path_cache w \<Longrightarrow> loader_ok (v :: world) = loader_ok w"
  by (simp add: loader_ok_def)

lemma path_cache_upd [simp]:
  "path_cache (upd_inst a f w) = path_cache w" "path_cache (upd_client a g w) = path_cache w"
  "path_cache (upd_loader a h w) = path_cache w"
  by (simp_all add: upd_inst_def upd_client_def upd_loader_def)

lemma loader_ok_upd_loader:
  assumes "loader_ok w" and "\<And>x. l_path (f x) = l_path x" and "\<And>x. plugin_key (f x) = plugin_key x"
  shows "loader_ok (upd_loader l f w)"
proof (cases "l < length (loaders w)")
  case True
  then show ?thesis
    using caches_ok_update [of "loaders w" "id_cache w" "path_cache w" l "f (loaders w ! l)"] assms
    by (simp add: loader_ok_def upd_loader_def)
qed (use assms(1) in \<open>simp add: loader_ok_def upd_loader_def list_update_beyond\<close>)

lemma client_inv_upd_client:
  assumes "client_inv w" and "\<And>x. c_id (f x) = c_id x"
  shows "client_inv (upd_client c f w)"
proof -
  have "c_id (clients (upd_client c f w) ! b) = c_id (clients w ! b)" if "b < length (clients w)" for b
    using assms(2) that by (cases "b = c") simp_all
  then show ?thesis using assms(1) by (simp add: client_inv_def)
qed

lemma inst_inv_upd_inst:
  assumes "inst_inv w" and "\<And>x. i_id (f x) = i_id x"
  shows "inst_inv (upd_inst a f w)"
proof -
  have "i_id (instances (upd_inst a f w) ! b) = i_id (instances w ! b)" if "b < length (instances w)" for b
    using assms(2) that by (cases "b = a") simp_all
  then show ?thesis using assms(1) by (simp add: inst_inv_def)
qed

lemma parts_upd [simp]:
  "loader_ok (upd_inst a f w) = loader_ok w" "loader_ok (upd_client a g w) = loader_ok w"
  "client_inv (upd_inst a f w) = client_inv w" "client_inv (upd_loader a h w) = client_inv w"
  "inst_inv (upd_client a g w) = inst_inv w" "inst_inv (upd_loader a h w) = inst_inv w"
  "fk_ok (upd_inst a f w) = fk_ok w" "fk_ok (upd_client a g w) = fk_ok w" "fk_ok (upd_loader a h w) = fk_ok w"
  by (auto simp: loader_ok_def client_inv_def inst_inv_def fk_ok_def)

text \<open>A cached instance is counted by nobody it does not depend on.\<close>

lemma not_counted_loader:
  assumes "world_ok w" and "cached a w" and "l < length (loaders w)" and "(i_id (instances w ! a), b) \<in> set (l_references (loaders w ! l))"
  shows "b = a" "i_loader (instances w ! a) = Some l"
  using assms world_okD(6) [OF assms(1,3)] by (auto simp: loader_linked_def cached_def)

lemma not_counted_client:
  assumes "world_ok w" and "cached a w" and "c < length (clients w)" and "(i_id (instances w ! a), b) \<in> set (c_references (clients w ! c))"
  shows "b = a" "i_client (instances w ! a) = Some c"
  using assms world_okD(7) [OF assms(1,3)] by (auto simp: client_linked_def cached_def)

lemma world_ok_link_loader:
  assumes ok: "world_ok w" and a: "cached a w" and none: "i_loader (instances w ! a) = None"
    and l: "l < length (loaders w)" "plugin_key (loaders w ! l) \<noteq> None"
  shows "world_ok (link_loader l a w)"
proof -
  define k where "k = i_id (instances w ! a)"
  let ?v = "link_loader l a w"
  note d = world_okD [OF ok]
  have al: "a < length (instances w)" and ck: "map_of (inst_cache w) k = Some a" using a by (simp_all add: cached_def k_def)
  have fresh: "k \<notin> fst ` set (l_references (loaders w ! l))"
    using not_counted_loader(2) [OF ok a l(1)] none by (auto simp: k_def)
  have refs: "l_references (loaders ?v ! m) = l_references (loaders w ! m) @ (if m = l then [(k, a)] else [])"
    "plugin_key (loaders ?v ! m) = plugin_key (loaders w ! m)" if "m < length (loaders w)" for m
    using that l by (cases "m = l"; simp add: link_loader_def k_def)+
  have insts: "instances ?v ! b = (if b = a then (instances w ! a)\<lparr>i_loader := Some l\<rparr> else instances w ! b)" for b
    using al by (simp add: link_loader_def)
  have same: "inst_cache ?v = inst_cache w" "clients ?v = clients w" "inst_table ?v = inst_table w"
    "length (loaders ?v) = length (loaders w)"
    by (simp_all add: link_loader_def)
  have il: "inst_linked j b ?v" if "map_of (inst_cache w) j = Some b" for j b
  proof (cases "b = a")
    case True
    then have "j = k" using cachedD(2) [OF ok that] by (simp add: k_def)
    then show ?thesis using d(5) [OF that] True l refs by (auto simp: inst_linked_def insts same)
  next
    case False
    then show ?thesis using d(5) [OF that] refs by (auto simp: inst_linked_def insts same)
  qed
  have ll: "loader_linked m ?v" if m: "m < length (loaders w)" for m
  proof -
    have "b \<noteq> a" if "(j, b) \<in> set (l_references (loaders w ! m))" for j b
      using d(6) [OF m] that none by (auto simp: loader_linked_def)
    then show ?thesis
      using d(6) [OF m] fresh l(2) ck refs [OF m] by (auto simp: loader_linked_def insts same split: if_splits)
  qed
  have cl: "client_linked c ?v" if "c < length (clients w)" for c
    using d(7) [OF that] by (auto simp: client_linked_def insts same split: if_splits)
  have "loader_ok ?v" "client_inv ?v" "inst_inv ?v" "fk_ok ?v"
    using d(1-4) by (simp_all add: link_loader_def loader_ok_upd_loader inst_inv_upd_inst plugin_key_def)
  then show ?thesis using il ll cl by (simp add: world_ok_def same)
qed

lemma world_ok_link_client:
  assumes ok: "world_ok w" and a: "cached a w" and none: "i_client (instances w ! a) = None"
    and c: "c < length (clients w)"
  shows "world_ok (link_client c a w)"
proof -
  define k where "k = i_id (instances w ! a)"
  let ?v = "link_client c a w"
  note d = world_okD [OF ok]
  have al: "a < length (instances w)" and ck: "map_of (inst_cache w) k = Some a" using a by (simp_all add: cached_def k_def)
  have fresh: "k \<notin> fst ` set (c_references (clients w ! c))"
    using not_counted_client(2) [OF ok a c] none by (auto simp: k_def)
  have refs: "c_references (clients ?v ! m) = c_references (clients w ! m) @ (if m = c then [(k, a)] else [])"
    if "m < length (clients w)" for m
    using that c by (cases "m = c"; simp add: link_client_def k_def)+
  have insts: "instances ?v ! b = (if b = a then (instances w ! a)\<lparr>i_client := Some c\<rparr> else instances w ! b)" for b
    using al by (simp add: link_client_def)
  have same: "inst_cache ?v = inst_cache w" "loaders ?v = loaders w" "inst_table ?v = inst_table w"
    "length (clients ?v) = length (clients w)"
    by (simp_all add: link_client_def)
  have il: "inst_linked j b ?v" if "map_of (inst_cache w) j = Some b" for j b
  proof (cases "b = a")
    case True
    then have "j = k" using cachedD(2) [OF ok that] by (simp add: k_def)
    then show ?thesis using d(5) [OF that] True c refs by (auto simp: inst_linked_def insts same)
  next
    case False
    then show ?thesis using d(5) [OF that] refs by (auto simp: inst_linked_def insts same)
  qed
  have cl: "client_linked m ?v" if m: "m < length (clients w)" for m
  proof -
    have "b \<noteq> a" if "(j, b) \<in> set (c_references (clients w ! m))" for j b
      using d(7) [OF m] that none by (auto simp: client_linked_def)
    then show ?thesis
      using d(7) [OF m] fresh ck refs [OF m] by (auto simp: client_linked_def insts same split: if_splits)
  qed
  have ll: "loader_linked m ?v" if "m < length (loaders w)" for m
    using d(6) [OF that] by (auto simp: loader_linked_def insts same split: if_splits)
  have "loader_ok ?v" "client_inv ?v" "inst_inv ?v" "fk_ok ?v"
    using d(1-4) by (simp_all add: link_client_def client_inv_upd_client inst_inv_upd_inst)
  then show ?thesis using il ll cl by (simp add: world_ok_def same)
qed

lemma world_ok_unlink_loader:
  assumes ok: "world_ok w" and a: "cached a w" and some: "i_loader (instances w ! a) = Some l"
  shows "world_ok (unlink_loader l a w)"
proof -
  define k where "k = i_id (instances w ! a)"
  let ?v = "unlink_loader l a w"
  note d = world_okD [OF ok]
  have al: "a < length (instances w)" and ck: "map_of (inst_cache w) k = Some a" using a by (simp_all add: cached_def k_def)
  have l: "l < length (loaders w)" using d(5) [OF ck] some by (simp add: inst_linked_def)
  have refs: "l_references (loaders ?v ! m) = (if m = l then filter (\<lambda>p. fst p \<noteq> k) (l_references (loaders w ! m)) else l_references (loaders w ! m))"
    "plugin_key (loaders ?v ! m) = plugin_key (loaders w ! m)" if "m < length (loaders w)" for m
    using that l by (cases "m = l"; simp add: unlink_loader_def k_def)+
  have insts: "instances ?v ! b = (if b = a then (instances w ! a)\<lparr>i_loader := None\<rparr> else instances w ! b)" for b
    using al by (simp add: unlink_loader_def)
  have same: "inst_cache ?v = inst_cache w" "clients ?v = clients w" "inst_table ?v = inst_table w"
    "length (loaders ?v) = length (loaders w)"
    by (simp_all add: unlink_loader_def)
  have il: "inst_linked j b ?v" if jb: "map_of (inst_cache w) j = Some b" for j b
  proof (cases "b = a")
    case True
    then show ?thesis using d(5) [OF jb] by (auto simp: inst_linked_def insts same)
  next
    case False
    then have "j \<noteq> k" using jb ck by auto
    then show ?thesis using False d(5) [OF jb] refs by (auto simp: inst_linked_def insts same)
  qed
  have ll: "loader_linked m ?v" if m: "m < length (loaders w)" for m
  proof -
    have "b \<noteq> a" if jb: "(j, b) \<in> set (l_references (loaders w ! m))" "m \<noteq> l \<or> j \<noteq> k" for j b
    proof
      assume "b = a"
      then have "map_of (inst_cache w) j = Some a" "m = l" using d(6) [OF m] jb(1) some by (auto simp: loader_linked_def)
      then show False using jb(2) cachedD(2) [OF ok, of j a] by (simp add: k_def)
    qed
    moreover have "distinct (map fst (filter (\<lambda>p. fst p \<noteq> k) (l_references (loaders w ! m))))"
      using d(6) [OF m] by (simp add: loader_linked_def distinct_map_filter)
    ultimately show ?thesis
      using d(6) [OF m] refs [OF m] by (fastforce simp: loader_linked_def insts same split: if_splits)
  qed
  have cl: "client_linked c ?v" if "c < length (clients w)" for c
    using d(7) [OF that] by (auto simp: client_linked_def insts same split: if_splits)
  have "loader_ok ?v" "client_inv ?v" "inst_inv ?v" "fk_ok ?v"
    using d(1-4) by (simp_all add: unlink_loader_def loader_ok_upd_loader inst_inv_upd_inst plugin_key_def)
  then show ?thesis using il ll cl by (simp add: world_ok_def same)
qed

lemma world_ok_unlink_client:
  assumes ok: "world_ok w" and a: "cached a w" and some: "i_client (instances w ! a) = Some c"
  shows "world_ok (unlink_client c a w)"
proof -
  define k where "k = i_id (instances w ! a)"
  let ?v = "unlink_client c a w"
  note d = world_okD [OF ok]
  have al: "a < length (instances w)" and ck: "map_of (inst_cache w) k = Some a" using a by (simp_all add: cached_def k_def)
  have c: "c < length (clients w)" using d(5) [OF ck] some by (simp add: inst_linked_def)
  have refs: "c_references (clients ?v ! m) = (if m = c then filter (\<lambda>p. fst p \<noteq> k) (c_references (clients w ! m)) else c_references (clients w ! m))"
    if "m < length (clients w)" for m
    using that c by (cases "m = c"; simp add: unlink_client_def k_def)+
  have insts: "instances ?v ! b = (if b = a then (instances w ! a)\<lparr>i_client := None\<rparr> else instances w ! b)" for b
    using al by (simp add: unlink_client_def)
  have same: "inst_cache ?v = inst_cache w" "loaders ?v = loaders w" "inst_table ?v = inst_table w"
    "length (clients ?v) = length (clients w)"
    by (simp_all add: unlink_client_def)
  have il: "inst_linked j b ?v" if jb: "map_of (inst_cache w) j = Some b" for j b
  proof (cases "b = a")
    case True
    then show ?thesis using d(5) [OF jb] by (auto simp: inst_linked_def insts same)
  next
    case False
    then have "j \<noteq> k" using jb ck by auto
    then show ?thesis using False d(5) [OF jb] refs by (auto simp: inst_linked_def insts same)
  qed
  have cl: "client_linked m ?v" if m: "m < length (clients w)" for m
  proof -
    have "b \<noteq> a" if jb: "(j, b) \<in> set (c_references (clients w ! m))" "m \<noteq> c \<or> j \<noteq> k" for j b
    proof
      assume "b = a"
      then have "map_of (inst_cache w) j = Some a" "m = c" using d(7) [OF m] jb(1) some by (auto simp: client_linked_def)
      then show False using jb(2) cachedD(2) [OF ok, of j a] by (simp add: k_def)
    qed
    moreover have "distinct (map fst (filter (\<lambda>p. fst p \<noteq> k) (c_references (clients w ! m))))"
      using d(7) [OF m] by (simp add: client_linked_def distinct_map_filter)
    ultimately show ?thesis
      using d(7) [OF m] refs [OF m] by (fastforce simp: client_linked_def insts same split: if_splits)
  qed
  have ll: "loader_linked m ?v" if "m < length (loaders w)" for m
    using d(6) [OF that] by (auto simp: loader_linked_def insts same split: if_splits)
  have "loader_ok ?v" "client_inv ?v" "inst_inv ?v" "fk_ok ?v"
    using d(1-4) by (simp_all add: unlink_client_def client_inv_upd_client inst_inv_upd_inst)
  then show ?thesis using il ll cl by (simp add: world_ok_def same)
qed

text \<open>An instance without dependencies can be dropped from the cache and the table.\<close>

lemma world_ok_forget:
  assumes ok: "world_ok w" and a: "cached a w"
    and none: "i_loader (instances w ! a) = None" "i_client (instances w ! a) = None"
  shows "world_ok (forget_inst a w)" "\<And>k. map_of (inst_cache (forget_inst a w)) k \<noteq> Some a"
proof -
  define k where "k = i_id (instances w ! a)"
  let ?v = "forget_inst a w"
  note d = world_okD [OF ok]
  have ck: "map_of (inst_cache w) k = Some a" using a by (simp add: cached_def k_def)
  have v: "loaders ?v = loaders w" "clients ?v = clients w" "instances ?v = instances w" "client_table ?v = client_table w"
    "client_cache ?v = client_cache w" "inst_cache ?v = dict_del k (inst_cache w)" "inst_table ?v = dict_del k (inst_table w)"
    "id_cache ?v = id_cache w" "path_cache ?v = path_cache w"
    by (simp_all add: forget_inst_def k_def)
  have "j \<noteq> k" if "(j, b) \<in> set (l_references (loaders w ! m))" "m < length (loaders w)" for j b m
    using not_counted_loader(2) [OF ok a that(2)] that(1) none(1) by (auto simp: k_def)
  then have ll: "loader_linked m ?v" if "m < length (loaders w)" for m
    using d(6) [OF that] that by (fastforce simp: loader_linked_def v)
  have "j \<noteq> k" if "(j, b) \<in> set (c_references (clients w ! m))" "m < length (clients w)" for j b m
    using not_counted_client(2) [OF ok a that(2)] that(1) none(2) by (auto simp: k_def)
  then have cl: "client_linked m ?v" if "m < length (clients w)" for m
    using d(7) [OF that] that by (fastforce simp: client_linked_def v)
  have il: "inst_linked j b ?v" if "map_of (inst_cache ?v) j = Some b" for j b
    using that d(5) [of j b] by (auto simp: inst_linked_def v split: if_splits)
  have "loader_ok ?v" "client_inv ?v" "inst_inv ?v" "fk_ok ?v"
    using d(1-4) by (auto simp: loader_ok_def client_inv_def inst_inv_def fk_ok_def v)
  then show "world_ok ?v" using il ll cl by (simp add: world_ok_def v)
  show "map_of (inst_cache ?v) j \<noteq> Some a" for j
    using cachedD(2) [OF ok, of j a] by (auto simp: v k_def split: if_splits)
qed

lemma world_ok_uncached:
  assumes ok: "world_ok w" and free: "\<And>k. map_of (inst_cache w) k \<noteq> Some a"
  shows "world_ok (upd_inst a f w)"
proof -
  let ?v = "upd_inst a f w"
  note d = world_okD [OF ok]
  have insts: "instances ?v ! b = instances w ! b" if "map_of (inst_cache w) k = Some b" for k b
    using that free [of k] by (cases "b = a") auto
  have ll: "loader_linked m ?v" if "m < length (loaders w)" for m
    using d(6) [OF that] insts by (fastforce simp: loader_linked_def)
  have cl: "client_linked m ?v" if "m < length (clients w)" for m
    using d(7) [OF that] insts by (fastforce simp: client_linked_def)
  have "inst_linked j b ?v" if "map_of (inst_cache w) j = Some b" for j b
    using d(5) [OF that] insts [OF that] by (simp add: inst_linked_def)
  moreover have "inst_inv ?v" using d(3) insts by (auto simp: inst_inv_def)
  ultimately show ?thesis using d ll cl by (simp add: world_ok_def)
qed

section \<open>Creating objects\<close>

lemma world_ok_client_row:
  assumes ok: "world_ok w" and r: "c_id r = k"
  shows "world_ok (w\<lparr>client_table := dict_set k r (client_table w)\<rparr>)"
  using ok r unfolding world_ok_def
  by (auto simp: loader_ok_def client_inv_def inst_inv_def fk_ok_def inst_linked_def loader_linked_def client_linked_def in_dict_def)

lemma world_ok_with_client:
  assumes ok: "world_ok w" and fresh: "map_of (client_cache w) (c_id r) = None" and row: "in_dict (c_id r) (client_table w)"
  shows "world_ok (with_client E r w)"
proof -
  let ?v = "with_client E r w"
  note d = world_okD [OF ok]
  have v: "loaders ?v = loaders w" "instances ?v = instances w" "client_table ?v = client_table w" "inst_cache ?v = inst_cache w"
    "inst_table ?v = inst_table w" "clients ?v = clients w @ [postinit_fields E (client_init r)]"
    "client_cache ?v = dict_set (c_id r) (length (clients w)) (client_cache w)" "id_cache ?v = id_cache w" "path_cache ?v = path_cache w"
    by (simp_all add: with_client_def)
  have old: "clients ?v ! c = clients w ! c" if "c < length (clients w)" for c using that by (simp add: v nth_append)
  have new: "c_references (postinit_fields E (client_init r)) = []"
    by (simp add: postinit_fields_def prepare_crypto_def Let_def)
  have "client_linked c ?v" if "c < length (clients ?v)" for c
    using that d(7) [of c] old new by (cases "c = length (clients w)") (auto simp: client_linked_def v less_Suc_eq)
  moreover have "inst_linked j b ?v" if "map_of (inst_cache w) j = Some b" for j b
    using d(5) [OF that] old by (auto simp: inst_linked_def v)
  moreover have "loader_linked m ?v" if "m < length (loaders w)" for m
    using d(6) [OF that] by (simp add: loader_linked_def v)
  moreover have "fk_ok ?v" using d(4) row by (auto simp: fk_ok_def v split: if_splits)
  moreover have "loader_ok ?v" "inst_inv ?v" using d(1,3) by (auto simp: loader_ok_def inst_inv_def v)
  ultimately show ?thesis using client_inv_with_client [OF d(2)] by (simp add: world_ok_def v)
qed

lemma world_ok_inst_row:
  assumes ok: "world_ok w" and r: "i_id r = k" "map_of (inst_cache w) k = None" "in_dict (primary_user r) (client_table w)"
  shows "world_ok (w\<lparr>inst_table := dict_set k r (inst_table w)\<rparr>)"
  using ok r unfolding world_ok_def
  by (auto simp: loader_ok_def client_inv_def inst_inv_def fk_ok_def inst_linked_def loader_linked_def client_linked_def)

lemma world_ok_with_inst:
  assumes ok: "world_ok w" and fresh: "map_of (inst_cache w) (i_id r) = None" and row: "map_of (inst_table w) (i_id r) = Some r"
  shows "world_ok (with_inst r w)"
proof -
  let ?v = "with_inst r w"
  note d = world_okD [OF ok]
  have v: "loaders ?v = loaders w" "clients ?v = clients w" "client_table ?v = client_table w" "client_cache ?v = client_cache w"
    "inst_table ?v = inst_table w" "instances ?v = instances w @ [fresh_inst r]"
    "inst_cache ?v = dict_set (i_id r) (length (instances w)) (inst_cache w)" "id_cache ?v = id_cache w" "path_cache ?v = path_cache w"
    by (simp_all add: with_inst_def)
  have old: "instances ?v ! b = instances w ! b" "j \<noteq> i_id r" if "map_of (inst_cache w) j = Some b" for j b
    using that cachedD(1) [OF ok that] fresh by (auto simp: v nth_append)
  have ll: "loader_linked m ?v" if "m < length (loaders w)" for m
    using d(6) [OF that] old by (fastforce simp: loader_linked_def v)
  have cl: "client_linked m ?v" if "m < length (clients w)" for m
    using d(7) [OF that] old by (fastforce simp: client_linked_def v)
  have new: "inst_linked (i_id r) (length (instances w)) ?v"
    using row by (simp add: inst_linked_def v fresh_inst_def inst_init_def inst_row.defs)
  have "inst_linked j b ?v" if "map_of (inst_cache ?v) j = Some b" for j b
    using that new d(5) [of j b] old [of j b] by (auto simp: inst_linked_def v split: if_splits)
  then show ?thesis
    using ll cl inst_inv_with_inst [OF d(3)] d(1,2,4) by (simp add: world_ok_def v loader_ok_def client_inv_def fk_ok_def)
qed

section \<open>The operations\<close>

lemma client_get_world:
  assumes ok: "world_ok w"
  shows "holds world_ok (client_get E hs token dev k w)"
    and "in_dict k (client_table w) \<Longrightarrow> \<exists>c v. client_get E hs token dev k w = Ok (Some c) v"
proof -
  have id: "c_id r = k" if "map_of (client_table w) k = Some r" for r
    using world_okD(2) [OF ok] that by (simp add: client_inv_def)
  show "holds world_ok (client_get E hs token dev k w)"
    by (rule client_get_cases [of w k E hs token dev])
      (use ok id in \<open>auto simp: in_dict_def intro!: world_ok_with_client world_ok_client_row\<close>)
  show "\<exists>c v. client_get E hs token dev k w = Ok (Some c) v" if "in_dict k (client_table w)"
    by (rule client_get_cases [of w k E hs token dev]) (use that in \<open>auto simp: in_dict_def\<close>)
qed

lemma inst_get_world:
  assumes ok: "world_ok w"
  shows "holds world_ok (inst_get ty user k w)"
proof -
  have id: "i_id r = k" if "map_of (inst_table w) k = Some r" for r
    using world_okD(3) [OF ok] that by (simp add: inst_inv_def)
  have new: "world_ok (with_inst r (w\<lparr>inst_table := dict_set k r (inst_table w)\<rparr>))"
    if "map_of (inst_cache w) k = None" "i_id r = k" "in_dict (primary_user r) (client_table w)" for r
    using that ok by (intro world_ok_with_inst world_ok_inst_row) simp_all
  define r where "r = \<lparr>i_id = k, i_type = the ty, i_enabled = True, primary_user = the user, config_str = [], engine = None\<rparr>"
  consider a where "map_of (inst_cache w) k = Some a"
    | r where "map_of (inst_cache w) k = None" "map_of (inst_table w) k = Some r"
    | "map_of (inst_cache w) k = None" "map_of (inst_table w) k = None"
    by (metis not_Some_eq)
  then show ?thesis
  proof cases
    case (2 r)
    then show ?thesis using ok id world_ok_with_inst [OF ok, of r] new_inst_postinit [of r w]
      by (simp add: inst_get_def db_inst_get_def)
  next
    case 3
    then have "inst_get ty user k w = (if opt_truthy ty \<and> opt_truthy user
        then bind (db_inst_insert r w) (\<lambda>_ w. let (a, w) = new_inst r w in Ok (Some a) (inst_postinit a w)) else Ok None w)"
      by (simp add: inst_get_def db_inst_get_def r_def Let_def)
    moreover have "i_id r = k" by (simp add: r_def)
    ultimately show ?thesis
      using ok 3 new [of r] new_inst_postinit [of r "w\<lparr>inst_table := dict_set k r (inst_table w)\<rparr>"]
      by (simp add: db_inst_insert_def in_dict_def)
  qed (simp add: ok inst_get_def)
qed

text \<open>The sets' own membership test agrees with the entries, for a cached instance.\<close>

lemma refs_has_cached:
  assumes ok: "world_ok w" and a: "cached a w"
    and rs: "\<And>k b. (k, b) \<in> set rs \<Longrightarrow> map_of (inst_cache w) k = Some b"
  shows "refs_has w a rs \<longleftrightarrow> (i_id (instances w ! a), a) \<in> set rs"
  using rs a by (auto simp: refs_has_def list_ex_iff same_inst_def cached_def)

lemma refs_drop_cached:
  assumes a: "cached a w" and rs: "\<And>k b. (k, b) \<in> set rs \<Longrightarrow> map_of (inst_cache w) k = Some b" and d: "distinct (map fst rs)"
  shows "refs_drop w a rs = filter (\<lambda>p. fst p \<noteq> i_id (instances w ! a)) rs"
  using rs d
proof (induction rs)
  case (Cons p rs)
  obtain k b where p: "p = (k, b)" by (cases p)
  have b: "map_of (inst_cache w) k = Some b" using Cons.prems(1) by (simp add: p)
  show ?case
  proof (cases "k = i_id (instances w ! a)")
    case True
    then have "b = a" using b a by (simp add: cached_def)
    moreover have "filter (\<lambda>p. fst p \<noteq> k) rs = rs"
      using Cons.prems(2) by (force simp: filter_id_conv p)
    ultimately show ?thesis by (simp add: p True same_inst_def)
  next
    case False
    moreover have "refs_drop w a rs = filter (\<lambda>p. fst p \<noteq> i_id (instances w ! a)) rs"
      using Cons.prems by (intro Cons.IH) auto
    ultimately show ?thesis by (simp add: p)
  qed
qed simp

lemma refs_of_loader:
  assumes "world_ok w" and "l < length (loaders w)"
  shows "(k, b) \<in> set (l_references (loaders w ! l)) \<Longrightarrow> map_of (inst_cache w) k = Some b" "distinct (map fst (l_references (loaders w ! l)))"
  using world_okD(6) [OF assms] by (auto simp: loader_linked_def)

lemma refs_of_client:
  assumes "world_ok w" and "c < length (clients w)"
  shows "(k, b) \<in> set (c_references (clients w ! c)) \<Longrightarrow> map_of (inst_cache w) k = Some b" "distinct (map fst (c_references (clients w ! c)))"
  using world_okD(7) [OF assms] by (auto simp: client_linked_def)

text \<open>Adding a cached instance to the sets of its dependencies.\<close>

lemma refs_add_loader:
  assumes ok: "world_ok w" and a: "cached a w" and l: "l < length (loaders w)"
  shows "refs_add w a (l_references (loaders w ! l)) = l_references (loaders w ! l) @
     (if i_loader (instances w ! a) = Some l then [] else [(i_id (instances w ! a), a)])"
proof -
  have "refs_has w a (l_references (loaders w ! l)) \<longleftrightarrow> i_loader (instances w ! a) = Some l"
    using refs_has_cached [OF ok a refs_of_loader(1) [OF ok l], of "l_references (loaders w ! l)"]
      not_counted_loader(2) [OF ok a l, of a] world_okD(5) [OF ok, of "i_id (instances w ! a)" a] a
    by (auto simp: inst_linked_def cached_def)
  then show ?thesis by (simp add: refs_add_def)
qed

lemma refs_add_client:
  assumes ok: "world_ok w" and a: "cached a w" and c: "c < length (clients w)"
  shows "refs_add w a (c_references (clients w ! c)) = c_references (clients w ! c) @
     (if i_client (instances w ! a) = Some c then [] else [(i_id (instances w ! a), a)])"
proof -
  have "refs_has w a (c_references (clients w ! c)) \<longleftrightarrow> i_client (instances w ! a) = Some c"
    using refs_has_cached [OF ok a refs_of_client(1) [OF ok c], of "c_references (clients w ! c)"]
      not_counted_client(2) [OF ok a c, of a] world_okD(5) [OF ok, of "i_id (instances w ! a)" a] a
    by (auto simp: inst_linked_def cached_def)
  then show ?thesis by (simp add: refs_add_def)
qed

lemma same_inst_upd:
  assumes "\<And>i. inst_row.truncate (f i) = inst_row.truncate i"
  shows "inst_row.truncate (instances (upd_inst a f w) ! b) = inst_row.truncate (instances w ! b)"
  using assms by (cases "b = a"; cases "a < length (instances w)") (simp_all add: upd_inst_def list_update_beyond)

lemma truncate_i_id: "inst_row.truncate i = inst_row.truncate j \<Longrightarrow> i_id i = i_id j" for i j :: inst
  by (simp add: inst_row.defs)

lemma refs_has_upd:
  assumes "\<And>i. inst_row.truncate (f i) = inst_row.truncate i"
  shows "refs_has (upd_inst a f w) b rs = refs_has w b rs" "refs_add (upd_inst a f w) b rs = refs_add w b rs"
proof -
  note t = same_inst_upd [OF assms, of a w]
  show "refs_has (upd_inst a f w) b rs = refs_has w b rs"
    by (simp add: refs_has_def same_inst_def t truncate_i_id [OF t])
  then show "refs_add (upd_inst a f w) b rs = refs_add w b rs"
    by (simp add: refs_add_def truncate_i_id [OF t])
qed

text \<open>
  What holds after an operation on instances: the invariant, the same tasks and cached instances,
  no fewer clients, and every plugin that was found by its id is still found.
\<close>

definition sys :: "world \<Rightarrow> world \<Rightarrow> bool" where
  "sys w v \<longleftrightarrow> world_ok v \<and> tasks v = tasks w \<and> inst_cache v = inst_cache w
     \<and> length (clients w) \<le> length (clients v) \<and> map_of (id_cache w) \<subseteq>\<^sub>m map_of (id_cache v)"

lemma sys_refl: "world_ok w \<Longrightarrow> sys w w"
  by (simp add: sys_def)

lemma sys_trans: "sys u v \<Longrightarrow> sys v w \<Longrightarrow> sys u w"
  by (auto simp: sys_def intro: map_le_trans)

lemma sys_view: "world_ok w \<Longrightarrow> view v = view w \<Longrightarrow> sys w v"
  unfolding sys_def using world_ok_view view_caches(1,3,5) view_length(2) by (metis order_refl map_le_refl)

lemma sys_cached:
  assumes "sys w v" and "cached a w"
  shows "cached a v"
  using assms cachedD(3) [of v] by (auto simp: sys_def cached_def)

lemma holds_sys_view: "world_ok w \<Longrightarrow> keeps_view w r \<Longrightarrow> holds (sys w) r"
  unfolding holds_def by (rule sys_view)

lemma holds_sys_bind:
  assumes "holds (sys w) r" and "\<And>x v. r = Ok x v \<Longrightarrow> sys w v \<Longrightarrow> holds (sys v) (k x v)"
  shows "holds (sys w) (bind r k)"
  using assms by (cases r) (auto simp: holds_def intro: sys_trans)

lemma client_get_None:
  "client_get E None None None k w = (case map_of (client_cache w) k of Some a \<Rightarrow> Ok (Some a) w
     | None \<Rightarrow> (case map_of (client_table w) k of
          Some r \<Rightarrow> Ok (Some (length (clients w))) (with_client E r w) | None \<Rightarrow> Ok None w))"
  using new_client_postinit [of _ w E Some]
  by (simp add: client_get_def db_client_get_def opt_truthy_def split: option.split)

lemma with_client_upd_inst: "with_client E r (upd_inst a f w) = upd_inst a f (with_client E r w)"
  by (simp add: with_client_def upd_inst_def)

lemma client_get_upd_inst:
  "client_get E None None None k (upd_inst a f w) = (case client_get E None None None k w of
     Ok r v \<Rightarrow> Ok r (upd_inst a f v) | Raise e v \<Rightarrow> Raise e (upd_inst a f v))"
  by (simp add: client_get_None with_client_upd_inst split: option.split)

lemma client_get_grows: "length (clients w) \<le> length (clients (state_of (client_get E hs token dev k w)))"
  by (cases rule: client_get_cases [of w k E hs token dev]) (auto simp: with_client_def)

lemma client_get_sys:
  assumes "world_ok w"
  shows "holds (sys w) (client_get E hs token dev k w)"
  using client_get_world(1) [OF assms, of E hs token dev k] client_get_grows [of w E hs token dev k]
  by (cases "client_get E hs token dev k w")
    (auto simp: sys_def dest: client_get_frame intro: client_get_cases [of w k E hs token dev])

text \<open>An instance with both dependencies set, before the two sets have been told.\<close>

definition set_deps :: "nat \<Rightarrow> nat \<Rightarrow> inst \<Rightarrow> inst" where
  "set_deps l c i = i\<lparr>i_loader := Some l, i_client := Some c\<rparr>"

definition link_both :: "nat \<Rightarrow> nat \<Rightarrow> nat \<Rightarrow> world \<Rightarrow> world" where
  "link_both l c a w =
     (let v = (if i_loader (instances w ! a) = None then link_loader l a w else w) in
      if i_client (instances w ! a) = None then link_client c a v else v)"

lemma add_reference_link:
  assumes ok: "world_ok u" and a: "cached a u"
    and l: "i_loader (instances u ! a) \<in> {None, Some l}" "l < length (loaders u)"
    and c: "i_client (instances u ! a) \<in> {None, Some c}" "c < length (clients u)"
  shows "add_reference a (upd_inst a (set_deps l c) u) = link_both l c a u"
proof -
  have t: "inst_row.truncate (set_deps l c i) = inst_row.truncate i" for i by (simp add: set_deps_def inst_row.defs)
  have al: "a < length (instances u)" using a by (simp add: cached_def)
  have self: "(instances u)[a := instances u ! a] = instances u" by simp
  have eqs: "i\<lparr>i_loader := Some l\<rparr> = i" if "i_loader i = Some l" for i :: inst using that by simp
  have eqc: "i\<lparr>i_client := Some c\<rparr> = i" if "i_client i = Some c" for i :: inst using that by simp
  have "add_reference a (upd_inst a (set_deps l c) u) =
      upd_client c (\<lambda>x. x\<lparr>c_references := refs_add u a (c_references x)\<rparr>)
        (upd_loader l (\<lambda>x. x\<lparr>l_references := refs_add u a (l_references x)\<rparr>) (upd_inst a (set_deps l c) u))"
  proof -
    have "i_loader (instances (upd_inst a (set_deps l c) u) ! a) = Some l" "i_client (instances (upd_inst a (set_deps l c) u) ! a) = Some c"
      using al by (simp_all add: set_deps_def)
    then show ?thesis by (simp add: add_reference_def refs_has_upd(2) [OF t])
  qed
  also have "\<dots> = link_both l c a u"
    using refs_add_loader [OF ok a l(2)] refs_add_client [OF ok a c(2)] l(1) c(1) al
    by (auto simp: link_both_def link_loader_def link_client_def set_deps_def upd_client_def upd_loader_def upd_inst_def
        eqs eqc Let_def)
  finally show ?thesis .
qed

lemma world_ok_link_both:
  assumes ok: "world_ok u" and a: "cached a u" and l: "l < length (loaders u)" "plugin_key (loaders u ! l) \<noteq> None"
    and c: "c < length (clients u)"
  shows "sys u (link_both l c a u)"
proof -
  define v where "v = (if i_loader (instances u ! a) = None then link_loader l a u else u)"
  have v: "world_ok v" "cached a v" "length (clients v) = length (clients u)" "i_client (instances v ! a) = i_client (instances u ! a)"
    "tasks v = tasks u" "inst_cache v = inst_cache u"
    using ok a l world_ok_link_loader [OF ok a _ l] by (auto simp: v_def link_loader_def cached_def)
  have "world_ok (link_both l c a u)"
    using v world_ok_link_client [OF v(1,2)] c by (auto simp: link_both_def v_def [symmetric] Let_def)
  moreover have "tasks (link_both l c a u) = tasks u" "inst_cache (link_both l c a u) = inst_cache u"
    using v by (auto simp: link_both_def v_def [symmetric] Let_def link_client_def)
  moreover have "length (clients (link_both l c a u)) = length (clients u)" "id_cache (link_both l c a u) = id_cache u"
    by (simp_all add: link_both_def link_client_def link_loader_def Let_def)
  ultimately show ?thesis by (simp add: sys_def)
qed

lemma cached_user:
  assumes "world_ok w" and "cached a w"
  shows "in_dict (primary_user (instances w ! a)) (client_table w)"
proof -
  obtain r where "map_of (inst_table w) (i_id (instances w ! a)) = Some r" "primary_user r = primary_user (instances w ! a)"
    using world_okD(5) [OF assms(1), of "i_id (instances w ! a)" a] assms(2) by (auto simp: cached_def inst_linked_def)
  then show ?thesis using world_okD(4) [OF assms(1)] by (metis fk_ok_def)
qed

lemma cached_deps:
  assumes "world_ok w" and "cached a w"
  shows "i_loader (instances w ! a) = Some l \<Longrightarrow> l < length (loaders w) \<and> plugin_key (loaders w ! l) \<noteq> None"
    "i_client (instances w ! a) = Some c \<Longrightarrow> c < length (clients w)"
proof -
  have lk: "inst_linked (i_id (instances w ! a)) a w" using world_okD(5) [OF assms(1)] assms(2) by (simp add: cached_def)
  then show "i_client (instances w ! a) = Some c \<Longrightarrow> c < length (clients w)" by (simp add: inst_linked_def)
  assume "i_loader (instances w ! a) = Some l"
  then have l: "l < length (loaders w)" "l_references (loaders w ! l) \<noteq> []" using lk by (auto simp: inst_linked_def)
  then show "l < length (loaders w) \<and> plugin_key (loaders w ! l) \<noteq> None"
    using world_okD(6) [OF assms(1) l(1)] by (simp add: loader_linked_def)
qed

lemma set_deps_simps:
  "i_client i = Some c \<Longrightarrow> set_deps l c i = i\<lparr>i_loader := Some l\<rparr>"
  "(set_deps l c i)\<lparr>inst_webapp := x\<rparr> = set_deps l c (i\<lparr>inst_webapp := x\<rparr>)"
  "i_loader i = Some l \<Longrightarrow> i\<lparr>i_loader := Some l\<rparr> = i"
  by (cases i; simp add: set_deps_def)+

lemma load_client_deps:
  assumes ok: "world_ok w" and a: "cached a w"
  obtains c u where "load_client E a (upd_inst a (\<lambda>i. i\<lparr>i_loader := Some l\<rparr>) w) = Ok True (upd_inst a (set_deps l c) u)"
    "sys w u" "loaders u = loaders w" "instances u = instances w" "i_client (instances w ! a) \<in> {None, Some c}" "c < length (clients u)"
proof -
  let ?w1 = "upd_inst a (\<lambda>i. i\<lparr>i_loader := Some l\<rparr>) w" and ?user = "primary_user (instances w ! a)"
  have al: "a < length (instances w)" using a by (simp add: cached_def)
  then have w1: "instances ?w1 ! a = (instances w ! a)\<lparr>i_loader := Some l\<rparr>" by simp
  show thesis
  proof (cases "i_client (instances w ! a)")
    case None
    obtain c u where get: "client_get E None None None ?user w = Ok (Some c) u"
      using client_get_world(2) [OF ok cached_user [OF ok a]] by blast
    have fr: "instances u = instances w" "loaders u = loaders w" using client_get_frame [OF get] by simp_all
    have s: "sys w u" using client_get_sys [OF ok, of E None None None ?user] get by simp
    have "map_of (client_cache u) ?user = Some c"
      using clients_by_id.get_fills [OF world_okD(2) [OF ok], of E "(None, None, None)" ?user c u] get by simp
    then have c: "c < length (clients u)" using s by (auto simp: sys_def world_ok_def client_inv_def)
    have "load_client E a ?w1 = Ok True (upd_inst a (\<lambda>i. i\<lparr>i_client := Some c\<rparr>) (upd_inst a (\<lambda>i. i\<lparr>i_loader := Some l\<rparr>) u))"
      using None get by (simp add: load_client_def w1 client_get_upd_inst)
    moreover have "upd_inst a (\<lambda>i. i\<lparr>i_client := Some c\<rparr>) (upd_inst a (\<lambda>i. i\<lparr>i_loader := Some l\<rparr>) u) = upd_inst a (set_deps l c) u"
      using al fr by (simp add: upd_inst_def set_deps_def)
    ultimately show thesis using that [of c u] s fr None c by simp
  next
    case (Some c)
    have "c < length (clients w)" by (rule cached_deps(2) [OF ok a Some])
    moreover have "?w1 = upd_inst a (set_deps l c) w"
      by (simp add: upd_inst_def set_deps_simps(1) [OF Some])
    moreover have "load_client E a ?w1 = Ok True ?w1" using Some by (simp add: load_client_def w1)
    ultimately show thesis using that [of c w] Some sys_refl [OF ok] by simp
  qed
qed

lemma enable_webapp_set_deps:
  assumes "a < length (instances u)"
  shows "enable_webapp a (upd_inst a (set_deps l c) u) = upd_inst a (set_deps l c) (enable_webapp a u)"
proof -
  have "i_id (set_deps l c i) = i_id i" for i by (simp add: set_deps_def)
  with assms show ?thesis
    by (simp add: enable_webapp_def upd_inst_def set_deps_simps(2) split: prod.split)
qed

lemma inst_load_linked:
  assumes ok: "world_ok w" and a: "cached a w"
    and l: "load_loader a w = Ok True (upd_inst a (\<lambda>i. i\<lparr>i_loader := Some l\<rparr>) w)" "i_loader (instances w ! a) \<in> {None, Some l}"
      "l < length (loaders w)" "plugin_key (loaders w ! l) \<noteq> None"
  obtains v where "inst_load E a w = Ok True v" "sys w v" "i_loader (instances v ! a) \<noteq> None" "i_client (instances v ! a) \<noteq> None"
proof -
  obtain c u where u: "load_client E a (upd_inst a (\<lambda>i. i\<lparr>i_loader := Some l\<rparr>) w) = Ok True (upd_inst a (set_deps l c) u)"
    "sys w u" "loaders u = loaders w" "instances u = instances w" "i_client (instances w ! a) \<in> {None, Some c}" "c < length (clients u)"
    by (rule load_client_deps [OF ok a])
  let ?w2 = "upd_inst a (set_deps l c) u"
  have al: "a < length (instances u)" using a u(4) by (simp add: cached_def)
  obtain m where m: "l_meta (loaders w ! l) = Some m" using l(4) by (auto simp: plugin_key_def)
  have "i_loader (instances ?w2 ! a) = Some l" using al by (simp add: set_deps_def)
  then have meta: "meta_of a ?w2 = Ok m ?w2" by (simp add: meta_of_def u m)
  define u' where "u' = (if meta_webapp m then enable_webapp a u else u)"
  have u': "sys w u'" "cached a u'" "loaders u' = loaders u" "clients u' = clients u"
    "i_loader (instances u' ! a) = i_loader (instances u ! a)" "i_client (instances u' ! a) = i_client (instances u ! a)"
  proof -
    have "view u' = view u" by (simp add: u'_def)
    then show "sys w u'" using u(2) sys_view sys_trans by (metis sys_def)
    then show "cached a u'" by (rule sys_cached [OF _ a])
  qed (use al in \<open>simp_all add: u'_def enable_webapp_frame\<close>)
  have load: "inst_load E a w = Ok True (add_reference a (upd_inst a (set_deps l c) u'))"
    by (simp add: inst_load_def l(1) u(1) meta u'_def enable_webapp_set_deps [OF al])
  have link: "add_reference a (upd_inst a (set_deps l c) u') = link_both l c a u'"
    using add_reference_link [OF _ u'(2), of l c] u' u l by (simp add: sys_def)
  have "sys u' (link_both l c a u')"
    using world_ok_link_both [OF _ u'(2), of l c] u' u l by (simp add: sys_def)
  then have "sys w (link_both l c a u')" by (rule sys_trans [OF u'(1)])
  moreover have "i_loader (instances (link_both l c a u') ! a) \<noteq> None" "i_client (instances (link_both l c a u') ! a) \<noteq> None"
    unfolding link [symmetric] using u'(2) by (simp_all add: add_reference_def cached_def set_deps_def)
  ultimately show thesis using that load by (simp add: link)
qed

lemma inst_load_sys:
  assumes ok: "world_ok w" and a: "cached a w"
  shows "holds (sys w) (inst_load E a w)"
    and "inst_load E a w = Ok True v \<Longrightarrow> i_loader (instances v ! a) \<noteq> None \<and> i_client (instances v ! a) \<noteq> None"
proof -
  have goal: "holds (sys w) (inst_load E a w) \<and>
      (inst_load E a w = Ok True v \<longrightarrow> i_loader (instances v ! a) \<noteq> None \<and> i_client (instances v ! a) \<noteq> None)"
  proof (cases "i_loader (instances w ! a)")
    case (Some l)
    then have "load_loader a w = Ok True (upd_inst a (\<lambda>i. i\<lparr>i_loader := Some l\<rparr>) w)"
      by (simp add: load_loader_def upd_inst_def set_deps_simps(3) [OF Some])
    then show ?thesis
      using inst_load_linked [OF ok a, of l E] cached_deps(1) [OF ok a Some] Some by fastforce
  next
    case None
    show ?thesis
    proof (cases "find_plugin (i_type (instances w ! a)) w")
      case (Inr l)
      then have "load_loader a w = Ok True (upd_inst a (\<lambda>i. i\<lparr>i_loader := Some l\<rparr>) w)"
        using None by (simp add: load_loader_def)
      moreover have "l < length (loaders w)" "plugin_key (loaders w ! l) \<noteq> None"
        using Inr caches_okD(1,3) [OF world_okD(1) [OF ok, unfolded loader_ok_def]] by (auto simp: find_plugin_Inr)
      ultimately show ?thesis using inst_load_linked [OF ok a, of l E] None by fastforce
    next
      case (Inl e)
      then have "inst_load E a w = fail_load a w"
        using None by (auto simp: inst_load_def load_loader_def fail_load_def)
      moreover have "fail_load a w \<noteq> Ok True v" by (auto simp: fail_load_def bind_eq_Ok)
      ultimately show ?thesis using holds_sys_view [OF ok fail_load_view [OF ok a refl]] by simp
    qed
  qed
  show "holds (sys w) (inst_load E a w)" using goal by simp
  show "inst_load E a w = Ok True v \<Longrightarrow> i_loader (instances v ! a) \<noteq> None \<and> i_client (instances v ! a) \<noteq> None"
    using goal by simp
qed

lemma inst_start_sys:
  assumes ok: "world_ok w" and a: "cached a w"
  shows "holds (sys w) (inst_start E a w)"
proof -
  have loaded: "holds (sys v) (start_loaded E a v)" if s: "sys w v" and some: "i_loader (instances v ! a) \<noteq> None" for v
  proof -
    obtain l where l: "i_loader (instances v ! a) = Some l" using some by auto
    have v: "world_ok v" "cached a v" using s sys_cached [OF s a] by (simp_all add: sys_def)
    show ?thesis by (rule holds_sys_view [OF v(1) start_loaded_view [OF v l refl]])
  qed
  let ?r = "if i_client (instances w ! a) = None \<or> i_loader (instances w ! a) = None then inst_load E a w else Ok True w"
  have r: "holds (sys w) ?r" using inst_load_sys(1) [OF ok a, of E] sys_refl [OF ok] by simp
  have deps: "i_loader (instances v ! a) \<noteq> None" if "?r = Ok True v" for v
    using that inst_load_sys(2) [OF ok a] by (auto split: if_splits)
  have "holds (sys w) (bind ?r (\<lambda>ok w. if \<not> ok then Ok () w else start_loaded E a w))"
  proof (rule holds_sys_bind [OF r])
    fix b v
    assume b: "?r = Ok b v" and s: "sys w v"
    show "holds (sys v) (if \<not> b then Ok () v else start_loaded E a v)"
    proof (cases b)
      case True
      have "i_loader (instances v ! a) \<noteq> None" by (rule deps) (simp add: b [unfolded eqTrueI [OF True]])
      then show ?thesis using loaded [OF s] True by simp
    next
      case False
      have "sys v v" using s by (simp add: sys_def)
      then show ?thesis using False by simp
    qed
  qed
  then show ?thesis using sys_refl [OF ok] by (simp add: inst_start_def)
qed

lemma inst_stop_sys:
  assumes "world_ok w"
  shows "holds (sys w) (inst_stop E a w)"
  by (rule holds_sys_view [OF assms inst_stop_view [OF refl]])

text \<open>Removing a cached instance from a set finds it and removes the entry of its id.\<close>

lemma refs_remove_cached:
  assumes a: "cached a w" and rs: "\<And>k b. (k, b) \<in> set rs \<Longrightarrow> map_of (inst_cache w) k = Some b" and d: "distinct (map fst rs)"
    and mem: "(i_id (instances w ! a), a) \<in> set rs"
  shows "refs_remove w a rs = Some (filter (\<lambda>p. fst p \<noteq> i_id (instances w ! a)) rs)"
  using refs_drop_cached [OF a rs d] mem by (force simp: refs_remove_def refs_has_def list_ex_iff same_inst_def)

definition drop_loader_ref :: "nat \<Rightarrow> string \<Rightarrow> world \<Rightarrow> world" where
  "drop_loader_ref l k w = upd_loader l (\<lambda>x. x\<lparr>l_references := filter (\<lambda>p. fst p \<noteq> k) (l_references x)\<rparr>) w"

definition drop_client_ref :: "nat \<Rightarrow> string \<Rightarrow> world \<Rightarrow> world" where
  "drop_client_ref c k w = upd_client c (\<lambda>x. x\<lparr>c_references := filter (\<lambda>p. fst p \<noteq> k) (c_references x)\<rparr>) w"

lemma unref_loader_cached:
  assumes ok: "world_ok w" and a: "cached a w" and c: "i_loader (instances w ! a) = Some c"
    and v: "loaders v = loaders w" "inst_cache v = inst_cache w" "cached a v" "i_id (instances v ! a) = i_id (instances w ! a)"
  shows "unref_loader c a v = Ok () (drop_loader_ref c (i_id (instances w ! a)) v)"
proof -
  have cc: "c < length (loaders w)" "(i_id (instances v ! a), a) \<in> set (l_references (loaders v ! c))"
    using world_okD(5) [OF ok, of "i_id (instances w ! a)" a] a c v by (simp_all add: cached_def inst_linked_def)
  note refs = refs_of_loader [OF ok cc(1), folded v(1,2)]
  show ?thesis
    using refs_remove_cached [OF v(3) refs cc(2)] by (simp add: unref_loader_def drop_loader_ref_def upd_loader_def v(4))
qed

lemma unref_client_cached:
  assumes ok: "world_ok w" and a: "cached a w" and c: "i_client (instances w ! a) = Some c"
    and v: "clients v = clients w" "inst_cache v = inst_cache w" "cached a v" "i_id (instances v ! a) = i_id (instances w ! a)"
  shows "unref_client c a v = Ok () (drop_client_ref c (i_id (instances w ! a)) v)"
proof -
  have cc: "c < length (clients w)" "(i_id (instances v ! a), a) \<in> set (c_references (clients v ! c))"
    using world_okD(5) [OF ok, of "i_id (instances w ! a)" a] a c v by (simp_all add: cached_def inst_linked_def)
  note refs = refs_of_client [OF ok cc(1), folded v(1,2)]
  show ?thesis
    using refs_remove_cached [OF v(3) refs cc(2)] by (simp add: unref_client_def drop_client_ref_def upd_client_def v(4))
qed

text \<open>Taking a cached instance out of the sets of its dependencies.\<close>

definition unlinked :: "nat \<Rightarrow> world \<Rightarrow> world" where
  "unlinked a w =
     (let v = (case i_loader (instances w ! a) of Some l \<Rightarrow> unlink_loader l a w | None \<Rightarrow> w) in
      case i_client (instances w ! a) of Some c \<Rightarrow> unlink_client c a v | None \<Rightarrow> v)"

lemma unlink_loader_same:
  assumes "a < length (instances w)"
  shows "instances (unlink_loader l a w) ! a = (instances w ! a)\<lparr>i_loader := None\<rparr>"
    "inst_cache (unlink_loader l a w) = inst_cache w" "tasks (unlink_loader l a w) = tasks w"
    "length (instances (unlink_loader l a w)) = length (instances w)" "clients (unlink_loader l a w) = clients w"
    "id_cache (unlink_loader l a w) = id_cache w"
  using assms by (simp_all add: unlink_loader_def)

lemma unlink_client_same:
  assumes "a < length (instances w)"
  shows "instances (unlink_client c a w) ! a = (instances w ! a)\<lparr>i_client := None\<rparr>"
    "inst_cache (unlink_client c a w) = inst_cache w" "tasks (unlink_client c a w) = tasks w"
    "length (instances (unlink_client c a w)) = length (instances w)" "length (clients (unlink_client c a w)) = length (clients w)"
    "id_cache (unlink_client c a w) = id_cache w"
  using assms by (simp_all add: unlink_client_def)

lemma unlinked_ok:
  assumes ok: "world_ok w" and a: "cached a w"
  shows "sys w (unlinked a w)" "i_loader (instances (unlinked a w) ! a) = None" "i_client (instances (unlinked a w) ! a) = None"
proof -
  define v where "v = (case i_loader (instances w ! a) of Some l \<Rightarrow> unlink_loader l a w | None \<Rightarrow> w)"
  have al: "a < length (instances w)" using a by (simp add: cached_def)
  have v: "world_ok v" "cached a v" "i_loader (instances v ! a) = None" "i_client (instances v ! a) = i_client (instances w ! a)"
    "tasks v = tasks w" "inst_cache v = inst_cache w" "a < length (instances v)" "length (clients v) = length (clients w)"
    "id_cache v = id_cache w"
    using ok a al world_ok_unlink_loader [OF ok a]
    by (auto simp: v_def cached_def unlink_loader_same split: option.splits)
  have u: "unlinked a w = (case i_client (instances w ! a) of Some c \<Rightarrow> unlink_client c a v | None \<Rightarrow> v)"
    unfolding unlinked_def v_def Let_def ..
  show "sys w (unlinked a w)" "i_loader (instances (unlinked a w) ! a) = None" "i_client (instances (unlinked a w) ! a) = None"
    using v world_ok_unlink_client [OF v(1,2)] by (auto simp: u sys_def unlink_client_same split: option.splits)
qed

text \<open>The world without the instance: its object is left with the dependencies it had.\<close>

definition without_inst :: "nat \<Rightarrow> world \<Rightarrow> world" where
  "without_inst a w = upd_inst a (\<lambda>_. instances w ! a) (forget_inst a (unlinked a w))"

lemma without_inst_ok:
  assumes ok: "world_ok w" and a: "cached a w"
  shows "world_ok (without_inst a w)" "tasks (without_inst a w) = tasks w"
    "inst_cache (without_inst a w) = dict_del (i_id (instances w ! a)) (inst_cache w)" "instances (without_inst a w) = instances w"
    "length (clients w) \<le> length (clients (without_inst a w))" "map_of (id_cache w) \<subseteq>\<^sub>m map_of (id_cache (without_inst a w))"
proof -
  note u = unlinked_ok [OF ok a]
  have u2: "world_ok (unlinked a w)" "cached a (unlinked a w)" using u(1) sys_cached [OF u(1) a] by (simp_all add: sys_def)
  note f = world_ok_forget [OF u2 u(2,3)]
  show "world_ok (without_inst a w)" unfolding without_inst_def by (rule world_ok_uncached [OF f(1)]) (use f(2) in simp)
  have al: "a < length (instances w)" using a by (simp add: cached_def)
  have id: "i_id (instances (unlinked a w) ! a) = i_id (instances w ! a)"
    using cachedD(2) [OF u2(1), of "i_id (instances w ! a)" a] u(1) a by (simp add: sys_def cached_def)
  show "tasks (without_inst a w) = tasks w" "inst_cache (without_inst a w) = dict_del (i_id (instances w ! a)) (inst_cache w)"
    "length (clients w) \<le> length (clients (without_inst a w))" "map_of (id_cache w) \<subseteq>\<^sub>m map_of (id_cache (without_inst a w))"
    using u(1) id by (simp_all add: without_inst_def forget_inst_def sys_def)
  show "instances (without_inst a w) = instances w"
    using al by (simp add: without_inst_def forget_inst_def unlinked_def unlink_loader_def unlink_client_def upd_inst_def
        upd_loader_def upd_client_def Let_def split: option.splits)
qed

lemma inst_delete_start:
  assumes ok: "world_ok w" and a: "cached a w"
  shows "inst_delete E a w =
     bind (if inst_db (instances w ! a) \<noteq> None
           then bind (stop_database E a (without_inst a w)) (\<lambda>_ w. delete_database E a w) else Ok () (without_inst a w)) (\<lambda>_ w.
     Ok () (if inst_webapp (instances w ! a) \<noteq> None then disable_webapp a w else w))"
proof -
  define k where "k = i_id (instances w ! a)"
  have al: "a < length (instances w)" using a by (simp add: cached_def)
  define v where "v = (case i_loader (instances w ! a) of Some l \<Rightarrow> drop_loader_ref l k w | None \<Rightarrow> w)"
  define u where "u = (case i_client (instances w ! a) of Some c \<Rightarrow> drop_client_ref c k v | None \<Rightarrow> v)"
  have v: "clients v = clients w" "inst_cache v = inst_cache w" "instances v = instances w" "inst_table v = inst_table w"
    by (simp_all add: v_def drop_loader_ref_def split: option.splits)
  have ca: "cached a v" using a by (simp add: cached_def v)
  have u: "instances u = instances w" "inst_cache u = inst_cache w" "inst_table u = inst_table w"
    by (simp_all add: u_def drop_client_ref_def v split: option.splits)
  have r1: "(case i_loader (instances w ! a) of Some l \<Rightarrow> unref_loader l a w | None \<Rightarrow> Ok () w) = Ok () v"
    using unref_loader_cached [OF ok a _ refl refl a refl] by (auto simp: v_def k_def split: option.splits)
  have r2: "(case i_client (instances v ! a) of Some c \<Rightarrow> unref_client c a v | None \<Rightarrow> Ok () v) = Ok () u"
    using unref_client_cached [OF ok a _ v(1,2) ca] by (auto simp: u_def k_def v split: option.splits)
  have "without_inst a w = u\<lparr>inst_cache := dict_del k (inst_cache w), inst_table := dict_del k (inst_table w)\<rparr>"
    using al by (auto simp: without_inst_def forget_inst_def unlinked_def unlink_loader_def unlink_client_def upd_inst_def
        upd_loader_def upd_client_def u_def v_def drop_loader_ref_def drop_client_ref_def k_def Let_def split: option.splits)
  then show ?thesis
    using r1 r2 by (simp add: inst_delete_def db_inst_delete_def u v k_def [symmetric] Let_def cong: if_cong)
qed

lemma delete_database_open:
  assumes "inst_db (instances v ! a) \<noteq> None" and "view v = view w"
  shows "keeps_view w (delete_database E a v)"
proof -
  have "keeps_view w (bind (case meta_database_type m of
             SQLALCHEMY \<Rightarrow> trash E (sqlite_db_path E a v) None ''deleted'' v
           | ASYNCPG \<Rightarrow> bind (if inst_db (instances v ! a) = None then start_database E False a v else Ok () v) (\<lambda>_ v.
               case inst_db (instances v ! a) of
                 Some (ProxyPostgres k) \<Rightarrow> Ok () (log_event (DbDelete k) v)
               | _ \<Rightarrow> trash E (sqlite_db_path E a v) None ''deleted'' v)
           | OtherDatabase t \<Rightarrow> Raise (RuntimeError (''Unrecognized database type '' @ t)) v)
        (\<lambda>_ v. Ok () (set_db None a v)))" for m
    using trash_view [OF assms(2)] assms by (intro holds_bind) (auto split: database_type.splits option.splits inst_db.splits)
  then have run: "keeps_view w (delete_database E a v)" if "meta_of a v = Ok m v" for m
    unfolding delete_database_def that bind.simps .
  show ?thesis
  proof (cases "meta_of a v")
    case (Ok m u)
    then show ?thesis using run meta_of_Ok [OF Ok] by simp
  next
    case (Raise e u)
    then have "delete_database E a v = Raise e u" by (simp add: delete_database_def)
    moreover have "view u = view w" using meta_of_view [OF assms(2), of a] Raise by simp
    ultimately show ?thesis by simp
  qed
qed

text \<open>Deleting keeps the invariant however it ends, and drops exactly the instance from the cache.\<close>

lemma inst_delete_ok:
  assumes ok: "world_ok w" and a: "cached a w"
  shows "holds (\<lambda>v. world_ok v \<and> tasks v = tasks w \<and> inst_cache v = dict_del (i_id (instances w ! a)) (inst_cache w)
    \<and> length (clients w) \<le> length (clients v) \<and> map_of (id_cache w) \<subseteq>\<^sub>m map_of (id_cache v)) (inst_delete E a w)"
proof -
  let ?u = "without_inst a w"
  note u = without_inst_ok [OF ok a]
  have db: "keeps_view ?u (if inst_db (instances w ! a) \<noteq> None
       then bind (stop_database E a ?u) (\<lambda>_ w. delete_database E a w) else Ok () ?u)"
  proof (cases "inst_db (instances w ! a)")
    case (Some d)
    have "keeps_view ?u (bind (stop_database E a ?u) (\<lambda>_ w. delete_database E a w))"
    proof (intro holds_bind stop_database_view refl)
      fix x v
      assume s: "stop_database E a ?u = Ok x v" and v: "view v = view ?u"
      have "instances v = instances ?u" using s by (auto simp: stop_database_def perform_eq_Ok split: option.splits inst_db.splits)
      then show "keeps_view ?u (delete_database E a v)" using Some u(4) v by (intro delete_database_open) simp_all
    qed
    then show ?thesis using Some by simp
  qed simp
  have "keeps_view ?u (inst_delete E a w)"
    unfolding inst_delete_start [OF ok a] by (rule holds_bind [OF db]) simp
  then have "sys ?u (state_of (inst_delete E a w))" using sys_view [OF u(1)] by (simp add: holds_def)
  then show ?thesis using u(2,3,5,6) by (auto simp: holds_def sys_def intro: map_le_trans)
qed

end
