(* ===== verification/MB_Lifecycle.thy ===== *)
theory MB_Lifecycle
  imports MB_Instance
begin

text \<open>
  Starting and stopping a client with its plugin instances (\<^verbatim>\<open>maubot/client.py\<close>), stopping and
  starting the instances of a plugin (\<^verbatim>\<open>maubot/loader/abc.py\<close>), and the background tasks that
  retry a failed start.
\<close>

section \<open>Running several coroutines\<close>

text \<open>
  \<^verbatim>\<open>asyncio.gather\<close>: all coroutines run to their end, and the first exception is raised. They are
  run one after the other here, in the order of the list.
\<close>

fun gather :: "('w \<Rightarrow> ('w, unit) res) list \<Rightarrow> 'w \<Rightarrow> ('w, unit) res" where
  "gather [] w = Ok () w"
| "gather (g # gs) w =
     (case g w of
        Ok _ w \<Rightarrow> gather gs w
      | Raise e w \<Rightarrow> Raise e (state_of (gather gs w)))"

definition start_plugins :: "('y, 'c) env \<Rightarrow> nat \<Rightarrow> world \<Rightarrow> (world, unit) res" where
  "start_plugins E a w = gather (map (\<lambda>(k, i). inst_start E i) (c_references (clients w ! a))) w"

definition stop_plugins :: "('y, 'c) env \<Rightarrow> nat \<Rightarrow> world \<Rightarrow> (world, unit) res" where
  "stop_plugins E a w =
     gather (map (\<lambda>(k, i). inst_stop E i)
       (filter (\<lambda>(k, i). i_started (instances w ! i)) (c_references (clients w ! a)))) w"

definition stop_instances :: "('y, 'c) env \<Rightarrow> nat \<Rightarrow> world \<Rightarrow> (world, unit) res" where
  "stop_instances E l w =
     gather (map (\<lambda>(k, i). inst_stop E i)
       (filter (\<lambda>(k, i). i_started (instances w ! i)) (l_references (loaders w ! l)))) w"

definition start_instances :: "('y, 'c) env \<Rightarrow> nat \<Rightarrow> world \<Rightarrow> (world, unit) res" where
  "start_instances E l w =
     gather (map (\<lambda>(k, i). inst_start E i)
       (filter (\<lambda>(k, i). i_enabled (instances w ! i)) (l_references (loaders w ! l)))) w"

section \<open>Starting a client\<close>

text \<open>\<^verbatim>\<open>self.enabled = False; await self.update()\<close>.\<close>

definition disable_client :: "nat \<Rightarrow> world \<Rightarrow> (world, unit) res" where
  "disable_client a w = client_update a (upd_client a (\<lambda>c. c\<lparr>c_enabled := False\<rparr>) w)"

definition ask_whoami :: "('y, 'c) env \<Rightarrow> nat \<Rightarrow> world \<Rightarrow> (world, string \<times> string) res" where
  "ask_whoami E a w =
     (let k = c_id (clients w ! a) in
      bind (perform (Versions k) (net_versions E (trace w) (client_mx a w)) w) (\<lambda>_ w.
      query (Whoami k) (net_whoami E (trace w) (client_mx a w)) w))"

text \<open>The handlers of the first \<^verbatim>\<open>try\<close> block of \<^verbatim>\<open>_start\<close>.\<close>

definition whoami_failed :: "nat \<Rightarrow> nat \<Rightarrow> exn \<Rightarrow> world \<Rightarrow> (world, unit) res" where
  "whoami_failed try_n a e w =
     (case e of
        MatrixInvalidToken _ \<Rightarrow> disable_client a w
      | SystemExit n \<Rightarrow> Raise (SystemExit n) w
      | _ \<Rightarrow> if 8 \<le> try_n then disable_client a w
             else Ok () (w\<lparr>tasks := tasks w @ [StartClient a (try_n + 1)]\<rparr>))"

definition ensure_filter :: "('y, 'c) env \<Rightarrow> nat \<Rightarrow> world \<Rightarrow> (world, unit) res" where
  "ensure_filter E a w =
     (let c = clients w ! a in
      if filter_id c \<noteq> [] then Ok () w
      else bind (query (CreateFilter (c_id c)) (net_create_filter E (trace w) (client_mx a w)) w)
             (\<lambda>f w. client_update a (upd_client a (\<lambda>c. c\<lparr>filter_id := f\<rparr>) w)))"

definition push_profile :: "('y, 'c) env \<Rightarrow> nat \<Rightarrow> world \<Rightarrow> (world, unit) res" where
  "push_profile E a w =
     (let c = clients w ! a in
      bind (if displayname c \<noteq> ''disable''
            then perform (SetDisplayname (c_id c) (displayname c))
                   (net_set_displayname E (trace w) (client_mx a w) (displayname c)) w else Ok () w) (\<lambda>_ w.
      if avatar_url c \<noteq> ''disable''
      then perform (SetAvatarUrl (c_id c) (avatar_url c))
             (net_set_avatar_url E (trace w) (client_mx a w) (avatar_url c)) w else Ok () w))"

text \<open>The part of \<^verbatim>\<open>_start\<close> after the identity of the client has been checked.\<close>

definition start_checked :: "('y, 'c) env \<Rightarrow> nat \<Rightarrow> world \<Rightarrow> (world, unit) res" where
  "start_checked E a w =
     bind (ensure_filter E a w) (\<lambda>_ w.
     bind (push_profile E a w) (\<lambda>_ w.
     bind (if crypto (clients w ! a) then start_crypto E a w else Ok () w) (\<lambda>_ w.
     bind (update_remote_profile E a (start_sync a w)) (\<lambda>_ w.
     start_plugins E a (upd_client a (\<lambda>c. c\<lparr>c_started := True\<rparr>) w)))))"

definition client_start_inner :: "('y, 'c) env \<Rightarrow> nat \<Rightarrow> nat \<Rightarrow> world \<Rightarrow> (world, unit) res" where
  "client_start_inner E try_n a w =
     (let c = clients w ! a in
      if \<not> c_enabled c then Ok () w
      else if c_started c then Ok () w
      else case ask_whoami E a w of
        Raise e w \<Rightarrow> whoami_failed try_n a e w
      | Ok (user_id, dev) w \<Rightarrow>
          if user_id \<noteq> c_id c then disable_client a w
          else if dev \<noteq> [] \<and> device_id c \<noteq> [] \<and> dev \<noteq> device_id c then disable_client a w
          else start_checked E a w)"

text \<open>\<^verbatim>\<open>start\<close> sleeps before a retry and logs every exception.\<close>

definition client_start :: "('y, 'c) env \<Rightarrow> nat \<Rightarrow> nat \<Rightarrow> world \<Rightarrow> (world, unit) res" where
  "client_start E try_n a w = swallow (client_start_inner E try_n a w)"

definition client_stop :: "('y, 'c) env \<Rightarrow> nat \<Rightarrow> world \<Rightarrow> (world, unit) res" where
  "client_stop E a w =
     (if \<not> c_started (clients w ! a) then Ok () w
      else bind (stop_plugins E a (upd_client a (\<lambda>c. c\<lparr>c_started := False\<rparr>) w)) (\<lambda>_ w.
        let w = stop_sync a w in
        if crypto (clients w ! a) then crypto_do E ''close'' a w else Ok () w))"

definition client_update_started :: "('y, 'c) env \<Rightarrow> bool option \<Rightarrow> nat \<Rightarrow> world \<Rightarrow> (world, unit) res" where
  "client_update_started E started a w =
     (if started = None \<or> started = Some (c_started (clients w ! a)) then Ok () w
      else if the started then client_start E 0 a w else client_stop E a w)"

section \<open>Background tasks\<close>

fun run_task :: "('y, 'c) env \<Rightarrow> task \<Rightarrow> world \<Rightarrow> (world, unit) res" where
  "run_task E (StartClient a n) w = client_start E n a w"
| "run_task E (SaveInstance a) w = inst_update a w"

text \<open>The event loop runs the oldest task.\<close>

definition run_next :: "('y, 'c) env \<Rightarrow> world \<Rightarrow> world" where
  "run_next E w =
     (case tasks w of
        [] \<Rightarrow> w
      | t # ts \<Rightarrow> state_of (run_task E t (w\<lparr>tasks := ts\<rparr>)))"

section \<open>The task queue\<close>

text \<open>Nothing but a failed \<^verbatim>\<open>whoami\<close> adds to the queue.\<close>

abbreviation same_tasks :: "task list \<Rightarrow> (world, 'a) res \<Rightarrow> bool" where
  "same_tasks ts r \<equiv> holds (\<lambda>v. tasks v = ts) r"

named_theorems queue_intros

lemma tasks_simps [simp]:
  "tasks (w\<lparr>srv := s\<rparr>) = tasks w" "tasks (set_db d a w) = tasks w" "tasks (enable_webapp a w) = tasks w"
  "tasks (disable_webapp a w) = tasks w" "tasks (sync_webapp m a w) = tasks w" "tasks (add_reference a w) = tasks w"
  "tasks (upd_mx c f w) = tasks w" "tasks (start_sync a w) = tasks w" "tasks (stop_sync a w) = tasks w"
  by (simp_all add: set_db_def enable_webapp_def disable_webapp_def sync_webapp_def add_reference_def upd_mx_def
      start_sync_def stop_sync_def Let_def split: prod.splits option.splits)

lemma inst_update_queue [queue_intros]: "tasks w = ts \<Longrightarrow> same_tasks ts (inst_update a w)"
  by (simp add: inst_update_def db_inst_update_def)

lemma client_update_queue [queue_intros]: "tasks w = ts \<Longrightarrow> same_tasks ts (client_update a w)"
  by (simp add: client_update_def db_client_update_def)

lemma fail_load_queue [queue_intros]: "tasks w = ts \<Longrightarrow> same_tasks ts (fail_load a w)"
  unfolding fail_load_def by (intro holds_bind) (auto simp: inst_update_enabled_def intro: queue_intros)

lemma meta_of_queue [queue_intros]: "tasks w = ts \<Longrightarrow> same_tasks ts (meta_of a w)"
  by (simp add: meta_of_def split: option.split)

lemma start_database_queue [queue_intros]: "tasks w = ts \<Longrightarrow> same_tasks ts (start_database E b a w)"
  unfolding start_database_def open_asyncpg_def
  by (intro holds_bind meta_of_queue)
    (auto simp: Let_def update_db_engine_def intro!: holds_bind queue_intros split: database_type.split option.split database_engine.split)

lemma or_disable_queue [queue_intros]: "same_tasks ts r \<Longrightarrow> same_tasks ts (or_disable a r)"
  unfolding or_disable_def by (intro holds_catch holds_bind) (auto intro: queue_intros)

lemma load_base_config_queue [queue_intros]: "tasks w = ts \<Longrightarrow> same_tasks ts (load_base_config E a w)"
  by (simp add: load_base_config_def Let_def split: sum.split)

lemma register_queue [simp]: "tasks (register_handler_class attrs a w) = tasks w"
proof -
  have ev: "tasks (fold (\<lambda>t. register_event (g t) a) ts v) = tasks v" for g and ts :: "string list" and v
    by (induction ts arbitrary: v) (simp_all add: register_event_def)
  have "tasks (register_web at a v) = tasks v" for at v
    by (simp add: register_web_def upd_webapp_def split: option.split)
  then have "tasks (register_attr a at v) = tasks v" for at v by (simp add: register_attr_def ev)
  then show ?thesis by (induction attrs arbitrary: w) (simp_all add: register_handler_class_def)
qed

lemma start_plugin_queue [queue_intros]: "tasks w = ts \<Longrightarrow> same_tasks ts (start_plugin E cls a w)"
  unfolding start_plugin_def internal_start_def Let_def by (auto intro!: holds_bind or_disable_queue)

lemma on_loader_load_queue [queue_intros]: "tasks w = ts \<Longrightarrow> same_tasks ts (on_loader l (load E reset) w)"
proof -
  assume w: "tasks w = ts"
  let ?s = "state_of (load E reset (loaders w ! l, w))"
  have "frame (snd ?s) = frame w" using load_keeps [of "(loaders w ! l, w)" E reset] by (simp add: holds_def keeps_def)
  from frame_eqD(5) [OF this] have "lworld.more (snd ?s) = lworld.more w" .
  then have "tasks (snd ?s) = tasks w"
    by (cases "snd ?s" rule: world.cases_scheme; cases w rule: world.cases_scheme) simp
  then show ?thesis using w by (simp add: holds_def state_on_loader commit_def)
qed

lemma client_get_queue [queue_intros]: "tasks w = ts \<Longrightarrow> same_tasks ts (client_get E hs token dev k w)"
  by (cases rule: client_get_cases [of w k E hs token dev]) (auto simp: with_client_def)

lemma inst_load_queue [queue_intros]: "tasks w = ts \<Longrightarrow> same_tasks ts (inst_load E a w)"
proof -
  have "same_tasks ts (load_client E a v)" if "tasks v = ts" for v
    using that unfolding load_client_def by (auto intro!: holds_bind queue_intros split: option.split)
  moreover have "same_tasks ts (load_loader a v)" if "tasks v = ts" for v
    using that by (auto simp: load_loader_def intro: queue_intros split: sum.split)
  ultimately show "tasks w = ts \<Longrightarrow> same_tasks ts (inst_load E a w)"
    unfolding inst_load_def by (auto intro!: holds_bind queue_intros)
qed

lemma inst_start_queue [queue_intros]: "tasks w = ts \<Longrightarrow> same_tasks ts (inst_start E a w)"
  unfolding inst_start_def start_loaded_def Let_def by (auto intro!: holds_bind queue_intros)

lemma gather_queue: "tasks w = ts \<Longrightarrow> (\<And>g v. g \<in> set gs \<Longrightarrow> tasks v = ts \<Longrightarrow> same_tasks ts (g v)) \<Longrightarrow> same_tasks ts (gather gs w)"
proof (induction gs arbitrary: w)
  case (Cons g gs)
  have g: "same_tasks ts (g w)" using Cons.prems by simp
  have "same_tasks ts (gather gs v)" if "tasks v = ts" for v using Cons that by simp
  then show ?case using g by (cases "g w") (simp_all add: holds_def)
qed simp

lemma start_checked_queue: "same_tasks (tasks w) (start_checked E a w)"
proof -
  have cr: "same_tasks ts (start_crypto E a v)" if "tasks v = ts" for v ts
    using that unfolding start_crypto_def crypto_do_def Let_def by (auto intro!: holds_bind)
  have pl: "same_tasks ts (start_plugins E a v)" if "tasks v = ts" for v ts
    unfolding start_plugins_def by (rule gather_queue [OF that]) (auto intro: queue_intros)
  have rp: "same_tasks ts (update_remote_profile E a v)" if "tasks v = ts" for v ts
    using that unfolding update_remote_profile_def by (auto intro!: holds_catch holds_bind)
  show ?thesis
    unfolding start_checked_def ensure_filter_def push_profile_def Let_def
    by (auto intro!: holds_bind client_update_queue cr pl rp)
qed

lemma disable_client_queue: "same_tasks (tasks w) (disable_client a w)"
  unfolding disable_client_def by (rule client_update_queue) simp

text \<open>How the queue changes when a client is started.\<close>

lemma client_start_queue:
  "tasks (state_of (client_start E n a w)) = tasks w
   \<or> n < 8 \<and> tasks (state_of (client_start E n a w)) = tasks w @ [StartClient a (n + 1)]"
proof -
  have who: "tasks (state_of (ask_whoami E a w)) = tasks w"
    by (auto simp: ask_whoami_def Let_def perform_def query_def split: option.split sum.split)
  have st: "tasks (state_of (swallow r)) = tasks (state_of r)" for r by (cases r) (simp_all add: swallow_def)
  have failed: "tasks (state_of (whoami_failed n a e v)) = tasks v
      \<or> n < 8 \<and> tasks (state_of (whoami_failed n a e v)) = tasks v @ [StartClient a (n + 1)]" for e v
    using disable_client_queue [of v a] by (auto simp: whoami_failed_def holds_def split: exn.split)
  have dis: "tasks (state_of (disable_client a v)) = tasks v" "tasks (state_of (start_checked E a v)) = tasks v" for v
    using disable_client_queue start_checked_queue by (simp_all add: holds_def)
  show ?thesis
  proof (cases "ask_whoami E a w")
    case (Ok x v)
    then show ?thesis using who by (cases x) (simp add: client_start_def st client_start_inner_def Let_def dis)
  next
    case (Raise e v)
    then show ?thesis using who failed [of e v] by (simp add: client_start_def st client_start_inner_def Let_def)
  qed
qed

text \<open>The steps that a task may still take.\<close>

fun task_weight :: "task \<Rightarrow> nat" where
  "task_weight (StartClient a n) = Suc (8 - n)"
| "task_weight (SaveInstance a) = 1"

definition queue_weight :: "world \<Rightarrow> nat" where
  "queue_weight w = sum_list (map task_weight (tasks w))"

lemma run_next_weight:
  assumes "tasks w \<noteq> []"
  shows "queue_weight (run_next E w) < queue_weight w"
proof -
  obtain t ts where w: "tasks w = t # ts" using assms by (cases "tasks w") auto
  let ?w = "w\<lparr>tasks := ts\<rparr>"
  show ?thesis
  proof (cases t)
    case (StartClient a n)
    then show ?thesis
      using client_start_queue [of E n a ?w] w by (auto simp: run_next_def queue_weight_def)
  next
    case (SaveInstance a)
    have "tasks (state_of (inst_update a ?w)) = ts" using inst_update_queue [of ?w ts a] by (simp add: holds_def)
    then show ?thesis using SaveInstance w by (simp add: run_next_def queue_weight_def)
  qed
qed


section \<open>Who a client is\<close>

lemma clients_update [simp]: "clients (state_of (client_update a w)) = clients w"
  by (simp add: client_update_def db_client_update_def)

lemma disable_client_clients: "clients (state_of (disable_client a w)) = clients (upd_client a (\<lambda>c. c\<lparr>c_enabled := False\<rparr>) w)"
  by (simp add: disable_client_def)

lemma ask_whoami_clients: "clients (state_of (ask_whoami E a w)) = clients w"
  by (auto simp: ask_whoami_def Let_def perform_def query_def split: option.split sum.split)

lemma state_swallow [simp]: "state_of (swallow r) = state_of r"
  by (cases r) (simp_all add: swallow_def)

text \<open>
  C14. A client runs only under the identity that the homeserver confirms: if an attempt to start leaves
  the client running, then the server answered, said that the token belongs to the client's
  user, and named the client's device, or one of the two sides did not name any.
\<close>

theorem start_confirms_identity:
  assumes "a < length (clients w)" and "\<not> c_started (clients w ! a)" and "c_started (clients (state_of (client_start E n a w)) ! a)"
  shows "c_enabled (clients w ! a) \<and> net_versions E (trace w) (client_mx a w) = None
    \<and> (\<exists>dev. net_whoami E (trace w @ [Versions (c_id (clients w ! a))]) (client_mx a w) = Inr (c_id (clients w ! a), dev)
         \<and> (dev = [] \<or> device_id (clients w ! a) = [] \<or> dev = device_id (clients w ! a)))"
proof -
  have dis: "\<not> c_started (clients (state_of (disable_client a v)) ! a)" if "clients v = clients w" for v
    using assms(1,2) that by (simp add: disable_client_clients)
  have failed: "\<not> c_started (clients (state_of (whoami_failed n a e v)) ! a)" if "clients v = clients w" for e v
    using dis [OF that] assms(2) that by (auto simp: whoami_failed_def split: exn.split)
  have en: "c_enabled (clients w ! a)"
  proof (rule ccontr)
    assume "\<not> c_enabled (clients w ! a)"
    then have "state_of (client_start E n a w) = w" by (simp add: client_start_def client_start_inner_def Let_def)
    then show False using assms(2,3) by simp
  qed
  show ?thesis
  proof (cases "ask_whoami E a w")
    case (Raise e v)
    then have "clients v = clients w" using ask_whoami_clients [of E a w] by simp
    then show ?thesis using failed assms(2,3) Raise en by (simp add: client_start_def client_start_inner_def Let_def)
  next
    case (Ok r v)
    obtain user dev where r: "r = (user, dev)" by (cases r)
    have v: "clients v = clients w" using ask_whoami_clients [of E a w] Ok by simp
    have "user = c_id (clients w ! a) \<and> \<not> (dev \<noteq> [] \<and> device_id (clients w ! a) \<noteq> [] \<and> dev \<noteq> device_id (clients w ! a))"
      using assms(2,3) Ok r en dis [OF v] by (auto simp: client_start_def client_start_inner_def Let_def split: if_splits)
    moreover have "net_versions E (trace w) (client_mx a w) = None \<and>
        net_whoami E (trace w @ [Versions (c_id (clients w ! a))]) (client_mx a w) = Inr (user, dev)"
      using Ok r by (auto simp: ask_whoami_def Let_def bind_eq_Ok perform_eq_Ok query_eq_Ok client_mx_def log_event_def)
    ultimately show ?thesis using en by auto
  qed
qed

section \<open>A server that cannot be reached\<close>

definition ordinary :: "exn \<Rightarrow> bool" where
  "ordinary e \<longleftrightarrow> (case e of MatrixInvalidToken _ \<Rightarrow> False | SystemExit _ \<Rightarrow> False | _ \<Rightarrow> True)"

lemma whoami_failed_ordinary:
  "ordinary e \<Longrightarrow> whoami_failed n a e w =
     (if 8 \<le> n then disable_client a w else Ok () (w\<lparr>tasks := tasks w @ [StartClient a (n + 1)]\<rparr>))"
  by (simp add: whoami_failed_def ordinary_def split: exn.splits)

lemma trace_disable [simp]: "trace (state_of (disable_client a w)) = trace w" "tasks (state_of (disable_client a w)) = tasks w"
  by (simp_all add: disable_client_def client_update_def db_client_update_def)

text \<open>
  C11. An unreachable homeserver. As long as the server cannot be reached, a start is attempted nine times in all;
  then the client is disabled, is not running, and no further attempt is queued.
\<close>

theorem unreachable_server_disables:
  assumes "a < length (clients w)" and "c_enabled (clients w ! a)" and "\<not> c_started (clients w ! a)"
    and "tasks w = [StartClient a n]" and "n \<le> 8"
    and down: "\<And>t m. \<exists>e. net_versions E t m = Some e \<and> ordinary e"
  shows "let v = (run_next E ^^ (9 - n)) w in \<not> c_enabled (clients v ! a) \<and> \<not> c_started (clients v ! a) \<and> tasks v = []
    \<and> trace v = trace w @ replicate (9 - n) (Versions (c_id (clients w ! a)))"
  using assms(1-5)
proof (induction "8 - n" arbitrary: n w)
  case step: 0
  then have n: "n = 8" by simp
  let ?w = "w\<lparr>tasks := []\<rparr>"
  obtain e where e: "net_versions E (trace w) (client_mx a w) = Some e" "ordinary e" using down by blast
  have "ask_whoami E a ?w = Raise e (log_event (Versions (c_id (clients w ! a))) ?w)"
    using e by (simp add: ask_whoami_def Let_def perform_def client_mx_def)
  then have "state_of (client_start E n a ?w) = state_of (disable_client a (log_event (Versions (c_id (clients w ! a))) ?w))"
    using step e n by (simp add: client_start_def client_start_inner_def Let_def whoami_failed_ordinary)
  then have "run_next E w = state_of (disable_client a (log_event (Versions (c_id (clients w ! a))) ?w))"
    using step by (simp add: run_next_def)
  then show ?case using step n by (simp add: disable_client_clients log_event_def Let_def)
next
  case (Suc k)
  let ?w = "w\<lparr>tasks := []\<rparr>" and ?u = "c_id (clients w ! a)"
  have n: "n < 8" "9 - n = Suc (9 - Suc n)" using Suc.hyps(2) by auto
  obtain e where e: "net_versions E (trace w) (client_mx a w) = Some e" "ordinary e" using down by blast
  have "ask_whoami E a ?w = Raise e (log_event (Versions ?u) ?w)"
    using e by (simp add: ask_whoami_def Let_def perform_def client_mx_def)
  then have next1: "run_next E w = (log_event (Versions ?u) ?w)\<lparr>tasks := [StartClient a (Suc n)]\<rparr>"
    using Suc.prems e n(1) by (simp add: run_next_def client_start_def client_start_inner_def Let_def whoami_failed_ordinary)
  let ?v = "run_next E w"
  have v: "clients ?v = clients w" "tasks ?v = [StartClient a (Suc n)]" "trace ?v = trace w @ [Versions ?u]"
    by (simp_all add: next1 log_event_def)
  have "let v = (run_next E ^^ (9 - Suc n)) ?v in \<not> c_enabled (clients v ! a) \<and> \<not> c_started (clients v ! a) \<and> tasks v = []
      \<and> trace v = trace ?v @ replicate (9 - Suc n) (Versions (c_id (clients ?v ! a)))"
    using Suc.hyps(2) Suc.prems n(1) by (intro Suc.hyps(1)) (simp_all add: v)
  then show ?case by (simp add: n(2) funpow_swap1 v Let_def)
qed

section \<open>Examples\<close>

definition ex_down :: "(unit, bytes) env" where
  "ex_down = ex_who\<lparr>net_versions := \<lambda>_ _. Some (MatrixConnectionError [])\<rparr>"

theorem unreachable_server_disables_witness:
  "let v = (run_next ex_down ^^ 9) (ex_store1\<lparr>tasks := [StartClient 0 0]\<rparr>) in
     \<not> c_enabled (clients v ! 0) \<and> tasks v = [] \<and> trace v = replicate 9 (Versions ''@a:b'')"
proof -
  let ?w = "ex_store1\<lparr>tasks := [StartClient 0 0]\<rparr>"
  have "trace ?w = []" "c_id (clients ?w ! 0) = ''@a:b''" by (simp_all add: ex_client_fields)
  moreover have "\<exists>e. net_versions ex_down t m = Some e \<and> ordinary e" for t m
    by (simp add: ex_down_def ordinary_def)
  ultimately show ?thesis
    using unreachable_server_disables [of 0 ?w 0 ex_down] by (simp add: ex_client_fields Let_def)
qed

lemma ex_client_start: "c_started (clients (state_of (client_start ex_who 0 0 ex_store1)) ! 0)"
proof -
  let ?w = "log_event (Whoami ''@a:b'') (log_event (Versions ''@a:b'') ex_store1)"
  have who: "ask_whoami ex_who 0 ex_store1 = Ok (''@a:b'', []) ?w"
    by (simp add: ask_whoami_def Let_def perform_def query_def ex_client_fields) (simp add: ex_who_def)
  define c where "c = ex_client\<lparr>filter_id := ''f1''\<rparr>"
  have c: "c_id c = ''@a:b''" "displayname c = ''disable''" "avatar_url c = ''disable''" "\<not> crypto c" "c_references c = []" "c_sync c"
    by (simp_all add: c_def ex_client_fields)
  obtain v where v: "ensure_filter ex_who 0 ?w = Ok () v" "clients v = [c]"
    by (simp add: ensure_filter_def Let_def query_def ex_client_fields client_update_def db_client_update_def row_complete_def
        client_row_of_def client_row.defs c_def upd_client_def in_dict_def ex_who_def)
  have p: "net_profile ex_who t m = Inr (None, None)" for t m by (simp add: ex_who_def)
  have "c_started (clients (state_of (start_checked ex_who 0 ?w)) ! 0)"
    by (simp add: start_checked_def v push_profile_def Let_def c start_plugins_def update_remote_profile_def start_sync_def
        query_def upd_mx_def upd_client_def p)
  then show ?thesis by (simp add: client_start_def client_start_inner_def Let_def who ex_client_fields)
qed

theorem start_confirms_identity_witness:
  "c_started (clients (state_of (client_start ex_who 0 0 ex_store1)) ! 0)
    \<and> (\<exists>dev. net_whoami ex_who [Versions ''@a:b''] (client_mx 0 ex_store1) = Inr (''@a:b'', dev))"
proof -
  have "0 < length (clients ex_store1)" "\<not> c_started (clients ex_store1 ! 0)" by (simp_all add: ex_client_fields)
  from start_confirms_identity [OF this ex_client_start] ex_client_start show ?thesis by (auto simp: ex_client_fields)
qed

end
