(* ===== verification/MB_Management.thy ===== *)
theory MB_Management
  imports MB_Lifecycle MB_Responses
begin

text \<open>
  The request handlers of the management API that work on the objects: instances
  (\<^verbatim>\<open>management/api/instance.py\<close>), plugins (\<^verbatim>\<open>plugin.py\<close>, \<^verbatim>\<open>plugin_upload.py\<close>) and clients
  (\<^verbatim>\<open>client.py\<close>). A handler returns its response or raises; the error middleware and the
  authentication around it are modelled with the server.

  A request body is the record of the fields the handlers read, with the types that
  \<^verbatim>\<open>spec.yaml\<close> gives them; a missing field is \<open>None\<close>, and so is the record of a body that is not
  JSON. The second record of parameters is what the handlers take from outside the program: the
  upload directory, whether SQLAlchemy is installed, equality of \<^verbatim>\<open>packaging\<close> versions, the clock,
  the text of exceptions, and the calls of new clients and of the encryption library.
\<close>

section \<open>Requests\<close>

record inst_data =
  d_id :: "string option"
  d_type :: "string option"
  d_primary_user :: "string option"
  d_enabled :: "bool option"
  d_started :: "bool option"
  d_config :: "string option"

record client_data =
  d_homeserver :: "string option"
  d_access_token :: "string option"
  d_device_id :: "string option"
  d_cenabled :: "bool option"
  d_cstarted :: "bool option"
  d_sync :: "bool option"
  d_autojoin :: "bool option"
  d_online :: "bool option"
  d_displayname :: "string option"
  d_avatar_url :: "string option"

record api =
  upload_directory :: ustring
  has_alchemy :: bool
  same_version :: "string \<Rightarrow> string \<Rightarrow> bool"
  now_ms :: string
  may_write :: "ustring \<Rightarrow> bool"
  py_str :: "exn \<Rightarrow> string"
  py_traceback :: "exn \<Rightarrow> string"
  net_new_whoami :: "event list \<Rightarrow> string option \<Rightarrow> string option \<Rightarrow> exn + (string \<times> string)"
  crypto_own_keys :: "event list \<Rightarrow> string \<Rightarrow> exn + bool"
  crypto_recovery_key :: "event list \<Rightarrow> string \<Rightarrow> exn + string"
  crypto_fingerprint :: "string \<Rightarrow> string option"

definition dict_default :: "'a \<Rightarrow> 'a option \<Rightarrow> 'a" where
  "dict_default d x = (case x of Some v \<Rightarrow> v | None \<Rightarrow> d)"

section \<open>Instances\<close>

definition get_instances :: "('y, 'c) env \<Rightarrow> world \<Rightarrow> (world, web_response) res" where
  "get_instances E w = Ok (resp_found (JArr (map (\<lambda>(k, a). inst_to_dict E a w) (inst_cache w)))) w"

definition get_instance :: "('y, 'c) env \<Rightarrow> string \<Rightarrow> world \<Rightarrow> (world, web_response) res" where
  "get_instance E k w =
     bind (inst_get None None (str_lower k) w) (\<lambda>i w.
     case i of
       None \<Rightarrow> Ok resp_instance_not_found w
     | Some a \<Rightarrow> Ok (resp_found (inst_to_dict E a w)) w)"

definition create_instance :: "('y, 'c) env \<Rightarrow> string \<Rightarrow> inst_data \<Rightarrow> world \<Rightarrow> (world, web_response) res" where
  "create_instance E k d w =
     (if \<not> opt_truthy (d_type d) then Ok resp_plugin_type_required w
      else if \<not> opt_truthy (d_primary_user d) then Ok resp_primary_user_required w
      else bind (client_get E None None None (the (d_primary_user d)) w) (\<lambda>c w.
      if c = None then Ok resp_primary_user_not_found w
      else case find_plugin (the (d_type d)) w of
        Inl _ \<Rightarrow> Ok resp_plugin_type_not_found w
      | Inr _ \<Rightarrow>
          bind (inst_get (d_type d) (d_primary_user d) k w) (\<lambda>i w.
          case i of
            None \<Rightarrow> Raise AttributeError w
          | Some a \<Rightarrow>
              let w = upd_inst a (\<lambda>i. i\<lparr>i_enabled := dict_default True (d_enabled d), config_str := dict_default [] (d_config d)\<rparr>) w in
              bind (inst_update a w) (\<lambda>_ w.
              bind (inst_load E a w) (\<lambda>_ w.
              bind (inst_start E a w) (\<lambda>_ w.
              Ok (resp_created (inst_to_dict E a w)) w))))))"

definition update_instance_from :: "('y, 'c) env \<Rightarrow> nat \<Rightarrow> inst_data \<Rightarrow> world \<Rightarrow> (world, web_response) res" where
  "update_instance_from E a d w =
     bind (update_primary_user E (d_primary_user d) a w) (\<lambda>ok w.
     if \<not> ok then Ok resp_primary_user_not_found w
     else bind (update_id (d_id d) a w) (\<lambda>_ w.
       bind (inst_update_enabled (d_enabled d) a w) (\<lambda>_ w.
       bind (update_config E (d_config d) a w) (\<lambda>_ w.
       bind (inst_update_started E (d_started d) a w) (\<lambda>_ w.
       bind (update_type E (d_type d) a w) (\<lambda>_ w.
       Ok (resp_updated (inst_to_dict E a w) False) w))))))"

definition update_instance :: "('y, 'c) env \<Rightarrow> string \<Rightarrow> inst_data option \<Rightarrow> world \<Rightarrow> (world, web_response) res" where
  "update_instance E k data w =
     bind (inst_get None None (str_lower k) w) (\<lambda>i w.
     case data of
       None \<Rightarrow> Ok resp_body_not_json w
     | Some d \<Rightarrow> (case i of None \<Rightarrow> create_instance E (str_lower k) d w | Some a \<Rightarrow> update_instance_from E a d w))"

definition delete_instance :: "('y, 'c) env \<Rightarrow> string \<Rightarrow> world \<Rightarrow> (world, web_response) res" where
  "delete_instance E k w =
     bind (inst_get None None (str_lower k) w) (\<lambda>i w.
     case i of
       None \<Rightarrow> Ok resp_instance_not_found w
     | Some a \<Rightarrow>
         bind (if i_started (instances w ! a) then inst_stop E a w else Ok () w) (\<lambda>_ w.
         bind (inst_delete E a w) (\<lambda>_ w. Ok resp_deleted w)))"

section \<open>Plugins\<close>

definition get_plugins :: "('y, 'c) env \<Rightarrow> world \<Rightarrow> (world, web_response) res" where
  "get_plugins E w = Ok (resp_found (JArr (map (\<lambda>(k, a). loader_to_dict E a w) (id_cache w)))) w"

definition get_plugin :: "('y, 'c) env \<Rightarrow> string \<Rightarrow> world \<Rightarrow> (world, web_response) res" where
  "get_plugin E k w =
     (case map_of (id_cache w) k of
        None \<Rightarrow> Ok resp_plugin_not_found w
      | Some l \<Rightarrow> Ok (resp_found (loader_to_dict E l w)) w)"

definition delete_plugin :: "('y, 'c) env \<Rightarrow> string \<Rightarrow> world \<Rightarrow> (world, web_response) res" where
  "delete_plugin E k w =
     (case map_of (id_cache w) k of
        None \<Rightarrow> Ok resp_plugin_not_found w
      | Some l \<Rightarrow>
          if 0 < length (l_references (loaders w ! l)) then Ok resp_plugin_in_use w
          else bind (on_loader l (loader_delete E) w) (\<lambda>_ w. Ok resp_deleted w))"

definition reload_plugin :: "('y, 'c) env \<Rightarrow> api \<Rightarrow> string \<Rightarrow> world \<Rightarrow> (world, web_response) res" where
  "reload_plugin E A k w =
     (case map_of (id_cache w) k of
        None \<Rightarrow> Ok resp_plugin_not_found w
      | Some l \<Rightarrow>
          bind (stop_instances E l w) (\<lambda>_ w.
          case on_loader l (reload E l None) w of
            Raise e w \<Rightarrow>
              if is_maubot_zip_import_error e then Ok (resp_plugin_reload_error (py_str A e) (py_traceback A e)) w
              else Raise e w
          | Ok _ w \<Rightarrow> bind (start_instances E l w) (\<lambda>_ w. Ok resp_ok w)))"

section \<open>Uploading plugins\<close>

text \<open>\<^verbatim>\<open>open(path, "wb")\<close> and \<^verbatim>\<open>write\<close>.\<close>

definition write_file :: "api \<Rightarrow> ustring \<Rightarrow> bytes \<Rightarrow> world \<Rightarrow> (world, unit) res" where
  "write_file A path content w =
     (if fs w path = NotRegular \<or> \<not> may_write A path then Raise OSError w
      else Ok () (w\<lparr>fs := (fs w)(path := Regular (Some content))\<rparr>))"

definition upload_new_plugin ::
    "('y, 'c) env \<Rightarrow> api \<Rightarrow> bytes \<Rightarrow> string \<Rightarrow> string \<Rightarrow> world \<Rightarrow> (world, web_response) res" where
  "upload_new_plugin E A content pid version w =
     (let path = os_path_join (upload_directory A) (ustr (pid @ ''-v'' @ version @ ''.mbp'')) in
      bind (write_file A path content w) (\<lambda>_ w.
      case get_loader E path w of
        Raise e w \<Rightarrow>
          if is_maubot_zip_import_error e
          then bind (trash E path None ''error'' w) (\<lambda>_ w. Ok (resp_plugin_import_error (py_str A e) (py_traceback A e)) w)
          else Raise e w
      | Ok l w \<Rightarrow> Ok (resp_created (loader_to_dict E l w)) w))"

text \<open>
  The file name of a replacement. \<^verbatim>\<open>re.sub\<close> replaces every occurrence of the old version, with the
  time stamp that may follow it; a version is never the empty string.
\<close>

definition drop_timestamp :: "ustring \<Rightarrow> ustring" where
  "drop_timestamp s =
     (if take 3 s = ustr ''-ts'' \<and> drop 3 s \<noteq> [] \<and> 48 \<le> hd (drop 3 s) \<and> hd (drop 3 s) \<le> 57
      then dropWhile (\<lambda>c. 48 \<le> c \<and> c \<le> 57) (drop 3 s) else s)"

function sub_version :: "ustring \<Rightarrow> ustring \<Rightarrow> ustring \<Rightarrow> ustring" where
  "sub_version v r [] = []"
| "sub_version v r (c # s) =
     (if v \<noteq> [] \<and> take (length v) (c # s) = v then r @ sub_version v r (drop_timestamp (drop (length v) (c # s)))
      else c # sub_version v r s)"
  by pat_completeness auto

lemma length_drop_timestamp: "length (drop_timestamp s) \<le> length s"
  using length_dropWhile_le [of "\<lambda>c. 48 \<le> c \<and> c \<le> 57" "drop 3 s"] by (auto simp: drop_timestamp_def)

termination sub_version
proof (relation "measure (\<lambda>(v, r, s). length s)")
  fix v r s :: ustring and c
  assume "v \<noteq> [] \<and> take (length v) (c # s) = v"
  then show "((v, r, drop_timestamp (drop (length v) (c # s))), v, r, c # s) \<in> measure (\<lambda>(v, r, s). length s)"
    using length_drop_timestamp [of "drop (length v) (c # s)"] by (cases v) auto
qed simp_all

fun occurs :: "ustring \<Rightarrow> ustring \<Rightarrow> bool" where
  "occurs v [] \<longleftrightarrow> v = []"
| "occurs v (c # s) \<longleftrightarrow> take (length v) (c # s) = v \<or> occurs v s"

definition rstrip_chars :: "ustring \<Rightarrow> ustring \<Rightarrow> ustring" where
  "rstrip_chars chars s = rev (dropWhile (\<lambda>c. c \<in> set chars) (rev s))"

definition replacement_filename :: "api \<Rightarrow> string \<Rightarrow> string \<Rightarrow> ustring \<Rightarrow> ustring" where
  "replacement_filename A version new_version old_filename =
     (if occurs (ustr version) old_filename
      then sub_version (ustr version)
             (ustr (if \<not> same_version A version new_version then new_version else new_version @ ''-ts'' @ now_ms A)) old_filename
      else rstrip_chars (ustr ''.mbp'') old_filename @ ustr (''-v'' @ new_version @ ''.mbp''))"

text \<open>\<^verbatim>\<open>os.path.dirname\<close> and \<^verbatim>\<open>os.path.basename\<close>.\<close>

definition path_dirname :: "ustring \<Rightarrow> ustring" where
  "path_dirname p =
     (let head = rev (dropWhile (\<lambda>c. c \<noteq> path_sep) (rev p)) in
      if list_all (\<lambda>c. c = path_sep) head then head else rstrip_sep head)"

definition path_basename :: "ustring \<Rightarrow> ustring" where
  "path_basename p = rev (takeWhile (\<lambda>c. c \<noteq> path_sep) (rev p))"

text \<open>A \<^verbatim>\<open>finally\<close> block: it runs after either outcome, and its own exception wins.\<close>

definition finally_do :: "('w, 'a) res \<Rightarrow> ('w \<Rightarrow> ('w, unit) res) \<Rightarrow> ('w, 'a) res" where
  "finally_do r f =
     (case r of
        Ok x w \<Rightarrow> bind (f w) (\<lambda>_ w. Ok x w)
      | Raise e w \<Rightarrow> bind (f w) (\<lambda>_ w. Raise e w))"

definition upload_replacement_plugin ::
    "('y, 'c) env \<Rightarrow> api \<Rightarrow> nat \<Rightarrow> bytes \<Rightarrow> string \<Rightarrow> world \<Rightarrow> (world, web_response) res" where
  "upload_replacement_plugin E A l content new_version w =
     (let old_path = self_path (loaders w ! l);
          version = meta_version (the (l_meta (loaders w ! l)));
          path = os_path_join (path_dirname old_path)
                   (replacement_filename A version new_version (path_basename old_path)) in
      bind (write_file A path content w) (\<lambda>_ w.
      bind (stop_instances E l w) (\<lambda>_ w.
      case on_loader l (reload E l (Some path)) w of
        Raise e w \<Rightarrow>
          if is_maubot_zip_import_error e then
            bind (finally_do
                (catch (bind (on_loader l (reload E l (Some old_path)) w) (\<lambda>_ w. start_instances E l w))
                   (\<lambda>e w. if is_maubot_zip_import_error e then Ok () w else Raise e w))
                (trash E path None ''failed_update''))
              (\<lambda>_ w. Ok (resp_plugin_import_error (py_str A e) (py_traceback A e)) w)
          else Raise e w
      | Ok _ w \<Rightarrow>
         (case start_instances E l w of
            Raise e w \<Rightarrow>
              if is_exception e then
                bind (finally_do
                    (swallow (bind (stop_instances E l w) (\<lambda>_ w.
                       bind (on_loader l (reload E l (Some old_path)) w) (\<lambda>_ w. start_instances E l w))))
                    (trash E path None ''failed_update''))
                  (\<lambda>_ w. Ok (resp_plugin_reload_error (py_str A e) (py_traceback A e)) w)
              else Raise e w
          | Ok _ w \<Rightarrow>
              bind (trash E old_path None ''update'' w) (\<lambda>_ w.
              Ok (resp_updated (loader_to_dict E l w) False) w)))))"

text \<open>Every loader in the cache is a \<^verbatim>\<open>ZippedPluginLoader\<close>.\<close>

definition put_plugin :: "('y, 'c) env \<Rightarrow> api \<Rightarrow> string \<Rightarrow> bytes \<Rightarrow> world \<Rightarrow> (world, web_response) res" where
  "put_plugin E A plugin_id content w =
     (case verify_meta E (Regular (Some content)) of
        Inl e \<Rightarrow>
          if is_maubot_zip_import_error e then Ok (resp_plugin_import_error (py_str A e) (py_traceback A e)) w else Raise e w
      | Inr (pid, version, db_type) \<Rightarrow>
          if db_type = Some SQLALCHEMY \<and> \<not> has_alchemy A then Ok resp_sqlalchemy_not_installed w
          else if pid \<noteq> plugin_id then Ok resp_pid_mismatch w
          else case map_of (id_cache w) plugin_id of
            None \<Rightarrow> upload_new_plugin E A content pid version w
          | Some l \<Rightarrow> upload_replacement_plugin E A l content version w)"

definition upload_plugin :: "('y, 'c) env \<Rightarrow> api \<Rightarrow> string option \<Rightarrow> bytes \<Rightarrow> world \<Rightarrow> (world, web_response) res" where
  "upload_plugin E A allow_override content w =
     (case verify_meta E (Regular (Some content)) of
        Inl e \<Rightarrow>
          if is_maubot_zip_import_error e then Ok (resp_plugin_import_error (py_str A e) (py_traceback A e)) w else Raise e w
      | Inr (pid, version, db_type) \<Rightarrow>
          if db_type = Some SQLALCHEMY \<and> \<not> has_alchemy A then Ok resp_sqlalchemy_not_installed w
          else case map_of (id_cache w) pid of
            None \<Rightarrow> upload_new_plugin E A content pid version w
          | Some l \<Rightarrow>
              if \<not> opt_truthy allow_override then Ok resp_plugin_exists w
              else upload_replacement_plugin E A l content version w)"

section \<open>Clients\<close>

definition get_clients :: "('y, 'c) env \<Rightarrow> api \<Rightarrow> world \<Rightarrow> (world, web_response) res" where
  "get_clients E A w = Ok (resp_found (JArr (map (\<lambda>(k, a). client_to_dict E (crypto_fingerprint A) a w) (client_cache w)))) w"

definition get_client :: "('y, 'c) env \<Rightarrow> api \<Rightarrow> string \<Rightarrow> world \<Rightarrow> (world, web_response) res" where
  "get_client E A user_id w =
     bind (client_get E None None None user_id w) (\<lambda>c w.
     case c of
       None \<Rightarrow> Ok resp_client_not_found w
     | Some a \<Rightarrow> Ok (resp_found (client_to_dict E (crypto_fingerprint A) a w)) w)"

text \<open>The responses for a failed \<^verbatim>\<open>whoami\<close>, in the order of the \<^verbatim>\<open>except\<close> clauses.\<close>

definition whoami_error :: "exn \<Rightarrow> web_response option" where
  "whoami_error e =
     (case e of
        MatrixInvalidToken _ \<Rightarrow> Some resp_bad_client_access_token
      | MatrixRequestError _ _ _ \<Rightarrow> Some resp_bad_client_access_details
      | MatrixConnectionError _ \<Rightarrow> Some resp_bad_client_connection_details
      | _ \<Rightarrow> None)"

text \<open>The part of \<^verbatim>\<open>_create_client\<close> after the checks.\<close>

definition setup_client ::
    "('y, 'c) env \<Rightarrow> api \<Rightarrow> string \<Rightarrow> client_data \<Rightarrow> world \<Rightarrow> (world, web_response) res" where
  "setup_client E A user_id d w =
     bind (client_get E (d_homeserver d) (d_access_token d) (d_device_id d) user_id w) (\<lambda>c w.
     case c of
       None \<Rightarrow> Raise AttributeError w
     | Some a \<Rightarrow>
         let w = upd_client a (\<lambda>c. c\<lparr>c_enabled := dict_default True (d_cenabled d), c_sync := dict_default True (d_sync d)\<rparr>) w in
         bind (update_autojoin (Some (dict_default True (d_autojoin d))) False a w) (\<lambda>_ w.
         bind (update_online (Some (dict_default True (d_online d))) False a w) (\<lambda>_ w.
         let w = upd_client a (\<lambda>c. c\<lparr>displayname := dict_default ''disable'' (d_displayname d),
                                    avatar_url := dict_default ''disable'' (d_avatar_url d)\<rparr>) w in
         bind (client_update a w) (\<lambda>_ w.
         bind (client_start E 0 a w) (\<lambda>_ w.
         Ok (resp_created (client_to_dict E (crypto_fingerprint A) a w)) w)))))"

definition create_client_from ::
    "('y, 'c) env \<Rightarrow> api \<Rightarrow> string option \<Rightarrow> client_data \<Rightarrow> world \<Rightarrow> (world, web_response) res" where
  "create_client_from E A user_id d w =
     (case query (Whoami ''@not:a.mxid'') (net_new_whoami A (trace w) (d_homeserver d) (d_access_token d)) w of
        Raise e w \<Rightarrow> (case whoami_error e of Some r \<Rightarrow> Ok r w | None \<Rightarrow> Raise e w)
      | Ok (whoami_user, whoami_device) w \<Rightarrow>
         (case user_id of
            None \<Rightarrow>
              bind (client_get E None None None whoami_user w) (\<lambda>existing w.
              if existing \<noteq> None then Ok resp_user_exists w else setup_client E A whoami_user d w)
          | Some u \<Rightarrow>
              if whoami_user \<noteq> u then Ok (resp_mxid_mismatch whoami_user) w
              else if whoami_device \<noteq> [] \<and> opt_truthy (d_device_id d) \<and> Some whoami_device \<noteq> d_device_id d
              then Ok (resp_device_id_mismatch whoami_device) w
              else setup_client E A whoami_user d w))"

text \<open>
  What \<^verbatim>\<open>_update_client\<close> makes of an exception of \<^verbatim>\<open>update_access_details\<close>: a response, the exception
  itself, or (\<open>Inr None\<close>) going on, which is what happens with any other \<^verbatim>\<open>ValueError\<close>.
\<close>

definition access_error :: "exn \<Rightarrow> exn + web_response option" where
  "access_error e =
     (case whoami_error e of
        Some r \<Rightarrow> Inr (Some r)
      | None \<Rightarrow>
         (case e of
            ValueError s \<Rightarrow>
              if take 13 s = ''MXID mismatch'' then Inr (Some (resp_mxid_mismatch (drop 15 s)))
              else if take 18 s = ''Device ID mismatch'' then Inr (Some (resp_device_id_mismatch (drop 20 s)))
              else Inr None
          | _ \<Rightarrow> Inl e))"

definition update_client_from ::
    "('y, 'c) env \<Rightarrow> api \<Rightarrow> nat \<Rightarrow> client_data \<Rightarrow> bool \<Rightarrow> world \<Rightarrow> (world, web_response) res" where
  "update_client_from E A a d is_login w =
     bind (case update_access_details E (d_access_token d) (d_homeserver d) (d_device_id d) a w of
             Ok _ w \<Rightarrow> Ok None w
           | Raise e w \<Rightarrow> (case access_error e of Inl e \<Rightarrow> Raise e w | Inr r \<Rightarrow> Ok r w)) (\<lambda>r w.
     case r of
       Some r \<Rightarrow> Ok r w
     | None \<Rightarrow>
         bind (update_avatar_url E (d_avatar_url d) False a w) (\<lambda>_ w.
         bind (update_displayname E (d_displayname d) False a w) (\<lambda>_ w.
         bind (client_update_started E (d_cstarted d) a w) (\<lambda>_ w.
         bind (update_enabled (d_cenabled d) False a w) (\<lambda>_ w.
         bind (update_autojoin (d_autojoin d) False a w) (\<lambda>_ w.
         bind (update_online (d_online d) False a w) (\<lambda>_ w.
         bind (update_sync (d_sync d) False a w) (\<lambda>_ w.
         bind (client_update a w) (\<lambda>_ w.
         Ok (resp_updated (client_to_dict E (crypto_fingerprint A) a w) is_login) w)))))))))"

definition create_or_update_client ::
    "('y, 'c) env \<Rightarrow> api \<Rightarrow> string \<Rightarrow> client_data \<Rightarrow> bool \<Rightarrow> world \<Rightarrow> (world, web_response) res" where
  "create_or_update_client E A user_id d is_login w =
     bind (client_get E None None None user_id w) (\<lambda>c w.
     case c of
       None \<Rightarrow> create_client_from E A (Some user_id) d w
     | Some a \<Rightarrow> update_client_from E A a d is_login w)"

definition create_client :: "('y, 'c) env \<Rightarrow> api \<Rightarrow> client_data option \<Rightarrow> world \<Rightarrow> (world, web_response) res" where
  "create_client E A data w =
     (case data of None \<Rightarrow> Ok resp_body_not_json w | Some d \<Rightarrow> create_client_from E A None d w)"

definition update_client :: "('y, 'c) env \<Rightarrow> api \<Rightarrow> string \<Rightarrow> client_data option \<Rightarrow> world \<Rightarrow> (world, web_response) res" where
  "update_client E A user_id data w =
     (case data of None \<Rightarrow> Ok resp_body_not_json w | Some d \<Rightarrow> create_or_update_client E A user_id d False w)"

definition delete_client :: "('y, 'c) env \<Rightarrow> string \<Rightarrow> world \<Rightarrow> (world, web_response) res" where
  "delete_client E user_id w =
     bind (client_get E None None None user_id w) (\<lambda>c w.
     case c of
       None \<Rightarrow> Ok resp_client_not_found w
     | Some a \<Rightarrow>
         if 0 < length (c_references (clients w ! a)) then Ok resp_client_in_use w
         else bind (if c_started (clients w ! a) then client_stop E a w else Ok () w) (\<lambda>_ w.
           bind (client_delete a w) (\<lambda>_ w. Ok resp_deleted w)))"

definition clear_client_cache :: "('y, 'c) env \<Rightarrow> string \<Rightarrow> world \<Rightarrow> (world, web_response) res" where
  "clear_client_cache E user_id w =
     bind (client_get E None None None user_id w) (\<lambda>c w.
     case c of
       None \<Rightarrow> Ok resp_client_not_found w
     | Some a \<Rightarrow> bind (client_clear_cache a w) (\<lambda>_ w. Ok resp_ok w))"

text \<open>Without encryption \<^verbatim>\<open>client.crypto\<close> is \<^verbatim>\<open>None\<close> and its methods raise \<^verbatim>\<open>AttributeError\<close>.\<close>

definition refresh_trust :: "('y, 'c) env \<Rightarrow> nat \<Rightarrow> world \<Rightarrow> (world, unit) res" where
  "refresh_trust E a w =
     (let k = c_id (clients w ! a) in
      bind (query (CryptoCall k ''resolve_trust'') (crypto_trust E (trace w) k) w) (\<lambda>t w.
      Ok () (upd_client a (\<lambda>c. c\<lparr>trust_state := Some t\<rparr>) w)))"

definition crypto_guard :: "api \<Rightarrow> (world, web_response) res \<Rightarrow> (world, web_response) res" where
  "crypto_guard A r = catch r (\<lambda>e w. if is_exception e then Ok (resp_internal_crypto_error (py_str A e)) w else Raise e w)"

definition verify_client ::
    "('y, 'c) env \<Rightarrow> api \<Rightarrow> string \<Rightarrow> string option option \<Rightarrow> world \<Rightarrow> (world, web_response) res" where
  "verify_client E A user_id data w =
     bind (client_get E None None None user_id w) (\<lambda>c w.
     case c of
       None \<Rightarrow> Ok resp_client_not_found w
     | Some a \<Rightarrow>
        (case data of
           None \<Rightarrow> Ok resp_body_not_json w
         | Some key \<Rightarrow>
             crypto_guard A
               (if \<not> crypto (clients w ! a) then Raise AttributeError w
                else if key = None then Raise KeyError w
                else bind (crypto_do E ''verify_with_recovery_key'' a w) (\<lambda>_ w.
                  bind (refresh_trust E a w) (\<lambda>_ w. Ok resp_ok w)))))"

definition generate_recovery_key :: "('y, 'c) env \<Rightarrow> api \<Rightarrow> string \<Rightarrow> world \<Rightarrow> (world, web_response) res" where
  "generate_recovery_key E A user_id w =
     bind (client_get E None None None user_id w) (\<lambda>c w.
     case c of
       None \<Rightarrow> Ok resp_client_not_found w
     | Some a \<Rightarrow>
         crypto_guard A
           (if \<not> crypto (clients w ! a) then Raise AttributeError w
            else let k = c_id (clients w ! a) in
              bind (query (CryptoCall k ''get_own_cross_signing_public_keys'') (crypto_own_keys A (trace w) k) w) (\<lambda>keys w.
              if keys then Ok resp_client_has_keys w
              else bind (query (CryptoCall k ''generate_recovery_key'') (crypto_recovery_key A (trace w) k) w) (\<lambda>key w.
                bind (refresh_trust E a w) (\<lambda>_ w.
                Ok (resp_created (JObj [(''success'', JBool True), (''recovery_key'', JStr key)])) w)))))"

end
