(* ===== verification/MB_System.thy ===== *)
theory MB_System
  imports MB_Links MB_Management
begin

text \<open>
  The operations on instances, clients and loaders keep the references between the objects in step:
  switching the client or the plugin of an instance, the settings and the start and stop of clients,
  deleting clients, and everything that changes the loaders. Together with the lemmas of
  \<open>MB_Links\<close> this covers every operation that the request handlers and the event loop call.
\<close>

section \<open>Changing an instance\<close>

text \<open>Writing the row of a cached instance together with the object.\<close>

lemma world_ok_replace_row:
  assumes ok: "world_ok w" and a: "cached a w" and r: "i_id r = i_id (instances w ! a)" "in_dict (primary_user r) (client_table w)"
    and f: "\<And>i. i_id (f i) = i_id i" "\<And>i. i_loader (f i) = i_loader i" "\<And>i. i_client (f i) = i_client i"
      "primary_user (f (instances w ! a)) = primary_user r"
  shows "sys w (upd_inst a f (w\<lparr>inst_table := dict_set (i_id r) r (inst_table w)\<rparr>))" (is "sys w ?v")
proof -
  note d = world_okD [OF ok]
  have al: "a < length (instances w)" "map_of (inst_cache w) (i_id r) = Some a" using a r(1) by (simp_all add: cached_def)
  have same: "i_id (instances ?v ! b) = i_id (instances w ! b)" "i_loader (instances ?v ! b) = i_loader (instances w ! b)"
    "i_client (instances ?v ! b) = i_client (instances w ! b)" for b
    using al f by (cases "b = a"; simp)+
  have eq: "loaders ?v = loaders w" "clients ?v = clients w" "inst_cache ?v = inst_cache w"
    "inst_table ?v = dict_set (i_id r) r (inst_table w)" by simp_all
  have linked: "inst_linked k b ?v" if k: "map_of (inst_cache w) k = Some b" for k b
  proof (cases "k = i_id r")
    case True
    then have "b = a" using k al by simp
    then show ?thesis using d(5) [OF k] True al f by (simp add: inst_linked_def eq same)
  next
    case False
    then have "b \<noteq> a" using cachedD(2) [OF ok k] r(1) by auto
    then have "instances ?v ! b = instances w ! b" by simp
    then show ?thesis using d(5) [OF k] False by (simp add: inst_linked_def)
  qed
  have row: "map_of (inst_table ?v) k = (if k = i_id r then Some r else map_of (inst_table w) k)" for k by simp
  have "inst_inv ?v"
    unfolding inst_inv_def row eq(3) same using d(3) [unfolded inst_inv_def] by (simp split: if_splits)
  moreover have "fk_ok ?v"
    unfolding fk_ok_def row using d(4) [unfolded fk_ok_def] r(2) by (simp split: if_splits)
  moreover have "loader_linked l ?v" if "l < length (loaders w)" for l
    using d(6) [OF that] by (simp add: loader_linked_def eq same)
  moreover have "client_linked c ?v" if "c < length (clients w)" for c
    using d(7) [OF that] by (simp add: client_linked_def eq same)
  ultimately have "world_ok ?v"
    using d(1,2) linked by (simp add: world_ok_def loader_ok_def client_inv_def)
  then show ?thesis by (simp add: sys_def)
qed

text \<open>Adding a cached instance to a set it is not in.\<close>

lemma refs_add_new_client:
  assumes "world_ok w" and "cached a w" and "i_client (instances w ! a) = None" and "c < length (clients w)"
    and "i_id (instances v ! a) = i_id (instances w ! a)"
  shows "refs_add v a (c_references (clients w ! c)) = c_references (clients w ! c) @ [(i_id (instances w ! a), a)]"
  using not_counted_client(2) [OF assms(1,2,4)] assms(3,5) by (auto simp: refs_add_def refs_has_def list_ex_iff)

lemma refs_add_new_loader:
  assumes "world_ok w" and "cached a w" and "i_loader (instances w ! a) = None" and "l < length (loaders w)"
    and "i_id (instances v ! a) = i_id (instances w ! a)"
  shows "refs_add v a (l_references (loaders w ! l)) = l_references (loaders w ! l) @ [(i_id (instances w ! a), a)]"
  using not_counted_loader(2) [OF assms(1,2,4)] assms(3,5) by (auto simp: refs_add_def refs_has_def list_ex_iff)

lemma inst_update_row:
  assumes "in_dict (i_id (instances w ! a)) (inst_table w)" and "in_dict (primary_user (instances w ! a)) (client_table w)"
  shows "inst_update a w = Ok () (w\<lparr>inst_table := dict_set (i_id (instances w ! a)) (inst_row.truncate (instances w ! a)) (inst_table w)\<rparr>)"
  using assms by (simp add: inst_update_def db_inst_update_def inst_row.defs)

lemma cached_row:
  assumes "world_ok w" and "cached a w"
  shows "in_dict (i_id (instances w ! a)) (inst_table w)"
  using world_okD(5) [OF assms(1), of "i_id (instances w ! a)" a] assms(2) by (auto simp: cached_def inst_linked_def in_dict_def)

definition unlinked_client :: "nat \<Rightarrow> world \<Rightarrow> world" where
  "unlinked_client a w = (case i_client (instances w ! a) of Some c \<Rightarrow> unlink_client c a w | None \<Rightarrow> w)"

definition unlinked_loader :: "nat \<Rightarrow> world \<Rightarrow> world" where
  "unlinked_loader a w = (case i_loader (instances w ! a) of Some l \<Rightarrow> unlink_loader l a w | None \<Rightarrow> w)"

lemma unlinked_client_ok:
  assumes ok: "world_ok w" and a: "cached a w"
  shows "sys w (unlinked_client a w)" "i_client (instances (unlinked_client a w) ! a) = None"
  using assms world_ok_unlink_client [OF ok a]
  by (auto simp: unlinked_client_def sys_def unlink_client_same cached_def split: option.splits)

lemma unlinked_loader_ok:
  assumes ok: "world_ok w" and a: "cached a w"
  shows "sys w (unlinked_loader a w)" "i_loader (instances (unlinked_loader a w) ! a) = None"
  using assms world_ok_unlink_loader [OF ok a]
  by (auto simp: unlinked_loader_def sys_def unlink_loader_same cached_def split: option.splits)

lemma switch_client_sys:
  assumes ok: "world_ok w" and a: "cached a w" and c: "map_of (client_cache w) (c_id (clients w ! c)) = Some c"
  shows "\<exists>v. switch_client c a w = Ok () v \<and> sys w v \<and> i_client (instances v ! a) = Some c
    \<and> primary_user (instances v ! a) = c_id (clients w ! c)"
proof -
  define k u where "k = i_id (instances w ! a)" and "u = c_id (clients w ! c)"
  define y where "y = unlinked_client a w"
  define x where "x = link_client c a y"
  define f where "f = (\<lambda>i :: inst. i\<lparr>primary_user := u\<rparr>)"
  have al: "a < length (instances w)" using a by (simp add: cached_def)
  have y: "sys w y" "world_ok y" "cached a y" "i_client (instances y ! a) = None"
    using unlinked_client_ok [OF ok a] sys_cached [OF _ a, of y] by (auto simp: y_def sys_def)
  have fr: "i_id (instances y ! a) = k" "length (instances y) = length (instances w)" "length (clients y) = length (clients w)"
    "client_table y = client_table w" "inst_table y = inst_table w"
    using al by (auto simp: y_def unlinked_client_def unlink_client_def k_def split: option.splits)
  have user: "in_dict u (client_table w)" "c < length (clients w)"
    using world_okD(2,4) [OF ok] c unfolding u_def fk_ok_def client_inv_def by blast+
  have ok': "world_ok x" unfolding x_def by (rule world_ok_link_client [OF y(2,3,4)]) (simp add: fr user)
  then have "sys w x" using y(1) by (simp add: sys_def x_def link_client_def)
  note x = this ok' sys_cached [OF this a]
  let ?r = "inst_row.truncate (f (instances x ! a))"
  have xa: "i_id (instances x ! a) = k" "i_client (instances x ! a) = Some c"
    using fr al by (simp_all add: x_def link_client_def)
  have "switch_client c a w = inst_update a (upd_inst a f x)"
  proof -
    define w1 where "w1 = upd_inst a f w"
    have w1: "clients w1 = clients w" "inst_cache w1 = inst_cache w" "cached a w1" "i_id (instances w1 ! a) = k"
      "i_client (instances w1 ! a) = i_client (instances w ! a)"
      using al a by (simp_all add: w1_def f_def cached_def k_def)
    define w2 where "w2 = (case i_client (instances w ! a) of Some d \<Rightarrow> drop_client_ref d k w1 | None \<Rightarrow> w1)"
    have r1: "(case i_client (instances w1 ! a) of Some d \<Rightarrow> unref_client d a w1 | None \<Rightarrow> Ok () w1) = Ok () w2"
      using unref_client_cached [OF ok a _ w1(1,2,3)] w1 by (auto simp: w2_def k_def split: option.splits)
    have swap: "i\<lparr>primary_user := u, i_client := x\<rparr> = i\<lparr>i_client := x, primary_user := u\<rparr>" for i :: inst and x
      by (cases i) simp
    have w2: "upd_inst a (\<lambda>i. i\<lparr>i_client := Some c\<rparr>) w2 = upd_inst a (\<lambda>i. i\<lparr>i_client := Some c, primary_user := u\<rparr>) y"
      using al by (auto simp: w2_def w1_def f_def y_def unlinked_client_def unlink_client_def drop_client_ref_def upd_inst_def
          upd_client_def k_def swap split: option.splits)
    have ya: "a < length (instances y)" using fr(2) al by simp
    let ?y = "upd_inst a (\<lambda>i. i\<lparr>i_client := Some c, primary_user := u\<rparr>) y"
    have "refs_add ?y a (c_references (clients y ! c)) = c_references (clients y ! c) @ [(k, a)]"
      using refs_add_new_client [OF y(2,3,4), of c ?y] user(2) fr(1,3) ya by simp
    then have "upd_client c (\<lambda>x. x\<lparr>c_references := refs_add ?y a (c_references x)\<rparr>) ?y = upd_inst a f x"
      using ya fr(1) by (simp add: x_def link_client_def f_def upd_client_def upd_inst_def)
    then show ?thesis
      using r1 by (simp add: switch_client_def w1_def [unfolded f_def u_def, symmetric] w2 Let_def)
  qed
  moreover have "inst_update a (upd_inst a f x) = Ok () (upd_inst a f (x\<lparr>inst_table := dict_set (i_id ?r) ?r (inst_table x)\<rparr>))"
  proof -
    have t: "client_table x = client_table w" "inst_table x = inst_table w" "a < length (instances x)"
      using fr al by (simp_all add: x_def link_client_def)
    have "in_dict k (inst_table w)" using cached_row [OF ok a] by (simp add: k_def)
    then show ?thesis
      using inst_update_row [of "upd_inst a f x" a] user(1) t xa by (simp add: f_def upd_inst_def inst_row.defs)
  qed
  moreover have "sys x (upd_inst a f (x\<lparr>inst_table := dict_set (i_id ?r) ?r (inst_table x)\<rparr>))"
  proof (rule world_ok_replace_row [OF x(2,3)])
    show "in_dict (primary_user ?r) (client_table x)" using user(1) fr by (simp add: f_def x_def link_client_def inst_row.defs)
  qed (simp_all add: f_def inst_row.defs)
  ultimately show ?thesis
    using sys_trans [OF x(1)] xa al fr(2) by (auto simp: f_def u_def x_def link_client_def)
qed

lemma switch_loader_sys:
  assumes ok: "world_ok w" and a: "cached a w" and l: "l < length (loaders w)" "plugin_key (loaders w ! l) \<noteq> None"
  shows "\<exists>v. switch_loader l a w = Ok () v \<and> sys w v \<and> i_loader (instances v ! a) = Some l"
proof -
  define k u where "k = i_id (instances w ! a)" and "u = loader_id (loaders w ! l)"
  define y where "y = unlinked_loader a w"
  define x where "x = link_loader l a y"
  define f where "f = (\<lambda>i :: inst. i\<lparr>i_type := u\<rparr>)"
  have al: "a < length (instances w)" using a by (simp add: cached_def)
  have y: "sys w y" "world_ok y" "cached a y" "i_loader (instances y ! a) = None"
    using unlinked_loader_ok [OF ok a] sys_cached [OF _ a, of y] by (auto simp: y_def sys_def)
  have fr: "i_id (instances y ! a) = k" "length (instances y) = length (instances w)" "length (loaders y) = length (loaders w)"
    "client_table y = client_table w" "inst_table y = inst_table w"
    using al by (auto simp: y_def unlinked_loader_def unlink_loader_def k_def split: option.splits)
  have key: "plugin_key (loaders y ! l) \<noteq> None"
  proof -
    have "plugin_key (loaders (unlink_loader d a w) ! l) = plugin_key (loaders w ! l)" for d
      using l(1) by (cases "d = l") (simp_all add: unlink_loader_def plugin_key_def)
    then show ?thesis using l(2) by (simp add: y_def unlinked_loader_def split: option.splits)
  qed
  have ok': "world_ok x" unfolding x_def by (rule world_ok_link_loader [OF y(2,3,4)]) (simp_all add: fr l key)
  then have "sys w x" using y(1) by (simp add: sys_def x_def link_loader_def)
  note x = this ok' sys_cached [OF this a]
  let ?r = "inst_row.truncate (f (instances x ! a))"
  have xa: "i_id (instances x ! a) = k" "i_loader (instances x ! a) = Some l"
    using fr al by (simp_all add: x_def link_loader_def)
  have "switch_loader l a w = inst_update a (upd_inst a f x)"
  proof -
    define w1 where "w1 = upd_inst a f w"
    have w1: "loaders w1 = loaders w" "inst_cache w1 = inst_cache w" "cached a w1" "i_id (instances w1 ! a) = k"
      "i_loader (instances w1 ! a) = i_loader (instances w ! a)"
      using al a by (simp_all add: w1_def f_def cached_def k_def)
    define w2 where "w2 = (case i_loader (instances w ! a) of Some d \<Rightarrow> drop_loader_ref d k w1 | None \<Rightarrow> w1)"
    have r1: "(case i_loader (instances w1 ! a) of Some d \<Rightarrow> unref_loader d a w1 | None \<Rightarrow> Ok () w1) = Ok () w2"
      using unref_loader_cached [OF ok a _ w1(1,2,3)] w1 by (auto simp: w2_def k_def split: option.splits)
    have swap: "i\<lparr>i_type := u, i_loader := x\<rparr> = i\<lparr>i_loader := x, i_type := u\<rparr>" for i :: inst and x
      by (cases i) simp
    have w2: "upd_inst a (\<lambda>i. i\<lparr>i_loader := Some l\<rparr>) w2 = upd_inst a (\<lambda>i. i\<lparr>i_loader := Some l, i_type := u\<rparr>) y"
      using al by (auto simp: w2_def w1_def f_def y_def unlinked_loader_def unlink_loader_def drop_loader_ref_def upd_inst_def
          upd_loader_def k_def swap split: option.splits)
    have ya: "a < length (instances y)" using fr(2) al by simp
    let ?y = "upd_inst a (\<lambda>i. i\<lparr>i_loader := Some l, i_type := u\<rparr>) y"
    have "refs_add ?y a (l_references (loaders y ! l)) = l_references (loaders y ! l) @ [(k, a)]"
      using refs_add_new_loader [OF y(2,3,4), of l ?y] l(1) fr(1,3) ya by simp
    then have "upd_loader l (\<lambda>x. x\<lparr>l_references := refs_add ?y a (l_references x)\<rparr>) ?y = upd_inst a f x"
      using ya fr(1) by (simp add: x_def link_loader_def f_def upd_loader_def upd_inst_def)
    then show ?thesis
      using r1 by (simp add: switch_loader_def w1_def [unfolded f_def u_def, symmetric] w2 Let_def)
  qed
  moreover have "inst_update a (upd_inst a f x) = Ok () (upd_inst a f (x\<lparr>inst_table := dict_set (i_id ?r) ?r (inst_table x)\<rparr>))"
  proof -
    have t: "client_table x = client_table w" "inst_table x = inst_table w" "a < length (instances x)"
      using fr al by (simp_all add: x_def link_loader_def)
    have "in_dict k (inst_table w)" using cached_row [OF ok a] by (simp add: k_def)
    then show ?thesis
      using inst_update_row [of "upd_inst a f x" a] cached_user [OF x(2,3)] t xa by (simp add: f_def upd_inst_def inst_row.defs)
  qed
  moreover have "sys x (upd_inst a f (x\<lparr>inst_table := dict_set (i_id ?r) ?r (inst_table x)\<rparr>))"
  proof (rule world_ok_replace_row [OF x(2,3)])
    show "in_dict (primary_user ?r) (client_table x)" using cached_user [OF x(2,3)] by (simp add: f_def inst_row.defs)
  qed (simp_all add: f_def inst_row.defs)
  ultimately show ?thesis
    using sys_trans [OF x(1)] xa al fr(2) by (auto simp: f_def u_def x_def link_loader_def)
qed

lemma keeps_view_trans: "keeps_view w r \<Longrightarrow> view w = view u \<Longrightarrow> keeps_view u r"
  by (simp add: holds_def)

lemma update_primary_user_sys:
  assumes ok: "world_ok w" and a: "cached a w"
  shows "holds (sys w) (update_primary_user E user a w)"
proof (cases "user = None \<or> user = Some (primary_user (instances w ! a))")
  case True
  then show ?thesis using sys_refl [OF ok] by (simp add: update_primary_user_def)
next
  case False
  have "holds (sys w) (bind (client_get E None None None (the user) w) (\<lambda>c w.
        case c of
          None \<Rightarrow> Ok False w
        | Some c \<Rightarrow>
            bind (inst_stop E a w) (\<lambda>_ w.
            bind (switch_client c a w) (\<lambda>_ w.
            bind (inst_start E a w) (\<lambda>_ w. Ok True w)))))"
  proof (rule holds_sys_bind [OF client_get_sys [OF ok]])
    fix x v
    assume get: "client_get E None None None (the user) w = Ok x v" and v: "sys w v"
    then have vok: "world_ok v" by (simp add: sys_def)
    show "holds (sys v) (case x of None \<Rightarrow> Ok False v
        | Some c \<Rightarrow> bind (inst_stop E a v) (\<lambda>_ w. bind (switch_client c a w) (\<lambda>_ w. bind (inst_start E a w) (\<lambda>_ w. Ok True w))))"
    proof (cases x)
      case (Some c)
      have cc: "map_of (client_cache v) (the user) = Some c"
        using clients_by_id.get_fills [OF world_okD(2) [OF ok], of E "(None, None, None)" "the user" c v] get Some by simp
      have "holds (sys v) (bind (inst_stop E a v) (\<lambda>_ w. bind (switch_client c a w) (\<lambda>_ w. bind (inst_start E a w) (\<lambda>_ w. Ok True w))))"
      proof (rule holds_sys_bind [OF inst_stop_sys [OF vok]])
        fix y u
        assume stop: "inst_stop E a v = Ok y u" and u: "sys v u"
        have vu: "view u = view v" using inst_stop_view [OF refl, of v E a] stop by simp
        have uok: "world_ok u" using u by (simp add: sys_def)
        have "map_of (client_cache u) (the user) = Some c" using cc view_caches(2) [OF vu] by simp
        moreover from this have "c_id (clients u ! c) = the user" using world_okD(2) [OF uok] unfolding client_inv_def by blast
        ultimately have "map_of (client_cache u) (c_id (clients u ! c)) = Some c" by simp
        then obtain t where t: "switch_client c a u = Ok () t" "sys u t"
          using switch_client_sys [OF uok sys_cached [OF u sys_cached [OF v a]]] by blast
        have "holds (sys t) (bind (inst_start E a t) (\<lambda>_ w. Ok True w))"
          using t sys_cached [OF t(2) sys_cached [OF u sys_cached [OF v a]]]
          by (intro holds_sys_bind inst_start_sys) (simp_all add: sys_def)
        then show "holds (sys u) (bind (switch_client c a u) (\<lambda>_ w. bind (inst_start E a w) (\<lambda>_ w. Ok True w)))"
          using t sys_trans [OF t(2)] by (simp add: holds_def)
      qed
      then show ?thesis by (simp add: Some)
    qed (use sys_refl [OF vok] in simp)
  qed
  then show ?thesis using False sys_refl [OF ok] by (simp add: update_primary_user_def)
qed

lemma update_type_sys:
  assumes ok: "world_ok w" and a: "cached a w"
  shows "holds (sys w) (update_type E ty a w)"
proof (cases "ty = None \<or> ty = Some (i_type (instances w ! a)) \<or> (\<exists>e. find_plugin (the ty) w = Inl e)")
  case True
  then show ?thesis using sys_refl [OF ok] by (auto simp: update_type_def)
next
  case False
  then obtain l where l: "find_plugin (the ty) w = Inr l" by (cases "find_plugin (the ty) w") auto
  have "holds (sys w) (bind (inst_stop E a w) (\<lambda>_ w. bind (switch_loader l a w) (\<lambda>_ w. bind (inst_start E a w) (\<lambda>_ w. Ok True w))))"
  proof (rule holds_sys_bind [OF inst_stop_sys [OF ok]])
    fix y u
    assume stop: "inst_stop E a w = Ok y u" and u: "sys w u"
    have vu: "view u = view w" using inst_stop_view [OF refl, of w E a] stop by simp
    have uok: "world_ok u" and ua: "cached a u" using u sys_cached [OF u a] by (simp_all add: sys_def)
    have wl: "l < length (loaders w)" "plugin_key (loaders w ! l) \<noteq> None"
      using l caches_okD(1,3) [OF world_okD(1) [OF ok, unfolded loader_ok_def]] by (auto simp: find_plugin_Inr)
    then obtain t where t: "switch_loader l a u = Ok () t" "sys u t"
      using switch_loader_sys [OF uok ua, of l] view_loader(2) [OF vu wl(1)] view_length(3) [OF vu] by auto
    have "holds (sys t) (bind (inst_start E a t) (\<lambda>_ w. Ok True w))"
      using t sys_cached [OF t(2) ua] by (intro holds_sys_bind inst_start_sys) (simp_all add: sys_def)
    then show "holds (sys u) (bind (switch_loader l a u) (\<lambda>_ w. bind (inst_start E a w) (\<lambda>_ w. Ok True w)))"
      using t sys_trans [OF t(2)] by (simp add: holds_def)
  qed
  then show ?thesis using False l sys_refl [OF ok] by (simp add: update_type_def)
qed

lemma update_config_view [view_intros]:
  assumes "world_ok w" and "cached a w" and "view v = view w"
  shows "keeps_view w (update_config E cfg a v)"
  using assms(3) unfolding update_config_def Let_def
  by (auto simp: view_upd_inst iview_def intro!: holds_bind inst_update_view [OF assms(1,2)])

lemma inst_update_started_sys:
  assumes "world_ok w" and "cached a w"
  shows "holds (sys w) (inst_update_started E b a w)"
  using inst_start_sys [OF assms, of E] inst_stop_sys [OF assms(1), of E a] sys_refl [OF assms(1)]
  by (simp add: inst_update_started_def)

lemma world_ok_tasks: "world_ok w \<Longrightarrow> world_ok (w\<lparr>tasks := t\<rparr>)"
  by (simp add: world_ok_def loader_ok_def client_inv_def inst_inv_def fk_ok_def inst_linked_def loader_linked_def client_linked_def)

section \<open>Clients\<close>

lemma view_client_simps [simp]:
  "view (start_sync a w) = view w" "view (stop_sync a w) = view w"
  "view (upd_client a prepare_crypto w) = view w" "view (upd_client a remove_crypto_event_handlers w) = view w"
  by (simp_all add: start_sync_def stop_sync_def Let_def view_upd_client cview_def prepare_crypto_def remove_crypto_event_handlers_def)

lemma client_update_view [view_intros]:
  assumes ok: "world_ok w" and v: "view v = view w"
  shows "keeps_view w (client_update a v)"
proof -
  have eq: "map_option c_id (map_of (dict_set k r (client_table v)) j) = map_option c_id (map_of (client_table v) j)"
    if id: "c_id r = k" and row: "in_dict k (client_table v)" for k r j
  proof (cases "j = k")
    case True
    obtain r' where r': "map_of (client_table v) k = Some r'" using row by (auto simp: in_dict_def)
    then have "c_id r' = k" using client_inv_view [OF v world_okD(2) [OF ok]] by (simp add: client_inv_def)
    then show ?thesis using True id r' by simp
  qed simp
  then have "map_option c_id \<circ> map_of (dict_set (c_id r) r (client_table v)) = map_option c_id \<circ> map_of (client_table v)"
    if "in_dict (c_id r) (client_table v)" for r
    using that unfolding comp_def by blast
  then have "view (v\<lparr>client_table := dict_set (c_id r) r (client_table v)\<rparr>) = view v"
    if "in_dict (c_id r) (client_table v)" for r
    using that by (simp add: view_eq_iff del: map_of_dict_set)
  from this [of "client_row_of (clients v ! a)"] show ?thesis using v by (simp add: client_update_def db_client_update_def)
qed

lemma save_if_view [view_intros]: "world_ok w \<Longrightarrow> view v = view w \<Longrightarrow> keeps_view w (save_if b a v)"
  by (simp add: save_if_def client_update_view)

lemma update_remote_profile_view [view_intros]: "view v = view w \<Longrightarrow> keeps_view w (update_remote_profile E a v)"
  unfolding update_remote_profile_def
  by (auto simp: view_upd_client cview_def intro!: holds_catch holds_bind)

lemma crypto_do_view [view_intros]: "view v = view w \<Longrightarrow> keeps_view w (crypto_do E what a v)"
  by (simp add: crypto_do_def Let_def)

lemma start_crypto_view [view_intros]: "view v = view w \<Longrightarrow> keeps_view w (start_crypto E a v)"
  unfolding start_crypto_def Let_def
  by (intro holds_bind crypto_do_view query_view) (auto simp: view_upd_client cview_def intro!: holds_bind crypto_do_view)

lemma client_settings_view [view_intros]:
  assumes ok: "world_ok w" and v: "view v = view w"
  shows "keeps_view w (update_enabled b1 save a v)" "keeps_view w (update_displayname E n save a v)"
    "keeps_view w (update_avatar_url E n save a v)" "keeps_view w (update_sync b1 save a v)"
    "keeps_view w (update_autojoin b1 save a v)" "keeps_view w (update_online b1 save a v)"
    "keeps_view w (client_clear_cache a v)"
  using v
  by (auto simp: update_enabled_def update_displayname_def update_avatar_url_def update_sync_def update_autojoin_def
      update_online_def client_clear_cache_def Let_def view_upd_client cview_def
      intro!: holds_bind save_if_view [OF ok] client_update_view [OF ok] update_remote_profile_view)

lemma update_access_details_view [view_intros]:
  assumes v: "view v = view w"
  shows "keeps_view w (update_access_details E token hs dev a v)"
proof -
  have "keeps_view w (details_switch E m token hs d a u)" if "view u = view w" for m d u
    using that unfolding details_switch_def Let_def
    by (auto simp: view_upd_client cview_def remove_crypto_event_handlers_def intro!: holds_bind start_crypto_view)
  then show ?thesis using v unfolding update_access_details_def Let_def by (auto intro!: holds_bind)
qed

text \<open>
  Deleting a client that no instance counts. Its object goes out of the cache before the
  row is deleted; rows of instances that are not loaded may still refuse the deletion.
\<close>

lemma client_delete_ok:
  assumes ok: "world_ok w" and a: "map_of (client_cache w) (c_id (clients w ! a)) = Some a"
  shows "holds (sys w) (client_delete a w)"
proof -
  define k where "k = c_id (clients w ! a)"
  note d = world_okD [OF ok]
  have "world_ok (w\<lparr>client_cache := dict_del k (client_cache w)\<rparr>)" (is "world_ok ?u")
    using d unfolding world_ok_def
    by (simp add: loader_ok_def client_inv_def inst_inv_def fk_ok_def inst_linked_def loader_linked_def client_linked_def)
  moreover have "world_ok (?u\<lparr>client_table := dict_del k (client_table w)\<rparr>)"
    if free: "\<not> (in_dict k (client_table w) \<and> list_ex (\<lambda>(_, r). primary_user r = k) (inst_table w))"
  proof -
    have "in_dict k (client_table w)" using d(4) a unfolding fk_ok_def k_def by blast
    then have "primary_user r \<noteq> k" if "map_of (inst_table w) j = Some r" for j r
      using free map_of_SomeD [OF that] by (auto simp: list_ex_iff)
    then show ?thesis
      using d unfolding world_ok_def
      by (simp add: loader_ok_def client_inv_def inst_inv_def fk_ok_def inst_linked_def loader_linked_def client_linked_def in_dict_def)
  qed
  ultimately show ?thesis by (simp add: client_delete_def db_client_delete_def k_def [symmetric] Let_def sys_def)
qed

section \<open>Loaders\<close>

text \<open>
  What an operation on loaders may change: loaders are added, without references, and a loader
  that is counted on keeps its references and an id. Nothing outside the loaders' part changes.
\<close>

definition outer_part :: "world \<Rightarrow> client list \<times> inst list \<times> (string, nat) dict \<times> (string, nat) dict \<times> (string, client_row) dict
    \<times> (string, inst_row) dict \<times> task list" where
  "outer_part w = (clients w, instances w, client_cache w, inst_cache w, client_table w, inst_table w, tasks w)"

definition loader_change :: "world \<Rightarrow> world \<Rightarrow> bool" where
  "loader_change w v \<longleftrightarrow> loader_ok v \<and> outer_part v = outer_part w \<and> length (loaders w) \<le> length (loaders v)
     \<and> (\<forall>l < length (loaders v).
          if l < length (loaders w) then l_references (loaders v ! l) = l_references (loaders w ! l)
            \<and> (l_references (loaders w ! l) \<noteq> [] \<longrightarrow> plugin_key (loaders w ! l) \<noteq> None \<longrightarrow> plugin_key (loaders v ! l) \<noteq> None)
          else l_references (loaders v ! l) = [])"

lemma world_ok_loader_change:
  assumes ok: "world_ok w" and ch: "loader_change w v"
  shows "world_ok v"
proof -
  note d = world_okD [OF ok]
  have o: "clients v = clients w" "instances v = instances w" "client_cache v = client_cache w" "inst_cache v = inst_cache w"
    "client_table v = client_table w" "inst_table v = inst_table w"
    using ch by (simp_all add: loader_change_def outer_part_def)
  have n: "length (loaders w) \<le> length (loaders v)" using ch by (simp add: loader_change_def)
  have old: "l_references (loaders v ! l) = l_references (loaders w ! l)"
    "l_references (loaders w ! l) \<noteq> [] \<Longrightarrow> plugin_key (loaders w ! l) \<noteq> None \<Longrightarrow> plugin_key (loaders v ! l) \<noteq> None"
    if "l < length (loaders w)" for l
    using ch that n by (auto simp: loader_change_def)
  have new: "l_references (loaders v ! l) = []" if "l < length (loaders v)" "\<not> l < length (loaders w)" for l
    using ch that by (auto simp: loader_change_def)
  have "inst_linked k b v" if "map_of (inst_cache w) k = Some b" for k b
    using d(5) [OF that] old(1) n unfolding inst_linked_def o by (metis order_less_le_trans)
  moreover have "loader_linked l v" if "l < length (loaders v)" for l
  proof (cases "l < length (loaders w)")
    case True
    then show ?thesis using d(6) [OF True] old [OF True] by (simp add: loader_linked_def o)
  next
    case False
    then show ?thesis using new [OF that] by (simp add: loader_linked_def)
  qed
  moreover have "client_linked c v" if "c < length (clients w)" for c
    using d(7) [OF that] by (simp add: client_linked_def o)
  moreover have "loader_ok v" using ch by (simp add: loader_change_def)
  moreover have "client_inv v" "inst_inv v" "fk_ok v"
    using d(2,3,4) by (simp_all add: client_inv_def inst_inv_def fk_ok_def o)
  ultimately show ?thesis unfolding world_ok_def o by blast
qed

lemma outer_part_more:
  assumes "lworld.more v = lworld.more w"
  shows "outer_part v = outer_part w"
  using assms by (cases v rule: world.cases_scheme; cases w rule: world.cases_scheme) (simp add: outer_part_def)

text \<open>A method of a loader that keeps the references, and nothing else of the world but the caches.\<close>

definition keeps_refs :: "loader \<times> world \<Rightarrow> loader \<times> world \<Rightarrow> bool" where
  "keeps_refs s t \<longleftrightarrow> loaders (snd t) = loaders (snd s) \<and> lworld.more (snd t) = lworld.more (snd s)
     \<and> l_references (fst t) = l_references (fst s)"

lemma keeps_refs_frame: "keeps s t \<Longrightarrow> keeps_refs s t"
  using frame_eqD [of "snd t" "snd s"] by (auto simp: keeps_def keeps_refs_def)

lemma holds_keeps_refs: "holds (keeps s) r \<Longrightarrow> holds (keeps_refs s) r"
  by (simp add: holds_def keeps_refs_frame)

lemma keeps_refs_trans: "keeps_refs s t \<Longrightarrow> keeps_refs t v \<Longrightarrow> keeps_refs s v"
  by (simp add: keeps_refs_def)

lemma loader_change_commit:
  assumes r: "holds (keeps_refs (loaders w ! a, w)) (f (loaders w ! a, w))" and ok: "loader_ok (state_of (on_loader a f w))"
    and key: "l_references (loaders w ! a) = [] \<or> holds (\<lambda>s. plugin_key (fst s) \<noteq> None) (f (loaders w ! a, w))"
  shows "loader_change w (state_of (on_loader a f w))"
proof -
  let ?s = "state_of (f (loaders w ! a, w))"
  have s: "loaders (snd ?s) = loaders w" "lworld.more (snd ?s) = lworld.more w" "l_references (fst ?s) = l_references (loaders w ! a)"
    using r by (simp_all add: holds_def keeps_refs_def)
  have st: "state_of (on_loader a f w) = (snd ?s)\<lparr>loaders := (loaders w)[a := fst ?s]\<rparr>"
    by (simp add: state_on_loader commit_def s)
  have "outer_part (state_of (on_loader a f w)) = outer_part w"
    unfolding st by (rule outer_part_more) (use s in simp)
  moreover have "l_references (loaders v ! l) = l_references (loaders w ! l)
      \<and> (l_references (loaders w ! l) \<noteq> [] \<longrightarrow> plugin_key (loaders w ! l) \<noteq> None \<longrightarrow> plugin_key (loaders v ! l) \<noteq> None)"
    if "v = state_of (on_loader a f w)" "l < length (loaders w)" for v l
    using key s that by (cases "l = a") (auto simp: st holds_def)
  ultimately show ?thesis using ok by (simp add: loader_change_def) (simp add: st)
qed

lemma load_key:
  assumes "plugin_key (fst s) \<noteq> None"
  shows "holds (\<lambda>s. plugin_key (fst s) \<noteq> None) (load E reset s)"
  using load_keeps [of s E reset] assms by (auto simp: holds_def keeps_def)

lemma load_change:
  assumes ok: "loader_ok w" and l: "map_of (id_cache w) k = Some a"
  shows "loader_change w (state_of (on_loader a (load E reset) w))"
proof (rule loader_change_commit)
  show "loader_ok (state_of (on_loader a (load E reset) w))"
    using load_ok [OF lok_found [OF ok l], of E reset] by (simp add: holds_def lok_def state_on_loader)
  have "plugin_key (loaders w ! a) \<noteq> None" using caches_okD(3) [OF ok [unfolded loader_ok_def] l] by simp
  then show "l_references (loaders w ! a) = [] \<or> holds (\<lambda>s. plugin_key (fst s) \<noteq> None) (load E reset (loaders w ! a, w))"
    by (intro disjI2 load_key) simp
qed (rule holds_keeps_refs [OF load_keeps])

lemma reload_keeps:
  assumes "plugin_key (fst s) \<noteq> None"
  shows "holds (keeps_refs s) (reload E a p s)" "holds (\<lambda>s. plugin_key (fst s) \<noteq> None) (reload E a p s)"
    "holds (\<lambda>t. id_cache (snd t) = id_cache (snd s)) (reload E a p s)"
proof -
  define P where "P t \<longleftrightarrow> keeps_refs s t \<and> plugin_key (fst t) \<noteq> None \<and> id_cache (snd t) = id_cache (snd s)" for t
  have keeps_P: "P u" if "P t" "keeps t u" for t u
    using that keeps_refs_trans [OF _ keeps_refs_frame [OF that(2)]] frame_eqD(2) [of "snd u" "snd t"] by (auto simp: P_def keeps_def)
  have run: "holds P (load E True t)" if "P t" for t
    using load_keeps [of t E True] keeps_P [OF that] by (simp add: holds_def)
  have P0: "P s" using assms by (simp add: P_def keeps_refs_def)
  have "holds P (reload E a p s)"
    unfolding reload_def
  proof (rule holds_bind)
    show "holds P (unload s)" using unload_keeps [of s] keeps_P [OF P0] by (simp add: holds_def)
    fix x t
    assume t: "P t"
    obtain l v where lv: "t = (l, v)" by (cases t)
    have "P (l\<lparr>l_path := q\<rparr>, v\<lparr>path_cache := c\<rparr>)" for q c using t lv by (simp add: P_def keeps_refs_def)
    then show "holds P (case t of (l, w) \<Rightarrow> case p of Some p \<Rightarrow>
             if l_path l \<noteq> Some p then load E True (l\<lparr>l_path := Some p\<rparr>,
                w\<lparr>path_cache := dict_set p a (dict_del (self_path l) (path_cache w))\<rparr>) else load E True (l, w)
           | None \<Rightarrow> load E True (l, w))"
      using t by (cases p) (simp_all add: lv run)
  qed
  then show "holds (keeps_refs s) (reload E a p s)" "holds (\<lambda>s. plugin_key (fst s) \<noteq> None) (reload E a p s)"
    "holds (\<lambda>t. id_cache (snd t) = id_cache (snd s)) (reload E a p s)"
    by (simp_all add: holds_def P_def)
qed

lemma reload_change:
  assumes ok: "loader_ok w" and l: "map_of (id_cache w) k = Some a"
  shows "loader_change w (state_of (on_loader a (reload E a p) w))" "id_cache (state_of (on_loader a (reload E a p) w)) = id_cache w"
proof -
  have "plugin_key (fst (loaders w ! a, w)) \<noteq> None" using caches_okD(3) [OF ok [unfolded loader_ok_def] l] by simp
  note k = reload_keeps [OF this, of E a p]
  show "loader_change w (state_of (on_loader a (reload E a p) w))"
  proof (rule loader_change_commit)
    show "loader_ok (state_of (on_loader a (reload E a p) w))"
      using reload_ok [OF lok_found [OF ok l] l, of E p] by (simp add: holds_def lok_def state_on_loader)
  qed (use k(1,2) in \<open>simp_all del: not_None_eq\<close>)
  show "id_cache (state_of (on_loader a (reload E a p) w)) = id_cache w"
    using k(3) by (simp add: state_on_loader commit_def holds_def)
qed

lemma loader_delete_refs: "holds (keeps_refs s) (loader_delete E s)"
proof (cases "unload s")
  case (Ok x t)
  obtain l v where lv: "t = (l, v)" by (cases t)
  have t: "keeps_refs s (l, v)" using unload_keeps [of s] Ok keeps_refs_frame lv by simp
  define v1 where "v1 = v\<lparr>path_cache := dict_del (self_path l) (path_cache v), id_cache := dict_del (loader_id l) (id_cache v)\<rparr>"
  define v2 where "v2 = (case l_importer l of Some zi \<Rightarrow> v1\<lparr>dir_cache := remove_cache zi (dir_cache v1)\<rparr> | None \<Rightarrow> v1)"
  let ?r = "trash E (self_path l) None ''delete'' v2"
  have v2: "loaders v2 = loaders v" "lworld.more v2 = lworld.more v" by (simp_all add: v2_def v1_def split: option.split)
  have tr: "loaders (state_of ?r) = loaders v2" "lworld.more (state_of ?r) = lworld.more v2"
    by (rule file_frame_eqD [OF trash_frame])+
  have "loader_delete E s = (case ?r of Raise e w \<Rightarrow> Raise e (l\<lparr>l_importer := None, l_loaded := None\<rparr>, w)
      | Ok _ w \<Rightarrow> Ok () (l\<lparr>l_importer := None, l_loaded := None, l_meta := None, l_path := None\<rparr>, w))"
    unfolding v2_def v1_def by (simp add: loader_delete_def Ok lv Let_def)
  then show ?thesis
    using t v2 tr by (cases ?r) (simp_all add: keeps_refs_def)
next
  case (Raise e t)
  then show ?thesis using holds_keeps_refs [OF unload_keeps [of s]] by (simp add: loader_delete_def)
qed

lemma delete_change:
  assumes ok: "loader_ok w" and l: "map_of (id_cache w) k = Some a" and free: "l_references (loaders w ! a) = []"
  shows "loader_change w (state_of (on_loader a (loader_delete E) w))"
proof (rule loader_change_commit)
  show "loader_ok (state_of (on_loader a (loader_delete E) w))"
    using delete_ok [OF lok_found [OF ok l] l, of E] by (simp add: holds_def state_on_loader)
qed (use free loader_delete_refs in simp_all)

lemma get_loader_change:
  assumes ok: "loader_ok w"
  shows "loader_change w (state_of (get_loader E path w))" "map_of (id_cache w) \<subseteq>\<^sub>m map_of (id_cache (state_of (get_loader E path w)))"
proof -
  have refl: "loader_change w w" using ok by (simp add: loader_change_def)
  have "loader_change w (state_of (loader_init E p w)) \<and> map_of (id_cache w) \<subseteq>\<^sub>m map_of (id_cache (state_of (loader_init E p w)))" for p
  proof -
    have k: "keeps (new_loader p, w) (state_of (preload E (new_loader p, w)))" using preload_keeps by (simp add: holds_def)
    obtain l v where lv: "state_of (preload E (new_loader p, w)) = (l, v)" by fastforce
    have v: "loaders v = loaders w" "lworld.more v = lworld.more w" "l_references l = []" "id_cache v = id_cache w"
      using k [unfolded lv] frame_eqD [of v w] by (auto simp: keeps_def new_loader_def)
    have o: "outer_part (v\<lparr>loaders := x, path_cache := y, id_cache := z\<rparr>) = outer_part w" "outer_part v = outer_part w" for x y z
      by (rule outer_part_more; simp add: v(2))+
    have "loader_ok (state_of (loader_init E p w))" using loader_init_ok [OF ok] by (simp add: holds_def)
    moreover have "(\<exists>y. state_of (loader_init E p w) = v\<lparr>loaders := loaders v @ [l], path_cache := y,
          id_cache := dict_set (loader_id l) (length (loaders v)) (id_cache v)\<rparr> \<and> \<not> in_dict (loader_id l) (id_cache v))
        \<or> state_of (loader_init E p w) = v"
      using lv by (cases "preload E (new_loader p, w)") (auto simp: loader_init_def Let_def)
    ultimately show ?thesis
      using v o by (elim disjE exE) (auto simp: loader_change_def nth_append map_le_def in_dict_def)
  qed
  then show "loader_change w (state_of (get_loader E path w))" "map_of (id_cache w) \<subseteq>\<^sub>m map_of (id_cache (state_of (get_loader E path w)))"
    using refl by (simp_all add: get_loader_def Let_def split: option.split)
qed

lemma loader_change_sys:
  assumes "world_ok w" and "loader_change w v" and "map_of (id_cache w) \<subseteq>\<^sub>m map_of (id_cache v)"
  shows "sys w v"
  using world_ok_loader_change [OF assms(1,2)] assms(2,3) by (simp add: sys_def loader_change_def outer_part_def)

section \<open>Starting and stopping\<close>

lemma gather_sys:
  assumes "world_ok w" and "\<And>g v. g \<in> set gs \<Longrightarrow> sys w v \<Longrightarrow> holds (sys v) (g v)"
  shows "holds (sys w) (gather gs w)"
proof -
  have "holds (sys w) (gather gs v)" if "sys w v" for v
    using assms(2) that
  proof (induction gs arbitrary: v)
    case (Cons g gs)
    have g: "holds (sys w) (g v)" using Cons.prems sys_trans [of w v] by (auto simp: holds_def)
    show ?case
    proof (cases "g v")
      case (Ok x u)
      then have "sys w u" using g by simp
      then have "holds (sys w) (gather gs u)" using Cons.prems(1) by (intro Cons.IH) simp_all
      then show ?thesis using Ok by simp
    next
      case (Raise e u)
      then have "sys w u" using g by simp
      then have "holds (sys w) (gather gs u)" using Cons.prems(1) by (intro Cons.IH) simp_all
      then show ?thesis using Raise by (simp add: holds_def)
    qed
  qed simp
  then show ?thesis using sys_refl [OF assms(1)] by simp
qed

lemma gather_instances:
  assumes ok: "world_ok w" and rs: "\<And>k b. (k, b) \<in> set rs \<Longrightarrow> map_of (inst_cache w) k = Some b"
    and f: "\<And>b v. world_ok v \<Longrightarrow> cached b v \<Longrightarrow> holds (sys v) (f b v)"
  shows "holds (sys w) (gather (map (\<lambda>(k, i). f i) rs) w)"
proof (rule gather_sys [OF ok])
  fix g v
  assume g: "g \<in> set (map (\<lambda>(k, i). f i) rs)" and v: "sys w v"
  then obtain k b where kb: "(k, b) \<in> set rs" "g = f b" by auto
  then have "cached b v" using sys_cached [OF v cachedD(3) [OF ok rs]] by blast
  then show "holds (sys v) (g v)" using f v kb by (simp add: sys_def)
qed

lemma start_stop_plugins_sys:
  assumes ok: "world_ok w" and a: "a < length (clients w)"
  shows "holds (sys w) (start_plugins E a w)" "holds (sys w) (stop_plugins E a w)"
  unfolding start_plugins_def stop_plugins_def using refs_of_client(1) [OF ok a]
  by (auto intro!: gather_instances [OF ok] inst_start_sys inst_stop_sys)

lemma start_stop_instances_sys:
  assumes ok: "world_ok w" and l: "l < length (loaders w)"
  shows "holds (sys w) (start_instances E l w)" "holds (sys w) (stop_instances E l w)"
  unfolding start_instances_def stop_instances_def using refs_of_loader(1) [OF ok l]
  by (auto intro!: gather_instances [OF ok] inst_start_sys inst_stop_sys)

lemma disable_client_view [view_intros]: "world_ok w \<Longrightarrow> view v = view w \<Longrightarrow> keeps_view w (disable_client a v)"
  by (simp add: disable_client_def client_update_view view_upd_client cview_def)

lemma ask_whoami_view [view_intros]: "view v = view w \<Longrightarrow> keeps_view w (ask_whoami E a v)"
  unfolding ask_whoami_def Let_def by (intro holds_bind perform_view) simp_all

lemma ensure_filter_view [view_intros]:
  assumes "world_ok w" and "view v = view w"
  shows "keeps_view w (ensure_filter E a v)"
  using assms(2) unfolding ensure_filter_def Let_def
  by (auto simp: view_upd_client cview_def intro!: holds_bind client_update_view [OF assms(1)])

lemma push_profile_view [view_intros]: "view v = view w \<Longrightarrow> keeps_view w (push_profile E a v)"
  unfolding push_profile_def Let_def by (auto intro!: holds_bind)

lemma holds_view_sys_bind:
  assumes "world_ok w" and "keeps_view w r" and "\<And>x v. r = Ok x v \<Longrightarrow> view v = view w \<Longrightarrow> world_ok v \<Longrightarrow> holds (sys v) (k x v)"
  shows "holds (sys w) (bind r k)"
  using assms(2,3) by (intro holds_sys_bind holds_sys_view [OF assms(1)]) (auto simp: sys_def)

lemma start_checked_sys:
  assumes ok: "world_ok w" and a: "a < length (clients w)"
  shows "holds (sys w) (start_checked E a w)"
proof -
  have fin: "holds (sys v) (bind (update_remote_profile E a (start_sync a v)) (\<lambda>_ w.
      start_plugins E a (upd_client a (\<lambda>c. c\<lparr>c_started := True\<rparr>) w)))" if v: "world_ok v" "view v = view w" for v
  proof (rule holds_view_sys_bind [OF v(1)])
    show "keeps_view v (update_remote_profile E a (start_sync a v))" by (rule update_remote_profile_view) simp
    fix x u
    assume u: "view u = view v" "world_ok u"
    let ?u = "upd_client a (\<lambda>c. c\<lparr>c_started := True\<rparr>) u"
    have vu: "view ?u = view u" by (simp add: view_upd_client cview_def)
    have "world_ok ?u" "a < length (clients ?u)" using world_ok_view [OF vu u(2)] view_length(2) [of u w] u v a by simp_all
    then have "holds (sys ?u) (start_plugins E a ?u)" by (rule start_stop_plugins_sys)
    then show "holds (sys u) (start_plugins E a ?u)" using sys_trans [OF sys_view [OF u(2) vu]] by (simp add: holds_def)
  qed
  show ?thesis
    unfolding start_checked_def
  proof (rule holds_view_sys_bind [OF ok ensure_filter_view [OF ok refl]], rule holds_view_sys_bind)
    fix v assume "world_ok v" show "keeps_view v (push_profile E a v)" by (rule push_profile_view) simp
  next
    fix x v y u
    assume v: "view v = view w" "world_ok v" and u: "view u = view v" "world_ok u"
    show "holds (sys u) (bind (if crypto (clients u ! a) then start_crypto E a u else Ok () u) (\<lambda>_ w.
        bind (update_remote_profile E a (start_sync a w)) (\<lambda>_ w. start_plugins E a (upd_client a (\<lambda>c. c\<lparr>c_started := True\<rparr>) w))))"
      by (rule holds_view_sys_bind [OF u(2)]) (use u v in \<open>auto intro!: start_crypto_view fin\<close>)
  qed
qed

lemma client_start_ok:
  assumes ok: "world_ok w" and a: "a < length (clients w)"
  shows "holds world_ok (client_start E n a w)"
proof -
  have disable: "holds world_ok (disable_client a v)" if "view v = view w" for v
    using disable_client_view [OF ok that] world_ok_view [OF _ ok] by (simp add: holds_def)
  have failed: "holds world_ok (whoami_failed n a e v)" if "view v = view w" for e v
    using disable [OF that] world_ok_view [OF that ok] world_ok_tasks by (auto simp: whoami_failed_def split: exn.split)
  have checked: "holds world_ok (start_checked E a v)" if "view v = view w" for v
    using start_checked_sys [OF world_ok_view [OF that ok], of a E] view_length(2) [OF that] a by (simp add: holds_def sys_def)
  have who: "keeps_view w (ask_whoami E a w)" by (rule ask_whoami_view) simp
  have "holds world_ok (client_start_inner E n a w)"
    unfolding client_start_inner_def Let_def
    using who ok by (auto intro!: disable failed checked split: res.split)
  then show ?thesis unfolding client_start_def by (rule holds_swallow)
qed

lemma client_stop_ok:
  assumes ok: "world_ok w" and a: "a < length (clients w)"
  shows "holds (sys w) (client_stop E a w)"
proof -
  let ?w = "upd_client a (\<lambda>c. c\<lparr>c_started := False\<rparr>) w"
  have vw: "view ?w = view w" by (simp add: view_upd_client cview_def)
  have okw: "world_ok ?w" by (rule world_ok_view [OF vw ok])
  have "holds (sys ?w) (bind (stop_plugins E a ?w) (\<lambda>_ w. let w = stop_sync a w in
      if crypto (clients w ! a) then crypto_do E ''close'' a w else Ok () w))"
  proof (rule holds_sys_bind)
    show "holds (sys ?w) (stop_plugins E a ?w)" using start_stop_plugins_sys(2) [OF okw] a by simp
    fix x v
    assume "sys ?w v"
    then have v: "world_ok v" by (simp add: sys_def)
    show "holds (sys v) (let w = stop_sync a v in if crypto (clients w ! a) then crypto_do E ''close'' a w else Ok () w)"
      by (rule holds_sys_view [OF v]) (simp add: Let_def crypto_do_view)
  qed
  then show ?thesis
    using sys_refl [OF ok] sys_trans [OF sys_view [OF ok vw]] by (simp add: client_stop_def holds_def)
qed

end
