(* ===== verification/MB_Reachable.thy ===== *)
theory MB_Reachable
  imports MB_System
begin

text \<open>
  The running program as a whole. The request handlers keep the invariant of the system, so that it
  holds in every world the program can reach from its start: whatever requests arrive, in
  whatever order, and however the calls to homeservers, plugins and databases end.
\<close>

section \<open>Requests\<close>

text \<open>The invariant of the running program: a start that is to be retried belongs to a client object.\<close>

definition system_ok :: "world \<Rightarrow> bool" where
  "system_ok w \<longleftrightarrow> world_ok w \<and> (\<forall>a n. StartClient a n \<in> set (tasks w) \<longrightarrow> a < length (clients w))"

lemma system_ok_sys: "system_ok w \<Longrightarrow> sys w v \<Longrightarrow> system_ok v"
  by (auto simp: system_ok_def sys_def dest: order_less_le_trans)

lemma holds_system: "system_ok w \<Longrightarrow> holds (sys w) r \<Longrightarrow> holds system_ok r"
  unfolding holds_def by (rule system_ok_sys)

lemma holds_sys_bind_cached:
  assumes "world_ok w" and "cached a w" and "holds (sys w) r"
    and "\<And>x v. world_ok v \<Longrightarrow> cached a v \<Longrightarrow> i_id (instances v ! a) = i_id (instances w ! a) \<Longrightarrow> holds (sys v) (k x v)"
  shows "holds (sys w) (bind r k)"
proof (rule holds_sys_bind [OF assms(3)])
  fix x v
  assume s: "sys w v"
  then have v: "world_ok v" "inst_cache v = inst_cache w" by (simp_all add: sys_def)
  moreover have "i_id (instances v ! a) = i_id (instances w ! a)"
    using cachedD(2) [OF v(1)] v(2) assms(2) by (simp add: cached_def)
  ultimately show "holds (sys v) (k x v)" using assms(4) sys_cached [OF s assms(2)] by blast
qed

lemma holds_sys_case:
  assumes "holds (sys w) r" and "\<And>x v. sys w v \<Longrightarrow> holds (sys v) (f x v)" and "\<And>e v. sys w v \<Longrightarrow> holds (sys v) (g e v)"
  shows "holds (sys w) (case r of Ok x v \<Rightarrow> f x v | Raise e v \<Rightarrow> g e v)"
  using assms sys_trans by (cases r) (fastforce simp: holds_def)+

lemma holds_sys_catch:
  assumes "holds (sys w) r" and "\<And>e v. sys w v \<Longrightarrow> holds (sys v) (g e v)"
  shows "holds (sys w) (catch r g)"
  using assms sys_trans by (cases r) (fastforce simp: holds_def)+

lemma holds_sys_finally:
  assumes "holds (sys w) r" and "\<And>v. sys w v \<Longrightarrow> holds (sys v) (f v)"
  shows "holds (sys w) (finally_do r f)"
  unfolding finally_do_def by (rule holds_sys_case [OF assms(1)]; rule holds_sys_bind [OF assms(2)]) (auto simp: sys_def)

lemma sys_Ok: "sys u v \<Longrightarrow> sys v v"
  by (simp add: sys_def)

subsection \<open>Instances\<close>

lemma inst_get_system:
  assumes ok: "system_ok w"
  shows "holds system_ok (inst_get ty user k w)" "inst_get ty user k w = Ok (Some a) v \<Longrightarrow> cached a v \<and> i_id (instances v ! a) = k"
proof -
  have w: "world_ok w" using ok by (simp add: system_ok_def)
  have h: "holds world_ok (inst_get ty user k w)" by (rule inst_get_world [OF w])
  have "tasks (state_of (inst_get ty user k w)) = tasks w \<and> clients (state_of (inst_get ty user k w)) = clients w"
    by (cases rule: inst_get_cases [of w k ty user]) (simp_all add: with_inst_def)
  then show "holds system_ok (inst_get ty user k w)" using h ok by (simp add: holds_def system_ok_def)
  assume get: "inst_get ty user k w = Ok (Some a) v"
  have "map_of (inst_cache v) k = Some a"
    using insts_by_id.get_fills [OF world_okD(3) [OF w], of "(ty, user)" k a v] get by simp
  then show "cached a v \<and> i_id (instances v ! a) = k" using cachedD [of v k a] h get by simp
qed

lemma create_instance_system:
  assumes ok: "system_ok w"
  shows "holds system_ok (create_instance E k d w)"
proof -
  let ?f = "\<lambda>i :: inst. i\<lparr>i_enabled := dict_default True (d_enabled d), config_str := dict_default [] (d_config d)\<rparr>"
  have fin: "holds system_ok (let w = upd_inst a ?f v in bind (inst_update a w) (\<lambda>_ w. bind (inst_load E a w) (\<lambda>_ w.
      bind (inst_start E a w) (\<lambda>_ w. Ok (resp_created (inst_to_dict E a w)) w))))"
    if v: "system_ok v" and a: "cached a v" for v a
  proof -
    let ?v = "upd_inst a ?f v"
    have vw: "view ?v = view v" by (simp add: view_upd_inst iview_def)
    have v': "world_ok ?v" "cached a ?v" using v a world_ok_view [OF vw] cached_view [OF vw] by (simp_all add: system_ok_def)
    have "holds (sys ?v) (bind (inst_update a ?v) (\<lambda>_ w. bind (inst_load E a w) (\<lambda>_ w.
        bind (inst_start E a w) (\<lambda>_ w. Ok (resp_created (inst_to_dict E a w)) w))))"
      by (intro holds_sys_bind_cached [OF v'] holds_sys_bind_cached holds_sys_view inst_update_view inst_load_sys(1) inst_start_sys v' refl)
        (simp_all add: sys_refl)
    moreover have "sys v ?v" using v vw by (intro sys_view) (simp_all add: system_ok_def)
    ultimately show ?thesis using holds_system [OF system_ok_sys [OF v]] by simp
  qed
  have "holds system_ok (bind (inst_get (d_type d) (d_primary_user d) k v) (\<lambda>i w. case i of None \<Rightarrow> Raise AttributeError w
      | Some a \<Rightarrow> let w = upd_inst a ?f w in bind (inst_update a w) (\<lambda>_ w. bind (inst_load E a w) (\<lambda>_ w.
          bind (inst_start E a w) (\<lambda>_ w. Ok (resp_created (inst_to_dict E a w)) w)))))" if v: "system_ok v" for v
    using inst_get_system [OF v] fin by (intro holds_bind) (auto split: option.split)
  moreover have "holds system_ok (client_get E None None None u w)" for u
    using ok by (intro holds_system [OF ok] client_get_sys) (simp add: system_ok_def)
  ultimately show ?thesis
    unfolding create_instance_def using ok by (auto intro!: holds_bind split: sum.split)
qed

lemma update_instance_from_sys:
  assumes ok: "world_ok w" and a: "cached a w" and id: "d_id d = None \<or> str_lower (the (d_id d)) = i_id (instances w ! a)"
  shows "holds (sys w) (update_instance_from E a d w)"
proof -
  have same: "update_id (d_id d) a v = Ok () v" if "i_id (instances v ! a) = i_id (instances w ! a)" for v
    using id that by (auto simp: update_id_def split: option.split)
  have rest: "holds (sys v) (bind (inst_update_enabled (d_enabled d) a v) (\<lambda>_ w. bind (update_config E (d_config d) a w) (\<lambda>_ w.
       bind (inst_update_started E (d_started d) a w) (\<lambda>_ w. bind (update_type E (d_type d) a w) (\<lambda>_ w.
       Ok (resp_updated (inst_to_dict E a w) False) w)))))" if v: "world_ok v" "cached a v" for v
    by (intro holds_sys_bind_cached [OF v] holds_sys_bind_cached holds_sys_view inst_update_enabled_view update_config_view
        inst_update_started_sys update_type_sys v refl) (simp_all add: sys_refl)
  show ?thesis
    unfolding update_instance_from_def
    by (rule holds_sys_bind_cached [OF ok a update_primary_user_sys [OF ok a]]) (auto simp: same sys_refl intro: rest)
qed

text \<open>A request that leaves the instance's id as it is.\<close>

definition keeps_id :: "string \<Rightarrow> inst_data option \<Rightarrow> bool" where
  "keeps_id k data \<longleftrightarrow> (case data of None \<Rightarrow> True | Some d \<Rightarrow> d_id d = None \<or> str_lower (the (d_id d)) = str_lower k)"

lemma instance_requests_system:
  assumes ok: "system_ok w"
  shows "holds system_ok (get_instance E k w)" "keeps_id k data \<Longrightarrow> holds system_ok (update_instance E k data w)"
    "holds system_ok (delete_instance E k w)"
proof -
  note get = inst_get_system [OF ok]
  show "holds system_ok (get_instance E k w)"
    unfolding get_instance_def using get(1) by (intro holds_bind) (auto split: option.split)
  have upd: "holds system_ok (update_instance_from E a d v)"
    if "system_ok v" "cached a v" "d_id d = None \<or> str_lower (the (d_id d)) = i_id (instances v ! a)" for v a d
    using that by (intro holds_system [OF that(1)] update_instance_from_sys) (simp_all add: system_ok_def)
  show "holds system_ok (update_instance E k data w)" if "keeps_id k data"
    unfolding update_instance_def
  proof (rule holds_bind [OF get(1)])
    fix x v
    assume g: "inst_get None None (str_lower k) w = Ok x v" and v: "system_ok v"
    show "holds system_ok (case data of None \<Rightarrow> Ok resp_body_not_json v
        | Some d \<Rightarrow> (case x of None \<Rightarrow> create_instance E (str_lower k) d v | Some a \<Rightarrow> update_instance_from E a d v))"
      using that v get(2) [of None None "str_lower k"] g create_instance_system [OF v] upd [OF v]
      by (auto simp: keeps_id_def split: option.split)
  qed
  show "holds system_ok (delete_instance E k w)"
    unfolding delete_instance_def
  proof (rule holds_bind [OF get(1)])
    fix x v
    assume g: "inst_get None None (str_lower k) w = Ok x v" and v: "system_ok v"
    have del: "holds system_ok (bind (inst_delete E a u) (\<lambda>_ w. Ok resp_deleted w))" if "system_ok u" "cached a u" for a u
      using inst_delete_ok [of u a E] that
      by (intro holds_bind) (auto simp: holds_def system_ok_def dest: order_less_le_trans)
    have stop: "holds (\<lambda>u. system_ok u \<and> cached a u) (if i_started (instances v ! a) then inst_stop E a v else Ok () v)" if "cached a v" for a
      using inst_stop_sys [of v E a] v that system_ok_sys [OF v] sys_cached [OF _ that] by (auto simp: holds_def system_ok_def)
    show "holds system_ok (case x of None \<Rightarrow> Ok resp_instance_not_found v
        | Some a \<Rightarrow> bind (if i_started (instances v ! a) then inst_stop E a v else Ok () v) (\<lambda>_ w.
         bind (inst_delete E a w) (\<lambda>_ w. Ok resp_deleted w)))"
    proof (cases x)
      case (Some a)
      then have a: "cached a v" using get(2) g by simp
      let ?r = "if i_started (instances v ! a) then inst_stop E a v else Ok () v"
      have "holds system_ok (bind ?r (\<lambda>_ w. bind (inst_delete E a w) (\<lambda>_ w. Ok resp_deleted w)))"
        using stop [OF a] del by (cases ?r) (auto simp del: if_split)
      then show ?thesis by (simp add: Some)
    qed (use v in simp)
  qed
qed

subsection \<open>Plugins\<close>

lemma holds_sys_bind_found:
  assumes "holds (sys w) r" and "map_of (id_cache w) k = Some l"
    and "\<And>x v. world_ok v \<Longrightarrow> map_of (id_cache v) k = Some l \<Longrightarrow> holds (sys v) (f x v)"
  shows "holds (sys w) (bind r f)"
proof (rule holds_sys_bind [OF assms(1)])
  fix x v
  assume "sys w v"
  then have "world_ok v" "map_of (id_cache w) \<subseteq>\<^sub>m map_of (id_cache v)" by (simp_all add: sys_def)
  then show "holds (sys v) (f x v)" using assms(2,3) by (metis domI map_le_def)
qed

lemma sys_found: "sys w v \<Longrightarrow> map_of (id_cache w) k = Some l \<Longrightarrow> map_of (id_cache v) k = Some l"
  unfolding sys_def map_le_def by (metis domI)

lemma found_loader: "world_ok w \<Longrightarrow> map_of (id_cache w) k = Some l \<Longrightarrow> l < length (loaders w)"
  using caches_okD(1) [of "loaders w" "id_cache w" "path_cache w"] world_okD(1) by (auto simp: loader_ok_def)

lemma on_loader_reload_sys:
  assumes ok: "world_ok w" and l: "map_of (id_cache w) k = Some l"
  shows "holds (sys w) (on_loader l (reload E l p) w)"
  using loader_change_sys [OF ok reload_change(1) [OF world_okD(1) [OF ok] l, of E p]] reload_change(2) [OF world_okD(1) [OF ok] l, of E p]
  by (simp add: holds_def)

lemma get_loader_sys:
  assumes ok: "world_ok w"
  shows "holds (sys w) (get_loader E p w)"
  using loader_change_sys [OF ok] get_loader_change [OF world_okD(1) [OF ok], of E p] by (simp add: holds_def)

lemma trash_sys: "world_ok w \<Longrightarrow> holds (sys w) (trash E p n r w)"
  by (rule holds_sys_view [OF _ trash_view [OF refl]])

lemma write_file_sys: "world_ok w \<Longrightarrow> holds (sys w) (write_file A p c w)"
  by (rule holds_sys_view) (simp_all add: write_file_def)

lemma found_instances_sys:
  assumes ok: "world_ok w" and l: "map_of (id_cache w) k = Some l"
  shows "holds (sys w) (start_instances E l w)" "holds (sys w) (stop_instances E l w)"
  by (rule start_stop_instances_sys [OF ok found_loader [OF assms]])+

text \<open>Rolling back an update: the old file is loaded again and the instances started.\<close>

lemma rollback_sys:
  assumes "world_ok w" and "map_of (id_cache w) k = Some l"
  shows "holds (sys w) (bind (on_loader l (reload E l p) w) (\<lambda>_ w. start_instances E l w))"
  by (rule holds_sys_bind_found [OF on_loader_reload_sys [OF assms] assms(2)]) (rule found_instances_sys(1))

lemma upload_replacement_sys:
  assumes ok: "world_ok w" and l: "map_of (id_cache w) k = Some l"
  shows "holds (sys w) (upload_replacement_plugin E A l content version w)"
proof -
  have trash: "holds (sys v) (trash E q None r v)" if "sys u v" for u v q r using that by (intro trash_sys) (simp add: sys_def)
  have undo: "holds (sys v) (if is_maubot_zip_import_error e then bind (finally_do
       (catch (bind (on_loader l (reload E l (Some old)) v) (\<lambda>_ w. start_instances E l w))
         (\<lambda>e w. if is_maubot_zip_import_error e then Ok () w else Raise e w)) (trash E p None ''failed_update''))
       (\<lambda>_ w. Ok r w) else Raise e v)"
    if v: "world_ok v" "map_of (id_cache v) k = Some l" for v e old p and r :: web_response
  proof (cases "is_maubot_zip_import_error e")
    case True
    have "holds (sys v) (bind (finally_do
       (catch (bind (on_loader l (reload E l (Some old)) v) (\<lambda>_ w. start_instances E l w))
         (\<lambda>e w. if is_maubot_zip_import_error e then Ok () w else Raise e w)) (trash E p None ''failed_update'')) (\<lambda>_ w. Ok r w))"
      by (rule holds_sys_bind [OF holds_sys_finally [OF holds_sys_catch [OF rollback_sys [OF v]] trash]]) (auto dest: sys_Ok)
    then show ?thesis using True by simp
  qed (use sys_refl [OF v(1)] in simp)
  have undo2: "holds (sys v) (if is_exception e then bind (finally_do
       (swallow (bind (stop_instances E l v) (\<lambda>_ w. bind (on_loader l (reload E l (Some old)) w) (\<lambda>_ w. start_instances E l w))))
         (trash E p None ''failed_update'')) (\<lambda>_ w. Ok r w) else Raise e v)"
    if v: "world_ok v" "map_of (id_cache v) k = Some l" for v e old p and r :: web_response
  proof (cases "is_exception e")
    case True
    have "holds (sys v) (bind (stop_instances E l v) (\<lambda>_ w. bind (on_loader l (reload E l (Some old)) w) (\<lambda>_ w. start_instances E l w)))"
      by (rule holds_sys_bind_found [OF found_instances_sys(2) [OF v] v(2) rollback_sys])
    then have "holds (sys v) (bind (finally_do
       (swallow (bind (stop_instances E l v) (\<lambda>_ w. bind (on_loader l (reload E l (Some old)) w) (\<lambda>_ w. start_instances E l w))))
         (trash E p None ''failed_update'')) (\<lambda>_ w. Ok r w))"
      by (intro holds_sys_bind [OF holds_sys_finally [OF holds_swallow trash]]) (auto dest: sys_Ok)
    then show ?thesis using True by simp
  qed (use sys_refl [OF v(1)] in simp)
  have go: "holds (sys v) (case on_loader l (reload E l (Some p)) v of
        Raise e w \<Rightarrow> (if is_maubot_zip_import_error e then bind (finally_do
           (catch (bind (on_loader l (reload E l (Some old)) w) (\<lambda>_ w. start_instances E l w))
             (\<lambda>e w. if is_maubot_zip_import_error e then Ok () w else Raise e w)) (trash E p None ''failed_update''))
           (\<lambda>_ w. Ok (resp_plugin_import_error (py_str A e) (py_traceback A e)) w) else Raise e w)
      | Ok _ w \<Rightarrow> (case start_instances E l w of
            Raise e w \<Rightarrow> (if is_exception e then bind (finally_do
              (swallow (bind (stop_instances E l w) (\<lambda>_ w. bind (on_loader l (reload E l (Some old)) w) (\<lambda>_ w. start_instances E l w))))
              (trash E p None ''failed_update'')) (\<lambda>_ w. Ok (resp_plugin_reload_error (py_str A e) (py_traceback A e)) w) else Raise e w)
          | Ok _ w \<Rightarrow> bind (trash E old None ''update'' w) (\<lambda>_ w. Ok (resp_updated (loader_to_dict E l w) False) w)))"
    if v: "world_ok v" "map_of (id_cache v) k = Some l" for v p old
  proof (rule holds_sys_case [OF on_loader_reload_sys [OF v]])
    fix e u
    assume "sys v u"
    then show "holds (sys u) (if is_maubot_zip_import_error e then bind (finally_do
           (catch (bind (on_loader l (reload E l (Some old)) u) (\<lambda>_ w. start_instances E l w))
             (\<lambda>e w. if is_maubot_zip_import_error e then Ok () w else Raise e w)) (trash E p None ''failed_update''))
           (\<lambda>_ w. Ok (resp_plugin_import_error (py_str A e) (py_traceback A e)) w) else Raise e u)"
      using sys_found [OF _ v(2)] by (intro undo) (simp_all add: sys_def)
  next
    fix x u
    assume u: "sys v u"
    then have u': "world_ok u" "map_of (id_cache u) k = Some l" using sys_found [OF u v(2)] by (simp_all add: sys_def)
    show "holds (sys u) (case start_instances E l u of
            Raise e w \<Rightarrow> (if is_exception e then bind (finally_do
              (swallow (bind (stop_instances E l w) (\<lambda>_ w. bind (on_loader l (reload E l (Some old)) w) (\<lambda>_ w. start_instances E l w))))
              (trash E p None ''failed_update'')) (\<lambda>_ w. Ok (resp_plugin_reload_error (py_str A e) (py_traceback A e)) w) else Raise e w)
          | Ok _ w \<Rightarrow> bind (trash E old None ''update'' w) (\<lambda>_ w. Ok (resp_updated (loader_to_dict E l w) False) w))"
      using sys_found [OF _ u'(2)]
      by (intro holds_sys_case [OF found_instances_sys(1) [OF u']] undo2 holds_sys_bind trash) (auto simp: sys_def)
  qed
  show ?thesis
    unfolding upload_replacement_plugin_def Let_def
    by (intro holds_sys_bind_found [OF write_file_sys [OF ok] l] holds_sys_bind_found [OF found_instances_sys(2)]) (auto intro: go)
qed

lemma upload_new_sys:
  assumes ok: "world_ok w"
  shows "holds (sys w) (upload_new_plugin E A content pid version w)"
proof -
  have go: "holds (sys v) (case get_loader E p v of
        Raise e w \<Rightarrow> (if is_maubot_zip_import_error e
          then bind (trash E p None ''error'' w) (\<lambda>_ w. Ok (resp_plugin_import_error (py_str A e) (py_traceback A e)) w) else Raise e w)
      | Ok l w \<Rightarrow> Ok (resp_created (loader_to_dict E l w)) w)" if "world_ok v" for v p
    using get_loader_sys [OF that, of E p]
    by (intro holds_sys_case) (auto intro!: holds_sys_bind trash_sys dest: sys_Ok simp: sys_def)
  show ?thesis
    unfolding upload_new_plugin_def Let_def
    by (intro holds_sys_bind write_file_sys ok go) (simp add: sys_def)
qed

lemma plugin_requests_system:
  assumes ok: "system_ok w"
  shows "holds system_ok (reload_plugin E A k w)" "holds system_ok (put_plugin E A k content w)"
    "holds system_ok (upload_plugin E A allow content w)" "holds system_ok (delete_plugin E k w)"
proof -
  have w: "world_ok w" using ok by (simp add: system_ok_def)
  have "holds (sys w) (bind (stop_instances E l w) (\<lambda>_ w. case on_loader l (reload E l None) w of
          Raise e w \<Rightarrow> if is_maubot_zip_import_error e then Ok (resp_plugin_reload_error (py_str A e) (py_traceback A e)) w else Raise e w
        | Ok _ w \<Rightarrow> bind (start_instances E l w) (\<lambda>_ w. Ok resp_ok w)))" if l: "map_of (id_cache w) k = Some l" for l
  proof (rule holds_sys_bind_found [OF found_instances_sys(2) [OF w l] l])
    fix x v
    assume v: "world_ok v" "map_of (id_cache v) k = Some l"
    show "holds (sys v) (case on_loader l (reload E l None) v of
          Raise e w \<Rightarrow> if is_maubot_zip_import_error e then Ok (resp_plugin_reload_error (py_str A e) (py_traceback A e)) w else Raise e w
        | Ok _ w \<Rightarrow> bind (start_instances E l w) (\<lambda>_ w. Ok resp_ok w))"
      using sys_found [OF _ v(2)]
      by (intro holds_sys_case [OF on_loader_reload_sys [OF v]] holds_sys_bind found_instances_sys(1)) (auto simp: sys_def)
  qed
  then show "holds system_ok (reload_plugin E A k w)"
    using ok holds_system [OF ok] by (auto simp: reload_plugin_def split: option.split)
  note up = upload_new_sys [OF w, THEN holds_system [OF ok]] upload_replacement_sys [OF w, THEN holds_system [OF ok]]
  show "holds system_ok (put_plugin E A k content w)"
    using up ok by (auto simp: put_plugin_def split: option.split sum.split)
  show "holds system_ok (upload_plugin E A allow content w)"
    using up ok by (auto simp: upload_plugin_def split: option.split sum.split)
  have "holds system_ok (on_loader l (loader_delete E) w)" if "map_of (id_cache w) k = Some l" "l_references (loaders w ! l) = []" for l
    using delete_change [OF world_okD(1) [OF w] that, of E] world_ok_loader_change [OF w] ok
    by (simp add: holds_def system_ok_def loader_change_def outer_part_def)
  then show "holds system_ok (delete_plugin E k w)"
    using ok by (auto simp: delete_plugin_def intro!: holds_bind split: option.split)
qed

subsection \<open>Clients\<close>

definition client_sys :: "nat \<Rightarrow> world \<Rightarrow> bool" where
  "client_sys a w \<longleftrightarrow> system_ok w \<and> a < length (clients w)"

lemma client_sys_world: "client_sys a w \<Longrightarrow> world_ok w"
  by (simp add: client_sys_def system_ok_def)

lemma client_sys_sys: "client_sys a w \<Longrightarrow> holds (sys w) r \<Longrightarrow> holds (client_sys a) r"
  using system_ok_sys [of w "state_of r"] by (auto simp: client_sys_def holds_def sys_def)

lemma client_sys_view: "client_sys a w \<Longrightarrow> keeps_view w r \<Longrightarrow> holds (client_sys a) r"
  by (intro client_sys_sys holds_sys_view client_sys_world)

lemma client_sys_system: "holds (client_sys a) r \<Longrightarrow> holds system_ok r"
  by (simp add: holds_def client_sys_def)

lemma client_get_system:
  assumes ok: "system_ok w"
  shows "holds system_ok (client_get E hs token dev k w)"
    "client_get E hs token dev k w = Ok (Some a) v \<Longrightarrow> client_sys a v \<and> map_of (client_cache v) k = Some a \<and> c_id (clients v ! a) = k"
proof -
  have w: "world_ok w" using ok by (simp add: system_ok_def)
  have h: "holds system_ok (client_get E hs token dev k w)" by (rule holds_system [OF ok client_get_sys [OF w]])
  then show "holds system_ok (client_get E hs token dev k w)" .
  assume get: "client_get E hs token dev k w = Ok (Some a) v"
  then have v: "system_ok v" using h by simp
  have c: "map_of (client_cache v) k = Some a"
    using clients_by_id.get_fills [OF world_okD(2) [OF w], of E "(hs, token, dev)" k a v] get by simp
  moreover have "a < length (clients v) \<and> c_id (clients v ! a) = k"
    using world_okD(2) [of v] v c unfolding client_inv_def system_ok_def by blast
  ultimately show "client_sys a v \<and> map_of (client_cache v) k = Some a \<and> c_id (clients v ! a) = k" using v by (simp add: client_sys_def)
qed

text \<open>Starting a client keeps all clients.\<close>

lemma client_start_sys_le:
  assumes ok: "client_sys b w" and le: "a \<le> b"
  shows "holds (client_sys b) (client_start E n a w)"
proof -
  note w = client_sys_world [OF ok]
  have same: "client_sys b v" if "view v = view w" for v
    using client_sys_view [OF ok, of "Ok () v"] that by simp
  have disable: "holds (client_sys b) (disable_client a v)" if "view v = view w" for v
    by (rule client_sys_view [OF ok disable_client_view [OF w that]])
  have "client_sys b (v\<lparr>tasks := tasks v @ [StartClient a m]\<rparr>)" if "client_sys b v" for v m
    using that world_ok_tasks le by (auto simp: client_sys_def system_ok_def)
  then have failed: "holds (client_sys b) (whoami_failed n a e v)" if "view v = view w" for e v
    using disable [OF that] same [OF that] by (auto simp: whoami_failed_def split: exn.split)
  have checked: "holds (client_sys b) (start_checked E a v)" if "view v = view w" for v
    using same [OF that] start_checked_sys [OF client_sys_world [OF same [OF that]], of a E]
    by (intro client_sys_sys [OF same [OF that]]) (use le in \<open>simp add: client_sys_def\<close>)
  have who: "keeps_view w (ask_whoami E a w)" by (rule ask_whoami_view) simp
  have "holds (client_sys b) (client_start_inner E n a w)"
    unfolding client_start_inner_def Let_def
    using who ok by (auto intro!: disable failed checked split: res.split)
  then show ?thesis unfolding client_start_def by (rule holds_swallow)
qed

lemmas client_start_sys = client_start_sys_le [OF _ order_refl]

lemma client_update_started_sys:
  assumes ok: "client_sys a w"
  shows "holds (client_sys a) (client_update_started E b a w)"
  using client_start_sys [OF ok, of E 0] client_sys_sys [OF ok client_stop_ok [OF client_sys_world [OF ok], of a E]] ok
  by (auto simp: client_update_started_def client_sys_def)

lemma upd_client_sys: "client_sys a w \<Longrightarrow> (\<And>c. cview (f c) = cview c) \<Longrightarrow> client_sys a (upd_client b f w)"
  using client_sys_view [of a w "Ok () (upd_client b f w)"] by (simp add: view_upd_client)

lemmas client_setting_sys = client_settings_view [OF client_sys_world refl, THEN client_sys_view [rotated]]
  client_update_view [OF client_sys_world refl, THEN client_sys_view [rotated]]

lemma setup_client_system:
  assumes ok: "system_ok w"
  shows "holds system_ok (setup_client E A user d w)"
  unfolding setup_client_def
proof (rule holds_bind [OF client_get_system(1) [OF ok]])
  fix x v
  assume g: "client_get E (d_homeserver d) (d_access_token d) (d_device_id d) user w = Ok x v" and v: "system_ok v"
  have "holds (client_sys a) (let w = upd_client a (\<lambda>c. c\<lparr>c_enabled := dict_default True (d_cenabled d), c_sync := dict_default True (d_sync d)\<rparr>) u in
         bind (update_autojoin (Some (dict_default True (d_autojoin d))) False a w) (\<lambda>_ w.
         bind (update_online (Some (dict_default True (d_online d))) False a w) (\<lambda>_ w.
         let w = upd_client a (\<lambda>c. c\<lparr>displayname := dict_default ''disable'' (d_displayname d),
                                    avatar_url := dict_default ''disable'' (d_avatar_url d)\<rparr>) w in
         bind (client_update a w) (\<lambda>_ w.
         bind (client_start E 0 a w) (\<lambda>_ w.
         Ok (resp_created (client_to_dict E (crypto_fingerprint A) a w)) w)))))" if "client_sys a u" for a u
    unfolding Let_def using that
    by (auto intro!: holds_bind client_setting_sys upd_client_sys client_start_sys simp: cview_def)
  note run = this [THEN client_sys_system]
  show "holds system_ok (case x of None \<Rightarrow> Raise AttributeError v
     | Some a \<Rightarrow> let w = upd_client a (\<lambda>c. c\<lparr>c_enabled := dict_default True (d_cenabled d), c_sync := dict_default True (d_sync d)\<rparr>) v in
         bind (update_autojoin (Some (dict_default True (d_autojoin d))) False a w) (\<lambda>_ w.
         bind (update_online (Some (dict_default True (d_online d))) False a w) (\<lambda>_ w.
         let w = upd_client a (\<lambda>c. c\<lparr>displayname := dict_default ''disable'' (d_displayname d),
                                    avatar_url := dict_default ''disable'' (d_avatar_url d)\<rparr>) w in
         bind (client_update a w) (\<lambda>_ w.
         bind (client_start E 0 a w) (\<lambda>_ w.
         Ok (resp_created (client_to_dict E (crypto_fingerprint A) a w)) w)))))"
  proof (cases x)
    case (Some a)
    have "client_sys a v" using client_get_system(2) [OF ok g [unfolded Some]] by simp
    then show ?thesis unfolding Some option.case by (rule run)
  qed (use v in simp)
qed

lemma system_log [simp]: "system_ok (log_event e w) = system_ok w"
proof -
  have "system_ok u" if "system_ok v" "view u = view v" for u v
    using that by (intro system_ok_sys [OF that(1)] sys_view) (simp_all add: system_ok_def)
  from this [of w "log_event e w"] this [of "log_event e w" w] view_simps(1) [of e w] show ?thesis by argo
qed

lemma create_client_system:
  assumes ok: "system_ok w"
  shows "holds system_ok (create_client_from E A user d w)"
proof -
  have "holds system_ok (case user of
            None \<Rightarrow> bind (client_get E None None None wu v) (\<lambda>existing w.
              if existing \<noteq> None then Ok resp_user_exists w else setup_client E A wu d w)
          | Some u \<Rightarrow> if wu \<noteq> u then Ok (resp_mxid_mismatch wu) v
              else if wd \<noteq> [] \<and> opt_truthy (d_device_id d) \<and> Some wd \<noteq> d_device_id d
              then Ok (resp_device_id_mismatch wd) v else setup_client E A wu d v)" if v: "system_ok v" for v wu wd
    using client_get_system(1) [OF v] setup_client_system v by (auto intro!: holds_bind split: option.split)
  then show ?thesis
    unfolding create_client_from_def query_def using ok by (auto split: sum.split option.split)
qed

lemma update_client_system:
  assumes ok: "client_sys a w"
  shows "holds (client_sys a) (update_client_from E A a d is_login w)"
proof -
  have acc: "holds (client_sys a) (update_access_details E (d_access_token d) (d_homeserver d) (d_device_id d) a w)"
    by (rule client_sys_view [OF ok update_access_details_view [OF refl]])
  have "holds (client_sys a) (case update_access_details E (d_access_token d) (d_homeserver d) (d_device_id d) a w of
      Ok _ w \<Rightarrow> Ok None w | Raise e w \<Rightarrow> (case access_error e of Inl e \<Rightarrow> Raise e w | Inr r \<Rightarrow> Ok r w))"
    using acc by (auto split: res.split sum.split)
  moreover have "holds (client_sys a) (bind (update_avatar_url E (d_avatar_url d) False a w) (\<lambda>_ w.
         bind (update_displayname E (d_displayname d) False a w) (\<lambda>_ w.
         bind (client_update_started E (d_cstarted d) a w) (\<lambda>_ w.
         bind (update_enabled (d_cenabled d) False a w) (\<lambda>_ w.
         bind (update_autojoin (d_autojoin d) False a w) (\<lambda>_ w.
         bind (update_online (d_online d) False a w) (\<lambda>_ w.
         bind (update_sync (d_sync d) False a w) (\<lambda>_ w.
         bind (client_update a w) (\<lambda>_ w.
         Ok (resp_updated (client_to_dict E (crypto_fingerprint A) a w) is_login) w)))))))))" if "client_sys a w" for w
    using that by (intro holds_bind client_setting_sys client_update_started_sys) simp_all
  ultimately show ?thesis
    unfolding update_client_from_def by (intro holds_bind) (auto split: option.split)
qed

lemma crypto_guard_sys: "holds I r \<Longrightarrow> holds I (crypto_guard A r)"
  by (cases r) (simp_all add: crypto_guard_def)

lemma refresh_trust_sys: "client_sys a w \<Longrightarrow> holds (client_sys a) (refresh_trust E a w)"
  by (rule client_sys_view) (auto simp: refresh_trust_def Let_def view_upd_client cview_def intro!: holds_bind)

lemma client_requests_system:
  assumes ok: "system_ok w"
  shows "holds system_ok (get_client E A k w)" "holds system_ok (create_client E A data w)"
    "holds system_ok (update_client E A k data w)" "holds system_ok (delete_client E k w)"
    "holds system_ok (clear_client_cache E k w)" "holds system_ok (verify_client E A k key w)"
    "holds system_ok (generate_recovery_key E A k w)" "holds system_ok (create_or_update_client E A k d is_login w)"
proof -
  note get = client_get_system [OF ok]
  have via: "holds system_ok (bind (client_get E None None None k w) f)"
    if "\<And>v. system_ok v \<Longrightarrow> holds system_ok (f None v)"
      "\<And>a v. client_sys a v \<Longrightarrow> map_of (client_cache v) (c_id (clients v ! a)) = Some a \<Longrightarrow> holds (client_sys a) (f (Some a) v) \<or> holds system_ok (f (Some a) v)" for f
  proof (rule holds_bind [OF get(1)])
    fix x v
    assume g: "client_get E None None None k w = Ok x v" and v: "system_ok v"
    show "holds system_ok (f x v)"
    proof (cases x)
      case (Some a)
      then show ?thesis using that(2) [of a v] get(2) [OF g [unfolded Some]] client_sys_system by auto
    qed (use that(1) [OF v] in simp)
  qed
  show "holds system_ok (get_client E A k w)"
    unfolding get_client_def by (rule via) (simp_all add: client_sys_def)
  show "holds system_ok (create_client E A data w)"
    using create_client_system [OF ok] ok by (auto simp: create_client_def split: option.split)
  show "holds system_ok (create_or_update_client E A k d is_login w)" for d is_login
    unfolding create_or_update_client_def
    by (auto intro!: via create_client_system intro: update_client_system)
  then show "holds system_ok (update_client E A k data w)"
    unfolding update_client_def using ok by (auto split: option.split)
  show "holds system_ok (clear_client_cache E k w)"
    unfolding clear_client_cache_def
    by (rule via) (auto intro!: holds_bind client_setting_sys simp: client_sys_def)
  have "holds (client_sys a) (crypto_do E what a v)" if "client_sys a v" for a v what
    by (rule client_sys_view [OF that crypto_do_view [OF refl]])
  then show "holds system_ok (verify_client E A k key w)"
    unfolding verify_client_def
    by (intro via) (auto intro!: holds_bind crypto_guard_sys refresh_trust_sys split: option.split)
  have lg: "client_sys a (log_event e v) = client_sys a v" for a e v by (simp add: client_sys_def)
  show "holds system_ok (generate_recovery_key E A k w)"
    unfolding generate_recovery_key_def
    by (rule via, simp, rule disjI1) (auto simp: Let_def lg intro!: holds_bind crypto_guard_sys refresh_trust_sys)
  have "holds system_ok (if 0 < length (c_references (clients v ! a)) then Ok resp_client_in_use v
         else bind (if c_started (clients v ! a) then client_stop E a v else Ok () v) (\<lambda>_ w.
           bind (client_delete a w) (\<lambda>_ w. Ok resp_deleted w)))"
    if v: "client_sys a v" and c: "map_of (client_cache v) (c_id (clients v ! a)) = Some a" for a v
  proof (cases "c_references (clients v ! a) = []")
    case True
    have "keeps_view v (client_stop E a v)"
      using True v
      by (auto simp: client_stop_def stop_plugins_def Let_def client_sys_def view_upd_client cview_def intro!: crypto_do_view)
    then have stop: "keeps_view v (if c_started (clients v ! a) then client_stop E a v else Ok () v)" by simp
    have del: "holds system_ok (bind (client_delete a u) (\<lambda>_ w. Ok resp_deleted w))" if u: "view u = view v" for u
    proof -
      have su: "system_ok u" using client_sys_view [OF v, of "Ok () u"] u by (simp add: client_sys_def)
      have cu: "map_of (client_cache u) (c_id (clients u ! a)) = Some a"
        using c v view_caches(2) [OF u] view_client(1) [OF u] by (simp add: client_sys_def)
      have "holds system_ok (client_delete a u)"
        by (rule holds_system [OF su client_delete_ok [OF _ cu]]) (use su in \<open>simp add: system_ok_def\<close>)
      then show ?thesis by (rule holds_bind) simp
    qed
    let ?r = "if c_started (clients v ! a) then client_stop E a v else Ok () v"
    have "holds system_ok (bind ?r (\<lambda>_ w. bind (client_delete a w) (\<lambda>_ w. Ok resp_deleted w)))"
      using stop del client_sys_view [OF v stop]
      by (cases ?r) (auto simp: client_sys_def simp del: if_split)
    then show ?thesis using True by simp
  qed (use v in \<open>simp add: client_sys_def\<close>)
  then show "holds system_ok (delete_client E k w)"
    unfolding delete_client_def by (intro via) (auto simp del: length_greater_0_conv)
qed

section \<open>Every history\<close>

lemma run_next_system:
  assumes ok: "system_ok w" and save: "\<And>a ts. tasks w = SaveInstance a # ts \<Longrightarrow> cached a w"
  shows "system_ok (run_next E w)"
proof (cases "tasks w")
  case (Cons t ts)
  let ?w = "w\<lparr>tasks := ts\<rparr>"
  have w': "system_ok ?w" using ok Cons world_ok_tasks by (auto simp: system_ok_def)
  show ?thesis
  proof (cases t)
    case (StartClient a n)
    have "client_sys a ?w" using ok w' Cons StartClient by (auto simp: client_sys_def system_ok_def)
    from client_start_sys [OF this, of E n] show ?thesis
      using Cons StartClient by (simp add: run_next_def holds_def client_sys_def)
  next
    case (SaveInstance a)
    have a: "cached a ?w" using save [of a ts] Cons SaveInstance by (simp add: cached_def)
    have "holds (sys ?w) (inst_update a ?w)"
      by (rule holds_sys_view) (use w' a in \<open>auto simp: system_ok_def intro!: inst_update_view\<close>)
    from holds_system [OF w' this] show ?thesis using Cons SaveInstance by (simp add: run_next_def holds_def)
  qed
qed (use ok in \<open>simp add: run_next_def\<close>)

lemma save_config_system: "system_ok w \<Longrightarrow> system_ok (save_config val a w)"
proof -
  assume ok: "system_ok w"
  let ?v = "upd_inst a (\<lambda>i. i\<lparr>config_str := val\<rparr>) w"
  have "world_ok ?v" using ok by (intro world_ok_view [of ?v w]) (simp_all add: view_upd_inst iview_def system_ok_def)
  then show ?thesis using ok world_ok_tasks [of ?v] by (auto simp: save_config_def system_ok_def)
qed

text \<open>
  A program that has just started: no objects yet, and tables that satisfy their constraints. A step
  is a request, a plugin that saves its configuration, a background task, a lookup, a load, a start or
  a stop of the start-up and shut-down code, or a change on disk. Two things are left out: requests
  that change the id of an instance, and a pending save of an instance that has been deleted in between.
\<close>

inductive reachable :: "('y, 'c) env \<Rightarrow> api \<Rightarrow> world \<Rightarrow> bool" for E A where
  init: "loaders w = [] \<Longrightarrow> id_cache w = [] \<Longrightarrow> path_cache w = [] \<Longrightarrow> clients w = [] \<Longrightarrow> client_cache w = [] \<Longrightarrow>
     instances w = [] \<Longrightarrow> inst_cache w = [] \<Longrightarrow> tasks w = [] \<Longrightarrow>
     (\<forall>k r. map_of (client_table w) k = Some r \<longrightarrow> c_id r = k) \<Longrightarrow>
     (\<forall>k r. map_of (inst_table w) k = Some r \<longrightarrow> i_id r = k \<and> in_dict (primary_user r) (client_table w)) \<Longrightarrow> reachable E A w"
| lookups: "reachable E A w \<Longrightarrow> v \<in> {state_of (get_loader E path w), state_of (client_get E hs token dev k w),
     state_of (inst_get None None k w)} \<Longrightarrow> reachable E A v"
| load: "reachable E A w \<Longrightarrow> cached a w \<Longrightarrow> v \<in> {state_of (inst_load E a w), state_of (inst_start E a w)} \<Longrightarrow> reachable E A v"
| instance_request: "reachable E A w \<Longrightarrow> keeps_id k data \<Longrightarrow> v \<in> {state_of (get_instance E k w),
     state_of (update_instance E k data w), state_of (delete_instance E k w)} \<Longrightarrow> reachable E A v"
| plugin_request: "reachable E A w \<Longrightarrow> v \<in> {state_of (delete_plugin E k w), state_of (reload_plugin E A k w),
     state_of (put_plugin E A k content w), state_of (upload_plugin E A allow content w)} \<Longrightarrow> reachable E A v"
| client_request: "reachable E A w \<Longrightarrow> v \<in> {state_of (get_client E A k w), state_of (create_client E A cdata w),
     state_of (update_client E A k cdata w), state_of (delete_client E k w), state_of (clear_client_cache E k w),
     state_of (verify_client E A k key w), state_of (generate_recovery_key E A k w)} \<Longrightarrow> reachable E A v"
| login: "reachable E A w \<Longrightarrow> v \<in> {state_of (create_client_from E A user d w),
     state_of (create_or_update_client E A k d is_login w)} \<Longrightarrow> reachable E A v"
| client_startup: "reachable E A w \<Longrightarrow> a < length (clients w) \<Longrightarrow>
     v \<in> {state_of (client_start E 0 a w), state_of (client_stop E a w)} \<Longrightarrow> reachable E A v"
| save: "reachable E A w \<Longrightarrow> cached a w \<Longrightarrow> reachable E A (save_config val a w)"
| background: "reachable E A w \<Longrightarrow> (\<forall>a ts. tasks w = SaveInstance a # ts \<longrightarrow> cached a w) \<Longrightarrow> reachable E A (run_next E w)"
| disk: "reachable E A w \<Longrightarrow> reachable E A (w\<lparr>fs := f\<rparr>)"

lemma reachable_system: "reachable E A w \<Longrightarrow> system_ok w"
proof (induction rule: reachable.induct)
  case (init w)
  then show ?case
    by (simp add: system_ok_def world_ok_def loader_ok_def caches_ok_def client_inv_def inst_inv_def fk_ok_def)
next
  case (lookups w v path hs token dev k)
  then have w: "world_ok w" by (simp add: system_ok_def)
  show ?case
    using lookups.hyps(2) holds_system [OF lookups.IH get_loader_sys [OF w, of E path]] client_get_system(1) [OF lookups.IH, of E hs token dev k]
      inst_get_system(1) [OF lookups.IH, of None None k] by (auto simp: holds_def)
next
  case (load w a v)
  then have w: "world_ok w" by (simp add: system_ok_def)
  show ?case
    using load.hyps(3) holds_system [OF load.IH inst_load_sys(1) [OF w load.hyps(2), of E]]
      holds_system [OF load.IH inst_start_sys [OF w load.hyps(2), of E]] by (auto simp: holds_def)
next
  case (instance_request w k data v)
  then show ?case using instance_requests_system [OF instance_request.IH, where E = E] by (auto simp: holds_def)
next
  case (plugin_request w v k content allow)
  then show ?case using plugin_requests_system [OF plugin_request.IH, where E = E] by (auto simp: holds_def)
next
  case (client_request w v k cdata key)
  then show ?case using client_requests_system [OF client_request.IH, where E = E] by (auto simp: holds_def)
next
  case (login w v user d k is_login)
  then show ?case using client_requests_system(8) [OF login.IH, where E = E] create_client_system [OF login.IH, where E = E]
    by (auto simp: holds_def)
next
  case (client_startup w a v)
  then have a: "client_sys a w" by (simp add: client_sys_def)
  show ?case
    using client_startup.hyps(3) client_start_sys [OF a, of E 0]
      client_sys_sys [OF a client_stop_ok [OF client_sys_world [OF a] client_startup.hyps(2), of E]]
    by (auto simp: holds_def client_sys_def)
next
  case (save w a val)
  then show ?case by (simp add: save_config_system)
next
  case (background w)
  then show ?case by (intro run_next_system) blast+
next
  case (disk w f)
  then have w: "world_ok w" by (simp add: system_ok_def)
  have "view (w\<lparr>fs := f\<rparr>) = view w" by simp
  from system_ok_sys [OF disk.IH sys_view [OF w this]] show ?case .
qed

section \<open>Properties\<close>

text \<open>
  C1. The references between plugins, clients and instances agree in every world that the program
  can reach: a loaded instance is in the reference set of the plugin and of the client it uses, and
  whatever is in a reference set is a cached instance that uses the plugin or client. The row of
  every cached instance exists, names the instance's primary user, and that client exists.
\<close>

theorem reference_integrity:
  assumes "reachable E A w"
  shows "(\<forall>k b l. map_of (inst_cache w) k = Some b \<and> i_loader (instances w ! b) = Some l \<longrightarrow>
        l < length (loaders w) \<and> (k, b) \<in> set (l_references (loaders w ! l)))
    \<and> (\<forall>k b c. map_of (inst_cache w) k = Some b \<and> i_client (instances w ! b) = Some c \<longrightarrow>
        c < length (clients w) \<and> (k, b) \<in> set (c_references (clients w ! c)))
    \<and> (\<forall>l k b. l < length (loaders w) \<and> (k, b) \<in> set (l_references (loaders w ! l)) \<longrightarrow>
        map_of (inst_cache w) k = Some b \<and> i_loader (instances w ! b) = Some l)
    \<and> (\<forall>c k b. c < length (clients w) \<and> (k, b) \<in> set (c_references (clients w ! c)) \<longrightarrow>
        map_of (inst_cache w) k = Some b \<and> i_client (instances w ! b) = Some c)
    \<and> (\<forall>k b. map_of (inst_cache w) k = Some b \<longrightarrow> (\<exists>r. map_of (inst_table w) k = Some r
        \<and> primary_user r = primary_user (instances w ! b) \<and> in_dict (primary_user r) (client_table w)))"
proof -
  have ok: "world_ok w" using reachable_system [OF assms] by (simp add: system_ok_def)
  note lk = world_okD(5) [OF ok, unfolded inst_linked_def]
  show ?thesis
  proof (intro conjI allI impI; (elim conjE)?)
    fix k b l assume "map_of (inst_cache w) k = Some b" "i_loader (instances w ! b) = Some l"
    then show "l < length (loaders w)" "(k, b) \<in> set (l_references (loaders w ! l))" using lk by blast+
  next
    fix k b c assume "map_of (inst_cache w) k = Some b" "i_client (instances w ! b) = Some c"
    then show "c < length (clients w)" "(k, b) \<in> set (c_references (clients w ! c))" using lk by blast+
  next
    fix l k b assume "l < length (loaders w)" "(k, b) \<in> set (l_references (loaders w ! l))"
    then show "map_of (inst_cache w) k = Some b" "i_loader (instances w ! b) = Some l"
      using world_okD(6) [OF ok] by (auto simp: loader_linked_def)
  next
    fix c k b assume "c < length (clients w)" "(k, b) \<in> set (c_references (clients w ! c))"
    then show "map_of (inst_cache w) k = Some b" "i_client (instances w ! b) = Some c"
      using world_okD(7) [OF ok] by (auto simp: client_linked_def)
  next
    fix k b assume "map_of (inst_cache w) k = Some b"
    then show "\<exists>r. map_of (inst_table w) k = Some r \<and> primary_user r = primary_user (instances w ! b)
        \<and> in_dict (primary_user r) (client_table w)"
      using lk world_okD(4) [OF ok] unfolding fk_ok_def by metis
  qed
qed

lemma deletion_no_users:
  assumes "reachable E A w"
  shows "delete_plugin E k w = Ok resp_deleted v \<Longrightarrow> map_of (inst_cache w) j = Some b \<Longrightarrow>
      i_loader (instances w ! b) = None \<or> i_loader (instances w ! b) \<noteq> map_of (id_cache w) k"
    and "delete_client E k w = Ok resp_deleted v \<Longrightarrow> \<not> in_dict k (client_table v)
      \<and> (\<forall>j r. map_of (inst_table v) j = Some r \<longrightarrow> primary_user r \<noteq> k)
      \<and> (\<forall>j b. map_of (inst_cache v) j = Some b \<longrightarrow> primary_user (instances v ! b) \<noteq> k)"
proof -
  have ok: "world_ok w" using reachable_system [OF assms] by (simp add: system_ok_def)
  show "i_loader (instances w ! b) = None \<or> i_loader (instances w ! b) \<noteq> map_of (id_cache w) k"
    if del: "delete_plugin E k w = Ok resp_deleted v" and b: "map_of (inst_cache w) j = Some b"
  proof (rule ccontr)
    assume "\<not> (i_loader (instances w ! b) = None \<or> i_loader (instances w ! b) \<noteq> map_of (id_cache w) k)"
    then obtain l where l: "i_loader (instances w ! b) = map_of (id_cache w) k" "i_loader (instances w ! b) = Some l" by auto
    have "(j, b) \<in> set (l_references (loaders w ! l))"
      using world_okD(5) [OF ok b] l by (auto simp: inst_linked_def)
    moreover have "map_of (id_cache w) k = Some l" using l by simp
    ultimately have "delete_plugin E k w = Ok resp_plugin_in_use w" by (auto simp: delete_plugin_def)
    moreover have "resp_plugin_in_use \<noteq> resp_deleted"
      by (simp add: resp_plugin_in_use_def resp_deleted_def json_response_def empty_response_def)
    ultimately show False using del by simp
  qed
  assume del: "delete_client E k w = Ok resp_deleted v"
  have v: "world_ok v"
    using client_requests_system(4) [OF reachable_system [OF assms], of E k] del by (simp add: system_ok_def)
  have "\<not> in_dict k (client_table v)"
  proof -
    have ne: "resp_client_in_use \<noteq> resp_deleted" "resp_client_not_found \<noteq> resp_deleted"
      by (simp_all add: resp_client_in_use_def resp_client_not_found_def resp_deleted_def json_response_def empty_response_def)
    from del obtain a u where g: "client_get E None None None k w = Ok (Some a) u" and
      run: "(if 0 < length (c_references (clients u ! a)) then Ok resp_client_in_use u
         else bind (if c_started (clients u ! a) then client_stop E a u else Ok () u) (\<lambda>_ w.
           bind (client_delete a w) (\<lambda>_ w. Ok resp_deleted w))) = Ok resp_deleted v"
      unfolding delete_client_def using ne by (auto simp: bind_eq_Ok split: option.splits)
    have refs: "c_references (clients u ! a) = []" using run ne by (cases "c_references (clients u ! a)") auto
    then obtain x t where stop: "(if c_started (clients u ! a) then client_stop E a u else Ok () u) = Ok x t"
      and d: "client_delete a t = Ok () v" using run by (auto simp: bind_eq_Ok)
    have au: "client_sys a u" "c_id (clients u ! a) = k" using client_get_system(2) [OF reachable_system [OF assms] g] by simp_all
    have "keeps_view u (client_stop E a u)"
      using refs au by (auto simp: client_stop_def stop_plugins_def Let_def client_sys_def view_upd_client cview_def intro!: crypto_do_view)
    then have "view t = view u" using stop by (auto split: if_splits)
    then have "c_id (clients t ! a) = k" using view_client(1) [of t u a] au by (simp add: client_sys_def)
    then show ?thesis using d by (auto simp: client_delete_def db_client_delete_def Let_def in_dict_def split: if_splits)
  qed
  moreover have "in_dict (primary_user r) (client_table v)" if "map_of (inst_table v) j = Some r" for j r
    using world_okD(4) [OF v] that unfolding fk_ok_def by blast
  moreover have "in_dict (primary_user (instances v ! b)) (client_table v)" if "map_of (inst_cache v) j = Some b" for j b
    by (rule cached_user [OF v cachedD(3) [OF v that]])
  ultimately show "\<not> in_dict k (client_table v) \<and> (\<forall>j r. map_of (inst_table v) j = Some r \<longrightarrow> primary_user r \<noteq> k)
      \<and> (\<forall>j b. map_of (inst_cache v) j = Some b \<longrightarrow> primary_user (instances v ! b) \<noteq> k)" by blast
qed

text \<open>
  C10. The management API deletes a plugin only when no cached instance uses it, and a client
  only when no instance, cached or stored, has it as its primary user.
\<close>

theorem deletion_needs_no_users:
  assumes "reachable E A w"
  shows "(\<forall>v j b l. delete_plugin E k w = Ok resp_deleted v \<and> map_of (inst_cache w) j = Some b \<and> map_of (id_cache w) k = Some l \<longrightarrow>
        i_loader (instances w ! b) \<noteq> Some l)
    \<and> (\<forall>v. delete_client E k w = Ok resp_deleted v \<longrightarrow> \<not> in_dict k (client_table v)
        \<and> (\<forall>j r. map_of (inst_table v) j = Some r \<longrightarrow> primary_user r \<noteq> k)
        \<and> (\<forall>j b. map_of (inst_cache v) j = Some b \<longrightarrow> primary_user (instances v ! b) \<noteq> k))"
  using deletion_no_users [OF assms] by (metis option.distinct(1))

section \<open>A small history\<close>

text \<open>One plugin file, one stored client and one stored instance, looked up and loaded one after the other.\<close>

definition ex_api :: api where
  "ex_api = \<lparr>upload_directory = ustr ''/'', has_alchemy = False, same_version = (=), now_ms = ''0'', may_write = (\<lambda>_. True),
     py_str = (\<lambda>_. []), py_traceback = (\<lambda>_. []), net_new_whoami = (\<lambda>_ _ _. Inr (''@a:b'', [])),
     crypto_own_keys = (\<lambda>_ _. Inr False), crypto_recovery_key = (\<lambda>_ _. Inr []), crypto_fingerprint = (\<lambda>_. None)\<rparr>"

definition ex_start :: world where
  "ex_start = lworld.extend ex_world (world.fields [] [] [] [] [(''@a:b'', ex_row)] [(''i'', ex_irow)]
     (server_init ''/plugin/'' ''https://x'') [] [])"

lemma ex_start_simps [simp]:
  "loaders ex_start = []" "id_cache ex_start = []" "path_cache ex_start = []" "clients ex_start = []" "client_cache ex_start = []"
  "instances ex_start = []" "inst_cache ex_start = []" "tasks ex_start = []" "client_table ex_start = [(''@a:b'', ex_row)]"
  "inst_table ex_start = [(''i'', ex_irow)]" "fs ex_start = ex_fs" "dir_cache ex_start = []" "modules ex_start = []"
  by (simp_all add: ex_start_def lworld.defs world.defs ex_world_def)

lemma ex_reachable_start: "reachable ex_who A ex_start"
  by (rule reachable.init) (simp_all add: ex_row_def ex_irow_def in_dict_def)

lemma ex_who_read_meta: "read_meta ex_who (ex_fs (ustr ''/a.mbp'')) = Inr (ex_zip, ex_meta)"
  by (simp add: read_meta_def ex_fs_file ex_who_def ex_net_def loader_env.defs ex_env_def ex_zip_def)

lemma ex_who_load_meta:
  "load_meta ex_who (l, w) = Ok () (l\<lparr>l_meta := Some ex_meta, l_main_module := ''m'', l_main_class := ''Main'', l_file := Some ex_zip\<rparr>, w)"
  if "l_path l = Some (ustr ''/a.mbp'')" "l_meta l = None" "fs w = ex_fs"
  using that by (simp add: load_meta_def self_path_def ex_who_read_meta Let_def) (simp add: ex_meta_def)

lemma ex_who_checks:
  "l_main_module l = ''m'' \<Longrightarrow> l_main_class l = ''Main'' \<Longrightarrow> fs w = ex_fs \<Longrightarrow>
   run_preload_checks ex_who ex_importer (l, w) = Ok () (l, w)"
  by (simp add: run_preload_checks_def zi_get_code_def ex_who_def ex_net_def loader_env.defs ex_env_def ex_code replace_char_def)

definition ex_scanned :: world where
  "ex_scanned = ex_start\<lparr>loaders := [ex_loader], id_cache := [(''a.b'', 0)], path_cache := [(ustr ''/a.mbp'', 0)],
     dir_cache := [(ustr ''/a.mbp'', zi_files ex_importer)]\<rparr>"

lemma ex_scan: "get_loader ex_who (ustr ''/a.mbp'') ex_start = Ok 0 ex_scanned"
proof -
  have "preload ex_who (new_loader (ustr ''/a.mbp''), ex_start) =
      Ok () (ex_loader, ex_start\<lparr>dir_cache := [(ustr ''/a.mbp'', zi_files ex_importer)]\<rparr>)"
    by (simp add: preload_def ex_who_load_meta new_loader_def get_importer_def ex_importer_init
        self_path_def ex_who_checks ex_loader_def)
  moreover have "le_abspath ex_who (ustr ''/a.mbp'') = ustr ''/a.mbp''"
    by (simp add: ex_who_def ex_net_def loader_env.defs ex_env_def)
  ultimately show ?thesis
    by (simp add: get_loader_def loader_init_def Let_def in_dict_def ex_loader_def loader_id_def ex_meta_def ex_scanned_def)
qed

lemma ex_reachable_scanned: "reachable ex_who A ex_scanned"
  by (rule reachable.lookups [OF ex_reachable_start, where path = "ustr ''/a.mbp''"]) (simp add: ex_scan)

lemma ex_scanned_simps [simp]:
  "loaders ex_scanned = [ex_loader]" "id_cache ex_scanned = [(''a.b'', 0)]" "clients ex_scanned = []" "client_cache ex_scanned = []"
  "instances ex_scanned = []" "inst_cache ex_scanned = []" "tasks ex_scanned = []" "client_table ex_scanned = [(''@a:b'', ex_row)]"
  "inst_table ex_scanned = [(''i'', ex_irow)]" "fs ex_scanned = ex_fs"
  by (simp_all add: ex_scanned_def)

text \<open>The world in which the instance has been loaded.\<close>

definition ex_looked_up :: world where
  "ex_looked_up = with_inst ex_irow ex_scanned"

lemma ex_inst_lookup: "inst_get None None ''i'' ex_scanned = Ok (Some 0) ex_looked_up"
  using new_inst_postinit [of ex_irow ex_scanned]
  by (simp add: inst_get_def db_inst_get_def ex_looked_up_def)

definition ex_loaded :: world where
  "ex_loaded = state_of (inst_load ex_who 0 ex_looked_up)"

lemma ex_looked_up_simps [simp]:
  "instances ex_looked_up = [fresh_inst ex_irow]" "inst_cache ex_looked_up = [(''i'', 0)]" "id_cache ex_looked_up = [(''a.b'', 0)]"
  "loaders ex_looked_up = [ex_loader]" "clients ex_looked_up = []" "client_cache ex_looked_up = []"
  "client_table ex_looked_up = [(''@a:b'', ex_row)]" "tasks ex_looked_up = []"
  by (simp_all add: ex_looked_up_def with_inst_def) (simp_all add: ex_irow_def)

lemma ex_reachable_loaded: "reachable ex_who A ex_loaded"
proof -
  have "reachable ex_who A ex_looked_up"
    by (rule reachable.lookups [OF ex_reachable_scanned, where k = "''i''"]) (simp add: ex_inst_lookup)
  then show ?thesis
    by (rule reachable.load [where a = 0]) (simp_all add: cached_def ex_loaded_def)
qed

lemma ex_loaded_deps:
  "map_of (inst_cache ex_loaded) ''i'' = Some 0 \<and> i_loader (instances ex_loaded ! 0) = Some 0 \<and> i_client (instances ex_loaded ! 0) = Some 0"
proof -
  have "client_get ex_who None None None ''@a:b'' w = Ok (Some (length (clients w))) (with_client ex_who ex_row w)"
    if "client_cache w = []" "client_table w = [(''@a:b'', ex_row)]" for w
    using that by (simp add: client_get_None)
  then show ?thesis
    by (simp add: ex_loaded_def inst_load_def load_loader_def load_client_def find_plugin_def meta_of_def ex_loader_def
        with_client_def enable_webapp_def add_reference_def ex_meta_def split: prod.split)
qed

theorem reference_integrity_witness:
  "map_of (inst_cache ex_loaded) ''i'' = Some 0 \<and> i_loader (instances ex_loaded ! 0) = Some 0
    \<and> (''i'', 0) \<in> set (l_references (loaders ex_loaded ! 0)) \<and> (''i'', 0) \<in> set (c_references (clients ex_loaded ! 0))
    \<and> (\<exists>r. map_of (inst_table ex_loaded) ''i'' = Some r \<and> in_dict (primary_user r) (client_table ex_loaded))"
proof -
  note d = ex_loaded_deps
  note r = reference_integrity [OF ex_reachable_loaded [of ex_api]]
  have "(''i'', 0) \<in> set (l_references (loaders ex_loaded ! 0))" using r [THEN conjunct1] d by blast
  moreover have "(''i'', 0) \<in> set (c_references (clients ex_loaded ! 0))" using r [THEN conjunct2, THEN conjunct1] d by blast
  moreover have "\<exists>r. map_of (inst_table ex_loaded) ''i'' = Some r \<and> in_dict (primary_user r) (client_table ex_loaded)"
    using r [THEN conjunct2, THEN conjunct2, THEN conjunct2, THEN conjunct2] d by blast
  ultimately show ?thesis using d by blast
qed

lemma ex_delete_plugin: "\<exists>v. delete_plugin ex_who ''a.b'' ex_scanned = Ok resp_deleted v"
proof -
  have "fs ex_scanned (ustr ''/a.mbp'') = Regular (Some (write_archive ex_members))" by (simp add: ex_fs_file)
  then show ?thesis
    by (simp add: delete_plugin_def on_loader_def loader_delete_def unload_def ex_loader_def self_path_def
        trash_def remove_if_exists_def os_remove_def Let_def ex_who_def ex_net_def loader_env.defs ex_env_def split: res.split)
qed

theorem deletion_needs_no_users_witness:
  "(\<exists>v. delete_plugin ex_who ''a.b'' ex_scanned = Ok resp_deleted v
     \<and> (\<forall>j b. map_of (inst_cache ex_scanned) j = Some b \<longrightarrow> i_loader (instances ex_scanned ! b) \<noteq> Some 0))
   \<and> reachable ex_who ex_api ex_scanned"
proof -
  obtain v where v: "delete_plugin ex_who ''a.b'' ex_scanned = Ok resp_deleted v" using ex_delete_plugin by blast
  have "map_of (id_cache ex_scanned) ''a.b'' = Some 0" by simp
  with deletion_needs_no_users [OF ex_reachable_scanned [of ex_api], of "''a.b''"] v ex_reachable_scanned [of ex_api]
  show ?thesis by (metis option.distinct(1))
qed

end
