(* ===== verification/MB_Events.thy ===== *)
theory MB_Events
  imports MB_Prelude
begin

text \<open>
  Event systems, for the components whose behaviour depends on how the event loop
  interleaves their coroutines: a step function that is \<open>None\<close> on an event the state does
  not allow, its runs over sequences of events, and the two arguments the components use,
  an invariant over all runs and a forward simulation into an abstract event system.
\<close>

fun run :: "('e \<Rightarrow> 's \<Rightarrow> 's option) \<Rightarrow> 'e list \<Rightarrow> 's \<Rightarrow> 's option" where
  "run step [] s = Some s"
| "run step (e # es) s = (case step e s of None \<Rightarrow> None | Some s' \<Rightarrow> run step es s')"

lemma run_append:
  "run step (es @ fs) s = (case run step es s of None \<Rightarrow> None | Some s' \<Rightarrow> run step fs s')"
  by (induction es arbitrary: s) (auto split: option.splits)

lemma run_appendI: "run step es s = Some t \<Longrightarrow> run step fs t = Some u \<Longrightarrow> run step (es @ fs) s = Some u"
  by (simp add: run_append)

lemma run_single: "run step [e] s = step e s"
  by (simp split: option.splits)

lemma run_step_invariant:
  assumes step: "\<And>e s s'. Inv s \<Longrightarrow> step e s = Some s' \<Longrightarrow> Inv s'"
    and "Inv s" and "run step es s = Some s'"
  shows "Inv s'"
  using assms(2,3) by (induction es arbitrary: s) (auto split: option.splits intro: step)

locale event_invariant =
  fixes step :: "'e \<Rightarrow> 's \<Rightarrow> 's option"
    and init :: 's
    and Inv :: "'s \<Rightarrow> bool"
  assumes inv_init: "Inv init"
    and inv_step: "Inv s \<Longrightarrow> step e s = Some s' \<Longrightarrow> Inv s'"
begin

lemma run_inv: "run step es init = Some s \<Longrightarrow> Inv s"
  using run_step_invariant [of Inv step init es s] inv_init inv_step by blast

end

text \<open>
  Every concrete step is matched by a sequence of abstract events, possibly an empty one.
  Such a simulation lifts from steps to runs.
\<close>

locale forward_simulation =
  fixes cstep :: "'e \<Rightarrow> 'c \<Rightarrow> 'c option"
    and cinit :: 'c
    and astep :: "'f \<Rightarrow> 'a \<Rightarrow> 'a option"
    and ainit :: 'a
    and R :: "'c \<Rightarrow> 'a \<Rightarrow> bool"
  assumes sim_init: "R cinit ainit"
    and sim_step: "R c a \<Longrightarrow> cstep e c = Some c' \<Longrightarrow> \<exists>fs a'. run astep fs a = Some a' \<and> R c' a'"
begin

lemma sim_from:
  "run cstep es c = Some c' \<Longrightarrow> R c a \<Longrightarrow> \<exists>fs a'. run astep fs a = Some a' \<and> R c' a'"
proof (induction es arbitrary: c a)
  case Nil
  then show ?case by (intro exI [of _ "[]"] exI [of _ a]) simp
next
  case (Cons e es)
  then obtain d where d: "cstep e c = Some d" "run cstep es d = Some c'"
    by (auto split: option.splits)
  from sim_step [OF Cons.prems(2) d(1)] obtain fs b
    where b: "run astep fs a = Some b" "R d b" by blast
  from Cons.IH [OF d(2) b(2)] obtain gs a' where "run astep gs b = Some a'" "R c' a'" by blast
  then show ?case using run_appendI [OF b(1)] by blast
qed

lemma refines: "run cstep es cinit = Some c \<Longrightarrow> \<exists>fs a. run astep fs ainit = Some a \<and> R c a"
  using sim_from sim_init by blast

end

end
