(* ===== verification/MB_Log.thy ===== *)
theory MB_Log
  imports MB_Auth MB_Events
begin

text \<open>
  The live log of \<^verbatim>\<open>management/api/log.py\<close>: the logging handler that keeps the last records
  and sends new ones to its listeners, and the \<^verbatim>\<open>/logs\<close> websocket on which a listener
  authenticates.

  The coroutines of this file run interleaved, so the model is an event system. An event is
  what happens between two points where the event loop may switch: a record is logged, a
  websocket connects, receives a message, completes a send or ends, a \<open>send\<close> task delivers
  one record to one listener, \<open>stop_all\<close> closes one socket, or a timer fires. A coroutine
  that is suspended in the middle of a message keeps its position as a value of \<open>ws_pc\<close>.
\<close>

section \<open>Log records\<close>

definition BUILTIN_ATTRS :: "string list" where
  "BUILTIN_ATTRS =
     [''args'', ''asctime'', ''created'', ''exc_info'', ''exc_text'', ''filename'', ''funcName'',
      ''levelname'', ''levelno'', ''lineno'', ''module'', ''msecs'', ''message'', ''msg'', ''name'',
      ''pathname'', ''process'', ''processName'', ''relativeCreated'', ''stack_info'', ''thread'',
      ''threadName'']"

definition INCLUDE_ATTRS :: "string list" where
  "INCLUDE_ATTRS =
     [''filename'', ''funcName'', ''levelname'', ''levelno'', ''lineno'', ''module'', ''name'', ''pathname'']"

definition EXCLUDE_ATTRS :: "string list" where
  "EXCLUDE_ATTRS = filter (\<lambda>a. a \<notin> set INCLUDE_ATTRS) BUILTIN_ATTRS"

definition MAX_LINES :: nat where
  "MAX_LINES = 2048"

text \<open>
  Attribute values: something JSON can represent, or a \<^verbatim>\<open>datetime\<close>, kept as its timestamp.
  A record is its \<^verbatim>\<open>__dict__\<close> with the attributes the code reads one by one:
  \<^verbatim>\<open>str(relativeCreated)\<close>, the outcome of \<^verbatim>\<open>getMessage()\<close>, which raises when the arguments do
  not fit the format, \<^verbatim>\<open>created\<close> and \<^verbatim>\<open>exc_info\<close>.
\<close>

datatype log_value = LJson json | LTime int

type_synonym content = "(string, log_value) dict"

record 'x log_record =
  lr_dict :: content
  lr_relativeCreated :: string
  lr_getMessage :: "exn + string"
  lr_created :: int
  lr_exc_info :: "'x option"

text \<open>The standard library's formatting of times and tracebacks.\<close>

record 'x log_env =
  le_isoformat :: "int \<Rightarrow> string"
  le_formatException :: "'x \<Rightarrow> string"

fun iso_value :: "'x log_env \<Rightarrow> log_value \<Rightarrow> log_value" where
  "iso_value L (LTime t) = LJson (JStr (le_isoformat L t))"
| "iso_value L (LJson v) = LJson v"

definition record_content :: "'x log_env \<Rightarrow> 'x log_record \<Rightarrow> exn + content" where
  "record_content L rec =
     (let content = filter (\<lambda>(name, value). name \<notin> set EXCLUDE_ATTRS) (lr_dict rec);
          content = dict_set ''id'' (LJson (JStr (lr_relativeCreated rec))) content in
      case lr_getMessage rec of
        Inl e \<Rightarrow> Inl e
      | Inr msg \<Rightarrow>
          let content = dict_set ''msg'' (LJson (JStr msg)) content;
              content = dict_set ''time'' (LTime (lr_created rec)) content;
              content = (case lr_exc_info rec of
                  None \<Rightarrow> content
                | Some x \<Rightarrow> dict_set ''exc_info'' (LJson (JStr (le_formatException L x))) content)
          in Inr (map (\<lambda>(name, value). (name, iso_value L value)) content))"

section \<open>The collector and its websockets\<close>

datatype log_frame =
    AuthSuccess bool
  | History "content list"
  | Record content

text \<open>
  Where a websocket coroutine is suspended: waiting for a message, sending the confirmation,
  sending the history it has read, sending the refusal, closing after an exception, or
  finished.
\<close>

datatype ws_pc = Reading | SendingAuth | SendingHistory "content list" | SendingRefusal | Closing | Finished

record ws_conn =
  cn_authenticated :: bool
  cn_pc :: ws_pc
  cn_frames :: "log_frame list"
  cn_received :: "string list"
  cn_closed :: bool

text \<open>
  The state: whether the handler is attached to the root logger, its \<open>lines\<close> and
  \<open>listeners\<close>, the open \<open>sockets\<close>, the connections by number, the running \<open>send\<close> tasks with
  the position of their iteration over \<open>listeners\<close>, and that of \<open>stop_all\<close> over \<open>sockets\<close>.
\<close>

record log_state =
  lg_attached :: bool
  lg_lines :: "content list"
  lg_listeners :: "nat list"
  lg_sockets :: "nat list"
  lg_conns :: "(nat, ws_conn) dict"
  lg_tasks :: "(content \<times> nat) list"
  lg_stop :: "nat option"

definition collector_init :: log_state where
  "collector_init = \<lparr>lg_attached = True, lg_lines = [], lg_listeners = [], lg_sockets = [],
     lg_conns = [], lg_tasks = [], lg_stop = None\<rparr>"

text \<open>\<open>append\<close> on a \<^verbatim>\<open>deque\<close> with a \<^verbatim>\<open>maxlen\<close>: a full deque drops its first element.\<close>

definition deque_append :: "nat \<Rightarrow> 'a \<Rightarrow> 'a list \<Rightarrow> 'a list" where
  "deque_append maxlen x xs = (if length xs < maxlen then xs @ [x] else tl (xs @ [x]))"

text \<open>\<open>_emit\<close> and \<open>emit\<close>: a record that cannot be formatted is dropped.\<close>

definition emit_inner :: "'x log_env \<Rightarrow> 'x log_record \<Rightarrow> log_state \<Rightarrow> (log_state, unit) res" where
  "emit_inner L rec st =
     (case record_content L rec of
        Inl e \<Rightarrow> Raise e st
      | Inr content \<Rightarrow> Ok () (st\<lparr>lg_tasks := lg_tasks st @ [(content, 0)],
          lg_lines := deque_append MAX_LINES content (lg_lines st)\<rparr>))"

definition emit :: "'x log_env \<Rightarrow> 'x log_record \<Rightarrow> log_state \<Rightarrow> log_state" where
  "emit L rec st = state_of (catch (emit_inner L rec st) (\<lambda>e st. Ok () st))"

definition push_frame :: "nat \<Rightarrow> log_frame \<Rightarrow> log_state \<Rightarrow> log_state" where
  "push_frame ws f st =
     (case map_of (lg_conns st) ws of
        None \<Rightarrow> st
      | Some c \<Rightarrow> st\<lparr>lg_conns := dict_set ws (c\<lparr>cn_frames := cn_frames c @ [f]\<rparr>) (lg_conns st)\<rparr>)"

text \<open>
  One iteration of \<open>send\<close>: the iterator reads the live list at its position, so a listener
  that is removed in the meantime shifts the ones behind it. \<open>ok\<close> is whether \<open>send_json\<close>
  succeeds; an exception is printed and the loop goes on.
\<close>

definition send_next :: "nat \<Rightarrow> bool \<Rightarrow> log_state \<Rightarrow> log_state option" where
  "send_next t ok st =
     (if length (lg_tasks st) \<le> t then None
      else let (content, i) = lg_tasks st ! t in
        if length (lg_listeners st) \<le> i
        then Some (st\<lparr>lg_tasks := take t (lg_tasks st) @ drop (Suc t) (lg_tasks st)\<rparr>)
        else let st = st\<lparr>lg_tasks := (lg_tasks st)[t := (content, Suc i)]\<rparr> in
          Some (if ok then push_frame (lg_listeners st ! i) (Record content) st else st))"

definition set_pc :: "nat \<Rightarrow> ws_conn \<Rightarrow> ws_pc \<Rightarrow> log_state \<Rightarrow> log_state" where
  "set_pc ws c pc st = st\<lparr>lg_conns := dict_set ws (c\<lparr>cn_pc := pc\<rparr>) (lg_conns st)\<rparr>"

text \<open>A new websocket: \<open>prepare\<close>, \<open>sockets.append\<close> and \<open>authenticated = False\<close>.\<close>

definition ws_open :: "nat \<Rightarrow> log_state \<Rightarrow> log_state option" where
  "ws_open ws st =
     (if in_dict ws (lg_conns st) then None
      else Some (st\<lparr>lg_sockets := lg_sockets st @ [ws],
        lg_conns := dict_set ws \<lparr>cn_authenticated = False, cn_pc = Reading, cn_frames = [],
          cn_received = [], cn_closed = False\<rparr> (lg_conns st)\<rparr>))"

text \<open>
  A message arrives (\<open>None\<close> for one that is not text): the branches of the loop body up to
  the next send. An exception of \<open>is_valid_token\<close> ends the loop.
\<close>

definition ws_receive ::
    "(string \<Rightarrow> exn + bool) \<Rightarrow> nat \<Rightarrow> string option \<Rightarrow> log_state \<Rightarrow> log_state option" where
  "ws_receive valid ws msg st =
     (case map_of (lg_conns st) ws of
        None \<Rightarrow> None
      | Some c \<Rightarrow>
          if cn_pc c \<noteq> Reading \<or> cn_closed c then None
          else case msg of
            None \<Rightarrow> Some st
          | Some data \<Rightarrow>
              let c = c\<lparr>cn_received := cn_received c @ [data]\<rparr> in
              Some (case valid data of
                Inl e \<Rightarrow> set_pc ws c Closing st
              | Inr True \<Rightarrow> set_pc ws c SendingAuth st
              | Inr False \<Rightarrow>
                  if \<not> cn_authenticated c then set_pc ws c SendingRefusal st else set_pc ws c Reading st))"

text \<open>The end of the coroutine: \<open>listeners.remove\<close> and \<open>sockets.remove\<close>.\<close>

definition ws_finish :: "nat \<Rightarrow> ws_conn \<Rightarrow> log_state \<Rightarrow> log_state" where
  "ws_finish ws c st =
     (let st = (if cn_authenticated c then st\<lparr>lg_listeners := remove1 ws (lg_listeners st)\<rparr> else st) in
      set_pc ws c Finished (st\<lparr>lg_sockets := remove1 ws (lg_sockets st)\<rparr>))"

text \<open>
  The awaited operation of a websocket coroutine completes, with \<open>ok\<close> telling whether it
  raised. After the confirmation the history is read and its send starts; after the history
  the socket becomes a listener, without another switch in between. When a send raises, the
  handler closes the socket.
\<close>

definition ws_resume :: "nat \<Rightarrow> bool \<Rightarrow> log_state \<Rightarrow> log_state option" where
  "ws_resume ws ok st =
     (case map_of (lg_conns st) ws of
        None \<Rightarrow> None
      | Some c \<Rightarrow>
          (case cn_pc c of
             Reading \<Rightarrow> None
           | Finished \<Rightarrow> None
           | Closing \<Rightarrow> Some (ws_finish ws (c\<lparr>cn_closed := True\<rparr>) st)
           | SendingAuth \<Rightarrow>
               if \<not> ok then Some (set_pc ws c Closing st)
               else Some (set_pc ws (c\<lparr>cn_frames := cn_frames c @ [AuthSuccess True]\<rparr>)
                 (SendingHistory (lg_lines st)) st)
           | SendingHistory h \<Rightarrow>
               if \<not> ok then Some (set_pc ws c Closing st)
               else let c = c\<lparr>cn_frames := cn_frames c @ [History h]\<rparr> in
                 if cn_authenticated c then Some (set_pc ws c Reading st)
                 else Some (set_pc ws (c\<lparr>cn_authenticated := True\<rparr>) Reading
                   (st\<lparr>lg_listeners := lg_listeners st @ [ws]\<rparr>))
           | SendingRefusal \<Rightarrow>
               if \<not> ok then Some (set_pc ws c Closing st)
               else Some (set_pc ws (c\<lparr>cn_frames := cn_frames c @ [AuthSuccess False]\<rparr>) Reading st)))"

text \<open>The message stream ends, because the peer left or the socket was closed.\<close>

definition ws_end :: "nat \<Rightarrow> log_state \<Rightarrow> log_state option" where
  "ws_end ws st =
     (case map_of (lg_conns st) ws of
        None \<Rightarrow> None
      | Some c \<Rightarrow> if cn_pc c \<noteq> Reading then None else Some (ws_finish ws c st))"

definition ws_close :: "nat \<Rightarrow> log_state \<Rightarrow> log_state" where
  "ws_close ws st =
     (case map_of (lg_conns st) ws of
        None \<Rightarrow> st
      | Some c \<Rightarrow> st\<lparr>lg_conns := dict_set ws (c\<lparr>cn_closed := True\<rparr>) (lg_conns st)\<rparr>)"

text \<open>\<open>close_if_not_authenticated\<close> after its five seconds.\<close>

definition close_if_not_authenticated :: "nat \<Rightarrow> log_state \<Rightarrow> log_state option" where
  "close_if_not_authenticated ws st =
     (case map_of (lg_conns st) ws of
        None \<Rightarrow> None
      | Some c \<Rightarrow> Some (if \<not> cn_authenticated c then ws_close ws st else st))"

text \<open>\<open>stop_all\<close>: detach the handler, then close the sockets one by one over the live list.\<close>

definition stop_all :: "log_state \<Rightarrow> log_state option" where
  "stop_all st = (if lg_stop st = None then Some (st\<lparr>lg_attached := False, lg_stop := Some 0\<rparr>) else None)"

definition stop_next :: "log_state \<Rightarrow> log_state option" where
  "stop_next st =
     (case lg_stop st of
        None \<Rightarrow> None
      | Some i \<Rightarrow>
          if length (lg_sockets st) \<le> i then None
          else Some (ws_close (lg_sockets st ! i) (st\<lparr>lg_stop := Some (Suc i)\<rparr>)))"

datatype 'x log_event =
    Emit "'x log_record"
  | Open nat
  | Receive nat "string option"
  | Resume nat bool
  | EndOfStream nat
  | Timer nat
  | SendNext nat bool
  | StopAll
  | StopNext

fun log_step ::
    "(string \<Rightarrow> exn + bool) \<Rightarrow> 'x log_env \<Rightarrow> 'x log_event \<Rightarrow> log_state \<Rightarrow> log_state option" where
  "log_step valid L (Emit rec) st = (if lg_attached st then Some (emit L rec st) else None)"
| "log_step valid L (Open ws) st = ws_open ws st"
| "log_step valid L (Receive ws msg) st = ws_receive valid ws msg st"
| "log_step valid L (Resume ws ok) st = ws_resume ws ok st"
| "log_step valid L (EndOfStream ws) st = ws_end ws st"
| "log_step valid L (Timer ws) st = close_if_not_authenticated ws st"
| "log_step valid L (SendNext t ok) st = send_next t ok st"
| "log_step valid L StopAll st = stop_all st"
| "log_step valid L StopNext st = stop_next st"

section \<open>Well-formedness of the log state\<close>

fun is_log :: "log_frame \<Rightarrow> bool" where
  "is_log (AuthSuccess b) = False"
| "is_log (History h) = True"
| "is_log (Record r) = True"

fun granting :: "ws_pc \<Rightarrow> bool" where
  "granting SendingAuth = True"
| "granting (SendingHistory h) = True"
| "granting pc = False"

text \<open>A connection that sees the log, or is about to.\<close>

definition entitled :: "ws_conn \<Rightarrow> bool" where
  "entitled c \<longleftrightarrow> cn_authenticated c \<or> granting (cn_pc c) \<or> (\<exists>f\<in>set (cn_frames c). is_log f)"

definition sent_valid :: "(string \<Rightarrow> exn + bool) \<Rightarrow> ws_conn \<Rightarrow> bool" where
  "sent_valid valid c \<longleftrightarrow> (\<exists>t\<in>set (cn_received c). valid t = Inr True)"

fun slot_ok :: "(string \<Rightarrow> exn + bool) \<Rightarrow> bool \<Rightarrow> bool \<Rightarrow> ws_conn option \<Rightarrow> bool" where
  "slot_ok valid l s None \<longleftrightarrow> \<not> l \<and> \<not> s"
| "slot_ok valid l s (Some c) \<longleftrightarrow>
     (l \<longleftrightarrow> cn_authenticated c \<and> cn_pc c \<noteq> Finished) \<and> (s \<longleftrightarrow> cn_pc c \<noteq> Finished)
     \<and> (entitled c \<longrightarrow> sent_valid valid c)"

definition log_inv :: "(string \<Rightarrow> exn + bool) \<Rightarrow> log_state \<Rightarrow> bool" where
  "log_inv valid st \<longleftrightarrow> distinct (lg_listeners st) \<and> distinct (lg_sockets st)
     \<and> (\<forall>ws. slot_ok valid (ws \<in> set (lg_listeners st)) (ws \<in> set (lg_sockets st)) (map_of (lg_conns st) ws))"

named_theorems log_ops

lemmas log_defs [log_ops] =
  set_pc_def push_frame_def ws_finish_def ws_close_def Let_def

lemma log_inv_init: "log_inv valid collector_init"
  by (simp add: log_inv_def collector_init_def)

lemma emit_state:
  "emit L rec st =
     (case record_content L rec of
        Inl e \<Rightarrow> st
      | Inr content \<Rightarrow> st\<lparr>lg_tasks := lg_tasks st @ [(content, 0)],
          lg_lines := deque_append MAX_LINES content (lg_lines st)\<rparr>)"
  by (simp add: emit_def emit_inner_def split: sum.splits)

text \<open>What an update of one connection has to show.\<close>

lemma log_inv_conn:
  assumes "log_inv valid st" and "map_of (lg_conns st) ws = Some c"
    and "slot_ok valid (ws \<in> set (lg_listeners st)) (ws \<in> set (lg_sockets st)) (Some c)
      \<Longrightarrow> slot_ok valid (ws \<in> set ls) (ws \<in> set ss) (Some c')"
    and "distinct ls" and "distinct ss"
    and "\<And>v. v \<noteq> ws \<Longrightarrow> v \<in> set ls \<longleftrightarrow> v \<in> set (lg_listeners st)"
    and "\<And>v. v \<noteq> ws \<Longrightarrow> v \<in> set ss \<longleftrightarrow> v \<in> set (lg_sockets st)"
    and "lg_conns st' = dict_set ws c' (lg_conns st)" and "lg_listeners st' = ls" and "lg_sockets st' = ss"
  shows "log_inv valid st'"
proof -
  have "slot_ok valid (ws \<in> set (lg_listeners st)) (ws \<in> set (lg_sockets st)) (Some c)"
    using assms(1,2) unfolding log_inv_def by metis
  then have new: "slot_ok valid (ws \<in> set ls) (ws \<in> set ss) (Some c')" by (rule assms(3))
  have "slot_ok valid (v \<in> set ls) (v \<in> set ss) (map_of (dict_set ws c' (lg_conns st)) v)" for v
  proof (cases "v = ws")
    case True
    then show ?thesis using new by simp
  next
    case False
    then have "map_of (dict_set ws c' (lg_conns st)) v = map_of (lg_conns st) v" by simp
    then show ?thesis using assms(1) assms(6,7) [OF False] unfolding log_inv_def by simp
  qed
  then show ?thesis using assms(4,5,8,9,10) by (simp add: log_inv_def)
qed

lemma log_inv_same:
  assumes "log_inv valid st" and "lg_conns st' = lg_conns st"
    and "lg_listeners st' = lg_listeners st" and "lg_sockets st' = lg_sockets st"
  shows "log_inv valid st'"
  using assms by (simp add: log_inv_def)

lemma log_inv_distinct: "log_inv valid st \<Longrightarrow> distinct (lg_listeners st) \<and> distinct (lg_sockets st)"
  by (simp add: log_inv_def)

lemma log_inv_slot:
  "log_inv valid st \<Longrightarrow> map_of (lg_conns st) ws = Some c \<Longrightarrow>
     slot_ok valid (ws \<in> set (lg_listeners st)) (ws \<in> set (lg_sockets st)) (Some c)"
  unfolding log_inv_def by metis

lemma log_inv_finish:
  assumes "log_inv valid st" and "map_of (lg_conns st) ws = Some c" and "cn_pc c \<noteq> Finished"
    and "cn_authenticated c' = cn_authenticated c" "cn_frames c' = cn_frames c"
      "cn_received c' = cn_received c"
  shows "log_inv valid (ws_finish ws c' st)"
proof (rule log_inv_conn [OF assms(1,2), where c' = "c'\<lparr>cn_pc := Finished\<rparr>"
      and ls = "lg_listeners (ws_finish ws c' st)" and ss = "lg_sockets (ws_finish ws c' st)"])
  show "lg_conns (ws_finish ws c' st) = dict_set ws (c'\<lparr>cn_pc := Finished\<rparr>) (lg_conns st)"
    by (simp add: log_ops)
qed (use assms log_inv_distinct [OF assms(1)] log_inv_slot [OF assms(1,2)] in
  \<open>auto simp: log_ops entitled_def sent_valid_def\<close>)

lemma log_inv_push:
  assumes "log_inv valid st" and "map_of (lg_conns st) ws = Some c" and "cn_authenticated c"
  shows "log_inv valid (push_frame ws f st)"
  by (rule log_inv_conn [OF assms(1,2), where c' = "c\<lparr>cn_frames := cn_frames c @ [f]\<rparr>"])
    (use assms log_inv_distinct [OF assms(1)] in \<open>auto simp: log_ops entitled_def sent_valid_def\<close>)

lemma log_inv_close: "log_inv valid st \<Longrightarrow> log_inv valid (ws_close ws st)"
proof (cases "map_of (lg_conns st) ws")
  case (Some c)
  assume I: "log_inv valid st"
  show ?thesis
    by (rule log_inv_conn [OF I Some, where c' = "c\<lparr>cn_closed := True\<rparr>"])
      (use Some log_inv_distinct [OF I] in \<open>auto simp: log_ops entitled_def sent_valid_def\<close>)
qed (simp add: ws_close_def)

text \<open>Moving a connection on without touching the lists.\<close>

lemma log_inv_set_pc:
  assumes "log_inv valid st" and "map_of (lg_conns st) ws = Some c" and "cn_pc c \<noteq> Finished"
    and "pc \<noteq> Finished" and "cn_authenticated c' = cn_authenticated c"
    and "entitled (c'\<lparr>cn_pc := pc\<rparr>) \<Longrightarrow> sent_valid valid c'"
  shows "log_inv valid (set_pc ws c' pc st)"
  by (rule log_inv_conn [OF assms(1,2), where c' = "c'\<lparr>cn_pc := pc\<rparr>"])
    (use assms log_inv_distinct [OF assms(1)] in \<open>auto simp: log_ops sent_valid_def\<close>)

lemma log_inv_open: "log_inv valid st \<Longrightarrow> ws_open ws st = Some st' \<Longrightarrow> log_inv valid st'"
proof -
  assume I: "log_inv valid st" and st': "ws_open ws st = Some st'"
  then have fresh: "map_of (lg_conns st) ws = None" by (auto simp: ws_open_def in_dict_def split: if_splits)
  then have "ws \<notin> set (lg_listeners st)" "ws \<notin> set (lg_sockets st)"
    using I unfolding log_inv_def by (metis slot_ok.simps(1))+
  then show ?thesis using I st' fresh
    by (auto simp: log_inv_def ws_open_def entitled_def in_dict_def)
qed

lemma log_inv_receive:
  assumes I: "log_inv valid st" and st': "ws_receive valid ws msg st = Some st'"
  shows "log_inv valid st'"
proof (cases msg)
  case None
  then show ?thesis using assms by (auto simp: ws_receive_def split: option.splits if_splits)
next
  case (Some data)
  then obtain c where c: "map_of (lg_conns st) ws = Some c" "cn_pc c = Reading"
    using st' by (auto simp: ws_receive_def split: option.splits if_splits)
  let ?c = "c\<lparr>cn_received := cn_received c @ [data]\<rparr>"
  have old: "entitled c \<longrightarrow> sent_valid valid c" using log_inv_slot [OF I c(1)] by simp
  have move: "log_inv valid (set_pc ws ?c pc st)"
    if "pc \<noteq> Finished" and "granting pc \<Longrightarrow> valid data = Inr True" for pc
    by (rule log_inv_set_pc [OF I c(1)]) (use that c old in \<open>auto simp: entitled_def sent_valid_def\<close>)
  show ?thesis using st' Some c
    by (auto simp: ws_receive_def Let_def split: sum.splits bool.splits if_splits intro!: move)
qed

lemma log_inv_resume:
  assumes I: "log_inv valid st" and st': "ws_resume ws ok st = Some st'"
  shows "log_inv valid st'"
proof -
  obtain c where c: "map_of (lg_conns st) ws = Some c" using st'
    by (auto simp: ws_resume_def split: option.splits)
  note slot = log_inv_slot [OF I c(1)]
  have move: "log_inv valid (set_pc ws c' pc st)"
    if "cn_pc c \<noteq> Finished" "pc \<noteq> Finished" "cn_authenticated c' = cn_authenticated c"
      "cn_received c' = cn_received c" "entitled (c'\<lparr>cn_pc := pc\<rparr>) \<Longrightarrow> entitled c" for c' pc
    by (rule log_inv_set_pc [OF I c(1)]) (use that slot in \<open>auto simp: sent_valid_def\<close>)
  show ?thesis
  proof (cases "cn_pc c")
    case (SendingHistory h)
    let ?c = "c\<lparr>cn_frames := cn_frames c @ [History h]\<rparr>"
    show ?thesis
    proof (cases "ok \<and> \<not> cn_authenticated c")
      case True
      then have "st' = set_pc ws (?c\<lparr>cn_authenticated := True\<rparr>) Reading (st\<lparr>lg_listeners := lg_listeners st @ [ws]\<rparr>)"
        using st' c SendingHistory by (simp add: ws_resume_def Let_def)
      then show ?thesis
        by (intro log_inv_conn [OF I c, where c' = "?c\<lparr>cn_authenticated := True, cn_pc := Reading\<rparr>"])
          (use True SendingHistory slot log_inv_distinct [OF I] in \<open>auto simp: log_ops entitled_def sent_valid_def\<close>)
    next
      case False
      then show ?thesis using st' c SendingHistory
        by (auto simp: ws_resume_def Let_def entitled_def split: if_splits intro!: move)
    qed
  next
    case Closing
    then show ?thesis using st' c by (auto simp: ws_resume_def intro!: log_inv_finish [OF I c])
  qed (use st' c in \<open>auto simp: ws_resume_def entitled_def split: if_splits intro!: move\<close>)
qed

lemma log_inv_send:
  assumes I: "log_inv valid st" and st': "send_next t ok st = Some st'"
  shows "log_inv valid st'"
proof -
  obtain content i where ci: "lg_tasks st ! t = (content, i)" by fastforce
  let ?st = "st\<lparr>lg_tasks := (lg_tasks st)[t := (content, Suc i)]\<rparr>"
  have I': "log_inv valid ?st" using I by (rule log_inv_same) simp_all
  show ?thesis
  proof (cases "length (lg_listeners st) \<le> i")
    case True
    then show ?thesis using st' ci by (auto simp: send_next_def split: if_splits intro: log_inv_same [OF I])
  next
    case False
    then have mem: "lg_listeners st ! i \<in> set (lg_listeners ?st)" by simp
    then obtain c where c: "map_of (lg_conns ?st) (lg_listeners st ! i) = Some c" "cn_authenticated c"
      using I' unfolding log_inv_def by (metis slot_ok.elims(2))
    show ?thesis using st' ci False log_inv_push [OF I' c] I'
      by (auto simp: send_next_def Let_def split: if_splits)
  qed
qed

lemma log_inv_step: "log_inv valid st \<Longrightarrow> log_step valid L e st = Some st' \<Longrightarrow> log_inv valid st'"
proof (cases e)
  case (Emit rec)
  assume "log_inv valid st" "log_step valid L e st = Some st'"
  then show ?thesis using Emit
    by (auto simp: emit_state split: if_splits sum.splits intro: log_inv_same)
next
  case (EndOfStream ws)
  assume "log_inv valid st" "log_step valid L e st = Some st'"
  then show ?thesis using EndOfStream
    by (auto simp: ws_end_def split: if_splits option.splits intro!: log_inv_finish)
next
  case StopNext
  assume "log_inv valid st" "log_step valid L e st = Some st'"
  then show ?thesis using StopNext
    by (auto simp: stop_next_def split: if_splits option.splits intro!: log_inv_close intro: log_inv_same)
qed (auto simp: close_if_not_authenticated_def stop_all_def split: if_splits option.splits
  intro: log_inv_open log_inv_receive log_inv_resume log_inv_send log_inv_close log_inv_same)

interpretation log_machine: event_invariant "log_step valid L" collector_init "log_inv valid"
  by unfold_locales (auto intro: log_inv_init log_inv_step)

section \<open>The journal: an abstract specification\<close>

text \<open>
  What the log promises, without coroutines and bounded buffers: a journal that only grows,
  a set of sockets to which access was granted, and for every socket the log frames it has
  been shown. Access needs a valid token; a history is the last \<open>MAX_LINES\<close> records of a
  prefix of the journal, and a single record is one of the journal.
\<close>

record journal =
  j_all :: "content list"
  j_granted :: "nat list"
  j_view :: "nat \<Rightarrow> log_frame list"

definition journal_init :: journal where
  "journal_init = \<lparr>j_all = [], j_granted = [], j_view = (\<lambda>_. [])\<rparr>"

datatype journal_event =
    Publish content
  | Grant nat string
  | ShowHistory nat nat
  | Deliver nat nat

definition last_n :: "nat \<Rightarrow> 'a list \<Rightarrow> 'a list" where
  "last_n n xs = drop (length xs - n) xs"

definition show_frame :: "nat \<Rightarrow> log_frame \<Rightarrow> journal \<Rightarrow> journal" where
  "show_frame ws f j = j\<lparr>j_view := (j_view j)(ws := j_view j ws @ [f])\<rparr>"

fun journal_step :: "(string \<Rightarrow> exn + bool) \<Rightarrow> journal_event \<Rightarrow> journal \<Rightarrow> journal option" where
  "journal_step valid (Publish content) j = Some (j\<lparr>j_all := j_all j @ [content]\<rparr>)"
| "journal_step valid (Grant ws token) j =
     (if valid token = Inr True then Some (j\<lparr>j_granted := ws # j_granted j\<rparr>) else None)"
| "journal_step valid (ShowHistory ws n) j =
     (if ws \<in> set (j_granted j) \<and> n \<le> length (j_all j)
      then Some (show_frame ws (History (last_n MAX_LINES (take n (j_all j)))) j) else None)"
| "journal_step valid (Deliver ws i) j =
     (if ws \<in> set (j_granted j) \<and> i < length (j_all j)
      then Some (show_frame ws (Record (j_all j ! i)) j) else None)"

lemma length_last_n: "length (last_n n xs) \<le> n"
  by (simp add: last_n_def)

lemma deque_append_last_n:
  assumes "0 < n"
  shows "deque_append n x (last_n n xs) = last_n n (xs @ [x])"
proof (cases "length xs < n")
  case False
  then have d: "drop (length xs - n) (xs @ [x]) = last_n n xs @ [x]" by (simp add: last_n_def)
  have "last_n n (xs @ [x]) = drop (Suc (length xs - n)) (xs @ [x])"
    using False by (simp add: last_n_def Suc_diff_le)
  also have "\<dots> = tl (last_n n xs @ [x])" by (metis d drop_Suc drop_tl)
  finally show ?thesis using False by (simp add: deque_append_def last_n_def)
qed (simp add: deque_append_def last_n_def)

text \<open>The log frames a socket has received in the implementation.\<close>

definition log_view :: "log_state \<Rightarrow> nat \<Rightarrow> log_frame list" where
  "log_view st ws = (case map_of (lg_conns st) ws of None \<Rightarrow> [] | Some c \<Rightarrow> filter is_log (cn_frames c))"

fun history_known :: "content list \<Rightarrow> ws_pc \<Rightarrow> bool" where
  "history_known all (SendingHistory h) \<longleftrightarrow> (\<exists>n\<le>length all. h = last_n MAX_LINES (take n all))"
| "history_known all pc \<longleftrightarrow> True"

definition conn_rel :: "journal \<Rightarrow> nat \<Rightarrow> ws_conn \<Rightarrow> bool" where
  "conn_rel j ws c \<longleftrightarrow> (cn_authenticated c \<or> granting (cn_pc c) \<longrightarrow> ws \<in> set (j_granted j))
     \<and> history_known (j_all j) (cn_pc c)"

definition log_rel :: "log_state \<Rightarrow> journal \<Rightarrow> bool" where
  "log_rel st j \<longleftrightarrow> lg_lines st = last_n MAX_LINES (j_all j)
     \<and> log_view st = j_view j
     \<and> (\<forall>ws c. map_of (lg_conns st) ws = Some c \<longrightarrow> conn_rel j ws c)
     \<and> set (lg_listeners st) \<subseteq> set (j_granted j)
     \<and> (\<forall>p\<in>set (lg_tasks st). fst p \<in> set (j_all j))"

lemma history_known_grow: "history_known all pc \<Longrightarrow> history_known (all @ xs) pc"
proof (cases pc)
  case (SendingHistory h)
  assume "history_known all pc"
  then obtain n where "n \<le> length all" "h = last_n MAX_LINES (take n all)" using SendingHistory by auto
  then show ?thesis using SendingHistory by (auto intro!: exI [of _ n])
qed auto

lemma log_view_set:
  "lg_conns st' = dict_set ws c (lg_conns st) \<Longrightarrow> log_view st' = (log_view st)(ws := filter is_log (cn_frames c))"
  by (auto simp: log_view_def fun_eq_iff)

text \<open>An update of one connection that shows nothing.\<close>

lemma log_rel_conn:
  assumes "log_rel st j" and "map_of (lg_conns st) ws = Some c"
    and "lg_conns st' = dict_set ws c' (lg_conns st)"
    and "filter is_log (cn_frames c') = filter is_log (cn_frames c)"
    and "set (j_granted j) \<subseteq> set (j_granted j')" and "j_all j' = j_all j" and "j_view j' = j_view j"
    and "conn_rel j' ws c'" and "set (lg_listeners st') \<subseteq> set (j_granted j')"
    and "lg_lines st' = lg_lines st" and "lg_tasks st' = lg_tasks st"
  shows "log_rel st' j'"
proof -
  have "log_view st' = log_view st"
    using log_view_set [OF assms(3)] assms(2,4) by (auto simp: log_view_def fun_eq_iff)
  moreover have "conn_rel j' v d" if "map_of (lg_conns st') v = Some d" for v d
    using that assms(1,3,5,6,8)
    by (cases "v = ws") (auto simp: log_rel_def conn_rel_def)
  ultimately show ?thesis using assms by (simp add: log_rel_def)
qed

text \<open>An update of one connection that shows a frame.\<close>

lemma log_rel_show:
  assumes "log_rel st j" and "map_of (lg_conns st) ws = Some c"
    and "lg_conns st' = dict_set ws c' (lg_conns st)" and "cn_frames c' = cn_frames c @ [f]" and "is_log f"
    and "conn_rel j ws c'" and "set (lg_listeners st') \<subseteq> set (j_granted j)"
    and "lg_lines st' = lg_lines st" and "\<forall>p\<in>set (lg_tasks st'). fst p \<in> set (j_all j)"
  shows "log_rel st' (show_frame ws f j)"
proof -
  have "log_view st' = (log_view st)(ws := log_view st ws @ [f])"
    using log_view_set [OF assms(3)] assms(2,4,5) by (auto simp: log_view_def fun_eq_iff)
  moreover have "conn_rel (show_frame ws f j) v d" if "map_of (lg_conns st') v = Some d" for v d
    using that assms(1,3,6) by (cases "v = ws") (auto simp: log_rel_def conn_rel_def show_frame_def)
  ultimately show ?thesis using assms by (simp add: log_rel_def show_frame_def)
qed

lemma log_rel_same:
  assumes "log_rel st j" and "lg_conns st' = lg_conns st" and "lg_listeners st' = lg_listeners st"
    and "lg_lines st' = lg_lines st" and "set (lg_tasks st') \<subseteq> set (lg_tasks st)"
  shows "log_rel st' j"
  using assms unfolding log_rel_def log_view_def by auto

text \<open>Refinement of the single operations: each is matched by at most one abstract event.\<close>

definition matched :: "(string \<Rightarrow> exn + bool) \<Rightarrow> log_state \<Rightarrow> journal \<Rightarrow> bool" where
  "matched valid st' j \<longleftrightarrow> (\<exists>fs j'. run (journal_step valid) fs j = Some j' \<and> log_rel st' j')"

lemma matched_none: "log_rel st' j \<Longrightarrow> matched valid st' j"
  unfolding matched_def by (rule exI [of _ "[]"]) simp

lemma matched_one: "journal_step valid f j = Some j' \<Longrightarrow> log_rel st' j' \<Longrightarrow> matched valid st' j"
  unfolding matched_def by (rule exI [of _ "[f]"]) simp

lemma rel_conn: "log_rel st j \<Longrightarrow> map_of (lg_conns st) ws = Some c \<Longrightarrow> conn_rel j ws c"
  by (simp add: log_rel_def)

lemma rel_listeners: "log_rel st j \<Longrightarrow> set (lg_listeners st) \<subseteq> set (j_granted j)"
  by (simp add: log_rel_def)

lemma log_rel_finish:
  assumes "log_rel st j" and "map_of (lg_conns st) ws = Some c"
    and "cn_frames c' = cn_frames c" and "cn_authenticated c' = cn_authenticated c"
  shows "log_rel (ws_finish ws c' st) j"
  by (rule log_rel_conn [OF assms(1,2), where c' = "c'\<lparr>cn_pc := Finished\<rparr>"])
    (use assms rel_conn [OF assms(1,2)] rel_listeners [OF assms(1)] set_remove1_subset in
      \<open>fastforce simp: log_ops conn_rel_def\<close>)+

lemma log_rel_close: "log_rel st j \<Longrightarrow> log_rel (ws_close ws st) j"
proof (cases "map_of (lg_conns st) ws")
  case (Some c)
  assume R: "log_rel st j"
  show ?thesis
    by (rule log_rel_conn [OF R Some, where c' = "c\<lparr>cn_closed := True\<rparr>"])
      (use Some rel_conn [OF R Some] rel_listeners [OF R] in \<open>auto simp: log_ops conn_rel_def\<close>)
qed (simp add: ws_close_def)

lemma log_rel_set_pc:
  assumes "log_rel st j" and "map_of (lg_conns st) ws = Some c"
    and "filter is_log (cn_frames c') = filter is_log (cn_frames c)"
    and "conn_rel j ws (c'\<lparr>cn_pc := pc\<rparr>)"
  shows "log_rel (set_pc ws c' pc st) j"
  by (rule log_rel_conn [OF assms(1,2), where c' = "c'\<lparr>cn_pc := pc\<rparr>"])
    (use assms rel_listeners [OF assms(1)] in \<open>auto simp: log_ops\<close>)

lemma sim_emit: "log_rel st j \<Longrightarrow> matched valid (emit L rec st) j"
proof (cases "record_content L rec")
  case (Inl e)
  assume "log_rel st j"
  then show ?thesis using Inl by (simp add: emit_state matched_none)
next
  case (Inr content)
  assume R: "log_rel st j"
  have "0 < MAX_LINES" by (simp add: MAX_LINES_def)
  then have "log_rel (emit L rec st) (j\<lparr>j_all := j_all j @ [content]\<rparr>)"
    using R Inr history_known_grow
    by (auto simp: emit_state log_rel_def deque_append_last_n log_view_def conn_rel_def fun_eq_iff)
  then show ?thesis by (intro matched_one [of valid "Publish content"]) auto
qed

lemma sim_open: "log_rel st j \<Longrightarrow> ws_open ws st = Some st' \<Longrightarrow> matched valid st' j"
proof -
  assume R: "log_rel st j" and st': "ws_open ws st = Some st'"
  then have fresh: "map_of (lg_conns st) ws = None" by (auto simp: ws_open_def in_dict_def split: if_splits)
  have "log_view st' = log_view st"
    using st' fresh by (auto simp: ws_open_def log_view_def in_dict_def fun_eq_iff)
  then have "log_rel st' j"
    using R st' fresh by (auto simp: ws_open_def log_rel_def conn_rel_def in_dict_def split: if_splits)
  then show ?thesis by (rule matched_none)
qed

lemma sim_receive:
  assumes R: "log_rel st j" and st': "ws_receive valid ws msg st = Some st'"
  shows "matched valid st' j"
proof (cases msg)
  case None
  then show ?thesis using assms
    by (auto simp: ws_receive_def split: option.splits if_splits intro: matched_none)
next
  case (Some data)
  then obtain c where c: "map_of (lg_conns st) ws = Some c" "cn_pc c = Reading"
    using st' by (auto simp: ws_receive_def split: option.splits if_splits)
  let ?c = "c\<lparr>cn_received := cn_received c @ [data]\<rparr>"
  note rel = rel_conn [OF R c(1)]
  have move: "matched valid (set_pc ws ?c pc st) j" if "\<not> granting pc" "history_known (j_all j) pc" for pc
    by (intro matched_none log_rel_set_pc [OF R c(1)]) (use that rel in \<open>auto simp: conn_rel_def\<close>)
  have grant: "matched valid (set_pc ws ?c SendingAuth st) j" if "valid data = Inr True"
  proof (rule matched_one [of valid "Grant ws data"])
    show "journal_step valid (Grant ws data) j = Some (j\<lparr>j_granted := ws # j_granted j\<rparr>)" using that by simp
    show "log_rel (set_pc ws ?c SendingAuth st) (j\<lparr>j_granted := ws # j_granted j\<rparr>)"
      by (rule log_rel_conn [OF R c(1), where c' = "?c\<lparr>cn_pc := SendingAuth\<rparr>"])
        (use rel rel_listeners [OF R] in \<open>auto simp: log_ops conn_rel_def\<close>)
  qed
  show ?thesis using st' Some c
    by (auto simp: ws_receive_def Let_def split: sum.splits bool.splits if_splits intro!: move grant)
qed

lemma sim_resume:
  assumes R: "log_rel st j" and st': "ws_resume ws ok st = Some st'"
  shows "matched valid st' j"
proof -
  obtain c where c: "map_of (lg_conns st) ws = Some c" using st'
    by (auto simp: ws_resume_def split: option.splits)
  note rel = rel_conn [OF R c]
  have move: "matched valid (set_pc ws c' pc st) j"
    if "filter is_log (cn_frames c') = filter is_log (cn_frames c)" "conn_rel j ws (c'\<lparr>cn_pc := pc\<rparr>)" for c' pc
    by (intro matched_none log_rel_set_pc [OF R c] that)
  show ?thesis
  proof (cases "cn_pc c")
    case (SendingHistory h)
    then obtain n where n: "n \<le> length (j_all j)" "h = last_n MAX_LINES (take n (j_all j))"
      and g: "ws \<in> set (j_granted j)" using rel by (auto simp: conn_rel_def)
    show ?thesis
    proof (cases ok)
      case True
      then obtain c' where c': "lg_conns st' = dict_set ws c' (lg_conns st)"
          "cn_frames c' = cn_frames c @ [History h]" "cn_pc c' = Reading"
        and ls: "set (lg_listeners st') \<subseteq> insert ws (set (lg_listeners st))"
        and same: "lg_lines st' = lg_lines st" "lg_tasks st' = lg_tasks st"
        using st' c SendingHistory
        by (cases c, intro that [of "c\<lparr>cn_frames := cn_frames c @ [History h],
            cn_authenticated := True, cn_pc := Reading\<rparr>"])
          (auto simp: ws_resume_def log_ops split: if_splits)
      have "log_rel st' (show_frame ws (History h) j)"
        by (rule log_rel_show [OF R c c'(1,2)])
          (use c'(3) ls same g R in \<open>auto simp: conn_rel_def log_rel_def\<close>)
      then show ?thesis using n g by (intro matched_one [of valid "ShowHistory ws n"]) auto
    next
      case False
      then show ?thesis using st' c SendingHistory rel
        by (auto simp: ws_resume_def conn_rel_def intro!: move)
    qed
  next
    case SendingAuth
    have "\<exists>n\<le>length (j_all j). lg_lines st = last_n MAX_LINES (take n (j_all j))"
      using R by (intro exI [of _ "length (j_all j)"]) (simp add: log_rel_def)
    then show ?thesis using st' c SendingAuth rel
      by (auto simp: ws_resume_def conn_rel_def split: if_splits intro!: move)
  next
    case Closing
    then show ?thesis using st' c by (auto simp: ws_resume_def intro!: matched_none log_rel_finish [OF R c])
  qed (use st' c rel in \<open>auto simp: ws_resume_def conn_rel_def split: if_splits intro!: move\<close>)
qed

lemma sim_send:
  assumes R: "log_rel st j" and I: "log_inv valid st" and st': "send_next t ok st = Some st'"
  shows "matched valid st' j"
proof -
  obtain content i where ci: "lg_tasks st ! t = (content, i)" by fastforce
  have t: "t < length (lg_tasks st)" using st' by (auto simp: send_next_def split: if_splits)
  then have "(content, i) \<in> set (lg_tasks st)" using ci nth_mem by metis
  then have mem: "content \<in> set (j_all j)" using R by (auto simp: log_rel_def)
  let ?st = "st\<lparr>lg_tasks := (lg_tasks st)[t := (content, Suc i)]\<rparr>"
  have tasks: "p \<in> set ((lg_tasks st)[t := (content, Suc i)]) \<Longrightarrow> fst p \<in> set (j_all j)" for p
    using R mem set_update_subset_insert [of "lg_tasks st" t "(content, Suc i)"]
    by (auto simp: log_rel_def)
  have "log_view ?st = log_view st" by (simp add: log_view_def fun_eq_iff)
  then have R': "log_rel ?st j" using R tasks by (simp add: log_rel_def)
  show ?thesis
  proof (cases "length (lg_listeners st) \<le> i")
    case True
    then have "st' = st\<lparr>lg_tasks := take t (lg_tasks st) @ drop (Suc t) (lg_tasks st)\<rparr>"
      using st' ci t by (simp add: send_next_def)
    then show ?thesis
      by (intro matched_none log_rel_same [OF R]) (auto dest: in_set_takeD in_set_dropD)
  next
    case False
    let ?ws = "lg_listeners st ! i"
    have ls: "?ws \<in> set (lg_listeners st)" using False by simp
    then obtain c where c: "map_of (lg_conns ?st) ?ws = Some c"
      using I unfolding log_inv_def by (auto elim!: slot_ok.elims(2))
    have g: "?ws \<in> set (j_granted j)" using ls rel_listeners [OF R] by blast
    obtain n where n: "n < length (j_all j)" "j_all j ! n = content"
      using mem by (auto simp: in_set_conv_nth)
    have "log_rel (push_frame ?ws (Record content) ?st) (show_frame ?ws (Record content) j)"
      by (rule log_rel_show [OF R' c, where c' = "c\<lparr>cn_frames := cn_frames c @ [Record content]\<rparr>"])
        (use c R' rel_conn [OF R' c] tasks in \<open>auto simp: push_frame_def conn_rel_def log_rel_def\<close>)
    moreover have "journal_step valid (Deliver ?ws n) j = Some (show_frame ?ws (Record content) j)"
      using g n by simp
    ultimately have "matched valid (push_frame ?ws (Record content) ?st) j" by (rule matched_one [rotated])
    then show ?thesis using st' ci False t matched_none [OF R']
      by (auto simp: send_next_def Let_def split: if_splits)
  qed
qed

lemma log_sim_step:
  "log_rel st j \<Longrightarrow> log_inv valid st \<Longrightarrow> log_step valid L e st = Some st' \<Longrightarrow> matched valid st' j"
proof (cases e)
  case (EndOfStream ws)
  assume "log_rel st j" "log_step valid L e st = Some st'"
  then show ?thesis using EndOfStream
    by (auto simp: ws_end_def split: if_splits option.splits intro!: matched_none log_rel_finish)
next
  case StopNext
  assume R: "log_rel st j" and s: "log_step valid L e st = Some st'"
  then obtain i where st': "st' = ws_close (lg_sockets st ! i) (st\<lparr>lg_stop := Some (Suc i)\<rparr>)" using StopNext
    by (auto simp: stop_next_def split: if_splits option.splits)
  have "log_rel (st\<lparr>lg_stop := Some (Suc i)\<rparr>) j" using R by (rule log_rel_same) simp_all
  then show ?thesis using st' by (auto intro: matched_none log_rel_close)
next
  case StopAll
  assume "log_rel st j" "log_step valid L e st = Some st'"
  then show ?thesis using StopAll
    by (auto simp: stop_all_def split: if_splits intro!: matched_none elim: log_rel_same)
qed (auto simp: close_if_not_authenticated_def split: if_splits option.splits
  intro: sim_emit sim_open sim_receive sim_resume sim_send matched_none log_rel_close log_rel_same)

interpretation log_refinement: forward_simulation "log_step valid L" collector_init
    "journal_step valid" journal_init "\<lambda>st j. log_rel st j \<and> log_inv valid st"
proof
  show "log_rel collector_init journal_init \<and> log_inv valid collector_init"
    by (simp add: log_inv_init)
      (simp add: log_rel_def collector_init_def journal_init_def log_view_def last_n_def fun_eq_iff)
  show "\<exists>fs j'. run (journal_step valid) fs j = Some j' \<and> log_rel st' j' \<and> log_inv valid st'"
    if "log_rel st j \<and> log_inv valid st" "log_step valid L e st = Some st'" for st j e st'
    using that log_sim_step [of st j valid L e st'] log_inv_step [of valid st L e st']
    unfolding matched_def by blast
qed


definition demo_valid :: "string \<Rightarrow> exn + bool" where
  "demo_valid t = Inr (t = ''secret'')"

definition demo_env :: "nat log_env" where
  "demo_env = \<lparr>le_isoformat = (\<lambda>t. ''2022''), le_formatException = (\<lambda>x. ''Traceback'')\<rparr>"

definition demo_record :: "nat log_record" where
  "demo_record = \<lparr>lr_dict = [(''name'', LJson (JStr ''maubot'')), (''args'', LJson JNull)],
     lr_relativeCreated = ''1.5'', lr_getMessage = Inr ''hi'', lr_created = 7, lr_exc_info = None\<rparr>"

lemmas log_eval = collector_init_def emit_state record_content_def demo_env_def demo_record_def
  demo_valid_def EXCLUDE_ATTRS_def INCLUDE_ATTRS_def BUILTIN_ATTRS_def MAX_LINES_def deque_append_def
  send_next_def ws_open_def ws_receive_def ws_resume_def ws_finish_def ws_end_def ws_close_def
  close_if_not_authenticated_def stop_all_def stop_next_def set_pc_def push_frame_def in_dict_def Let_def


text \<open>
  C17. No log without a token: in every state the live log can reach, a websocket that has
  been sent a log record or a history, or that is a listener, has sent a text message that
  \<open>is_valid_token\<close> accepts.
\<close>

theorem log_confidential:
  assumes "run (log_step valid L) es collector_init = Some st"
    and "map_of (lg_conns st) ws = Some c"
    and "ws \<in> set (lg_listeners st) \<or> (\<exists>f\<in>set (cn_frames c). is_log f)"
  shows "\<exists>t\<in>set (cn_received c). valid t = Inr True"
proof -
  have "log_inv valid st" by (rule log_machine.run_inv [OF assms(1)])
  then have "slot_ok valid (ws \<in> set (lg_listeners st)) (ws \<in> set (lg_sockets st)) (Some c)"
    by (rule log_inv_slot [OF _ assms(2)])
  then show ?thesis using assms(3) by (auto simp: entitled_def sent_valid_def)
qed

theorem log_confidential_witness:
  "\<exists>st c. run (log_step demo_valid demo_env)
       [Emit demo_record, Open 1, Receive 1 (Some ''x''), Resume 1 True, Receive 1 (Some ''secret''),
        Resume 1 True, Resume 1 True, SendNext 0 True] collector_init = Some st
     \<and> map_of (lg_conns st) 1 = Some c \<and> 1 \<in> set (lg_listeners st)
     \<and> (\<exists>t\<in>set (cn_received c). demo_valid t = Inr True)"
proof -
  obtain st c where st: "run (log_step demo_valid demo_env)
       [Emit demo_record, Open 1, Receive 1 (Some ''x''), Resume 1 True, Receive 1 (Some ''secret''),
        Resume 1 True, Resume 1 True, SendNext 0 True] collector_init = Some st"
    and c: "map_of (lg_conns st) 1 = Some c" and ls: "1 \<in> set (lg_listeners st)"
    by (simp add: log_eval)
  from log_confidential [OF st c] st c ls show ?thesis by blast
qed

definition json_content :: "content \<Rightarrow> bool" where
  "json_content d \<longleftrightarrow> (\<forall>v\<in>snd ` set d. case v of LJson _ \<Rightarrow> True | LTime _ \<Rightarrow> False)"

definition str_value :: "log_value option \<Rightarrow> bool" where
  "str_value v \<longleftrightarrow> (case v of Some (LJson (JStr _)) \<Rightarrow> True | _ \<Rightarrow> False)"

lemma map_of_iso: "map_of (map (\<lambda>(name, value). (name, iso_value L value)) d) k = map_option (iso_value L) (map_of d k)"
  by (induction d) auto

lemma iso_value_json: "case iso_value L v of LJson _ \<Rightarrow> True | LTime _ \<Rightarrow> False"
  by (cases v) auto

lemma map_of_attrs: "map_of (filter (\<lambda>(name, value). name \<notin> S) d) k = (if k \<in> S then None else map_of d k)"
  by (induction d) auto



text \<open>
  \<open>stop_all\<close> iterates over the list from which the closed sockets remove themselves: with two
  sockets, the second one can be skipped and stay open although the loop has ended.
\<close>

lemma stop_all_skips_socket:
  "\<exists>st c. run (log_step demo_valid demo_env)
       [Open 1, Open 2, StopAll, StopNext, EndOfStream 1] collector_init = Some st
     \<and> stop_next st = None \<and> map_of (lg_conns st) 2 = Some c \<and> \<not> cn_closed c \<and> cn_pc c = Reading"
  by (simp add: log_eval)

text \<open>In the same way a record can miss a listener while another one leaves.\<close>

lemma send_skips_listener:
  "\<exists>st c. run (log_step demo_valid demo_env)
       [Open 1, Open 2, Receive 1 (Some ''secret''), Resume 1 True, Resume 1 True,
        Receive 2 (Some ''secret''), Resume 2 True, Resume 2 True,
        Emit demo_record, SendNext 0 True, EndOfStream 1, SendNext 0 True] collector_init = Some st
     \<and> lg_tasks st = [] \<and> lg_listeners st = [2] \<and> map_of (lg_conns st) 2 = Some c
     \<and> cn_frames c = [AuthSuccess True, History []]"
  by (simp add: log_eval)

end
