(* ===== verification/MB_Matrix.thy ===== *)
theory MB_Matrix
  imports MB_Prelude
begin

text \<open>
  The Matrix client that plugins see, \<^verbatim>\<open>maubot/matrix.py\<close>: rendering of message text, the
  message event with its \<open>respond\<close>, \<open>reply\<close>, \<open>react\<close>, \<open>redact\<close> and \<open>edit\<close>, and the client's
  \<open>send_markdown\<close>, \<open>dispatch_event\<close> and \<open>get_event\<close>.

  mautrix is a parameter, a record of the functions the code calls: the markdown renderer,
  the HTML parser, the relation setters of a message content, item assignment on a content,
  the transport and the decryption. What a method asks the client to send is its result, a
  value of type \<open>mx_call\<close>.
\<close>

section \<open>Contents and events\<close>

text \<open>
  A message content. \<open>mc_formatted_body\<close> is \<open>None\<close> for the classes that have no such
  attribute, so that reading it raises, and \<open>Some None\<close> where it is Python's \<^verbatim>\<open>None\<close>.
\<close>

record mcontent =
  mc_msgtype :: string
  mc_body :: string
  mc_format :: "string option"
  mc_formatted_body :: "string option option"
  mc_relates_to :: "json option"
  mc_items :: "(string, json) dict"

datatype mx_kind = KMessage | KMaubotMessage | KEncrypted | KOther

text \<open>
  An event: its class, the attributes its class declares, the keys it does not declare, what
  of the content \<open>respond\<close> looks at (whether it is a message content and its thread parent),
  and the attributes maubot adds.
\<close>

record mx_event =
  me_kind :: mx_kind
  me_room_id :: string
  me_event_id :: string
  me_sender :: string
  me_is_message_content :: bool
  me_thread_parent :: "string option"
  me_unknown :: "(string, json) dict"
  me_client :: "nat option"
  me_disable_reply :: bool

datatype entity = UrlEntity string | OtherEntity string

record mautrix =
  mx_render :: "string \<Rightarrow> bool \<Rightarrow> string"
  mx_parse :: "(entity \<Rightarrow> string \<Rightarrow> string) \<Rightarrow> string \<Rightarrow> string"
  mx_format :: "entity \<Rightarrow> string \<Rightarrow> string"
  mx_set_edit :: "string \<Rightarrow> mcontent \<Rightarrow> mcontent"
  mx_set_thread_parent :: "mx_event \<Rightarrow> mcontent \<Rightarrow> mcontent"
  mx_set_reply :: "mx_event \<Rightarrow> mcontent \<Rightarrow> mcontent"
  mx_setitem :: "string \<Rightarrow> json \<Rightarrow> mcontent \<Rightarrow> mcontent"
  mx_get_event :: "string \<Rightarrow> string \<Rightarrow> mx_event"
  mx_decrypt :: "mx_event \<Rightarrow> exn + mx_event"
  mx_trim_reply_fallback :: "mx_event \<Rightarrow> mx_event"

section \<open>Text\<close>

text \<open>\<^verbatim>\<open>html.escape\<close> of the standard library.\<close>

fun escape_char :: "char \<Rightarrow> string" where
  "escape_char c =
     (if c = CHR ''&'' then ''&amp;''
      else if c = CHR ''<'' then ''&lt;''
      else if c = CHR ''>'' then ''&gt;''
      else if c = CHR 0x22 then ''&quot;''
      else if c = CHR 0x27 then ''&#x27;''
      else [c])"

definition escape :: "string \<Rightarrow> string" where
  "escape s = concat (map escape_char s)"

text \<open>\<open>HumanReadableString.format\<close>: a link whose text is not its address shows the address.\<close>

fun human_readable_format :: "mautrix \<Rightarrow> entity \<Rightarrow> string \<Rightarrow> string" where
  "human_readable_format M (UrlEntity url) text =
     (if url \<noteq> text then text @ '' ('' @ url @ '')'' else mx_format M (UrlEntity url) text)"
| "human_readable_format M (OtherEntity k) text = mx_format M (OtherEntity k) text"

definition parse_html :: "mautrix \<Rightarrow> string \<Rightarrow> string" where
  "parse_html M html = mx_parse M (human_readable_format M) html"

definition cut_off :: string where
  "cut_off = ''[long message cut off]''"

text \<open>The defaults are \<open>allow_html=False\<close> and \<open>render_markdown=True\<close>.\<close>

definition parse_formatted :: "mautrix \<Rightarrow> string \<Rightarrow> bool \<Rightarrow> bool \<Rightarrow> string \<times> string" where
  "parse_formatted M message allow_html render_markdown =
     (if \<not> render_markdown \<and> \<not> allow_html then (message, escape message)
      else
        let html = (if render_markdown then mx_render M message allow_html else message);
            text = parse_html M html in
        (if 100 < length text \<and> 40000 < length text + length html then take 100 text @ cut_off else text,
         html))"

section \<open>Message events\<close>

definition text_content :: "string \<Rightarrow> string option \<Rightarrow> string \<Rightarrow> mcontent" where
  "text_content msgtype fmt body = \<lparr>mc_msgtype = msgtype, mc_body = body, mc_format = fmt,
     mc_formatted_body = Some None, mc_relates_to = None, mc_items = []\<rparr>"

text \<open>The client object: its identity, \<open>disable_replies\<close> and whether it has crypto.\<close>

record mclient =
  cl_id :: nat
  cl_disable_replies :: bool
  cl_crypto :: bool

text \<open>
  \<open>MaubotMessageEvent.__init__\<close>: the declared attributes of the base event are copied, and of
  its other keys only \<^verbatim>\<open>mautrix\<close>.
\<close>

definition maubot_message_event :: "mx_event \<Rightarrow> mclient \<Rightarrow> mx_event" where
  "maubot_message_event base client =
     base\<lparr>me_kind := KMaubotMessage, me_client := Some (cl_id client),
       me_disable_reply := cl_disable_replies client,
       me_unknown := (case map_of (me_unknown base) ''mautrix'' of
           None \<Rightarrow> [] | Some v \<Rightarrow> [(''mautrix'', v)])\<rparr>"

datatype mx_call =
    SendMessageEvent string string mcontent
  | SendMessage string mcontent
  | SendReceipt string string string
  | React string string string
  | Redact string string "string option"

datatype respond_content = RText string | RContent mcontent

datatype reply_arg = RBool bool | RStr string

fun reply_truthy :: "reply_arg \<Rightarrow> bool" where
  "reply_truthy (RBool b) = b"
| "reply_truthy (RStr s) = (s \<noteq> [])"

text \<open>\<open>.replace("\n", "<br>")\<close>.\<close>

definition nl_to_br :: "string \<Rightarrow> string" where
  "nl_to_br s = concat (map (\<lambda>c. if c = CHR 0x0A then ''<br>'' else [c]) s)"

definition sender_link :: "string \<Rightarrow> string" where
  "sender_link sender =
     ''<a href='' @ [CHR 0x22] @ ''https://matrix.to/#/'' @ sender @ [CHR 0x22] @ ''>'' @ sender @ ''</a>: ''"

definition set_items :: "mautrix \<Rightarrow> (string, json) dict option \<Rightarrow> mcontent \<Rightarrow> mcontent" where
  "set_items M extra content =
     (case extra of None \<Rightarrow> content | Some d \<Rightarrow> fold (\<lambda>(k, v). mx_setitem M k v) d content)"

text \<open>The rendering step of \<open>respond\<close>.\<close>

definition respond_render :: "mautrix \<Rightarrow> respond_content \<Rightarrow> bool \<Rightarrow> bool \<Rightarrow> mcontent" where
  "respond_render M content md allow_html =
     (case content of
        RContent c \<Rightarrow> c
      | RText s \<Rightarrow>
          let c = text_content ''m.notice'' None s in
          if allow_html \<or> md
          then let (body, html) = parse_formatted M (mc_body c) allow_html md in
            c\<lparr>mc_format := Some ''org.matrix.custom.html'', mc_body := body,
              mc_formatted_body := Some (Some html)\<rparr>
          else c)"

text \<open>The thread and reply steps.\<close>

definition respond_thread :: "mautrix \<Rightarrow> mx_event \<Rightarrow> bool option \<Rightarrow> bool \<Rightarrow> mcontent \<Rightarrow> mcontent" where
  "respond_thread M evt in_thread edits content =
     (if \<not> edits \<and> in_thread \<noteq> Some False
        \<and> (in_thread = Some True \<or> me_is_message_content evt \<and> opt_truthy (me_thread_parent evt))
      then mx_set_thread_parent M evt content else content)"

definition respond_reply :: "mautrix \<Rightarrow> mx_event \<Rightarrow> reply_arg \<Rightarrow> bool \<Rightarrow> mcontent \<Rightarrow> exn + mcontent" where
  "respond_reply M evt reply edits content =
     (if reply_truthy reply \<and> \<not> edits then
        if reply \<noteq> RStr ''force'' \<and> me_disable_reply evt then
          let content = content\<lparr>mc_body := me_sender evt @ '': '' @ mc_body content\<rparr> in
          (case mc_formatted_body content of
             None \<Rightarrow> Inl AttributeError
           | Some fb \<Rightarrow>
               let fmt_body = (if opt_truthy fb then the fb else nl_to_br (escape (mc_body content))) in
               Inr (content\<lparr>mc_formatted_body := Some (Some (sender_link (me_sender evt) @ fmt_body))\<rparr>))
        else Inr (mx_set_reply M evt content)
      else Inr content)"

definition respond ::
    "mautrix \<Rightarrow> mx_event \<Rightarrow> respond_content \<Rightarrow> string \<Rightarrow> bool \<Rightarrow> bool \<Rightarrow> reply_arg \<Rightarrow> bool option
      \<Rightarrow> string option \<Rightarrow> (string, json) dict option \<Rightarrow> exn + mx_call" where
  "respond M evt content event_type md allow_html reply in_thread edits extra_content =
     (let content = respond_render M content md allow_html;
          has_edits = opt_truthy edits;
          content = (if has_edits then mx_set_edit M (the edits) content else content);
          content = respond_thread M evt in_thread has_edits content in
      case respond_reply M evt reply has_edits content of
        Inl e \<Rightarrow> Inl e
      | Inr content \<Rightarrow>
          Inr (SendMessageEvent (me_room_id evt) event_type (set_items M extra_content content)))"

definition evt_reply ::
    "mautrix \<Rightarrow> mx_event \<Rightarrow> respond_content \<Rightarrow> string \<Rightarrow> bool \<Rightarrow> bool \<Rightarrow> bool option
      \<Rightarrow> (string, json) dict option \<Rightarrow> exn + mx_call" where
  "evt_reply M evt content event_type md allow_html in_thread extra_content =
     respond M evt content event_type md allow_html (RBool True) in_thread None extra_content"

definition mark_read :: "mx_event \<Rightarrow> mx_call" where
  "mark_read evt = SendReceipt (me_room_id evt) (me_event_id evt) ''m.read''"

definition react :: "mx_event \<Rightarrow> string \<Rightarrow> mx_call" where
  "react evt key = React (me_room_id evt) (me_event_id evt) key"

definition redact :: "mx_event \<Rightarrow> string option \<Rightarrow> mx_call" where
  "redact evt reason = Redact (me_room_id evt) (me_event_id evt) reason"

text \<open>
  \<open>edit\<close> passes the event itself as \<open>edits\<close>; an event object is always true, its identifier is
  what \<open>set_edit\<close> uses.
\<close>

definition evt_edit :: "mautrix \<Rightarrow> mx_event \<Rightarrow> respond_content \<Rightarrow> string \<Rightarrow> bool \<Rightarrow> bool \<Rightarrow> exn + mx_call" where
  "evt_edit M evt content event_type md allow_html =
     respond M evt content event_type md allow_html (RBool False) None (Some (me_event_id evt)) None"

section \<open>The client\<close>

text \<open>\<open>relates_to\<close> is true when given: an object of mautrix.\<close>

definition send_markdown ::
    "mautrix \<Rightarrow> string \<Rightarrow> string \<Rightarrow> bool \<Rightarrow> bool \<Rightarrow> string \<Rightarrow> string option \<Rightarrow> json option
      \<Rightarrow> (string, json) dict option \<Rightarrow> exn + mx_call" where
  "send_markdown M room_id md allow_html render_markdown msgtype edits relates_to extra_content =
     (let (body, html) = parse_formatted M md allow_html render_markdown;
          content = (text_content msgtype (Some ''org.matrix.custom.html'') [])\<lparr>mc_body := body,
            mc_formatted_body := Some (Some html)\<rparr> in
      if relates_to \<noteq> None \<and> opt_truthy edits
      then Inl (ValueError ''Can't use edits and relates_to at the same time.'')
      else
        let content = (if relates_to \<noteq> None then content\<lparr>mc_relates_to := relates_to\<rparr>
              else if opt_truthy edits then mx_set_edit M (the edits) content else content)
        in Inr (SendMessage room_id (set_items M extra_content content)))"

text \<open>\<open>dispatch_event\<close>: the event that mautrix's dispatcher then hands to the handlers.\<close>

definition dispatch_event :: "mclient \<Rightarrow> mx_event \<Rightarrow> bool \<Rightarrow> mx_event" where
  "dispatch_event client event internal =
     (if me_kind event = KMessage then maubot_message_event event client
      else if \<not> internal then event\<lparr>me_client := Some (cl_id client)\<rparr>
      else event)"

text \<open>\<open>get_event\<close>: \<^verbatim>\<open>None\<close> when the event cannot be decrypted, other exceptions pass.\<close>

definition DecryptionError :: exn where
  "DecryptionError = OtherException ''DecryptionError''"

definition finish_event :: "mautrix \<Rightarrow> mclient \<Rightarrow> mx_event \<Rightarrow> mx_event" where
  "finish_event M client evt =
     (if me_kind evt \<in> {KMessage, KMaubotMessage}
      then maubot_message_event (mx_trim_reply_fallback M evt) client
      else evt\<lparr>me_client := Some (cl_id client)\<rparr>)"

definition get_event :: "mautrix \<Rightarrow> mclient \<Rightarrow> string \<Rightarrow> string \<Rightarrow> exn + mx_event option" where
  "get_event M client room_id event_id =
     (let evt = mx_get_event M room_id event_id in
      if me_kind evt = KEncrypted \<and> cl_crypto client then
        (case mx_decrypt M evt of
           Inl e \<Rightarrow> if e = DecryptionError then Inr None else Inl e
         | Inr decrypted \<Rightarrow> Inr (Some (finish_event M client decrypted)))
      else Inr (Some (finish_event M client evt)))"

section \<open>Properties\<close>

lemma length_cut_off: "length cut_off = 22"
  by (simp add: cut_off_def)

text \<open>
  The text part of a rendered message is bounded: whenever text and HTML together would
  exceed 40000 characters, at most 122 characters of text are sent, that is the first 100
  and a notice. Shorter messages keep the text of the parser unchanged.
\<close>

theorem parse_formatted_bounds:
  assumes "parse_formatted M message allow_html md = (text, html)" and "allow_html \<or> md"
  shows "(length text \<le> 122 \<or> length text + length html \<le> 40000)
    \<and> (length (parse_html M html) + length html \<le> 40000 \<longrightarrow> text = parse_html M html)"
  using assms length_cut_off
  by (auto simp: parse_formatted_def Let_def split: if_splits)

definition plain_mautrix :: mautrix where
  "plain_mautrix = \<lparr>mx_render = (\<lambda>s h. ''<p>'' @ s @ ''</p>''), mx_parse = (\<lambda>f s. take (length s - 7) (drop 3 s)),
     mx_format = (\<lambda>e s. s), mx_set_edit = (\<lambda>e c. c\<lparr>mc_relates_to := Some (JStr e)\<rparr>),
     mx_set_thread_parent = (\<lambda>e c. c\<lparr>mc_relates_to := Some (JStr (''thread '' @ me_event_id e))\<rparr>),
     mx_set_reply = (\<lambda>e c. c\<lparr>mc_relates_to := Some (JStr (me_event_id e))\<rparr>),
     mx_setitem = (\<lambda>k v c. c\<lparr>mc_items := dict_set k v (mc_items c)\<rparr>),
     mx_get_event = (\<lambda>r e. \<lparr>me_kind = KMessage, me_room_id = r, me_event_id = e, me_sender = ''@u:x'',
       me_is_message_content = True, me_thread_parent = None, me_unknown = [], me_client = None,
       me_disable_reply = False\<rparr>),
     mx_decrypt = (\<lambda>e. Inl DecryptionError), mx_trim_reply_fallback = (\<lambda>e. e)\<rparr>"

theorem parse_formatted_bounds_witness:
  "parse_formatted plain_mautrix (replicate 30000 CHR ''a'') False True
     = (replicate 100 CHR ''a'' @ cut_off, ''<p>'' @ replicate 30000 CHR ''a'' @ ''</p>'')
   \<and> (length (replicate 100 CHR ''a'' @ cut_off) \<le> 122
      \<or> length (replicate 100 CHR ''a'' @ cut_off) + length (''<p>'' @ replicate 30000 CHR ''a'' @ ''</p>'') \<le> 40000)"
proof -
  have e: "parse_formatted plain_mautrix (replicate 30000 CHR ''a'') False True
     = (replicate 100 CHR ''a'' @ cut_off, ''<p>'' @ replicate 30000 CHR ''a'' @ ''</p>'')"
    by (simp add: parse_formatted_def parse_html_def plain_mautrix_def)
  from parse_formatted_bounds [OF e] e show ?thesis by blast
qed

lemma escape_safe: "c \<in> set (escape s) \<Longrightarrow> c \<notin> {CHR ''<'', CHR ''>'', CHR 0x22, CHR 0x27}"
  by (auto simp: escape_def split: if_splits)

text \<open>
  What the documentation of \<open>respond\<close> promises about its flags: a response that edits an
  event is sent the same whatever \<open>reply\<close> and \<open>in_thread\<close> are; with \<open>in_thread=False\<close> no thread
  relation is ever set; by default it is set exactly when the event is a message in a thread.
\<close>

theorem respond_flags:
  "(opt_truthy edits \<longrightarrow> respond M evt content ty md html reply in_thread edits extra
      = respond M evt content ty md html (RBool False) None edits extra)
   \<and> respond (M\<lparr>mx_set_thread_parent := f\<rparr>) evt content ty md html reply (Some False) edits extra
      = respond M evt content ty md html reply (Some False) edits extra
   \<and> respond M evt content ty md html reply None edits extra
      = respond M evt content ty md html reply
          (Some (me_is_message_content evt \<and> opt_truthy (me_thread_parent evt))) edits extra"
proof (intro conjI impI)
  have "human_readable_format (M\<lparr>mx_set_thread_parent := f\<rparr>) = human_readable_format M"
    by (intro ext, rename_tac e s, case_tac e) auto
  then have pf: "parse_formatted (M\<lparr>mx_set_thread_parent := f\<rparr>) = parse_formatted M"
    by (intro ext) (simp add: parse_formatted_def parse_html_def)
  have render: "respond_render (M\<lparr>mx_set_thread_parent := f\<rparr>) content md html = respond_render M content md html"
    unfolding respond_render_def pf by (rule refl)
  have items: "set_items (M\<lparr>mx_set_thread_parent := f\<rparr>) extra = set_items M extra"
    by (cases extra) (simp_all add: set_items_def fun_eq_iff)
  have thread: "respond_thread (M\<lparr>mx_set_thread_parent := f\<rparr>) evt (Some False) = respond_thread M evt (Some False)"
    by (intro ext) (simp add: respond_thread_def)
  have reply: "respond_reply (M\<lparr>mx_set_thread_parent := f\<rparr>) evt = respond_reply M evt"
    by (intro ext) (simp add: respond_reply_def)
  have edit: "mx_set_edit (M\<lparr>mx_set_thread_parent := f\<rparr>) = mx_set_edit M" by simp
  show "respond (M\<lparr>mx_set_thread_parent := f\<rparr>) evt content ty md html reply (Some False) edits extra
      = respond M evt content ty md html reply (Some False) edits extra"
    unfolding respond_def render items thread reply edit by (rule refl)
qed (simp_all add: respond_def respond_thread_def respond_reply_def)

definition demo_event :: mx_event where
  "demo_event = \<lparr>me_kind = KMaubotMessage, me_room_id = ''!r'', me_event_id = ''$e'', me_sender = ''@u:x'',
     me_is_message_content = True, me_thread_parent = Some ''$t'', me_unknown = [], me_client = Some 0,
     me_disable_reply = True\<rparr>"

theorem respond_flags_witness:
  "respond plain_mautrix demo_event (RText ''hi'') ''m.room.message'' False False (RBool True) (Some True) (Some ''$old'') None
    = respond plain_mautrix demo_event (RText ''hi'') ''m.room.message'' False False (RBool False) None (Some ''$old'') None
   \<and> respond plain_mautrix demo_event (RText ''hi'') ''m.room.message'' False False (RBool False) None (Some ''$old'') None
    = Inr (SendMessageEvent ''!r'' ''m.room.message''
        ((text_content ''m.notice'' None ''hi'')\<lparr>mc_relates_to := Some (JStr ''$old'')\<rparr>))"
  using respond_flags [where M = plain_mautrix and evt = demo_event and content = "RText ''hi''"
      and ty = "''m.room.message''" and md = False and html = False and reply = "RBool True"
      and in_thread = "Some True" and edits = "Some ''$old''" and extra = None]
  by (simp add: opt_truthy_def)
    (simp add: respond_def respond_render_def respond_thread_def respond_reply_def set_items_def
      plain_mautrix_def demo_event_def opt_truthy_def text_content_def)

text \<open>
  With replies disabled, a plain text response starts with its sender twice: the HTML
  fallback is built from a body that already has the prefix.
\<close>

lemma plain_reply_doubles_sender:
  "evt_reply plain_mautrix demo_event (RText ''hi'') ''m.room.message'' False False (Some False) None
    = Inr (SendMessageEvent ''!r'' ''m.room.message''
        ((text_content ''m.notice'' None ''@u:x: hi'')\<lparr>mc_formatted_body :=
          Some (Some (sender_link ''@u:x'' @ ''@u:x: hi''))\<rparr>))"
  by (simp add: evt_reply_def respond_def respond_render_def respond_thread_def respond_reply_def
      set_items_def demo_event_def opt_truthy_def text_content_def nl_to_br_def escape_def)

text \<open>
  Handlers of plugins only see message events of maubot's own class, bound to the client
  that received them: so does \<open>dispatch_event\<close> for every event that is not internal, and
  \<open>get_event\<close> for every event it returns. The binding carries the client's setting for replies.
\<close>

theorem events_bound_to_client:
  "me_kind (dispatch_event client event internal) \<noteq> KMessage
   \<and> (\<not> internal \<or> me_kind event = KMessage
      \<longrightarrow> me_client (dispatch_event client event internal) = Some (cl_id client))
   \<and> (\<forall>evt. get_event M client room eid = Inr (Some evt)
      \<longrightarrow> me_kind evt \<noteq> KMessage \<and> me_client evt = Some (cl_id client)
        \<and> (me_kind evt = KMaubotMessage \<longrightarrow> me_disable_reply evt = cl_disable_replies client))"
  by (auto simp: dispatch_event_def maubot_message_event_def get_event_def finish_event_def Let_def
      split: if_splits sum.splits)

theorem events_bound_to_client_witness:
  "\<exists>evt. get_event plain_mautrix \<lparr>cl_id = 3, cl_disable_replies = True, cl_crypto = False\<rparr> ''!r'' ''$e'' = Inr (Some evt)
     \<and> me_kind evt = KMaubotMessage \<and> me_client evt = Some 3 \<and> me_disable_reply evt"
proof -
  let ?c = "\<lparr>cl_id = 3, cl_disable_replies = True, cl_crypto = False\<rparr>"
  obtain evt where e: "get_event plain_mautrix ?c ''!r'' ''$e'' = Inr (Some evt)" and k: "me_kind evt = KMaubotMessage"
    by (simp add: get_event_def finish_event_def plain_mautrix_def maubot_message_event_def Let_def)
  show ?thesis using events_bound_to_client [of ?c evt False plain_mautrix "''!r''" "''$e''"] e k by auto
qed

end
