(* ===== verification/MB_ClientAuth.thy ===== *)
theory MB_ClientAuth
  imports MB_Management MB_Events
begin

text \<open>
  Logging bots in through the management API, \<^verbatim>\<open>management/api/client_auth.py\<close>: reading the
  request, registration with the shared secret of the homeserver, password login, and single
  sign-on with its table of waiting sessions.

  The homeserver, URL arithmetic (yarl), HMAC-SHA1, the random identifiers and mautrix's login
  response are parameters, a record of functions that see the calls made so far. The client that
  a login creates or updates is the one of \<open>MB_Management\<close>.
\<close>

section \<open>Parameters and state\<close>

record login_response =
  lr_user_id :: string
  lr_access_token :: string
  lr_device_id :: string

record login_args =
  la_identifier :: json
  la_login_type :: string
  la_password :: json
  la_token :: "string option"
  la_device_id :: string
  la_display_name :: json

datatype auth_call =
    GetNonce string
  | PostRegister string json
  | GetLoginFlows string
  | PostLogin string login_args

record auth_api =
  known_homeservers :: "(string, (string, string) dict) dict"
  public_url :: string
  url_str :: "string \<Rightarrow> string"
  url_div :: "string \<Rightarrow> string \<Rightarrow> string"
  url_with :: "string \<Rightarrow> string \<Rightarrow> (string \<times> string) list \<Rightarrow> string"
  hmac_sha1 :: "nat list \<Rightarrow> nat list \<Rightarrow> string"
  random_id :: "auth_call list \<Rightarrow> nat \<Rightarrow> string"
  net_nonce :: "auth_call list \<Rightarrow> string \<Rightarrow> exn + (string, json) dict"
  net_register :: "auth_call list \<Rightarrow> string \<Rightarrow> json \<Rightarrow> exn + json"
  net_supports_sso :: "auth_call list \<Rightarrow> string \<Rightarrow> exn + bool"
  net_login :: "auth_call list \<Rightarrow> string \<Rightarrow> login_args \<Rightarrow> exn + login_response"
  deserialize_login :: "json \<Rightarrow> exn + login_response"
  serialize_login :: "login_response \<Rightarrow> json"

text \<open>\<open>AuthRequestInfo\<close>; its client is the base URL.\<close>

record auth_request =
  ar_server_name :: string
  ar_base_url :: string
  ar_secret :: "string option"
  ar_username :: json
  ar_password :: json
  ar_user_type :: json
  ar_device_name :: json
  ar_update_client :: bool
  ar_sso :: bool

datatype future = Pending | Cancelled | Result string

record auth_world =
  aw_world :: world
  aw_calls :: "auth_call list"
  sso_waiters :: "(string, auth_request \<times> nat) dict"
  aw_futures :: "future list"

definition aw_query :: "auth_call \<Rightarrow> exn + 'a \<Rightarrow> auth_world \<Rightarrow> (auth_world, 'a) res" where
  "aw_query call r w =
     (let w = w\<lparr>aw_calls := aw_calls w @ [call]\<rparr> in case r of Inl e \<Rightarrow> Raise e w | Inr x \<Rightarrow> Ok x w)"

definition on_world :: "(world \<Rightarrow> (world, 'a) res) \<Rightarrow> auth_world \<Rightarrow> (auth_world, 'a) res" where
  "on_world f w = (case f (aw_world w) of
     Ok x u \<Rightarrow> Ok x (w\<lparr>aw_world := u\<rparr>) | Raise e u \<Rightarrow> Raise e (w\<lparr>aw_world := u\<rparr>))"

section \<open>Requests\<close>

definition get_known_servers :: "auth_api \<Rightarrow> exn + web_response" where
  "get_known_servers H =
     (if \<exists>(k, v)\<in>set (known_homeservers H). \<not> in_dict ''url'' v then Inl KeyError
      else Inr (json_response (JObj (map (\<lambda>(k, v). (k, JStr (dict_get v ''url'' []))) (known_homeservers H))) 200))"

definition truthy_strings :: "string list" where
  "truthy_strings = [''1'', ''true'', ''yes'']"

text \<open>\<open>body.get(key, default)\<close>.\<close>

definition read_client_auth_request ::
    "auth_api \<Rightarrow> string \<Rightarrow> (string, string) dict \<Rightarrow> (string \<times> json) list option \<Rightarrow> web_response + auth_request" where
  "read_client_auth_request H server_name q data =
     (let server = dict_get (known_homeservers H) server_name [] in
      if server = [] then Inl resp_server_not_found
      else case data of
        None \<Rightarrow> Inl resp_body_not_json
      | Some bd \<Rightarrow>
          let sso = str_lower (dict_get q ''sso'' []) \<in> set truthy_strings;
              has_both = in_dict ''username'' bd \<and> in_dict ''password'' bd in
          if \<not> has_both \<and> \<not> sso then Inl resp_username_or_password_missing
          else case map_of server ''url'' of
            None \<Rightarrow> Inl resp_invalid_server
          | Some base_url \<Rightarrow> Inr
              \<lparr>ar_server_name = server_name, ar_base_url = base_url, ar_secret = map_of server ''secret'',
               ar_username = (if has_both then obj_get bd ''username'' else JNull),
               ar_password = (if has_both then obj_get bd ''password'' else JNull),
               ar_user_type = dict_get bd ''user_type'' (JStr ''bot''),
               ar_device_name = dict_get bd ''device_name'' (JStr ''Maubot''),
               ar_update_client = str_lower (dict_get q ''update_client'' []) \<in> set truthy_strings,
               ar_sso = sso\<rparr>)"

section \<open>Registration\<close>

text \<open>\<^verbatim>\<open>str.encode("utf-8")\<close> on the code points of the model's strings.\<close>

fun utf8_char :: "nat \<Rightarrow> nat list" where
  "utf8_char n = (if n < 128 then [n] else [192 + n div 64, 128 + n mod 64])"

definition utf8_encode :: "string \<Rightarrow> nat list" where
  "utf8_encode s = concat (map (\<lambda>c. utf8_char (of_char c)) s)"

text \<open>The bytes that \<open>generate_mac\<close> feeds into the HMAC, and its result.\<close>

definition mac_message :: "string \<Rightarrow> string \<Rightarrow> string \<Rightarrow> bool \<Rightarrow> string option \<Rightarrow> nat list" where
  "mac_message nonce username password admin user_type =
     utf8_encode nonce @ [0] @ utf8_encode username @ [0] @ utf8_encode password @ [0]
       @ utf8_encode (if admin then ''admin'' else ''notadmin'')
       @ (case user_type of None \<Rightarrow> [] | Some t \<Rightarrow> [0] @ utf8_encode t)"

definition generate_mac ::
    "auth_api \<Rightarrow> string \<Rightarrow> json \<Rightarrow> json \<Rightarrow> json \<Rightarrow> bool \<Rightarrow> json \<Rightarrow> exn + string" where
  "generate_mac H secret nonce username password admin user_type =
     (case (nonce, username, password) of
        (JStr n, JStr u, JStr p) \<Rightarrow>
          (case user_type of
             JNull \<Rightarrow> Inr (hmac_sha1 H (utf8_encode secret) (mac_message n u p admin None))
           | JStr t \<Rightarrow> Inr (hmac_sha1 H (utf8_encode secret) (mac_message n u p admin (Some t)))
           | _ \<Rightarrow> Inl AttributeError)
      | _ \<Rightarrow> Inl AttributeError)"

text \<open>The fields of a \<^verbatim>\<open>MatrixRequestError\<close>; an invalid token is the standard error for it.\<close>

fun matrix_error :: "exn \<Rightarrow> (string \<times> string \<times> nat) option" where
  "matrix_error (MatrixRequestError code msg st) = Some (code, msg, st)"
| "matrix_error (MatrixInvalidToken msg) = Some (''M_UNKNOWN_TOKEN'', msg, 401)"
| "matrix_error _ = None"

definition login_data :: "auth_api \<Rightarrow> auth_request \<Rightarrow> login_response \<Rightarrow> client_data" where
  "login_data H req res =
     \<lparr>d_homeserver = Some (url_str H (ar_base_url req)), d_access_token = Some (lr_access_token res),
      d_device_id = Some (lr_device_id res), d_cenabled = None, d_cstarted = None, d_sync = None,
      d_autojoin = None, d_online = None, d_displayname = None, d_avatar_url = None\<rparr>"

definition register_content :: "auth_request \<Rightarrow> json \<Rightarrow> string \<Rightarrow> json" where
  "register_content req nonce mac =
     JObj [(''nonce'', nonce), (''username'', ar_username req), (''password'', ar_password req),
           (''admin'', JBool False), (''user_type'', ar_user_type req), (''mac'', JStr mac)]"

definition register ::
    "('y, 'c) env \<Rightarrow> api \<Rightarrow> auth_api \<Rightarrow> string \<Rightarrow> (string, string) dict \<Rightarrow> (string \<times> json) list option
      \<Rightarrow> auth_world \<Rightarrow> (auth_world, web_response) res" where
  "register E A H server_name q data w =
     (case read_client_auth_request H server_name q data of
        Inl err \<Rightarrow> Ok err w
      | Inr req \<Rightarrow>
          if ar_sso req then Ok resp_registration_no_sso w
          else if \<not> opt_truthy (ar_secret req) then Ok resp_registration_secret_not_found w
          else bind (aw_query (GetNonce (ar_base_url req)) (net_nonce H (aw_calls w) (ar_base_url req)) w) (\<lambda>res w.
          case map_of res ''nonce'' of
            None \<Rightarrow> Raise KeyError w
          | Some nonce \<Rightarrow>
              (case generate_mac H (the (ar_secret req)) nonce (ar_username req) (ar_password req) False (ar_user_type req) of
                 Inl e \<Rightarrow> Raise e w
               | Inr mac \<Rightarrow>
                   let content = register_content req nonce mac in
                   (case aw_query (PostRegister (ar_base_url req) content)
                       (net_register H (aw_calls w) (ar_base_url req) content) w of
                      Raise e w \<Rightarrow>
                        (case matrix_error e of
                           None \<Rightarrow> Raise e w
                         | Some (code, msg, st) \<Rightarrow>
                             Ok (json_response (JObj [(''errcode'', JStr code), (''error'', JStr msg),
                               (''http_status'', JInt (int st))]) 500) w)
                    | Ok raw_res w \<Rightarrow>
                        (case deserialize_login H raw_res of
                           Inl e \<Rightarrow> Raise e w
                         | Inr login_res \<Rightarrow>
                             if ar_update_client req
                             then on_world (create_client_from E A (Some (lr_user_id login_res)) (login_data H req login_res)) w
                             else Ok (json_response (serialize_login H login_res) 200) w)))))"

section \<open>Login\<close>

definition login_args_of :: "auth_request \<Rightarrow> string option \<Rightarrow> string \<Rightarrow> login_args" where
  "login_args_of req login_token dev =
     (if ar_sso req
      then \<lparr>la_identifier = JNull, la_login_type = ''m.login.token'', la_password = JNull,
        la_token = login_token, la_device_id = dev, la_display_name = ar_device_name req\<rparr>
      else \<lparr>la_identifier = ar_username req, la_login_type = ''m.login.password'', la_password = ar_password req,
        la_token = None, la_device_id = dev, la_display_name = ar_device_name req\<rparr>)"

definition do_login ::
    "('y, 'c) env \<Rightarrow> api \<Rightarrow> auth_api \<Rightarrow> auth_request \<Rightarrow> string option \<Rightarrow> auth_world
      \<Rightarrow> (auth_world, web_response) res" where
  "do_login E A H req login_token w =
     (let dev = ''maubot_'' @ random_id H (aw_calls w) 8;
          args = login_args_of req login_token dev in
      case aw_query (PostLogin (ar_base_url req) args) (net_login H (aw_calls w) (ar_base_url req) args) w of
        Raise e w \<Rightarrow>
          (case matrix_error e of
             None \<Rightarrow> Raise e w
           | Some (code, msg, st) \<Rightarrow>
               Ok (json_response (JObj [(''errcode'', JStr code), (''error'', JStr msg)]) st) w)
      | Ok res w \<Rightarrow>
          if ar_update_client req
          then on_world (create_or_update_client E A (lr_user_id res) (login_data H req res) True) w
          else Ok (json_response (serialize_login H res) 200) w)"

definition sso_url :: "auth_api \<Rightarrow> auth_request \<Rightarrow> string \<Rightarrow> string" where
  "sso_url H req waiter_id =
     url_with H (ar_base_url req) ''/_matrix/client/v3/login/sso/redirect''
       [(''redirectUrl'', url_str H (url_div H
          (url_div H (public_url H) ''_matrix/maubot/v1/client/auth_external_sso/complete'') waiter_id))]"

definition do_sso :: "auth_api \<Rightarrow> auth_request \<Rightarrow> auth_world \<Rightarrow> (auth_world, web_response) res" where
  "do_sso H req w =
     bind (aw_query (GetLoginFlows (ar_base_url req)) (net_supports_sso H (aw_calls w) (ar_base_url req)) w) (\<lambda>sso w.
     if \<not> sso then Ok resp_sso_not_supported w
     else let waiter_id = random_id H (aw_calls w) 16 in
       Ok (json_response (JObj [(''sso_url'', JStr (sso_url H req waiter_id)), (''id'', JStr waiter_id)]) 200)
         (w\<lparr>sso_waiters := dict_set waiter_id (req, length (aw_futures w)) (sso_waiters w),
            aw_futures := aw_futures w @ [Pending]\<rparr>))"

definition auth_login ::
    "('y, 'c) env \<Rightarrow> api \<Rightarrow> auth_api \<Rightarrow> string \<Rightarrow> (string, string) dict \<Rightarrow> (string \<times> json) list option
      \<Rightarrow> auth_world \<Rightarrow> (auth_world, web_response) res" where
  "auth_login E A H server_name q data w =
     (case read_client_auth_request H server_name q data of
        Inl err \<Rightarrow> Ok err w
      | Inr req \<Rightarrow> if ar_sso req then do_sso H req w else do_login E A H req None w)"

section \<open>Single sign-on sessions\<close>

text \<open>
  \<open>wait_sso\<close> suspends at its future; what it does when it goes on depends on the state of the
  future then. A cancelled request cancels the future it waits for.
\<close>

definition wait_sso_lookup :: "string \<Rightarrow> auth_world \<Rightarrow> exn + auth_request \<times> nat" where
  "wait_sso_lookup waiter_id w =
     (case map_of (sso_waiters w) waiter_id of None \<Rightarrow> Inl KeyError | Some p \<Rightarrow> Inr p)"

definition CancelledError :: exn where
  "CancelledError = OtherException ''CancelledError''"

definition wait_sso_resume ::
    "('y, 'c) env \<Rightarrow> api \<Rightarrow> auth_api \<Rightarrow> string \<Rightarrow> auth_request \<Rightarrow> nat \<Rightarrow> auth_world
      \<Rightarrow> (auth_world, web_response) res" where
  "wait_sso_resume E A H waiter_id req fut w =
     (let popped = w\<lparr>sso_waiters := dict_del waiter_id (sso_waiters w)\<rparr> in
      case aw_futures w ! fut of
        Result login_token \<Rightarrow> do_login E A H req (Some login_token) popped
      | _ \<Rightarrow> Raise CancelledError popped)"

definition complete_sso :: "string \<Rightarrow> string option \<Rightarrow> auth_world \<Rightarrow> web_response \<times> auth_world" where
  "complete_sso waiter_id login_token w =
     (case map_of (sso_waiters w) waiter_id of
        None \<Rightarrow> (text_response 404 (''Invalid session ID'' @ [CHR 0x0A]), w)
      | Some (_, fut) \<Rightarrow>
         (case aw_futures w ! fut of
            Cancelled \<Rightarrow> (text_response 200 (''The login was cancelled from the Maubot client'' @ [CHR 0x0A]), w)
          | Result _ \<Rightarrow> (text_response 200 (''The login token was already received'' @ [CHR 0x0A]), w)
          | Pending \<Rightarrow>
             (case login_token of
                None \<Rightarrow> (text_response 400 (''Missing loginToken query parameter'' @ [CHR 0x0A]), w)
              | Some t \<Rightarrow>
                  (text_response 200
                     (''Login token received, please return to your Maubot client. This tab can be closed.'' @ [CHR 0x0A]),
                   w\<lparr>aw_futures := (aw_futures w)[fut := Result t]\<rparr>))))"

text \<open>
  The sessions as an event system. Beside the program's state it has the suspended \<open>wait_sso\<close>
  requests, and two histories: the tokens that \<open>complete_sso\<close> accepted, and the futures and
  tokens with which logins were made.
\<close>

record sso_state =
  sso_world :: auth_world
  sso_waits :: "(string \<times> auth_request \<times> nat) list"
  sso_delivered :: "(nat \<times> string) list"
  sso_logins :: "(nat \<times> string) list"

datatype sso_event =
    SsoStart auth_request
  | SsoWait string
  | SsoComplete string "string option"
  | SsoCancel nat
  | SsoResume nat

definition remove_nth :: "nat \<Rightarrow> 'a list \<Rightarrow> 'a list" where
  "remove_nth n xs = take n xs @ drop (Suc n) xs"

fun sso_step ::
    "('y, 'c) env \<Rightarrow> api \<Rightarrow> auth_api \<Rightarrow> sso_event \<Rightarrow> sso_state \<Rightarrow> sso_state option" where
  "sso_step E A H (SsoStart req) s = Some (s\<lparr>sso_world := state_of (do_sso H req (sso_world s))\<rparr>)"
| "sso_step E A H (SsoWait i) s =
     (case wait_sso_lookup i (sso_world s) of
        Inl e \<Rightarrow> Some s
      | Inr (req, fut) \<Rightarrow> Some (s\<lparr>sso_waits := sso_waits s @ [(i, req, fut)]\<rparr>))"
| "sso_step E A H (SsoComplete i t) s =
     (let w = snd (complete_sso i t (sso_world s)) in
      Some (s\<lparr>sso_world := w, sso_delivered :=
        (case map_of (sso_waiters (sso_world s)) i of
           Some (_, fut) \<Rightarrow>
             if aw_futures w ! fut \<noteq> aw_futures (sso_world s) ! fut
             then sso_delivered s @ [(fut, the t)] else sso_delivered s
         | None \<Rightarrow> sso_delivered s)\<rparr>))"
| "sso_step E A H (SsoCancel n) s =
     (if n < length (sso_waits s) then
        let (i, req, fut) = sso_waits s ! n; w = sso_world s in
        if aw_futures w ! fut = Pending
        then Some (s\<lparr>sso_world := w\<lparr>aw_futures := (aw_futures w)[fut := Cancelled]\<rparr>\<rparr>) else None
      else None)"
| "sso_step E A H (SsoResume n) s =
     (if n < length (sso_waits s) then
        let (i, req, fut) = sso_waits s ! n; w = sso_world s in
        if aw_futures w ! fut = Pending then None
        else Some (s\<lparr>sso_world := state_of (wait_sso_resume E A H i req fut w),
          sso_waits := remove_nth n (sso_waits s),
          sso_logins := (case aw_futures w ! fut of Result t \<Rightarrow> sso_logins s @ [(fut, t)] | _ \<Rightarrow> sso_logins s)\<rparr>)
      else None)"

definition sso_init :: "world \<Rightarrow> sso_state" where
  "sso_init w = \<lparr>sso_world = \<lparr>aw_world = w, aw_calls = [], sso_waiters = [], aw_futures = []\<rparr>,
     sso_waits = [], sso_delivered = [], sso_logins = []\<rparr>"

section \<open>The registration MAC\<close>

lemma of_char_less: "(of_char c :: nat) < 256"
  by (metis of_char_mod_256 mod_less_divisor zero_less_numeral)

lemma utf8_decode_char:
  assumes "n < 256"
  shows "utf8_decode (utf8_char n @ bs) = map_option ((#) n) (utf8_decode bs)"
proof (cases "n < 128")
  case False
  then have "n div 64 = 2 \<or> n div 64 = 3" using assms by auto
  moreover have "n = n div 64 * 64 + n mod 64" "n mod 64 < 64" by simp_all
  ultimately show ?thesis using False by (auto simp: is_cont_def)
qed simp

lemma utf8_roundtrip: "utf8_decode (utf8_encode s) = Some (ustr s)"
proof (induction s)
  case (Cons c s)
  have "utf8_encode (c # s) = utf8_char (of_char c) @ utf8_encode s" by (simp add: utf8_encode_def)
  then show ?case using Cons utf8_decode_char [OF of_char_less] by (simp add: ustr_def)
qed (simp add: utf8_encode_def ustr_def)

lemma utf8_encode_inject: "utf8_encode s = utf8_encode t \<longleftrightarrow> s = t"
proof
  assume "utf8_encode s = utf8_encode t"
  then have "ustr s = ustr t" by (metis utf8_roundtrip option.inject)
  then show "s = t" unfolding ustr_def by (rule map_injective) (auto intro: injI)
qed simp

lemma utf8_encode_zero: "CHR 0x00 \<notin> set s \<Longrightarrow> 0 \<notin> set (utf8_encode s)"
proof
  assume s: "CHR 0x00 \<notin> set s" and "0 \<in> set (utf8_encode s)"
  then obtain c where c: "c \<in> set s" "(0::nat) \<in> set (utf8_char (of_char c))" by (auto simp: utf8_encode_def)
  then have "(of_char c :: nat) = 0" by (simp split: if_splits)
  then have "(of_char c :: nat) = of_char (CHR 0x00)" by simp
  then have "c = CHR 0x00" by (simp only: of_char_eq_iff)
  then show False using s c by simp
qed

lemma split_at_zero:
  "0 \<notin> set xs \<Longrightarrow> 0 \<notin> set ys \<Longrightarrow> xs @ 0 # r = ys @ 0 # q \<longleftrightarrow> xs = ys \<and> r = (q :: nat list)"
proof (induction xs arbitrary: ys)
  case Nil
  then show ?case by (cases ys) auto
next
  case (Cons x xs)
  then show ?case by (cases ys) auto
qed

lemma no_zero_end:
  "0 \<notin> set xs \<Longrightarrow> 0 \<notin> set ys \<Longrightarrow>
     xs @ (case t of None \<Rightarrow> [] | Some a \<Rightarrow> (0::nat) # f a) = ys @ (case u of None \<Rightarrow> [] | Some a \<Rightarrow> 0 # f a) \<longleftrightarrow>
     xs = ys \<and> map_option f t = map_option f (u :: 'b option)"
proof (induction xs arbitrary: ys)
  case Nil
  then show ?case by (cases ys) (auto split: option.splits)
next
  case (Cons x xs)
  then show ?case by (cases ys) (auto split: option.splits)
qed

text \<open>
  The MAC of a registration commits to the whole request: when nonce, user name and password
  contain no NUL character, requests that differ in the nonce, the name, the password, the admin
  flag or the user type are authenticated with different byte strings.
\<close>

theorem mac_message_injective:
  assumes "CHR 0x00 \<notin> set (n @ u @ p)" and "CHR 0x00 \<notin> set (n' @ u' @ p')"
  shows "mac_message n u p a t = mac_message n' u' p' a' t'
    \<longleftrightarrow> n = n' \<and> u = u' \<and> p = p' \<and> a = a' \<and> t = t'"
proof -
  have z: "0 \<notin> set (utf8_encode x)" if "x \<in> {n, u, p, n', u', p', ''admin'', ''notadmin''}" for x
    by (rule utf8_encode_zero) (use assms that in auto)
  have adm: "utf8_encode (if a then ''admin'' else ''notadmin'')
      = utf8_encode (if a' then ''admin'' else ''notadmin'') \<longleftrightarrow> a = a'"
    by (simp add: utf8_encode_inject)
  have ty: "map_option utf8_encode t = map_option utf8_encode t' \<longleftrightarrow> t = t'"
    by (cases t; cases t') (auto simp: utf8_encode_inject)
  show ?thesis
    unfolding mac_message_def append_Cons append_Nil
    using z by (simp add: split_at_zero no_zero_end adm ty utf8_encode_inject)
qed

theorem mac_message_injective_witness:
  "mac_message ''n'' ''alice'' ''secret'' False (Some ''bot'') \<noteq> mac_message ''n'' ''alice'' ''secret'' True (Some ''bot'')"
  using mac_message_injective [of "''n''" "''alice''" "''secret''" "''n''" "''alice''" "''secret''"
      False "Some ''bot''" True "Some ''bot''"] by simp

section \<open>Error paths of login and registration\<close>

lemma on_world_futures [simp]: "aw_futures (state_of (on_world f w)) = aw_futures w"
  by (simp add: on_world_def split: res.splits)

lemma on_world_waiters [simp]: "sso_waiters (state_of (on_world f w)) = sso_waiters w"
  by (simp add: on_world_def split: res.splits)

lemma do_login_frame:
  "aw_futures (state_of (do_login E A H req tok w)) = aw_futures w
    \<and> sso_waiters (state_of (do_login E A H req tok w)) = sso_waiters w"
  by (simp add: do_login_def aw_query_def Let_def split: sum.splits option.splits)

lemma read_request_secret:
  assumes "read_client_auth_request H server q data = Inr req"
  shows "\<exists>cfg. map_of (known_homeservers H) server = Some cfg \<and> map_of cfg ''url'' = Some (ar_base_url req)
    \<and> ar_secret req = map_of cfg ''secret''
    \<and> (\<not> ar_sso req \<longrightarrow> (\<exists>bd. data = Some bd \<and> map_of bd ''username'' = Some (ar_username req)
        \<and> map_of bd ''password'' = Some (ar_password req)))"
proof -
  let ?s = "dict_get (known_homeservers H) server []"
  have ne: "?s \<noteq> []" by (rule notI) (use assms in \<open>simp add: read_client_auth_request_def\<close>)
  then have cfg: "map_of (known_homeservers H) server = Some ?s" by (auto simp: dict_get_def split: option.splits)
  obtain bd where bd: "data = Some bd"
    using assms ne by (cases data) (simp_all add: read_client_auth_request_def)
  let ?sso = "str_lower (dict_get q ''sso'' []) \<in> set truthy_strings"
  let ?both = "in_dict ''username'' bd \<and> in_dict ''password'' bd"
  have both: "?both \<or> ?sso"
    by (rule ccontr) (use assms ne bd in \<open>simp add: read_client_auth_request_def Let_def\<close>)
  obtain base where url: "map_of ?s ''url'' = Some base"
    using assms ne bd both by (cases "map_of ?s ''url''") (auto simp: read_client_auth_request_def Let_def)
  have fields: "ar_base_url req = base \<and> ar_secret req = map_of ?s ''secret'' \<and> ar_sso req = ?sso
    \<and> (?both \<longrightarrow> ar_username req = obj_get bd ''username'' \<and> ar_password req = obj_get bd ''password'')"
    using assms ne bd both url by (auto simp: read_client_auth_request_def Let_def)
  show ?thesis using cfg url bd both fields by (auto simp: obj_get_def dict_get_def in_dict_def)
qed

text \<open>
  A registration reaches a homeserver only when it is one of the configured servers, has a
  shared secret, and the request gave a user name and a password; in every other case the answer
  is an error and nothing is sent or changed.
\<close>

theorem register_guarded:
  assumes "state_of (register E A H server q data w) \<noteq> w"
  shows "\<exists>cfg bd. map_of (known_homeservers H) server = Some cfg \<and> in_dict ''url'' cfg
    \<and> opt_truthy (map_of cfg ''secret'') \<and> data = Some bd \<and> in_dict ''username'' bd \<and> in_dict ''password'' bd"
proof -
  obtain req where req: "read_client_auth_request H server q data = Inr req"
  proof (cases "read_client_auth_request H server q data")
    case (Inl err)
    then show ?thesis using assms by (simp add: register_def)
  qed
  have "\<not> ar_sso req" by (rule notI) (use assms req in \<open>simp add: register_def\<close>)
  moreover have "opt_truthy (ar_secret req)"
    by (rule ccontr) (use assms req in \<open>simp add: register_def split: if_splits\<close>)
  ultimately show ?thesis using read_request_secret [OF req] by (auto simp: in_dict_def)
qed

text \<open>
  A login that the homeserver refuses is answered with the homeserver's error code, message
  and status, and leaves the clients, the database and the waiting sessions as they were.
\<close>

theorem refused_login:
  assumes "matrix_error e = Some (code, msg, st)"
    and "\<And>args. net_login H (aw_calls w) (ar_base_url req) args = Inl e"
  shows "\<exists>args. do_login E A H req tok w
    = Ok (json_response (JObj [(''errcode'', JStr code), (''error'', JStr msg)]) st)
        (w\<lparr>aw_calls := aw_calls w @ [PostLogin (ar_base_url req) args]\<rparr>)
    \<and> (if ar_sso req then la_login_type args = ''m.login.token'' \<and> la_token args = tok
       else la_login_type args = ''m.login.password'' \<and> la_identifier args = ar_username req
         \<and> la_password args = ar_password req)"
  using assms by (intro exI conjI) (auto simp: do_login_def aw_query_def login_args_of_def Let_def)

section \<open>Single sign-on\<close>

definition sso_inv :: "sso_state \<Rightarrow> bool" where
  "sso_inv s \<longleftrightarrow>
     (let n = length (aw_futures (sso_world s)) in
      (\<forall>i req a. map_of (sso_waiters (sso_world s)) i = Some (req, a) \<longrightarrow> a < n)
      \<and> (\<forall>i req a. (i, req, a) \<in> set (sso_waits s) \<longrightarrow> a < n)
      \<and> (\<forall>a t. (a, t) \<in> set (sso_delivered s) \<longleftrightarrow> a < n \<and> aw_futures (sso_world s) ! a = Result t)
      \<and> distinct (map fst (sso_delivered s))
      \<and> set (sso_logins s) \<subseteq> set (sso_delivered s))"

lemma do_sso_state:
  "(\<exists>calls. state_of (do_sso H req w) = w\<lparr>aw_calls := calls\<rparr>)
   \<or> (\<exists>calls i. state_of (do_sso H req w) = w\<lparr>aw_calls := calls,
        sso_waiters := dict_set i (req, length (aw_futures w)) (sso_waiters w), aw_futures := aw_futures w @ [Pending]\<rparr>)"
  by (auto simp: do_sso_def aw_query_def Let_def split: sum.splits)

lemma complete_sso_state:
  "snd (complete_sso i tok w) = w \<or>
   (\<exists>req a t. map_of (sso_waiters w) i = Some (req, a) \<and> aw_futures w ! a = Pending \<and> tok = Some t
      \<and> snd (complete_sso i tok w) = w\<lparr>aw_futures := (aw_futures w)[a := Result t]\<rparr>)"
  by (auto simp: complete_sso_def split: option.splits future.splits)

lemma sso_inv_start: "sso_inv s \<Longrightarrow> sso_inv (s\<lparr>sso_world := state_of (do_sso H req (sso_world s))\<rparr>)"
  using do_sso_state [of H req "sso_world s"]
  by (auto simp: sso_inv_def Let_def nth_append less_Suc_eq split: if_splits)

lemma sso_inv_wait: "sso_inv s \<Longrightarrow> sso_step E A H (SsoWait i) s = Some s' \<Longrightarrow> sso_inv s'"
  by (auto simp: wait_sso_lookup_def sso_inv_def Let_def split: option.splits)

lemma sso_inv_complete:
  assumes I: "sso_inv s" and s': "sso_step E A H (SsoComplete i tok) s = Some s'"
  shows "sso_inv s'"
proof (cases "snd (complete_sso i tok (sso_world s)) = sso_world s")
  case True
  then have "s' = s" using s' by (auto simp: Let_def split: option.splits)
  then show ?thesis using I by simp
next
  case False
  then obtain req a t where a: "map_of (sso_waiters (sso_world s)) i = Some (req, a)"
      "aw_futures (sso_world s) ! a = Pending" "tok = Some t"
      "snd (complete_sso i tok (sso_world s)) = (sso_world s)\<lparr>aw_futures := (aw_futures (sso_world s))[a := Result t]\<rparr>"
    using complete_sso_state by blast
  have n: "a < length (aw_futures (sso_world s))" using I a(1) unfolding sso_inv_def Let_def by blast
  have s'': "s' = s\<lparr>sso_world := (sso_world s)\<lparr>aw_futures := (aw_futures (sso_world s))[a := Result t]\<rparr>,
      sso_delivered := sso_delivered s @ [(a, t)]\<rparr>"
    using s' a n by (simp add: Let_def)
  have fresh: "a \<notin> fst ` set (sso_delivered s)"
    using I a(2) unfolding sso_inv_def Let_def by force
  then have "(a, x) \<notin> set (sso_delivered s)" for x by force
  then show ?thesis using I n fresh unfolding sso_inv_def Let_def s''
    by (auto simp: nth_list_update)
qed

lemma sso_inv_cancel: "sso_inv s \<Longrightarrow> sso_step E A H (SsoCancel n) s = Some s' \<Longrightarrow> sso_inv s'"
proof -
  assume I: "sso_inv s" and s': "sso_step E A H (SsoCancel n) s = Some s'"
  obtain i req a where w: "sso_waits s ! n = (i, req, a)" by (cases "sso_waits s ! n") auto
  have n: "n < length (sso_waits s)" and p: "aw_futures (sso_world s) ! a = Pending"
    using s' w by (auto simp: Let_def split: if_splits)
  have a: "a < length (aw_futures (sso_world s))"
    using I nth_mem [OF n] w unfolding sso_inv_def Let_def by metis
  show ?thesis using I s' w n p a by (auto simp: sso_inv_def Let_def nth_list_update split: if_splits)
qed

lemma wait_sso_resume_frame:
  "aw_futures (state_of (wait_sso_resume E A H i req a w)) = aw_futures w
   \<and> sso_waiters (state_of (wait_sso_resume E A H i req a w)) = dict_del i (sso_waiters w)"
  by (simp add: wait_sso_resume_def Let_def do_login_frame split: future.splits)

lemma sso_inv_resume:
  assumes I: "sso_inv s" and s': "sso_step E A H (SsoResume n) s = Some s'"
  shows "sso_inv s'"
proof -
  obtain i req a where w: "sso_waits s ! n = (i, req, a)" by (cases "sso_waits s ! n") auto
  have n: "n < length (sso_waits s)" using s' by (simp split: if_splits)
  have a: "a < length (aw_futures (sso_world s))"
    using I nth_mem [OF n] w unfolding sso_inv_def Let_def by metis
  have waits: "set (remove_nth n (sso_waits s)) \<subseteq> set (sso_waits s)"
    by (auto simp: remove_nth_def dest: in_set_takeD in_set_dropD)
  have deliv: "aw_futures (sso_world s) ! a = Result t \<Longrightarrow> (a, t) \<in> set (sso_delivered s)" for t
    using I a unfolding sso_inv_def Let_def by blast
  have s'': "sso_world s' = state_of (wait_sso_resume E A H i req a (sso_world s))"
      "sso_waits s' = remove_nth n (sso_waits s)" "sso_delivered s' = sso_delivered s"
      "sso_logins s' = (case aw_futures (sso_world s) ! a of Result t \<Rightarrow> sso_logins s @ [(a, t)] | _ \<Rightarrow> sso_logins s)"
    using s' w n by (auto simp: Let_def split: if_splits)
  have ws: "map_of (sso_waiters (sso_world s')) j = Some r \<Longrightarrow> map_of (sso_waiters (sso_world s)) j = Some r" for j r
    by (simp add: s'' wait_sso_resume_frame split: if_splits)
  have logins: "set (sso_logins s') \<subseteq> set (sso_delivered s)"
    using I deliv unfolding s'' sso_inv_def Let_def by (auto split: future.splits)
  have fut: "aw_futures (sso_world s') = aw_futures (sso_world s)" by (simp add: s'' wait_sso_resume_frame)
  show ?thesis using I ws logins waits unfolding sso_inv_def Let_def fut s''(2,3) by blast
qed

lemma sso_inv_step: "sso_inv s \<Longrightarrow> sso_step E A H e s = Some s' \<Longrightarrow> sso_inv s'"
  by (cases e) (auto simp only: sso_step.simps(1) option.inject
      intro: sso_inv_start sso_inv_wait sso_inv_complete sso_inv_cancel sso_inv_resume)

interpretation sso_machine: event_invariant "sso_step E A H" "sso_init w" sso_inv
  by unfold_locales (simp add: sso_inv_def sso_init_def, rule sso_inv_step)


section \<open>Examples\<close>

definition ex_auth :: auth_api where
  "ex_auth = \<lparr>known_homeservers = [(''hs'', [(''url'', ''https://hs''), (''secret'', ''s3cret'')])],
     public_url = ''https://bot'', url_str = (\<lambda>u. u), url_div = (\<lambda>u p. u @ ''/'' @ p),
     url_with = (\<lambda>u p q. u @ p @ ''?'' @ concat (map snd q)), hmac_sha1 = (\<lambda>k m. ''mac''),
     random_id = (\<lambda>calls n. replicate n CHR ''a''), net_nonce = (\<lambda>calls u. Inr [(''nonce'', JStr ''n'')]),
     net_register = (\<lambda>calls u c. Inl (MatrixRequestError ''M_USER_IN_USE'' ''taken'' 400)),
     net_supports_sso = (\<lambda>calls u. Inr True),
     net_login = (\<lambda>calls u args. Inl (MatrixRequestError ''M_FORBIDDEN'' ''no'' 403)),
     deserialize_login = (\<lambda>j. Inl SerializerError), serialize_login = (\<lambda>r. JStr (lr_user_id r))\<rparr>"

definition ex_mgmt :: api where
  "ex_mgmt = \<lparr>upload_directory = [], has_alchemy = True, same_version = (=), now_ms = ''0'',
     may_write = (\<lambda>p. True), py_str = (\<lambda>e. ''error''), py_traceback = (\<lambda>e. ''traceback''),
     net_new_whoami = (\<lambda>t h k. Inr (''@b:x'', ''DEV'')), crypto_own_keys = (\<lambda>t u. Inr True),
     crypto_recovery_key = (\<lambda>t u. Inr ''key''), crypto_fingerprint = (\<lambda>u. None)\<rparr>"

definition ex_request :: auth_request where
  "ex_request = \<lparr>ar_server_name = ''hs'', ar_base_url = ''https://hs'', ar_secret = Some ''s3cret'',
     ar_username = JNull, ar_password = JNull, ar_user_type = JStr ''bot'', ar_device_name = JStr ''Maubot'',
     ar_update_client = False, ar_sso = True\<rparr>"

lemmas auth_eval = ex_auth_def ex_request_def sso_init_def do_sso_def aw_query_def wait_sso_lookup_def
  complete_sso_def wait_sso_resume_def do_login_def login_args_of_def remove_nth_def dict_del_def Let_def

definition ex_body :: "(string \<times> json) list" where
  "ex_body = [(''username'', JStr ''alice''), (''password'', JStr ''pw'')]"

theorem register_guarded_witness:
  "state_of (register ex_who ex_mgmt ex_auth ''hs'' [] (Some ex_body) (sso_world (sso_init ex_store)))
     \<noteq> sso_world (sso_init ex_store)
   \<and> (\<exists>cfg bd. map_of (known_homeservers ex_auth) ''hs'' = Some cfg \<and> in_dict ''url'' cfg
    \<and> opt_truthy (map_of cfg ''secret'') \<and> Some ex_body = Some bd \<and> in_dict ''username'' bd \<and> in_dict ''password'' bd)"
proof -
  have "aw_calls (state_of (register ex_who ex_mgmt ex_auth ''hs'' [] (Some ex_body) (sso_world (sso_init ex_store)))) \<noteq> []"
    by (simp add: register_def read_client_auth_request_def ex_auth_def ex_body_def aw_query_def dict_get_def
        truthy_strings_def str_lower_def in_dict_def obj_get_def opt_truthy_def generate_mac_def
        register_content_def sso_init_def Let_def)
  then have ne: "state_of (register ex_who ex_mgmt ex_auth ''hs'' [] (Some ex_body) (sso_world (sso_init ex_store)))
     \<noteq> sso_world (sso_init ex_store)"
    by (auto simp: sso_init_def)
  from register_guarded [OF ne] ne show ?thesis by blast
qed

theorem refused_login_witness:
  "\<exists>args. do_login ex_who ex_mgmt ex_auth ex_request (Some ''tok'') (sso_world (sso_init ex_store))
    = Ok (json_response (JObj [(''errcode'', JStr ''M_FORBIDDEN''), (''error'', JStr ''no'')]) 403)
        ((sso_world (sso_init ex_store))\<lparr>aw_calls := [PostLogin ''https://hs'' args]\<rparr>)
    \<and> la_login_type args = ''m.login.token'' \<and> la_token args = Some ''tok''"
  using refused_login [of "MatrixRequestError ''M_FORBIDDEN'' ''no'' 403" "''M_FORBIDDEN''" "''no''" 403 ex_auth
      "sso_world (sso_init ex_store)" ex_request ex_who ex_mgmt "Some ''tok''"]
  by (simp add: ex_auth_def ex_request_def sso_init_def)


end
