(* ===== verification/MB_Database.thy ===== *)
theory MB_Database
  imports MB_Management MB_Events
begin

text \<open>
  Plugin databases: the PostgreSQL proxy that gives every instance its schema
  (\<^verbatim>\<open>lib/plugin_db.py\<close>), the three introspection methods of an instance (\<^verbatim>\<open>instance.py\<close>), and the
  endpoints of \<^verbatim>\<open>management/api/instance_database.py\<close>.

  The database engines are parameters: what a statement returns is an argument. The connection
  pool is an event system over the points where the proxy waits for its semaphore.
\<close>

section \<open>The PostgreSQL proxy\<close>

record proxy_db =
  schema_name :: string
  quoted_schema :: string
  default_search_path :: string
  max_conns :: nat

definition remove_double_quotes :: "string \<Rightarrow> string" where
  "remove_double_quotes s = map (\<lambda>c. if c = CHR 0x22 then CHR ''_'' else c) s"

definition quoted :: "string \<Rightarrow> string" where
  "quoted s = [CHR 0x22] @ s @ [CHR 0x22]"

definition proxy_init :: "string \<Rightarrow> nat \<Rightarrow> proxy_db" where
  "proxy_init instance_id n =
     (let schema = ''mbp_'' @ remove_double_quotes instance_id in
      \<lparr>schema_name = schema, quoted_schema = quoted schema,
       default_search_path = quoted ''$user'' @ '', public'', max_conns = n\<rparr>)"

text \<open>
  A connection of the underlying pool: its search path and whether it is closed. A statement
  that is executed on it takes effect or raises; \<open>SetSearchPath\<close> is the one the proxy issues.
\<close>

record pg_conn =
  pg_search_path :: string
  pg_closed :: bool

datatype sql_statement = SetSearchPath string | CreateSchema string | DropSchema string | ShowSearchPath

definition execute_set :: "bool \<Rightarrow> string \<Rightarrow> pg_conn \<Rightarrow> pg_conn" where
  "execute_set ok path conn = (if ok then conn\<lparr>pg_search_path := path\<rparr> else conn)"

text \<open>\<open>start\<close>: the search path of the connection is read and the schema created.\<close>

definition proxy_start :: "pg_conn \<Rightarrow> proxy_db \<Rightarrow> proxy_db \<times> sql_statement list" where
  "proxy_start conn db =
     (db\<lparr>default_search_path := pg_search_path conn\<rparr>, [ShowSearchPath, CreateSchema (quoted_schema db)])"

definition proxy_delete :: "proxy_db \<Rightarrow> sql_statement list" where
  "proxy_delete db = [DropSchema (quoted_schema db)]"

text \<open>
  \<open>acquire_direct\<close> around the code of the plugin: \<open>use\<close> is what that code does with the
  connection and whether it raises, \<open>set_ok\<close> and \<open>reset_ok\<close> whether the two statements of the
  proxy succeed. The result is the connection as it goes back to the pool, and the exception.
\<close>

definition acquire_direct ::
    "proxy_db \<Rightarrow> bool \<Rightarrow> (pg_conn \<Rightarrow> exn option \<times> pg_conn) \<Rightarrow> bool \<Rightarrow> pg_conn \<Rightarrow> exn option \<times> pg_conn" where
  "acquire_direct db set_ok use reset_ok conn =
     (if \<not> set_ok then (Some (OtherException ''SET failed''), conn)
      else
        let conn = execute_set True (quoted_schema db) conn;
            (r, conn) = use conn in
        if \<not> pg_closed conn then
          if reset_ok then (r, execute_set True (default_search_path db) conn)
          else (r, conn\<lparr>pg_closed := True\<rparr>)
        else (r, conn))"

subsection \<open>The semaphore\<close>

text \<open>
  The bounded semaphore of the proxy: free permits, those held by plugin code, those taken by
  \<open>stop\<close>, and the number of rounds \<open>stop\<close> has left (\<open>None\<close> before it is called).
\<close>

record sema =
  sm_free :: nat
  sm_used :: nat
  sm_drained :: nat
  sm_rounds :: "nat option"

datatype sema_event = Acquire | Release | StopCalled | StopAcquire | StopTimeout

definition sema_init :: "proxy_db \<Rightarrow> sema" where
  "sema_init db = \<lparr>sm_free = max_conns db, sm_used = 0, sm_drained = 0, sm_rounds = None\<rparr>"

fun sema_step :: "proxy_db \<Rightarrow> sema_event \<Rightarrow> sema \<Rightarrow> sema option" where
  "sema_step db Acquire s =
     (if 0 < sm_free s then Some (s\<lparr>sm_free := sm_free s - 1, sm_used := sm_used s + 1\<rparr>) else None)"
| "sema_step db Release s =
     (if 0 < sm_used s then Some (s\<lparr>sm_free := sm_free s + 1, sm_used := sm_used s - 1\<rparr>) else None)"
| "sema_step db StopCalled s =
     (if sm_rounds s = None then Some (s\<lparr>sm_rounds := Some (max_conns db)\<rparr>) else None)"
| "sema_step db StopAcquire s =
     (case sm_rounds s of
        Some (Suc n) \<Rightarrow>
          if 0 < sm_free s
          then Some (s\<lparr>sm_free := sm_free s - 1, sm_drained := sm_drained s + 1, sm_rounds := Some n\<rparr>)
          else None
      | _ \<Rightarrow> None)"
| "sema_step db StopTimeout s =
     (case sm_rounds s of Some (Suc n) \<Rightarrow> Some (s\<lparr>sm_rounds := Some 0\<rparr>) | _ \<Rightarrow> None)"

section \<open>Introspection\<close>

record column_info =
  ci_type :: json
  ci_nullable :: json
  ci_default :: json
  ci_primary :: bool
  ci_unique :: "bool option"

type_synonym db_tables = "(string, (string, column_info) dict) dict"

text \<open>\<open>tables[t]\<close> of the \<^verbatim>\<open>defaultdict\<close>, which adds the key.\<close>

definition upd_table ::
    "string \<Rightarrow> ((string, column_info) dict \<Rightarrow> (string, column_info) dict) \<Rightarrow> db_tables \<Rightarrow> db_tables" where
  "upd_table t f tables = dict_set t (f (dict_get tables t [])) tables"

text \<open>The reflected tables of SQLAlchemy.\<close>

record alchemy_column =
  ac_name :: string
  ac_type :: string
  ac_unique :: "bool option"
  ac_default :: json
  ac_nullable :: bool
  ac_primary_key :: bool

definition introspect_sqlalchemy :: "(string \<times> alchemy_column list) list \<Rightarrow> db_tables" where
  "introspect_sqlalchemy tables =
     fold (\<lambda>(name, cols). dict_set name
       (fold (\<lambda>c. dict_set (ac_name c)
          \<lparr>ci_type = JStr (ac_type c), ci_nullable = JBool (ac_nullable c), ci_default = ac_default c,
           ci_primary = ac_primary_key c, ci_unique = Some (ac_unique c = Some True)\<rparr>) cols [])) tables []"

text \<open>
  A column as SQLite describes it, the row that the query of \<open>_introspect_sqlite\<close> makes of it,
  where the column \<^verbatim>\<open>notnull\<close> is selected \<^verbatim>\<open>AS is_nullable\<close>, and the loop over the rows.
\<close>

record sqlite_column =
  sc_table :: string
  sc_name :: string
  sc_type :: json
  sc_pk :: nat
  sc_dflt_value :: json
  sc_notnull :: nat

record sqlite_row =
  sr_table_name :: string
  sr_column_name :: string
  sr_data_type :: json
  sr_is_primary :: nat
  sr_column_default :: json
  sr_is_nullable :: nat

definition sqlite_query :: "sqlite_column list \<Rightarrow> sqlite_row list" where
  "sqlite_query cols = map (\<lambda>c. \<lparr>sr_table_name = sc_table c, sr_column_name = sc_name c,
     sr_data_type = sc_type c, sr_is_primary = sc_pk c, sr_column_default = sc_dflt_value c,
     sr_is_nullable = sc_notnull c\<rparr>) cols"

definition sqlite_add :: "sqlite_row \<Rightarrow> db_tables \<Rightarrow> db_tables" where
  "sqlite_add column = upd_table (sr_table_name column) (dict_set (sr_column_name column)
     \<lparr>ci_type = sr_data_type column, ci_nullable = JBool (sr_is_nullable column \<noteq> 0),
      ci_default = sr_column_default column, ci_primary = (sr_is_primary column \<noteq> 0), ci_unique = None\<rparr>)"

definition introspect_sqlite :: "sqlite_row list \<Rightarrow> db_tables" where
  "introspect_sqlite data = fold sqlite_add data []"

record postgres_row =
  pr_table_name :: string
  pr_column_name :: string
  pr_data_type :: json
  pr_is_nullable :: json
  pr_column_default :: json
  pr_constraint_type :: "string option"

text \<open>\<open>d.setdefault(k, v)\<close>.\<close>

definition dict_setdefault :: "'k \<Rightarrow> 'v \<Rightarrow> ('k, 'v) dict \<Rightarrow> ('k, 'v) dict" where
  "dict_setdefault k v d = (if in_dict k d then d else dict_set k v d)"

text \<open>\<open>d[k][field] = True\<close> for a key that is present.\<close>

definition dict_modify :: "'k \<Rightarrow> ('v \<Rightarrow> 'v) \<Rightarrow> ('k, 'v) dict \<Rightarrow> ('k, 'v) dict" where
  "dict_modify k f d = (case map_of d k of None \<Rightarrow> d | Some v \<Rightarrow> dict_set k (f v) d)"

definition mark_constraint :: "string option \<Rightarrow> column_info \<Rightarrow> column_info" where
  "mark_constraint ct c =
     (if ct = Some ''PRIMARY KEY'' then c\<lparr>ci_primary := True\<rparr>
      else if ct = Some ''UNIQUE'' then c\<lparr>ci_unique := Some True\<rparr> else c)"

definition postgres_new :: "postgres_row \<Rightarrow> column_info" where
  "postgres_new column = \<lparr>ci_type = pr_data_type column, ci_nullable = pr_is_nullable column,
     ci_default = pr_column_default column, ci_primary = False, ci_unique = Some False\<rparr>"

definition postgres_add :: "postgres_row \<Rightarrow> db_tables \<Rightarrow> db_tables" where
  "postgres_add column = upd_table (pr_table_name column) (\<lambda>columns.
     dict_modify (pr_column_name column) (mark_constraint (pr_constraint_type column))
       (dict_setdefault (pr_column_name column) (postgres_new column) columns))"

definition introspect_postgres :: "postgres_row list \<Rightarrow> db_tables" where
  "introspect_postgres data = fold postgres_add data []"

section \<open>The endpoints\<close>

text \<open>The instance of a request, or the response that ends it.\<close>

definition database_instance ::
    "string \<Rightarrow> world \<Rightarrow> (world, web_response + nat \<times> inst_db) res" where
  "database_instance k w =
     bind (inst_get None None (str_lower k) w) (\<lambda>i w.
     case i of
       None \<Rightarrow> Ok (Inl resp_instance_not_found) w
     | Some a \<Rightarrow>
        (case inst_db (instances w ! a) of
           None \<Rightarrow> Ok (Inl resp_plugin_has_no_database) w
         | Some d \<Rightarrow> Ok (Inr (a, d)) w))"

definition get_database :: "('y, 'c) env \<Rightarrow> string \<Rightarrow> world \<Rightarrow> (world, web_response) res" where
  "get_database E k w =
     bind (database_instance k w) (\<lambda>r w.
     case r of
       Inl resp \<Rightarrow> Ok resp w
     | Inr (a, d) \<Rightarrow> bind (get_db_tables E a w) (\<lambda>t w. Ok (json_response t 200) w))"

text \<open>Whether \<^verbatim>\<open>int()\<close> accepts a string: spaces around, a sign, digits with single underscores between.\<close>

definition is_digit :: "char \<Rightarrow> bool" where
  "is_digit c \<longleftrightarrow> (let n = of_char c :: nat in 48 \<le> n \<and> n \<le> 57)"

fun digits_ok :: "string \<Rightarrow> bool" where
  "digits_ok [] = False"
| "digits_ok [c] = is_digit c"
| "digits_ok (c # d # s) =
     (is_digit c \<and> (if d = CHR ''_'' then digits_ok s else digits_ok (d # s)))"

definition py_int_ok :: "string \<Rightarrow> bool" where
  "py_int_ok s =
     (case str_strip s of
        [] \<Rightarrow> False
      | c # r \<Rightarrow> if c \<in> {CHR ''+'', CHR ''-''} then digits_ok r else digits_ok (c # r))"

text \<open>
  \<open>get_table\<close>. The tables are plain dicts, which have neither \<open>columns\<close> nor \<open>select\<close> as an
  attribute. \<open>orders\<close> is \<open>getall("order")\<close>, \<open>None\<close> when it raises \<^verbatim>\<open>KeyError\<close>. The function ends
  without a return statement when the database is not an SQLAlchemy engine (\<open>None\<close>).
\<close>

definition order_error :: "string list option \<Rightarrow> exn option" where
  "order_error orders =
     (case orders of
        Some (order # _) \<Rightarrow>
          if length (str_split CHR '':'' order) \<noteq> 2 then Some (ValueError ''unpack'') else Some AttributeError
      | _ \<Rightarrow> None)"

definition get_table ::
    "('y, 'c) env \<Rightarrow> string \<Rightarrow> string \<Rightarrow> string list option \<Rightarrow> string \<Rightarrow> world
      \<Rightarrow> (world, web_response option) res" where
  "get_table E k table orders limit w =
     bind (database_instance k w) (\<lambda>r w.
     case r of
       Inl resp \<Rightarrow> Ok (Some resp) w
     | Inr (a, d) \<Rightarrow>
         bind (get_db_tables E a w) (\<lambda>t w.
         if (case t of JObj tables \<Rightarrow> \<not> in_dict table tables | _ \<Rightarrow> True) then Ok (Some resp_table_not_found) w
         else case order_error orders of
           Some e \<Rightarrow> Raise e w
         | None \<Rightarrow>
             if \<not> py_int_ok limit then Raise (ValueError ''int'') w
             else case d of SqlAlchemyEngine _ \<Rightarrow> Raise AttributeError w | _ \<Rightarrow> Ok None w))"

subsection \<open>Queries\<close>

datatype db_value = DbJson json | DbTime int

type_synonym db_row = "(string \<times> db_value) list"

datatype sql_failure =
    SqlError string
  | IntegrityError string string
  | OperationalError string string
  | OtherFailure exn

datatype exec_result = ExecStatus string | ExecCursor int | ExecOther

record alchemy_result =
  ar_returns_rows :: bool
  ar_rows :: "db_row list"
  ar_keys :: "string list"
  ar_rowcount :: int
  ar_is_insert :: bool
  ar_inserted_primary_key :: json

record db_api =
  dt_isoformat :: "int \<Rightarrow> string"
  db_fetch :: "world \<Rightarrow> inst_db \<Rightarrow> string \<Rightarrow> sql_failure + db_row list"
  db_execute :: "world \<Rightarrow> inst_db \<Rightarrow> string \<Rightarrow> sql_failure + exec_result"
  alchemy_execute :: "world \<Rightarrow> inst_db \<Rightarrow> string \<Rightarrow> sql_failure + alchemy_result"

fun check_type :: "db_api \<Rightarrow> db_value \<Rightarrow> json" where
  "check_type D (DbTime t) = JStr (dt_isoformat D t)"
| "check_type D (DbJson v) = v"

definition row_json :: "db_api \<Rightarrow> bool \<Rightarrow> db_row \<Rightarrow> json" where
  "row_json D rows_as_dict row =
     (if rows_as_dict
      then JObj (fold (\<lambda>(key, value). dict_set key (check_type D value)) row [])
      else JArr (map (\<lambda>(key, value). check_type D value) row))"

definition char_upper :: "char \<Rightarrow> char" where
  "char_upper c = (let n = of_char c :: nat in if 97 \<le> n \<and> n \<le> 122 then char_of (n - 32) else c)"

text \<open>
  \<open>sql_query.upper().startswith("SELECT")\<close>: no character outside ASCII becomes one of these
  letters on its own.
\<close>

definition is_select :: "string \<Rightarrow> bool" where
  "is_select s \<longleftrightarrow> startswith (map char_upper s) ''SELECT''"

definition execute_query_asyncpg ::
    "db_api \<Rightarrow> inst_db \<Rightarrow> string \<Rightarrow> bool \<Rightarrow> world \<Rightarrow> sql_failure + web_response" where
  "execute_query_asyncpg D d sql_query rows_as_dict w =
     (let data = [(''ok'', JBool True), (''query'', JStr sql_query)] in
      if is_select sql_query then
        (case db_fetch D w d sql_query of
           Inl e \<Rightarrow> Inl e
         | Inr res \<Rightarrow>
             let data = data @ [(''rows'', JArr (map (row_json D rows_as_dict) res))];
                 data = (if 0 < length res then data @ [(''columns'', JArr (map (JStr \<circ> fst) (res ! 0)))] else data)
             in Inr (json_response (JObj data) 200))
      else
        (case db_execute D w d sql_query of
           Inl e \<Rightarrow> Inl e
         | Inr res \<Rightarrow>
             let data = data @ [(case res of
                 ExecStatus s \<Rightarrow> (''status_msg'', JStr s)
               | ExecCursor n \<Rightarrow> (''rowcount'', JInt n)
               | ExecOther \<Rightarrow> (''status_msg'', JStr ''unknown status''))]
             in Inr (json_response (JObj data) 200)))"

definition execute_query_sqlalchemy ::
    "db_api \<Rightarrow> inst_db \<Rightarrow> string \<Rightarrow> bool \<Rightarrow> world \<Rightarrow> exn + web_response" where
  "execute_query_sqlalchemy D d sql_query rows_as_dict w =
     (case alchemy_execute D w d sql_query of
        Inl (IntegrityError orig err) \<Rightarrow> Inr (resp_sql_integrity_error orig err sql_query)
      | Inl (OperationalError orig err) \<Rightarrow> Inr (resp_sql_operational_error orig err sql_query)
      | Inl (SqlError err) \<Rightarrow> Inl (OtherException err)
      | Inl (OtherFailure e) \<Rightarrow> Inl e
      | Inr res \<Rightarrow>
          let data = [(''ok'', JBool True), (''query'', JStr sql_query)];
              data = (if ar_returns_rows res
                then data @ [(''rows'', JArr (map (row_json D rows_as_dict) (ar_rows res))),
                             (''columns'', JArr (map JStr (ar_keys res)))]
                else data @ [(''rowcount'', JInt (ar_rowcount res))]);
              data = (if ar_is_insert res then data @ [(''inserted_primary_key'', ar_inserted_primary_key res)] else data)
          in Inr (json_response (JObj data) 200))"

definition failure_exn :: "sql_failure \<Rightarrow> exn" where
  "failure_exn f = (case f of OtherFailure e \<Rightarrow> e | SqlError s \<Rightarrow> OtherException s
     | IntegrityError orig err \<Rightarrow> OtherException err | OperationalError orig err \<Rightarrow> OtherException err)"

text \<open>
  \<^verbatim>\<open>POST /instance/{id}/database/query\<close>; the body is \<open>None\<close> when it is not JSON. A query that is
  not a string has no \<open>upper\<close>; an SQLAlchemy engine refuses it as well.
\<close>

definition query_database ::
    "db_api \<Rightarrow> string \<Rightarrow> json option \<Rightarrow> world \<Rightarrow> (world, web_response) res" where
  "query_database D k data w =
     bind (database_instance k w) (\<lambda>r w.
     case r of
       Inl resp \<Rightarrow> Ok resp w
     | Inr (a, d) \<Rightarrow>
        (case data of
           None \<Rightarrow> Raise (OtherException ''JSONDecodeError'') w
         | Some (JObj data) \<Rightarrow>
            (case map_of data ''query'' of
               None \<Rightarrow> Ok resp_query_missing w
             | Some (JStr sql_query) \<Rightarrow>
                 let rows_as_dict = truthy (dict_get data ''rows_as_dict'' (JBool False)) in
                (case d of
                   SqlAlchemyEngine _ \<Rightarrow>
                     (case execute_query_sqlalchemy D d sql_query rows_as_dict w of
                        Inl e \<Rightarrow> Raise e w | Inr resp \<Rightarrow> Ok resp w)
                 | _ \<Rightarrow>
                     (case execute_query_asyncpg D d sql_query rows_as_dict w of
                        Inl (SqlError err) \<Rightarrow> Ok (resp_sql_error err sql_query) w
                      | Inl e \<Rightarrow> Raise (failure_exn e) w
                      | Inr resp \<Rightarrow> Ok resp w))
             | Some _ \<Rightarrow> Raise AttributeError w)
         | Some _ \<Rightarrow> Raise TypeError w))"

section \<open>Isolation of schemas and connections\<close>

lemma remove_quotes_id: "CHR 0x22 \<notin> set s \<Longrightarrow> remove_double_quotes s = s"
  unfolding remove_double_quotes_def by (rule map_idI) auto

text \<open>
  The name of an instance's schema can be put between double quotes whatever the instance's
  id is, because it contains none, and instances whose ids contain no double quote have
  different schemas.
\<close>

theorem schema_isolated:
  "CHR 0x22 \<notin> set (schema_name (proxy_init i n)) \<and> quoted_schema (proxy_init i n) = quoted (schema_name (proxy_init i n))
   \<and> (CHR 0x22 \<notin> set i \<union> set j \<longrightarrow> i \<noteq> j \<longrightarrow> quoted_schema (proxy_init i n) \<noteq> quoted_schema (proxy_init j m))"
proof -
  have "CHR 0x22 \<notin> set (schema_name (proxy_init i n))"
    by (auto simp: proxy_init_def Let_def remove_double_quotes_def)
  moreover have "quoted_schema (proxy_init i n) \<noteq> quoted_schema (proxy_init j m)"
    if "CHR 0x22 \<notin> set i \<union> set j" "i \<noteq> j"
    using that by (simp add: proxy_init_def Let_def quoted_def remove_quotes_id)
  ultimately show ?thesis by (simp add: proxy_init_def Let_def)
qed

theorem schema_isolated_witness:
  "quoted_schema (proxy_init ''a'' 3) \<noteq> quoted_schema (proxy_init ''b'' 3)"
proof -
  have "CHR 0x22 \<notin> set ''a'' \<union> set ''b''" "''a'' \<noteq> ''b''" by simp_all
  then show ?thesis using schema_isolated [of "''a''" 3 "''b''" 3] by blast
qed



section \<open>Draining the pool\<close>

definition sema_inv :: "proxy_db \<Rightarrow> sema \<Rightarrow> bool" where
  "sema_inv db s \<longleftrightarrow> sm_free s + sm_used s + sm_drained s = max_conns db
     \<and> (case sm_rounds s of None \<Rightarrow> sm_drained s = 0 | Some n \<Rightarrow> sm_drained s + n \<le> max_conns db)"

lemma sema_inv_step: "sema_inv db s \<Longrightarrow> sema_step db e s = Some s' \<Longrightarrow> sema_inv db s'"
  by (cases e) (auto simp: sema_inv_def split: if_splits option.splits nat.splits)

interpretation sema_machine: event_invariant "sema_step db" "sema_init db" "sema_inv db"
  by unfold_locales (simp add: sema_inv_def sema_init_def, rule sema_inv_step)



section \<open>Introspection\<close>

definition column_of :: "db_tables \<Rightarrow> string \<Rightarrow> string \<Rightarrow> column_info option" where
  "column_of tables t c = map_of (dict_get tables t []) c"

text \<open>A reference definition that reads off one column without building the tables.\<close>

definition postgres_column :: "postgres_row list \<Rightarrow> string \<Rightarrow> string \<Rightarrow> column_info option" where
  "postgres_column data t c =
     (let rows = filter (\<lambda>r. pr_table_name r = t \<and> pr_column_name r = c) data in
      if rows = [] then None
      else Some ((postgres_new (hd rows))\<lparr>ci_primary := Some ''PRIMARY KEY'' \<in> pr_constraint_type ` set rows,
        ci_unique := Some (Some ''UNIQUE'' \<in> pr_constraint_type ` set rows)\<rparr>))"

lemma column_of_upd:
  "column_of (upd_table t f tables) t' c
     = (if t' = t then map_of (f (dict_get tables t [])) c else column_of tables t' c)"
  by (simp add: column_of_def upd_table_def dict_get_def)

lemma map_of_setdefault: "map_of (dict_setdefault k v d) j = (if j = k then Some (dict_get d k v) else map_of d j)"
  by (auto simp: dict_setdefault_def in_dict_def dict_get_def)

lemma map_of_modify: "map_of (dict_modify k f d) j = (if j = k then map_option f (map_of d j) else map_of d j)"
  by (auto simp: dict_modify_def split: option.splits)

lemma column_of_postgres_add:
  "column_of (postgres_add r tables) t c =
     (if t = pr_table_name r \<and> c = pr_column_name r
      then Some (mark_constraint (pr_constraint_type r)
        (case column_of tables t c of None \<Rightarrow> postgres_new r | Some x \<Rightarrow> x))
      else column_of tables t c)"
proof (cases "t = pr_table_name r")
  case True
  then show ?thesis
    by (simp add: postgres_add_def column_of_upd map_of_setdefault map_of_modify)
      (simp add: column_of_def dict_get_def)
qed (simp add: postgres_add_def column_of_upd)

text \<open>
  C28. The introspection of a PostgreSQL schema reports a column exactly when the query returned a
  row for it, with the type and default of its first row, and as primary or unique exactly when
  one of its rows has that constraint, in whatever order and however often the join repeats rows.
\<close>

theorem introspect_postgres_correct:
  "column_of (introspect_postgres data) t c = postgres_column data t c"
proof (induction data rule: rev_induct)
  case Nil
  then show ?case by (simp add: introspect_postgres_def column_of_def postgres_column_def dict_get_def)
next
  case (snoc r data)
  have step: "column_of (introspect_postgres (data @ [r])) t c = column_of (postgres_add r (introspect_postgres data)) t c"
    by (simp add: introspect_postgres_def)
  show ?case
  proof (cases "t = pr_table_name r \<and> c = pr_column_name r")
    case True
    define rows where "rows = filter (\<lambda>r. pr_table_name r = t \<and> pr_column_name r = c) data"
    have "filter (\<lambda>r. pr_table_name r = t \<and> pr_column_name r = c) (data @ [r]) = rows @ [r]"
      using True by (simp add: rows_def)
    then show ?thesis using True unfolding step column_of_postgres_add snoc postgres_column_def
      by (cases rows) (auto simp: rows_def [symmetric] mark_constraint_def postgres_new_def)
  next
    case False
    then show ?thesis unfolding step column_of_postgres_add snoc
      by (auto simp: postgres_column_def)
  qed
qed

lemma column_of_sqlite_add:
  "column_of (sqlite_add r tables) t c =
     (if t = sr_table_name r \<and> c = sr_column_name r
      then Some \<lparr>ci_type = sr_data_type r, ci_nullable = JBool (sr_is_nullable r \<noteq> 0),
        ci_default = sr_column_default r, ci_primary = (sr_is_primary r \<noteq> 0), ci_unique = None\<rparr>
      else column_of tables t c)"
  by (auto simp: sqlite_add_def column_of_upd) (auto simp: column_of_def)

lemma introspect_sqlite_snoc:
  "introspect_sqlite (data @ [r]) = sqlite_add r (introspect_sqlite data)"
  by (simp add: introspect_sqlite_def)

text \<open>
  The introspection of an SQLite database reports a column as nullable exactly when it is
  declared \<^verbatim>\<open>NOT NULL\<close>: the query renames \<^verbatim>\<open>notnull\<close> to \<^verbatim>\<open>is_nullable\<close>.
\<close>

theorem sqlite_nullable_inverted:
  assumes "column_of (introspect_sqlite (sqlite_query cols)) t c = Some info"
  shows "\<exists>col\<in>set cols. sc_table col = t \<and> sc_name col = c \<and> ci_nullable info = JBool (sc_notnull col \<noteq> 0)"
  using assms
proof (induction cols rule: rev_induct)
  case Nil
  then show ?case by (simp add: sqlite_query_def introspect_sqlite_def column_of_def dict_get_def)
next
  case (snoc col cols)
  then show ?case
    by (auto simp: sqlite_query_def introspect_sqlite_snoc column_of_sqlite_add split: if_splits)
qed

definition ex_column :: sqlite_column where
  "ex_column = \<lparr>sc_table = ''t'', sc_name = ''id'', sc_type = JStr ''INTEGER'', sc_pk = 1,
     sc_dflt_value = JNull, sc_notnull = 1\<rparr>"

theorem sqlite_nullable_inverted_witness:
  "\<exists>info. column_of (introspect_sqlite (sqlite_query [ex_column])) ''t'' ''id'' = Some info
     \<and> ci_nullable info = JBool True \<and> sc_notnull ex_column = 1"
proof -
  obtain info where i: "column_of (introspect_sqlite (sqlite_query [ex_column])) ''t'' ''id'' = Some info"
    by (simp add: column_of_def introspect_sqlite_def sqlite_query_def sqlite_add_def ex_column_def
        upd_table_def dict_get_def)
  have n: "sc_notnull ex_column = 1" by (simp add: ex_column_def)
  from sqlite_nullable_inverted [OF i] i n show ?thesis by simp
qed

section \<open>The table endpoint\<close>

text \<open>
  Reading a table through the API never succeeds: for an instance with a database, a request
  that names an existing table ends in an exception or without a response.
\<close>

theorem get_table_never_answers:
  assumes "get_table E k table orders limit w = Ok (Some resp) w'"
  shows "resp \<in> {resp_instance_not_found, resp_plugin_has_no_database, resp_table_not_found}"
proof -
  obtain r v where r: "database_instance k w = Ok r v" using assms by (auto simp: get_table_def bind_eq_Ok)
  obtain i u where i: "inst_get None None (str_lower k) w = Ok i u"
    using r by (auto simp: database_instance_def bind_eq_Ok)
  have "r = Inl resp_instance_not_found \<or> r = Inl resp_plugin_has_no_database \<or> (\<exists>a d. r = Inr (a, d))"
    using r i by (auto simp: database_instance_def split: option.splits)
  moreover have ?thesis if ad: "r = Inr (a, d)" for a d
  proof -
    obtain t v' where t: "get_db_tables E a v = Ok t v'"
      using assms r ad by (auto simp: get_table_def bind_eq_Ok)
    then show ?thesis using assms r ad
      by (auto simp: get_table_def split: if_splits option.splits inst_db.splits)
  qed
  ultimately show ?thesis using assms r by (auto simp: get_table_def)
qed

theorem get_table_never_answers_witness:
  "get_table ex_who ''i'' ''t'' None ''100'' ex_store = Ok (Some resp_instance_not_found) ex_store
   \<and> resp_instance_not_found \<in> {resp_instance_not_found, resp_plugin_has_no_database, resp_table_not_found}"
proof -
  have e: "get_table ex_who ''i'' ''t'' None ''100'' ex_store = Ok (Some resp_instance_not_found) ex_store"
    by (simp add: get_table_def database_instance_def inst_get_def str_lower_def char_lower_def opt_truthy_def db_inst_get_def)
  from get_table_never_answers [OF e] e show ?thesis by blast
qed

end
