(* ===== verification/MB_Scheduler.thy ===== *)
theory MB_Scheduler
  imports MB_Events
begin

text \<open>
  The scheduler that plugins use for background work, \<^verbatim>\<open>maubot/scheduler.py\<close>: periodic loops,
  their background subtasks, delayed calls, and stopping them all.

  The model is an event system over the tasks that the scheduler has created. A task keeps the
  point at which its coroutine is suspended; an event resumes one task, with the outcome of what
  it was waiting for. A cancelled task is resumed by a \<^verbatim>\<open>CancelledError\<close> at that point. The
  coroutines the plugin passes in are not code of this program: how they end is part of the event.
\<close>

section \<open>Tasks\<close>

text \<open>
  What a task runs: \<open>_call_periodically\<close> with its two flags, \<open>_call_periodically_background\<close>, or
  \<open>_call_with_delay\<close>; and where it is suspended: before its first instruction, in \<^verbatim>\<open>asyncio.sleep\<close>,
  or in the plugin's coroutine.
\<close>

datatype task_kind = Periodic bool bool | Background | Delayed bool

datatype task_pc = NotStarted | Sleeping | InCoro | Done

datatype task_result = NoResult | Returned | Raised exn | TaskCancelled

record sched_task =
  tk_kind :: task_kind
  tk_pc :: task_pc
  tk_cancel :: bool
  tk_result :: task_result

text \<open>
  The scheduler: all tasks created so far by number, the set \<open>tasks\<close> of registered ones, the
  finished ones whose \<^verbatim>\<open>discard\<close> callback has not run yet, and how often plugin code was started.
\<close>

record sched =
  sd_all :: "sched_task list"
  sd_tasks :: "nat list"
  sd_callbacks :: "nat list"
  sd_calls :: nat

definition sched_init :: sched where
  "sched_init = \<lparr>sd_all = [], sd_tasks = [], sd_callbacks = [], sd_calls = 0\<rparr>"

text \<open>\<^verbatim>\<open>asyncio.create_task\<close> followed by \<open>_register_task\<close>.\<close>

definition register_task :: "task_kind \<Rightarrow> sched \<Rightarrow> sched" where
  "register_task kind s =
     s\<lparr>sd_all := sd_all s @ [\<lparr>tk_kind = kind, tk_pc = NotStarted, tk_cancel = False, tk_result = NoResult\<rparr>],
       sd_tasks := sd_tasks s @ [length (sd_all s)]\<rparr>"

definition run_periodically :: "bool \<Rightarrow> bool \<Rightarrow> sched \<Rightarrow> sched" where
  "run_periodically run_task_in_background catch_errors s =
     register_task (Periodic run_task_in_background catch_errors) s"

definition run_later :: "bool \<Rightarrow> sched \<Rightarrow> sched" where
  "run_later catch_errors s = register_task (Delayed catch_errors) s"

section \<open>Resuming a task\<close>

text \<open>How a resumed wait ends: normally, with an exception, or cancelled.\<close>

datatype outcome = Completes | Fails exn | Cancels

text \<open>What a coroutine does next: suspend somewhere, or end.\<close>

datatype continuation = Suspend task_pc | Finish task_result

text \<open>
  The handlers around the waits: \<^verbatim>\<open>CancelledError\<close> is always raised again, other exceptions are
  logged, or raised again when errors are not caught.
\<close>

definition caught :: "bool \<Rightarrow> continuation \<Rightarrow> exn \<Rightarrow> continuation" where
  "caught catch_errors continue e = (if catch_errors then continue else Finish (Raised e))"

text \<open>
  \<open>_call_periodically\<close>, from the point where it is suspended. With background tasks the loop
  starts one after each sleep and goes to sleep again; \<open>func()\<close> itself may raise there
  (\<open>call_exn\<close>). The second component tells whether a subtask was created, the third how many
  calls of \<open>func\<close> were made.
\<close>

fun call_periodically :: "bool \<Rightarrow> bool \<Rightarrow> task_pc \<Rightarrow> outcome \<Rightarrow> exn option \<Rightarrow> continuation \<times> bool \<times> nat" where
  "call_periodically bg ce NotStarted out call_exn =
     (if out = Cancels then (Finish TaskCancelled, False, 0) else (Suspend Sleeping, False, 0))"
| "call_periodically bg ce Sleeping Cancels call_exn = (Finish TaskCancelled, False, 0)"
| "call_periodically bg ce Sleeping (Fails e) call_exn = (caught ce (Suspend Sleeping) e, False, 0)"
| "call_periodically bg ce Sleeping Completes call_exn =
     (case call_exn of
        Some e \<Rightarrow> (caught ce (Suspend Sleeping) e, False, 1)
      | None \<Rightarrow> if bg then (Suspend Sleeping, True, 1) else (Suspend InCoro, False, 1))"
| "call_periodically bg ce InCoro Completes call_exn = (Suspend Sleeping, False, 0)"
| "call_periodically bg ce InCoro (Fails e) call_exn = (caught ce (Suspend Sleeping) e, False, 0)"
| "call_periodically bg ce InCoro Cancels call_exn = (Finish TaskCancelled, False, 0)"
| "call_periodically bg ce Done out call_exn = (Finish NoResult, False, 0)"

fun call_periodically_background :: "task_pc \<Rightarrow> outcome \<Rightarrow> continuation" where
  "call_periodically_background NotStarted out = (if out = Cancels then Finish TaskCancelled else Suspend InCoro)"
| "call_periodically_background pc Cancels = Finish TaskCancelled"
| "call_periodically_background pc (Fails e) = Finish Returned"
| "call_periodically_background pc Completes = Finish Returned"

fun call_with_delay :: "bool \<Rightarrow> task_pc \<Rightarrow> outcome \<Rightarrow> continuation \<times> nat" where
  "call_with_delay ce NotStarted out = (if out = Cancels then Finish TaskCancelled else Suspend Sleeping, 0)"
| "call_with_delay ce pc Cancels = (Finish TaskCancelled, 0)"
| "call_with_delay ce pc (Fails e) = (caught ce (Finish Returned) e, 0)"
| "call_with_delay ce Sleeping Completes = (Suspend InCoro, 1)"
| "call_with_delay ce pc Completes = (Finish Returned, 0)"

definition continue_task :: "sched_task \<Rightarrow> outcome \<Rightarrow> exn option \<Rightarrow> continuation \<times> bool \<times> nat" where
  "continue_task t out call_exn =
     (case tk_kind t of
        Periodic bg ce \<Rightarrow> call_periodically bg ce (tk_pc t) out call_exn
      | Background \<Rightarrow> (call_periodically_background (tk_pc t) out, False, 0)
      | Delayed ce \<Rightarrow> (let (nx, n) = call_with_delay ce (tk_pc t) out in (nx, False, n)))"

definition apply_next :: "nat \<Rightarrow> continuation \<Rightarrow> sched \<Rightarrow> sched" where
  "apply_next i nx s =
     (let t = sd_all s ! i in
      case nx of
        Suspend pc \<Rightarrow> s\<lparr>sd_all := (sd_all s)[i := t\<lparr>tk_pc := pc, tk_cancel := False\<rparr>]\<rparr>
      | Finish r \<Rightarrow> s\<lparr>sd_all := (sd_all s)[i := t\<lparr>tk_pc := Done, tk_cancel := False, tk_result := r\<rparr>],
          sd_callbacks := sd_callbacks s @ [i]\<rparr>)"

text \<open>
  The event loop resumes task \<open>i\<close>. When a cancellation was requested, the wait is cancelled
  (\<open>Cancels\<close>), except that a coroutine of the plugin may do what it likes with a cancellation.
\<close>

definition allowed_outcome :: "sched_task \<Rightarrow> outcome \<Rightarrow> bool" where
  "allowed_outcome t out \<longleftrightarrow>
     (if tk_cancel t then out = Cancels \<or> tk_pc t = InCoro else out \<noteq> Cancels)"

definition resume :: "nat \<Rightarrow> outcome \<Rightarrow> exn option \<Rightarrow> sched \<Rightarrow> sched option" where
  "resume i out call_exn s =
     (if i < length (sd_all s) \<and> tk_pc (sd_all s ! i) \<noteq> Done \<and> allowed_outcome (sd_all s ! i) out
      then let (nx, spawn, n) = continue_task (sd_all s ! i) out call_exn;
               s = apply_next i nx (s\<lparr>sd_calls := sd_calls s + n\<rparr>)
           in Some (if spawn then register_task Background s else s)
      else None)"

text \<open>The done callback of a task: \<open>tasks.discard\<close>.\<close>

definition run_callback :: "sched \<Rightarrow> sched option" where
  "run_callback s =
     (case sd_callbacks s of
        [] \<Rightarrow> None
      | i # rest \<Rightarrow> Some (s\<lparr>sd_callbacks := rest, sd_tasks := filter (\<lambda>j. j \<noteq> i) (sd_tasks s)\<rparr>))"

text \<open>\<open>stop\<close>: \<^verbatim>\<open>task.cancel\<close> for every registered task; it does nothing on a finished one.\<close>

definition cancel_task :: "nat \<Rightarrow> sched \<Rightarrow> sched" where
  "cancel_task i s =
     (let t = sd_all s ! i in
      if tk_pc t = Done then s else s\<lparr>sd_all := (sd_all s)[i := t\<lparr>tk_cancel := True\<rparr>]\<rparr>)"

definition sched_stop :: "sched \<Rightarrow> sched" where
  "sched_stop s = fold cancel_task (sd_tasks s) s"

datatype sched_event =
    RunPeriodically bool bool
  | RunLater bool
  | ResumeTask nat outcome "exn option"
  | RunCallback
  | SchedStop

fun sched_step :: "sched_event \<Rightarrow> sched \<Rightarrow> sched option" where
  "sched_step (RunPeriodically bg ce) s = Some (run_periodically bg ce s)"
| "sched_step (RunLater ce) s = Some (run_later ce s)"
| "sched_step (ResumeTask i out call_exn) s = resume i out call_exn s"
| "sched_step RunCallback s = run_callback s"
| "sched_step SchedStop s = Some (sched_stop s)"

section \<open>Invariant\<close>

text \<open>
  Registered tasks are the ones that are not finished and those whose callback is pending, and
  only an error that is not caught ends a task with an exception. A loop never returns.
\<close>

definition task_ok :: "sched_task \<Rightarrow> bool" where
  "task_ok t \<longleftrightarrow> (tk_pc t \<noteq> Done \<longleftrightarrow> tk_result t = NoResult)
     \<and> (case tk_kind t of
          Periodic bg ce \<Rightarrow> tk_result t \<noteq> Returned \<and> (ce \<longrightarrow> (\<forall>e. tk_result t \<noteq> Raised e))
        | Background \<Rightarrow> \<forall>e. tk_result t \<noteq> Raised e
        | Delayed ce \<Rightarrow> ce \<longrightarrow> (\<forall>e. tk_result t \<noteq> Raised e))"

definition registered_ok :: "sched \<Rightarrow> bool" where
  "registered_ok s \<longleftrightarrow> set (sd_tasks s) \<subseteq> {..<length (sd_all s)} \<and> set (sd_callbacks s) \<subseteq> {..<length (sd_all s)}
     \<and> (\<forall>i<length (sd_all s). tk_pc (sd_all s ! i) \<noteq> Done \<longrightarrow> i \<in> set (sd_tasks s) \<and> i \<notin> set (sd_callbacks s))
     \<and> (\<forall>i\<in>set (sd_tasks s). tk_pc (sd_all s ! i) = Done \<longrightarrow> i \<in> set (sd_callbacks s))"

definition sched_inv :: "sched \<Rightarrow> bool" where
  "sched_inv s \<longleftrightarrow> registered_ok s \<and> (\<forall>t\<in>set (sd_all s). task_ok t)"

lemma sched_inv_init: "sched_inv sched_init"
  by (simp add: sched_inv_def registered_ok_def sched_init_def)

lemma sched_inv_register: "sched_inv s \<Longrightarrow> sched_inv (register_task kind s)"
  by (auto simp: sched_inv_def registered_ok_def register_task_def task_ok_def nth_append less_Suc_eq
      split: task_kind.splits if_splits)

lemma sched_inv_calls: "sched_inv (s\<lparr>sd_calls := n\<rparr>) = sched_inv s"
  by (simp add: sched_inv_def registered_ok_def)

definition next_ok :: "task_kind \<Rightarrow> continuation \<Rightarrow> bool" where
  "next_ok kind nx \<longleftrightarrow> (case nx of
     Suspend pc \<Rightarrow> pc \<noteq> Done
   | Finish r \<Rightarrow> task_ok \<lparr>tk_kind = kind, tk_pc = Done, tk_cancel = False, tk_result = r\<rparr>)"

lemma continue_task_ok:
  assumes "tk_pc t \<noteq> Done" and "continue_task t out call_exn = (nx, spawn, n)"
  shows "next_ok (tk_kind t) nx"
proof (cases "tk_kind t")
  case (Periodic bg ce)
  then show ?thesis using assms
    by (cases "tk_pc t"; cases out)
      (auto simp: continue_task_def next_ok_def task_ok_def caught_def split: if_splits option.splits)
next
  case Background
  then show ?thesis using assms
    by (cases "tk_pc t"; cases out) (auto simp: continue_task_def next_ok_def task_ok_def split: if_splits)
next
  case (Delayed ce)
  then show ?thesis using assms
    by (cases "tk_pc t"; cases out)
      (auto simp: continue_task_def next_ok_def task_ok_def caught_def split: if_splits)
qed

lemma sched_inv_next:
  assumes I: "sched_inv s" and i: "i < length (sd_all s)" "tk_pc (sd_all s ! i) \<noteq> Done"
    and nx: "next_ok (tk_kind (sd_all s ! i)) nx"
  shows "sched_inv (apply_next i nx s)"
proof -
  let ?t = "sd_all s ! i"
  have t: "task_ok ?t" using I i by (simp add: sched_inv_def)
  have reg: "i \<in> set (sd_tasks s)" using I i by (simp add: sched_inv_def registered_ok_def)
  show ?thesis
  proof (cases nx)
    case (Suspend pc)
    have "task_ok (?t\<lparr>tk_pc := pc, tk_cancel := False\<rparr>)"
      using t i nx Suspend by (auto simp: task_ok_def next_ok_def split: task_kind.splits)
    then show ?thesis using I i nx Suspend
      by (auto simp: sched_inv_def registered_ok_def apply_next_def next_ok_def nth_list_update
          dest!: set_update_subset_insert [THEN subsetD])
  next
    case (Finish r)
    have "task_ok (?t\<lparr>tk_pc := Done, tk_cancel := False, tk_result := r\<rparr>)"
      using nx Finish by (auto simp: task_ok_def next_ok_def split: task_kind.splits)
    then show ?thesis using I i reg Finish
      by (auto simp: sched_inv_def registered_ok_def apply_next_def nth_list_update split: if_splits
          dest!: set_update_subset_insert [THEN subsetD])
  qed
qed

lemma sched_inv_resume: "sched_inv s \<Longrightarrow> resume i out x s = Some s' \<Longrightarrow> sched_inv s'"
proof -
  assume I: "sched_inv s" and s': "resume i out x s = Some s'"
  obtain nx spawn n where c: "continue_task (sd_all s ! i) out x = (nx, spawn, n)" by (metis prod_cases3)
  have i: "i < length (sd_all s)" "tk_pc (sd_all s ! i) \<noteq> Done"
    using s' by (auto simp: resume_def split: if_splits)
  have "sched_inv (apply_next i nx (s\<lparr>sd_calls := sd_calls s + n\<rparr>))"
    by (rule sched_inv_next) (use I i continue_task_ok [OF i(2) c] in \<open>simp_all add: sched_inv_calls\<close>)
  then show ?thesis using s' c by (auto simp: resume_def Let_def split: if_splits intro: sched_inv_register)
qed

lemma sched_inv_callback: "sched_inv s \<Longrightarrow> run_callback s = Some s' \<Longrightarrow> sched_inv s'"
  by (auto simp: run_callback_def sched_inv_def registered_ok_def split: list.splits)

lemma cancel_task_frame:
  "sd_tasks (cancel_task i s) = sd_tasks s \<and> sd_callbacks (cancel_task i s) = sd_callbacks s
   \<and> sd_calls (cancel_task i s) = sd_calls s \<and> length (sd_all (cancel_task i s)) = length (sd_all s)
   \<and> (\<forall>j<length (sd_all s). sd_all (cancel_task i s) ! j =
        (if j = i \<and> tk_pc (sd_all s ! j) \<noteq> Done then (sd_all s ! j)\<lparr>tk_cancel := True\<rparr> else sd_all s ! j))"
  by (simp add: cancel_task_def Let_def nth_list_update)

lemma fold_cancel_frame:
  "sd_tasks (fold cancel_task is s) = sd_tasks s \<and> sd_callbacks (fold cancel_task is s) = sd_callbacks s
   \<and> sd_calls (fold cancel_task is s) = sd_calls s \<and> length (sd_all (fold cancel_task is s)) = length (sd_all s)
   \<and> (\<forall>j<length (sd_all s). sd_all (fold cancel_task is s) ! j =
        (if j \<in> set is \<and> tk_pc (sd_all s ! j) \<noteq> Done then (sd_all s ! j)\<lparr>tk_cancel := True\<rparr> else sd_all s ! j))"
proof (induction "is" arbitrary: s)
  case (Cons i "is")
  show ?case using Cons [of "cancel_task i s"] cancel_task_frame [of i s] by auto
qed simp

lemma sched_inv_stop: "sched_inv s \<Longrightarrow> sched_inv (sched_stop s)"
proof -
  assume I: "sched_inv s"
  note f = fold_cancel_frame [of "sd_tasks s" s]
  have "tk_pc (sd_all (sched_stop s) ! j) = tk_pc (sd_all s ! j)" if "j < length (sd_all s)" for j
    using f that by (simp add: sched_stop_def)
  then have "registered_ok (sched_stop s)" using I f
    unfolding sched_inv_def registered_ok_def sched_stop_def by (metis lessThan_iff subsetD)
  moreover have "task_ok t" if t: "t \<in> set (sd_all (sched_stop s))" for t
  proof -
    obtain j where j: "j < length (sd_all s)" "t = sd_all (sched_stop s) ! j"
      using t f by (auto simp: in_set_conv_nth sched_stop_def)
    moreover have "task_ok (sd_all s ! j)" using I j by (simp add: sched_inv_def)
    ultimately show ?thesis using f by (auto simp: sched_stop_def task_ok_def split: task_kind.splits)
  qed
  ultimately show ?thesis by (simp add: sched_inv_def)
qed

lemma sched_inv_step: "sched_inv s \<Longrightarrow> sched_step e s = Some s' \<Longrightarrow> sched_inv s'"
  by (cases e) (auto simp: run_periodically_def run_later_def
      intro: sched_inv_register sched_inv_resume sched_inv_callback sched_inv_stop)

interpretation sched_machine: event_invariant sched_step sched_init sched_inv
  by unfold_locales (rule sched_inv_init, rule sched_inv_step)

section \<open>Stopping\<close>

definition undone :: "sched \<Rightarrow> nat set" where
  "undone s = {i. i < length (sd_all s) \<and> tk_pc (sd_all s ! i) \<noteq> Done}"

definition all_cancelled :: "sched \<Rightarrow> bool" where
  "all_cancelled s \<longleftrightarrow> (\<forall>i\<in>undone s. tk_cancel (sd_all s ! i))"

lemma finite_undone: "finite (undone s)"
  by (simp add: undone_def)

lemma stop_cancels: "sched_inv s \<Longrightarrow> all_cancelled (sched_stop s)"
  using fold_cancel_frame [of "sd_tasks s" s]
  by (auto simp: all_cancelled_def undone_def sched_stop_def sched_inv_def registered_ok_def split: if_splits)

lemma continue_cancelled: "tk_pc t \<noteq> Done \<Longrightarrow> continue_task t Cancels x = (Finish TaskCancelled, False, 0)"
  by (cases "tk_kind t"; cases "tk_pc t") (auto simp: continue_task_def)

lemma resume_cancelled:
  assumes "i \<in> undone s" and "all_cancelled s"
  shows "resume i Cancels x s = Some (apply_next i (Finish TaskCancelled) s)"
  using assms continue_cancelled [of "sd_all s ! i" x]
  by (auto simp: resume_def allowed_outcome_def undone_def all_cancelled_def)

lemma finish_undone:
  assumes "i \<in> undone s"
  shows "undone (apply_next i (Finish r) s) = undone s - {i}
    \<and> (all_cancelled s \<longrightarrow> all_cancelled (apply_next i (Finish r) s))
    \<and> sd_calls (apply_next i (Finish r) s) = sd_calls s"
  using assms by (auto simp: undone_def apply_next_def all_cancelled_def nth_list_update split: if_splits)

text \<open>The events of a shutdown: cancelled tasks end, callbacks run.\<close>

fun shutdown_event :: "sched_event \<Rightarrow> bool" where
  "shutdown_event (ResumeTask i Cancels x) = True"
| "shutdown_event RunCallback = True"
| "shutdown_event e = False"

lemma callbacks_drain:
  assumes "sched_inv s" and "undone s = {}"
  shows "\<exists>es s'. run sched_step es s = Some s' \<and> list_all shutdown_event es \<and> sd_tasks s' = []
    \<and> sd_calls s' = sd_calls s \<and> undone s' = {}"
  using assms
proof (induction "sd_callbacks s" arbitrary: s)
  case Nil
  have "sd_tasks s = []"
  proof (rule ccontr)
    assume "sd_tasks s \<noteq> []"
    then obtain i where i: "i \<in> set (sd_tasks s)" by (cases "sd_tasks s") auto
    then have "tk_pc (sd_all s ! i) = Done"
      using Nil.prems by (auto simp: undone_def sched_inv_def registered_ok_def)
    then show False using i Nil by (auto simp: sched_inv_def registered_ok_def)
  qed
  then show ?case using Nil.prems by (intro exI [of _ "[]"] exI [of _ s]) simp
next
  case (Cons i cs)
  let ?s = "s\<lparr>sd_callbacks := cs, sd_tasks := filter (\<lambda>j. j \<noteq> i) (sd_tasks s)\<rparr>"
  have step: "run_callback s = Some ?s" using Cons.hyps(2) [symmetric] by (simp add: run_callback_def)
  have "sched_inv ?s" by (rule sched_inv_callback [OF Cons.prems(1) step])
  moreover have "undone ?s = {}" using Cons.prems(2) by (simp add: undone_def)
  ultimately obtain es s' where "run sched_step es ?s = Some s'" "list_all shutdown_event es" "sd_tasks s' = []"
      "sd_calls s' = sd_calls s" "undone s' = {}"
    using Cons.hyps(1) [of ?s] by auto
  then show ?case using step by (intro exI [of _ "RunCallback # es"] exI [of _ s']) simp
qed

lemma cancelled_drain:
  assumes "sched_inv s" and "all_cancelled s"
  shows "\<exists>es s'. run sched_step es s = Some s' \<and> list_all shutdown_event es \<and> sd_tasks s' = []
    \<and> sd_calls s' = sd_calls s \<and> undone s' = {}"
  using assms
proof (induction "card (undone s)" arbitrary: s)
  case 0
  then show ?case using callbacks_drain finite_undone by (metis card_0_eq)
next
  case (Suc n)
  then obtain i where i: "i \<in> undone s" by fastforce
  let ?s = "apply_next i (Finish TaskCancelled) s"
  have step: "resume i Cancels None s = Some ?s" by (rule resume_cancelled [OF i Suc.prems(2)])
  note f = finish_undone [OF i, of TaskCancelled]
  have "card (undone ?s) = n" using f Suc.hyps(2) i finite_undone [of s] by simp
  moreover have "sched_inv ?s" by (rule sched_inv_resume [OF Suc.prems(1) step])
  ultimately obtain es s' where "run sched_step es ?s = Some s'" "list_all shutdown_event es" "sd_tasks s' = []"
      "sd_calls s' = sd_calls s" "undone s' = {}"
    using Suc.hyps(1) [of ?s] f Suc.prems(2) by auto
  then show ?case using step by (intro exI [of _ "ResumeTask i Cancels None # es"] exI [of _ s']) simp
qed

text \<open>
  C19. Stopping the scheduler ends everything it started: after \<open>stop\<close>, every task that is not
  finished has a cancellation pending, and once the tasks have taken it, nothing is registered
  any more, no task is left unfinished and no further plugin code has been called.
\<close>

theorem scheduler_stop_drains:
  assumes "run sched_step es sched_init = Some s"
  shows "(\<forall>i<length (sd_all s). tk_pc (sd_all (sched_stop s) ! i) \<noteq> Done \<longrightarrow> tk_cancel (sd_all (sched_stop s) ! i))
    \<and> (\<exists>fs s'. run sched_step (SchedStop # fs) s = Some s' \<and> list_all shutdown_event fs
        \<and> sd_tasks s' = [] \<and> sd_calls s' = sd_calls s \<and> (\<forall>t\<in>set (sd_all s'). tk_pc t = Done))"
proof -
  have I: "sched_inv s" by (rule sched_machine.run_inv [OF assms])
  note f = fold_cancel_frame [of "sd_tasks s" s]
  have c: "all_cancelled (sched_stop s)" by (rule stop_cancels [OF I])
  obtain fs s' where fs: "run sched_step fs (sched_stop s) = Some s'" "list_all shutdown_event fs"
      "sd_tasks s' = []" "sd_calls s' = sd_calls (sched_stop s)" "undone s' = {}"
    using cancelled_drain [OF sched_inv_stop [OF I] c] by blast
  have "\<forall>t\<in>set (sd_all s'). tk_pc t = Done" using fs(5) by (auto simp: undone_def in_set_conv_nth)
  moreover have "sd_calls (sched_stop s) = sd_calls s" using f by (simp add: sched_stop_def)
  moreover have "length (sd_all (sched_stop s)) = length (sd_all s)" using f by (simp add: sched_stop_def)
  ultimately show ?thesis using fs c unfolding all_cancelled_def undone_def
    by (intro conjI exI [of _ fs] exI [of _ s']) auto
qed

lemmas sched_eval = sched_init_def run_periodically_def run_later_def register_task_def resume_def
  continue_task_def apply_next_def allowed_outcome_def caught_def Let_def

definition ex_sched :: "sched_event list" where
  "ex_sched = [RunPeriodically True True, ResumeTask 0 Completes None, ResumeTask 0 Completes None,
     RunPeriodically False True, ResumeTask 2 Completes None, ResumeTask 2 Completes (Some TypeError)]"

theorem scheduler_stop_drains_witness:
  "\<exists>s. run sched_step ex_sched sched_init = Some s \<and> length (sd_all s) = 3 \<and> sd_calls s = 2
     \<and> (\<exists>fs s'. run sched_step (SchedStop # fs) s = Some s' \<and> list_all shutdown_event fs
        \<and> sd_tasks s' = [] \<and> sd_calls s' = sd_calls s \<and> (\<forall>t\<in>set (sd_all s'). tk_pc t = Done))"
proof -
  obtain s where s: "run sched_step ex_sched sched_init = Some s" and l: "length (sd_all s) = 3" "sd_calls s = 2"
    by (simp add: ex_sched_def sched_eval)
  from scheduler_stop_drains [OF s] s l show ?thesis by blast
qed

text \<open>
  An error of the plugin's function does not end its schedule: a loop that catches errors ends
  only by being cancelled, and background subtasks and delayed calls that catch errors never end
  with an exception.
\<close>

theorem scheduler_survives_errors:
  assumes "run sched_step es sched_init = Some s" and "t \<in> set (sd_all s)"
  shows "(\<forall>bg. tk_kind t = Periodic bg True \<longrightarrow> tk_pc t \<noteq> Done \<or> tk_result t = TaskCancelled)
    \<and> (tk_kind t \<in> {Background, Delayed True} \<longrightarrow> tk_pc t \<noteq> Done \<or> tk_result t \<in> {Returned, TaskCancelled})"
proof -
  have "task_ok t" using sched_machine.run_inv [OF assms(1)] assms(2) by (simp add: sched_inv_def)
  then show ?thesis by (cases "tk_result t") (auto simp: task_ok_def)
qed

theorem scheduler_survives_errors_witness:
  "\<exists>s t. run sched_step ex_sched sched_init = Some s \<and> t \<in> set (sd_all s) \<and> tk_kind t = Periodic False True
     \<and> (tk_pc t \<noteq> Done \<or> tk_result t = TaskCancelled)"
proof -
  obtain s where s: "run sched_step ex_sched sched_init = Some s" and l: "length (sd_all s) = 3"
    and k: "tk_kind (sd_all s ! 2) = Periodic False True"
    by (simp add: ex_sched_def sched_eval)
  have t: "sd_all s ! 2 \<in> set (sd_all s)" using l by simp
  from scheduler_survives_errors [OF s t] s t k show ?thesis by blast
qed

end
