(* ===== verification/MB_Program.thy ===== *)
theory MB_Program
  imports MB_Auth
begin

text \<open>
  Program-wide parts: the upgrade of the configuration file (\<open>Config.do_update\<close> of
  \<^verbatim>\<open>maubot/config.py\<close>), the choice and the start of the databases (\<open>prepare_db\<close> and
  \<open>start_db\<close> of \<^verbatim>\<open>maubot/__main__.py\<close>) and the logger colours (\<^verbatim>\<open>lib/color_log.py\<close>).

  Configurations are maps from dotted paths to values. bcrypt and the random tokens are
  parameters, and so are mautrix's database objects.
\<close>

section \<open>The configuration file\<close>

type_synonym cfg = "string \<rightharpoonup> json"

record cfg_env =
  ce_token :: "nat \<Rightarrow> string"
  ce_hashpw :: "nat \<Rightarrow> string \<Rightarrow> string"

text \<open>Reading a missing path gives \<^verbatim>\<open>None\<close>.\<close>

definition cfg_get :: "cfg \<Rightarrow> string \<Rightarrow> json" where
  "cfg_get c k = (case c k of None \<Rightarrow> JNull | Some v \<Rightarrow> v)"

text \<open>\<open>copy\<close> of mautrix's update helper: a path that the old file has is taken over.\<close>

definition cfg_copy :: "cfg \<Rightarrow> string \<Rightarrow> cfg \<Rightarrow> cfg" where
  "cfg_copy self k base = (case self k of None \<Rightarrow> base | Some v \<Rightarrow> base(k \<mapsto> v))"

definition cfg_copies :: "cfg \<Rightarrow> string list \<Rightarrow> cfg \<Rightarrow> cfg" where
  "cfg_copies self ks base = fold (cfg_copy self) ks base"

text \<open>\<open>re.compile(r"^\$2[ayb]\$.{56}$")\<close>; \<open>$\<close> also matches before a final newline.\<close>

definition bcrypt_match :: "string \<Rightarrow> bool" where
  "bcrypt_match p =
     (let q = (if p \<noteq> [] \<and> last p = CHR 0x0A then butlast p else p) in
      length q = 60 \<and> take 2 q = ''$2'' \<and> q ! 2 \<in> set ''ayb'' \<and> q ! 3 = CHR ''$''
      \<and> CHR 0x0A \<notin> set (drop 4 q))"

text \<open>\<^verbatim>\<open>s.replace(old, new)\<close> for a pattern that is not empty.\<close>

function str_replace :: "string \<Rightarrow> string \<Rightarrow> string \<Rightarrow> string" where
  "str_replace old new s =
     (if s = [] then []
      else if old \<noteq> [] \<and> startswith s old then new @ str_replace old new (drop (length old) s)
      else hd s # str_replace old new (tl s))"
  by pat_completeness auto
termination by (relation "measure (\<lambda>(old, new, s). length s)") auto

definition update_database :: "cfg \<Rightarrow> cfg \<Rightarrow> exn + cfg" where
  "update_database self base =
     (case self ''database'' of
        None \<Rightarrow> Inr base
      | Some (JStr url) \<Rightarrow>
          Inr (base(''database'' \<mapsto>
            JStr (if startswith url ''sqlite:///'' then str_replace ''sqlite:///'' ''sqlite:'' url else url)))
      | Some _ \<Rightarrow> Inl AttributeError)"

definition update_crypto_database :: "cfg \<Rightarrow> cfg \<Rightarrow> cfg" where
  "update_crypto_database self base =
     (case self ''crypto_database'' of
        Some (JObj _) \<Rightarrow>
          if cfg_get self ''crypto_database.type'' = JStr ''postgres''
          then base(''crypto_database'' \<mapsto> cfg_get self ''crypto_database.postgres_uri'')
          else base
      | _ \<Rightarrow> cfg_copy self ''crypto_database'' base)"

text \<open>The value under a new name when the old file has the old one.\<close>

definition cfg_moved :: "cfg \<Rightarrow> string \<Rightarrow> string \<Rightarrow> cfg \<Rightarrow> cfg" where
  "cfg_moved self old new base =
     (case self old of Some v \<Rightarrow> base(new \<mapsto> v) | None \<Rightarrow> cfg_copy self new base)"

definition update_secret :: "cfg_env \<Rightarrow> cfg \<Rightarrow> cfg \<Rightarrow> cfg" where
  "update_secret C self base =
     (let shared_secret = cfg_get self ''server.unshared_secret'' in
      if shared_secret = JNull \<or> shared_secret = JStr ''generate''
      then base(''server.unshared_secret'' \<mapsto> JStr (ce_token C 0))
      else base(''server.unshared_secret'' \<mapsto> shared_secret))"

text \<open>The loop over the admins; the number counts the random values drawn so far.\<close>

fun hash_admins :: "cfg_env \<Rightarrow> nat \<Rightarrow> (string \<times> json) list \<Rightarrow> exn + (string \<times> json) list" where
  "hash_admins C n [] = Inr []"
| "hash_admins C n ((username, password) # rest) =
     (if \<not> truthy password
      then (case hash_admins C n rest of Inl e \<Rightarrow> Inl e | Inr r \<Rightarrow> Inr ((username, password) # r))
      else case password of
        JStr p \<Rightarrow>
          let q = (if bcrypt_match p then p
            else ce_hashpw C n (if p = ''password'' then ce_token C (Suc n) else p)) in
          (case hash_admins C (Suc n) rest of Inl e \<Rightarrow> Inl e | Inr r \<Rightarrow> Inr ((username, JStr q) # r))
      | _ \<Rightarrow> Inl TypeError)"

definition update_admins :: "cfg_env \<Rightarrow> cfg \<Rightarrow> cfg \<Rightarrow> exn + cfg" where
  "update_admins C self base =
     (let base = cfg_copy self ''admins'' base in
      case base ''admins'' of
        Some (JObj ads) \<Rightarrow>
          (case hash_admins C 0 ads of Inl e \<Rightarrow> Inl e | Inr r \<Rightarrow> Inr (base(''admins'' \<mapsto> JObj r)))
      | _ \<Rightarrow> Inl AttributeError)"

definition do_update :: "cfg_env \<Rightarrow> cfg \<Rightarrow> cfg \<Rightarrow> exn + cfg" where
  "do_update C self base =
     (case update_database self base of
        Inl e \<Rightarrow> Inl e
      | Inr base \<Rightarrow>
          let base = cfg_copies self [''database_opts''] base;
              base = update_crypto_database self base;
              base = cfg_copies self [''crypto_db_pickle_key'', ''plugin_directories.upload'',
                ''plugin_directories.load'', ''plugin_directories.trash''] base;
              base = cfg_moved self ''plugin_directories.db'' ''plugin_databases.sqlite'' base;
              base = cfg_copies self [''plugin_databases.postgres'', ''plugin_databases.postgres_opts'',
                ''server.hostname'', ''server.port'', ''server.public_url'', ''server.listen'',
                ''server.ui_base_path'', ''server.plugin_base_path'', ''server.override_resource_path''] base;
              base = update_secret C self base;
              base = cfg_moved self ''registration_secrets'' ''homeservers'' base in
          (case update_admins C self base of
             Inl e \<Rightarrow> Inl e
           | Inr base \<Rightarrow>
               Inr (cfg_copies self [''api_features.login'', ''api_features.plugin'', ''api_features.plugin_upload'',
                 ''api_features.instance'', ''api_features.instance_database'', ''api_features.client'',
                 ''api_features.client_proxy'', ''api_features.client_auth'', ''api_features.dev_open'',
                 ''api_features.log'', ''logging''] base)))"

section \<open>Databases\<close>

datatype scheme = Postgres | Sqlite

text \<open>Which pool a part of the program uses: the main one, one of its own, or none.\<close>

datatype pool_choice = MainPool | OwnPool string | NoPool

record db_config =
  dc_database :: string
  dc_crypto_database :: string
  dc_plugin_postgres :: "string option"

record db_pools =
  dp_main :: string
  dp_crypto :: pool_choice
  dp_plugin :: pool_choice

text \<open>\<open>has_crypto\<close> is whether \<open>PgCryptoStore\<close> could be imported, \<open>scheme_of\<close> mautrix's reading of a URL.\<close>

definition prepare_db :: "bool \<Rightarrow> (string \<Rightarrow> scheme) \<Rightarrow> db_config \<Rightarrow> exn + db_pools" where
  "prepare_db has_crypto scheme_of c =
     (let crypto = (if has_crypto then
            if dc_crypto_database c = ''default'' then MainPool else OwnPool (dc_crypto_database c)
          else NoPool) in
      if dc_plugin_postgres c = Some ''default'' then
        if scheme_of (dc_database c) \<noteq> Postgres then Inl (SystemExit 24)
        else Inr \<lparr>dp_main = dc_database c, dp_crypto = crypto, dp_plugin = MainPool\<rparr>
      else if opt_truthy (dc_plugin_postgres c) then
        if scheme_of (the (dc_plugin_postgres c)) \<noteq> Postgres then Inl (SystemExit 24)
        else Inr \<lparr>dp_main = dc_database c, dp_crypto = crypto, dp_plugin = OwnPool (the (dc_plugin_postgres c))\<rparr>
      else Inr \<lparr>dp_main = dc_database c, dp_crypto = crypto, dp_plugin = NoPool\<rparr>)"

datatype db_action = StartMain | UpgradeStateStore | StartPlugin | StartCrypto | UpgradeCryptoInMain

definition start_actions :: "db_pools \<Rightarrow> db_action list" where
  "start_actions p =
     [StartMain, UpgradeStateStore]
     @ (case dp_plugin p of OwnPool _ \<Rightarrow> [StartPlugin] | _ \<Rightarrow> [])
     @ (case dp_crypto p of NoPool \<Rightarrow> [] | OwnPool _ \<Rightarrow> [StartCrypto] | MainPool \<Rightarrow> [UpgradeCryptoInMain])"

text \<open>
  \<open>start_db\<close>: the actions up to the first that fails; a \<^verbatim>\<open>DatabaseException\<close> (\<open>None\<close>) ends the
  program, another exception passes.
\<close>

fun run_actions :: "(db_action \<Rightarrow> exn option option) \<Rightarrow> db_action list \<Rightarrow> db_action list \<Rightarrow> exn option \<times> db_action list" where
  "run_actions fails done [] = (None, done)"
| "run_actions fails done (a # as) =
     (case fails a of
        None \<Rightarrow> run_actions fails (done @ [a]) as
      | Some None \<Rightarrow> (Some (SystemExit 25), done)
      | Some (Some e) \<Rightarrow> (Some e, done))"

definition start_db :: "(db_action \<Rightarrow> exn option option) \<Rightarrow> db_pools \<Rightarrow> exn option \<times> db_action list" where
  "start_db fails p = run_actions fails [] (start_actions p)"

section \<open>Logger colours\<close>

record colors =
  MAU_COLOR :: string
  MXID_COLOR :: string
  INST_COLOR :: string
  LOADER_COLOR :: string
  RESET :: string

definition colored :: "colors \<Rightarrow> string \<Rightarrow> string \<Rightarrow> string" where
  "colored K c s = c @ s @ RESET K"

definition color_name :: "colors \<Rightarrow> (string \<Rightarrow> string) \<Rightarrow> string \<Rightarrow> string" where
  "color_name K super_color_name module =
     (if startswith module ''maubot.client.'' then
        let crypto = endswith module ''.crypto'';
            suffix = (if crypto then ''.'' @ colored K (MAU_COLOR K) ''crypto'' else []);
            module = (if crypto then take (length module - 7) module else module) in
        colored K (MAU_COLOR K) ''maubot.client'' @ ''.'' @ colored K (MXID_COLOR K) (drop 14 module) @ suffix
      else if startswith module ''maubot.instance.'' then
        colored K (MAU_COLOR K) ''maubot.instance'' @ ''.'' @ colored K (INST_COLOR K) (drop 16 module)
      else if startswith module ''maubot.instance_db.'' then
        colored K (MAU_COLOR K) ''maubot.instance_db'' @ ''.'' @ colored K (INST_COLOR K) (drop 19 module)
      else if startswith module ''maubot.loader.'' then
        colored K (MAU_COLOR K) ''maubot.instance'' @ ''.'' @ colored K (LOADER_COLOR K) (drop 14 module)
      else if startswith module ''maubot.'' then colored K (MAU_COLOR K) module
      else super_color_name module)"

section \<open>Secrets\<close>

text \<open>What bcrypt and the generator promise: hashes have the format, tokens 64 characters.\<close>

definition cfg_env_ok :: "cfg_env \<Rightarrow> bool" where
  "cfg_env_ok C \<longleftrightarrow> (\<forall>n p. bcrypt_match (ce_hashpw C n p)) \<and> (\<forall>n. length (ce_token C n) = 64)"

definition hashed :: "json \<Rightarrow> bool" where
  "hashed v \<longleftrightarrow> \<not> truthy v \<or> (\<exists>p. v = JStr p \<and> bcrypt_match p)"

lemma cfg_copies_other: "k \<notin> set ks \<Longrightarrow> cfg_copies self ks base k = base k"
  unfolding cfg_copies_def
  by (induction ks arbitrary: base) (auto simp: cfg_copy_def split: option.splits)

lemma cfg_moved_other: "k \<noteq> new \<Longrightarrow> cfg_moved self old new base k = base k"
  by (simp add: cfg_moved_def cfg_copy_def split: option.splits)

lemma hash_admins_hashed:
  assumes "cfg_env_ok C" and "hash_admins C n ds = Inr r"
  shows "map fst r = map fst ds \<and> (\<forall>v\<in>snd ` set r. hashed v)"
  using assms(2)
proof (induction ds arbitrary: n r)
  case (Cons d ds)
  obtain u v where d: "d = (u, v)" by (cases d)
  show ?case
  proof (cases "truthy v")
    case False
    then obtain r' where "hash_admins C n ds = Inr r'" "r = (u, v) # r'"
      using Cons.prems d by (auto split: sum.splits)
    then show ?thesis using Cons.IH False d by (auto simp: hashed_def)
  next
    case True
    then obtain p r' where p: "v = JStr p" "hash_admins C (Suc n) ds = Inr r'"
        "r = (u, JStr (if bcrypt_match p then p
            else ce_hashpw C n (if p = ''password'' then ce_token C (Suc n) else p))) # r'"
      using Cons.prems d by (auto simp: Let_def split: sum.splits json.splits)
    moreover have "hashed (JStr (if bcrypt_match p then p
            else ce_hashpw C n (if p = ''password'' then ce_token C (Suc n) else p)))"
      using assms(1) by (auto simp: hashed_def cfg_env_ok_def)
    ultimately show ?thesis using Cons.IH [OF p(2)] d by simp
  qed
qed simp

lemma hash_admins_id:
  "(\<forall>v\<in>snd ` set ds. hashed v) \<Longrightarrow> hash_admins C n ds = Inr ds"
proof (induction ds arbitrary: n)
  case (Cons d ds)
  then show ?case by (cases d) (auto simp: hashed_def)
qed simp

lemma do_update_split:
  assumes "do_update C self base = Inr out"
  shows "\<exists>mid b. update_admins C self mid = Inr b \<and> out ''admins'' = b ''admins''
    \<and> out ''server.unshared_secret'' = mid ''server.unshared_secret''
    \<and> mid ''admins'' = base ''admins''
    \<and> (\<exists>m. mid ''server.unshared_secret'' = update_secret C self m ''server.unshared_secret'')"
proof -
  obtain b1 where b1: "update_database self base = Inr b1"
    using assms by (auto simp: do_update_def split: sum.splits)
  let ?b2 = "cfg_copies self [''crypto_db_pickle_key'', ''plugin_directories.upload'',
                ''plugin_directories.load'', ''plugin_directories.trash'']
     (update_crypto_database self (cfg_copies self [''database_opts''] b1))"
  let ?b3 = "cfg_copies self [''plugin_databases.postgres'', ''plugin_databases.postgres_opts'',
                ''server.hostname'', ''server.port'', ''server.public_url'', ''server.listen'',
                ''server.ui_base_path'', ''server.plugin_base_path'', ''server.override_resource_path'']
     (cfg_moved self ''plugin_directories.db'' ''plugin_databases.sqlite'' ?b2)"
  let ?mid = "cfg_moved self ''registration_secrets'' ''homeservers'' (update_secret C self ?b3)"
  obtain b where b: "update_admins C self ?mid = Inr b"
    and out: "out = cfg_copies self [''api_features.login'', ''api_features.plugin'', ''api_features.plugin_upload'',
                 ''api_features.instance'', ''api_features.instance_database'', ''api_features.client'',
                 ''api_features.client_proxy'', ''api_features.client_auth'', ''api_features.dev_open'',
                 ''api_features.log'', ''logging''] b"
    using assms b1 by (auto simp: do_update_def Let_def split: sum.splits)
  have adm: "out ''admins'' = b ''admins''" unfolding out by (rule cfg_copies_other) simp
  have "b1 ''admins'' = base ''admins''" using b1 by (auto simp: update_database_def split: option.splits json.splits)
  then have mid: "?mid ''admins'' = base ''admins''"
    by (simp add: cfg_moved_other cfg_copies_other update_secret_def Let_def update_crypto_database_def
        cfg_copy_def split: option.splits json.splits)
  have "out ''server.unshared_secret'' = b ''server.unshared_secret''" unfolding out by (rule cfg_copies_other) simp
  also have "\<dots> = ?mid ''server.unshared_secret''"
    using b by (auto simp: update_admins_def cfg_copy_def Let_def split: option.splits json.splits sum.splits)
  finally have secret: "out ''server.unshared_secret'' = ?mid ''server.unshared_secret''" .
  have "?mid ''server.unshared_secret'' = update_secret C self ?b3 ''server.unshared_secret''"
    by (simp add: cfg_moved_other)
  then show ?thesis using b adm secret mid by blast
qed

lemma update_secret_value:
  "update_secret C self m ''server.unshared_secret'' = Some
     (if cfg_get self ''server.unshared_secret'' \<in> {JNull, JStr ''generate''} then JStr (ce_token C 0)
      else cfg_get self ''server.unshared_secret'')"
  by (simp add: update_secret_def Let_def)

lemma update_admins_value:
  assumes "cfg_env_ok C" and "update_admins C self mid = Inr b"
  shows "\<exists>ds. b ''admins'' = Some (JObj ds) \<and> (\<forall>v\<in>snd ` set ds. hashed v)"
  using assms hash_admins_hashed
  by (fastforce simp: update_admins_def Let_def split: option.splits json.splits sum.splits)

text \<open>
  C26. After the configuration has been updated no admin password is stored in clear text: each is
  empty or a bcrypt hash. The signing secret is set and is not the placeholder. And the update is
  stable: updating the written configuration again, with whatever new random values, keeps the
  admins and the secret, so passwords and issued tokens stay valid.
\<close>

theorem config_secrets_safe:
  assumes "cfg_env_ok C" and "do_update C self base = Inr out" and "cfg_env_ok C'"
  shows "(\<exists>ds. out ''admins'' = Some (JObj ds) \<and> (\<forall>v\<in>snd ` set ds. hashed v))
    \<and> out ''server.unshared_secret'' \<notin> {None, Some JNull, Some (JStr ''generate'')}
    \<and> (\<forall>base' out'. do_update C' out base' = Inr out' \<longrightarrow>
        out' ''admins'' = out ''admins'' \<and> out' ''server.unshared_secret'' = out ''server.unshared_secret'')"
proof -
  from do_update_split [OF assms(2)] obtain mid b m where s: "update_admins C self mid = Inr b"
      "out ''admins'' = b ''admins''"
      "out ''server.unshared_secret'' = update_secret C self m ''server.unshared_secret''" by metis
  from update_admins_value [OF assms(1) s(1)] s(2) obtain ds
    where ds: "out ''admins'' = Some (JObj ds)" "\<forall>v\<in>snd ` set ds. hashed v" by auto
  have "length (ce_token C 0) = 64" using assms(1) by (simp add: cfg_env_ok_def)
  then have tok: "ce_token C 0 \<noteq> ''generate''" by auto
  then have sec: "out ''server.unshared_secret'' \<notin> {None, Some JNull, Some (JStr ''generate'')}"
    using s(3) by (auto simp: update_secret_value)
  have "out' ''admins'' = out ''admins'' \<and> out' ''server.unshared_secret'' = out ''server.unshared_secret''"
    if out': "do_update C' out base' = Inr out'" for base' out'
  proof -
    from do_update_split [OF out'] obtain mid' b' m' where t: "update_admins C' out mid' = Inr b'"
        "out' ''admins'' = b' ''admins''"
        "out' ''server.unshared_secret'' = update_secret C' out m' ''server.unshared_secret''" by metis
    have "out' ''admins'' = out ''admins''"
      using t(1,2) ds hash_admins_id [OF ds(2), of C' 0]
      by (simp add: update_admins_def cfg_copy_def Let_def)
        (metis fun_upd_same)
    moreover have "out' ''server.unshared_secret'' = out ''server.unshared_secret''"
      using t(3) sec by (auto simp: update_secret_value cfg_get_def split: option.splits)
    ultimately show ?thesis by simp
  qed
  then show ?thesis using ds sec by blast
qed

definition ex_cfg_env :: cfg_env where
  "ex_cfg_env = \<lparr>ce_token = (\<lambda>n. replicate 64 CHR ''t''), ce_hashpw = (\<lambda>n p. ''$2b$'' @ replicate 56 CHR ''h'')\<rparr>"

definition ex_cfg :: cfg where
  "ex_cfg = [''admins'' \<mapsto> JObj [(''root'', JStr []), (''alice'', JStr ''password'')],
     ''server.unshared_secret'' \<mapsto> JStr ''generate'']"

lemma ex_cfg_env_ok: "cfg_env_ok ex_cfg_env"
  by (simp add: cfg_env_ok_def ex_cfg_env_def bcrypt_match_def Let_def)

lemma ex_cfg_update: "\<exists>out. do_update ex_cfg_env ex_cfg Map.empty = Inr out"
  by (simp add: do_update_def update_database_def update_admins_def ex_cfg_def cfg_copies_def cfg_copy_def
      update_crypto_database_def cfg_moved_def update_secret_def cfg_get_def bcrypt_match_def Let_def)

theorem config_secrets_safe_witness:
  "\<exists>out ds. do_update ex_cfg_env ex_cfg Map.empty = Inr out
     \<and> out ''admins'' = Some (JObj ds) \<and> (\<forall>v\<in>snd ` set ds. hashed v)"
  using ex_cfg_update config_secrets_safe [OF ex_cfg_env_ok _ ex_cfg_env_ok] by blast

section \<open>Database start-up\<close>

lemma run_actions_prefix:
  "run_actions fails done as = (r, out) \<Longrightarrow> \<exists>n\<le>length as. out = done @ take n as \<and> (r = None \<longleftrightarrow> n = length as)"
proof (induction "as" arbitrary: "done")
  case (Cons a "as")
  show ?case
  proof (cases "fails a")
    case None
    then have "run_actions fails (done @ [a]) as = (r, out)" using Cons.prems by simp
    from Cons.IH [OF this] obtain n
      where "n \<le> length as" "out = (done @ [a]) @ take n as" "r = None \<longleftrightarrow> n = length as" by blast
    then show ?thesis by (intro exI [of _ "Suc n"]) auto
  next
    case (Some x)
    then show ?thesis using Cons.prems by (cases x) (auto intro!: exI [of _ 0])
  qed
qed auto

text \<open>
  The plugin database is PostgreSQL or absent, otherwise the program exits with code 24. The
  main database is started before anything else, no pool is started twice, and a failure leaves
  the later ones untouched and ends the program, with code 25 for a database exception.
\<close>

theorem database_startup:
  assumes "prepare_db has_crypto scheme_of c = Inr p" and "start_db fails p = (r, acts)"
  shows "(dp_plugin p = MainPool \<longrightarrow> scheme_of (dp_main p) = Postgres)
    \<and> (\<forall>u. dp_plugin p = OwnPool u \<longrightarrow> scheme_of u = Postgres)
    \<and> distinct acts \<and> (acts \<noteq> [] \<longrightarrow> hd acts = StartMain)
    \<and> (r = None \<longleftrightarrow> acts = start_actions p)
    \<and> (\<exists>n. acts = take n (start_actions p))"
proof -
  have plug: "(dp_plugin p = MainPool \<longrightarrow> scheme_of (dp_main p) = Postgres)
    \<and> (\<forall>u. dp_plugin p = OwnPool u \<longrightarrow> scheme_of u = Postgres)"
    using assms(1) by (auto simp: prepare_db_def Let_def split: if_splits)
  obtain n where n: "n \<le> length (start_actions p)" "acts = take n (start_actions p)"
      "r = None \<longleftrightarrow> n = length (start_actions p)"
    using run_actions_prefix [of fails "[]" "start_actions p" r acts] assms(2) by (auto simp: start_db_def)
  have "distinct (start_actions p)" "hd (start_actions p) = StartMain" "start_actions p \<noteq> []"
    by (simp_all add: start_actions_def split: pool_choice.splits)
  then have "distinct acts" "acts \<noteq> [] \<longrightarrow> hd acts = StartMain"
    using n(2) by (auto simp: hd_take)
  moreover have "r = None \<longleftrightarrow> acts = start_actions p"
    using n by (metis length_take min.absorb2 take_all_iff order_refl)
  ultimately show ?thesis using plug n(2) by blast
qed

theorem database_startup_witness:
  "\<exists>p r acts. prepare_db True (\<lambda>u. Postgres) \<lparr>dc_database = ''postgres://x'', dc_crypto_database = ''default'',
        dc_plugin_postgres = Some ''default''\<rparr> = Inr p
     \<and> start_db (\<lambda>a. if a = UpgradeCryptoInMain then Some None else None) p = (r, acts)
     \<and> r = Some (SystemExit 25) \<and> distinct acts \<and> acts = [StartMain, UpgradeStateStore]"
proof -
  let ?c = "\<lparr>dc_database = ''postgres://x'', dc_crypto_database = ''default'', dc_plugin_postgres = Some ''default''\<rparr>"
  let ?f = "\<lambda>a. if a = UpgradeCryptoInMain then Some None else None"
  obtain p where p: "prepare_db True (\<lambda>u. Postgres) ?c = Inr p" by (simp add: prepare_db_def)
  have s: "start_db ?f p = (Some (SystemExit 25), [StartMain, UpgradeStateStore])"
    using p by (auto simp: prepare_db_def start_db_def start_actions_def Let_def)
  from database_startup [OF p s] p s show ?thesis by blast
qed

text \<open>Messages of a plugin loader are shown under the name of the instances' logger.\<close>

lemma color_name_loader:
  "color_name K f (''maubot.loader.'' @ x)
     = colored K (MAU_COLOR K) ''maubot.instance'' @ ''.'' @ colored K (LOADER_COLOR K) x"
  by (simp add: color_name_def startswith_def)

end
