(* ===== verification/MB_Proxy.thy ===== *)
theory MB_Proxy
  imports MB_Management
begin

text \<open>
  The proxy endpoint of \<^verbatim>\<open>management/api/client_proxy.py\<close>, through which the management frontend
  talks to a homeserver in the name of a client: what of a request is passed on. The exchange with
  the homeserver itself, whose answer is streamed back, is outside the model.
\<close>

section \<open>Multidicts\<close>

text \<open>
  aiohttp keeps queries and headers as lists of pairs; header names are compared without case.
  Assignment replaces the first pair of that name and drops the others.
\<close>

definition ci_eq :: "string \<Rightarrow> string \<Rightarrow> bool" where
  "ci_eq a b \<longleftrightarrow> str_lower a = str_lower b"

definition ci_in :: "string \<Rightarrow> (string \<times> string) list \<Rightarrow> bool" where
  "ci_in k hs \<longleftrightarrow> (\<exists>(n, v)\<in>set hs. ci_eq n k)"

definition ci_del :: "string \<Rightarrow> (string \<times> string) list \<Rightarrow> (string \<times> string) list" where
  "ci_del k hs = filter (\<lambda>(n, v). \<not> ci_eq n k) hs"

fun ci_set :: "string \<Rightarrow> string \<Rightarrow> (string \<times> string) list \<Rightarrow> (string \<times> string) list" where
  "ci_set k v [] = [(k, v)]"
| "ci_set k v ((n, x) # hs) = (if ci_eq n k then (k, v) # ci_del k hs else (n, x) # ci_set k v hs)"

section \<open>The endpoint\<close>

record proxy_request =
  px_user_id :: string
  px_path :: string
  px_method :: string
  px_query :: "(string \<times> string) list"
  px_headers :: "(string \<times> string) list"
  px_peername :: "(string \<times> string) option"
  px_data :: string

record outgoing =
  og_method :: string
  og_url :: string
  og_headers :: "(string \<times> string) list"
  og_params :: "(string \<times> string) list"
  og_data :: string

text \<open>\<^verbatim>\<open>str()\<close> of an optional string in an f-string.\<close>

definition fstr :: "string option \<Rightarrow> string" where
  "fstr x = (case x of None \<Rightarrow> ''None'' | Some s \<Rightarrow> s)"

definition proxy_headers :: "client \<Rightarrow> proxy_request \<Rightarrow> exn + (string \<times> string) list" where
  "proxy_headers c request =
     (if \<not> ci_in ''Host'' (px_headers request) then Inl KeyError
      else
        let headers = ci_del ''Host'' (px_headers request);
            headers = ci_set ''Authorization'' (''Bearer '' @ fstr (access_token c)) headers in
        Inr (if \<not> ci_in ''X-Forwarded-For'' headers
             then (case px_peername request of
                     None \<Rightarrow> headers
                   | Some (host, port) \<Rightarrow> ci_set ''X-Forwarded-For'' (host @ '':'' @ port) headers)
             else headers))"

definition proxy ::
    "('y, 'c) env \<Rightarrow> proxy_request \<Rightarrow> world \<Rightarrow> (world, web_response + outgoing) res" where
  "proxy E request w =
     bind (client_get E None None None (px_user_id request) w) (\<lambda>c w.
     case c of
       None \<Rightarrow> Ok (Inl resp_client_not_found) w
     | Some a \<Rightarrow>
         let query = filter (\<lambda>(k, v). k \<noteq> ''access_token'') (px_query request) in
         (case proxy_headers (clients w ! a) request of
            Inl e \<Rightarrow> Raise e w
          | Inr headers \<Rightarrow>
              Ok (Inr \<lparr>og_method = px_method request,
                og_url = fstr (homeserver (clients w ! a)) @ ''/'' @ px_path request,
                og_headers = headers, og_params = query, og_data = px_data request\<rparr>) w))"

section \<open>Credentials\<close>

lemma ci_eq_refl [simp]: "ci_eq k k"
  by (simp add: ci_eq_def)

lemma ci_eq_trans: "ci_eq n k \<Longrightarrow> ci_eq n j \<Longrightarrow> ci_eq k j"
  by (simp add: ci_eq_def)

lemma ci_filter_other:
  "\<not> ci_eq k j \<Longrightarrow> filter (\<lambda>(n, v). ci_eq n j) (ci_del k hs) = filter (\<lambda>(n, v). ci_eq n j) hs"
  by (induction hs) (auto simp: ci_del_def ci_eq_def)

lemma ci_filter_del: "filter (\<lambda>(n, v). ci_eq n k) (ci_del k hs) = []"
  by (induction hs) (auto simp: ci_del_def)

lemma ci_filter_set: "filter (\<lambda>(n, v). ci_eq n k) (ci_set k v hs) = [(k, v)]"
  by (induction k v hs rule: ci_set.induct) (auto simp: ci_filter_del)

lemma ci_filter_set_other:
  "\<not> ci_eq k j \<Longrightarrow> filter (\<lambda>(n, v). ci_eq n j) (ci_set k v hs) = filter (\<lambda>(n, v). ci_eq n j) hs"
  by (induction k v hs rule: ci_set.induct) (auto simp: ci_eq_def ci_filter_other [unfolded ci_eq_def])

lemma header_names:
  "\<not> ci_eq ''Authorization'' ''Host''" "\<not> ci_eq ''X-Forwarded-For'' ''Host''"
  "\<not> ci_eq ''X-Forwarded-For'' ''Authorization''" "\<not> ci_eq ''Host'' ''Authorization''"
  by (simp_all add: ci_eq_def str_lower_def char_lower_def)

lemma proxy_headers_auth:
  assumes "proxy_headers c request = Inr hs"
  shows "filter (\<lambda>(n, v). ci_eq n ''Authorization'') hs = [(''Authorization'', ''Bearer '' @ fstr (access_token c))]
    \<and> filter (\<lambda>(n, v). ci_eq n ''Host'') hs = []"
  using assms
  by (auto simp: proxy_headers_def Let_def ci_filter_set ci_filter_set_other ci_filter_del header_names
      split: if_splits option.splits)

text \<open>
  C27. The proxy never passes on the credentials of the admin who uses it: whatever headers and
  query the request has, what goes to the homeserver has exactly one \<open>Authorization\<close> header, the
  client's own token, no \<open>Host\<close> header and no \<open>access_token\<close> parameter, and it goes to the
  homeserver of that client.
\<close>

theorem proxy_credentials:
  assumes "proxy E request w = Ok (Inr out) w'"
  shows "\<exists>a. client_get E None None None (px_user_id request) w = Ok (Some a) w'
    \<and> filter (\<lambda>(n, v). ci_eq n ''Authorization'') (og_headers out)
        = [(''Authorization'', ''Bearer '' @ fstr (access_token (clients w' ! a)))]
    \<and> filter (\<lambda>(n, v). ci_eq n ''Host'') (og_headers out) = []
    \<and> ''access_token'' \<notin> fst ` set (og_params out)
    \<and> startswith (og_url out) (fstr (homeserver (clients w' ! a)) @ ''/'')"
proof -
  obtain c v where c: "client_get E None None None (px_user_id request) w = Ok c v"
    using assms by (auto simp: proxy_def bind_eq_Ok)
  then obtain a where a: "c = Some a" using assms by (cases c) (simp_all add: proxy_def)
  then obtain hs where hs: "proxy_headers (clients v ! a) request = Inr hs"
    using assms c by (cases "proxy_headers (clients v ! a) request") (simp_all add: proxy_def)
  have out: "v = w'" "og_headers out = hs"
      "og_params out = filter (\<lambda>(k, v). k \<noteq> ''access_token'') (px_query request)"
      "og_url out = fstr (homeserver (clients v ! a)) @ ''/'' @ px_path request"
    using assms c a hs by (auto simp: proxy_def)
  have u: "startswith (og_url out) (fstr (homeserver (clients v ! a)) @ ''/'')"
    unfolding out(4) startswith_iff by simp
  have p: "''access_token'' \<notin> fst ` set (og_params out)" using out(3) by auto
  show ?thesis
    by (rule exI [of _ a]) (use c a out(1,2) u p proxy_headers_auth [OF hs] in blast)
qed

definition ex_proxy :: proxy_request where
  "ex_proxy = \<lparr>px_user_id = ''@a:b'', px_path = ''_matrix/client/v3/sync'', px_method = ''GET'',
     px_query = [(''access_token'', ''admin''), (''since'', ''s1'')],
     px_headers = [(''Host'', ''bot''), (''authorization'', ''Bearer admin'')],
     px_peername = Some (''10.0.0.1'', ''4242''), px_data = []\<rparr>"

theorem proxy_credentials_witness:
  "\<exists>out. proxy ex_who ex_proxy ex_store = Ok (Inr out) ex_store1
     \<and> filter (\<lambda>(n, v). ci_eq n ''Authorization'') (og_headers out) = [(''Authorization'', ''Bearer '' @ fstr (access_token ex_client))]
     \<and> ''access_token'' \<notin> fst ` set (og_params out)"
proof -
  obtain out where o: "proxy ex_who ex_proxy ex_store = Ok (Inr out) ex_store1"
  proof -
    have "ci_in ''Host'' (px_headers ex_proxy)"
      by (simp add: ci_in_def ex_proxy_def)
    then obtain hs where "proxy_headers (clients ex_store1 ! 0) ex_proxy = Inr hs"
      by (simp add: proxy_headers_def Let_def)
    moreover have "px_user_id ex_proxy = ''@a:b''" by (simp add: ex_proxy_def)
    ultimately show ?thesis using that by (simp add: proxy_def ex_client_get)
  qed
  from proxy_credentials [OF o] o show ?thesis
    by (auto simp: ex_client_get ex_proxy_def ex_store1_def)
qed

end
