(* ===== verification/MB_Effects.thy ===== *)
theory MB_Effects
  imports MB_Prelude
begin

text \<open>
  Code that changes a state and may raise, for the programs around the server, which have exceptions
  of their own: like \<open>res\<close> of the prelude, with the exceptions as a parameter, and written with
  functions from states instead of results.
\<close>

type_synonym ('e, 's, 'a) em = "'s \<Rightarrow> ('e + 'a) \<times> 's"

definition cret :: "'a \<Rightarrow> ('e, 's, 'a) em" where
  "cret x s = (Inr x, s)"

definition craise :: "'e \<Rightarrow> ('e, 's, 'a) em" where
  "craise e s = (Inl e, s)"

definition cbind :: "('e, 's, 'a) em \<Rightarrow> ('a \<Rightarrow> ('e, 's, 'b) em) \<Rightarrow> ('e, 's, 'b) em" where
  "cbind m k s = (case m s of (Inl e, t) \<Rightarrow> (Inl e, t) | (Inr x, t) \<Rightarrow> k x t)"

definition ccatch :: "('e, 's, 'a) em \<Rightarrow> ('e \<Rightarrow> ('e, 's, 'a) em) \<Rightarrow> ('e, 's, 'a) em" where
  "ccatch m h s = (case m s of (Inl e, t) \<Rightarrow> h e t | (Inr x, t) \<Rightarrow> (Inr x, t))"

text \<open>\<open>m; n\<close>.\<close>

definition cthen :: "('e, 's, unit) em \<Rightarrow> ('e, 's, 'b) em \<Rightarrow> ('e, 's, 'b) em" where
  "cthen m n = cbind m (\<lambda>_. n)"

definition clift :: "'e + 'a \<Rightarrow> ('e, 's, 'a) em" where
  "clift r = (case r of Inl e \<Rightarrow> craise e | Inr x \<Rightarrow> cret x)"

definition cget :: "('s \<Rightarrow> 'a) \<Rightarrow> ('e, 's, 'a) em" where
  "cget f s = (Inr (f s), s)"

definition cput :: "('s \<Rightarrow> 's) \<Rightarrow> ('e, 's, unit) em" where
  "cput f s = (Inr (), f s)"

definition cwhen :: "bool \<Rightarrow> ('e, 's, unit) em \<Rightarrow> ('e, 's, unit) em" where
  "cwhen b m = (if b then m else cret ())"

section \<open>What code does to the state\<close>

text \<open>
  A relation between the states before and after that holds however the code ends. The rules need it
  to be reflexive and transitive; each use instantiates the locale.
\<close>

definition steps_by :: "('s \<Rightarrow> 's \<Rightarrow> bool) \<Rightarrow> ('e, 's, 'a) em \<Rightarrow> bool" where
  "steps_by R m \<longleftrightarrow> (\<forall>s. R s (snd (m s)))"

locale state_relation =
  fixes R :: "'s \<Rightarrow> 's \<Rightarrow> bool"
  assumes R_refl: "R s s"
    and R_trans: "R s t \<Longrightarrow> R t u \<Longrightarrow> R s u"
begin

lemma by_pure: "steps_by R (cret x)" "steps_by R (craise e)" "steps_by R (cget f)"
  by (simp_all add: steps_by_def cret_def craise_def cget_def R_refl)

lemma by_lift: "steps_by R (clift r)"
  by (simp add: clift_def by_pure split: sum.split)

lemma by_bind: "steps_by R m \<Longrightarrow> (\<And>x. steps_by R (k x)) \<Longrightarrow> steps_by R (cbind m k)"
  unfolding steps_by_def cbind_def by (auto split: prod.split sum.split) (metis R_trans snd_conv)+

lemma by_then: "steps_by R m \<Longrightarrow> steps_by R n \<Longrightarrow> steps_by R (cthen m n)"
  by (simp add: cthen_def by_bind)

lemma by_catch: "steps_by R m \<Longrightarrow> (\<And>e. steps_by R (h e)) \<Longrightarrow> steps_by R (ccatch m h)"
  unfolding steps_by_def ccatch_def by (auto split: prod.split sum.split) (metis R_trans snd_conv)+

lemma by_when: "steps_by R m \<Longrightarrow> steps_by R (cwhen b m)"
  by (simp add: cwhen_def by_pure)

lemmas by_rules = by_pure by_lift by_bind by_then by_catch by_when

end

end
