(* ===== verification/MB_Cliq.thy ===== *)
theory MB_Cliq
  imports MB_Effects
begin

text \<open>
  The command line client, its frame: the saved servers and tokens (\<^verbatim>\<open>cli/config.py\<close>), the validators
  (\<^verbatim>\<open>cli/cliq/validators.py\<close>, \<^verbatim>\<open>cli/util/spdx.py\<close>) and the decorators that ask for missing options and
  open HTTP sessions (\<^verbatim>\<open>cli/cliq/cliq.py\<close>). The commands are in the theory that follows.

  The terminal colours, the network, the file system, the prompt of \<^verbatim>\<open>questionary\<close>, version parsing
  and Python's \<^verbatim>\<open>str\<close> on decoded values are parameters. The state records what the client prints,
  sends and writes.
\<close>

section \<open>State and effects\<close>

datatype cli_exn =
    ClientError string
  | ContentTypeError string
  | JSONDecodeError
  | BadParameter string
  | ValidationError string
  | CliExn exn

text \<open>\<^verbatim>\<open>aiohttp.ContentTypeError\<close> is a subclass of \<^verbatim>\<open>aiohttp.ClientError\<close>.\<close>

fun client_error_text :: "cli_exn \<Rightarrow> string option" where
  "client_error_text (ClientError m) = Some m"
| "client_error_text (ContentTypeError m) = Some m"
| "client_error_text _ = None"

text \<open>The global \<^verbatim>\<open>config\<close> and the JSON object of \<^verbatim>\<open>maubot-cli.json\<close>, in which entries may be missing.\<close>

record cli_config =
  cc_servers :: "(string, json) dict"
  cc_aliases :: "(string, string) dict"
  cc_default_server :: "string option"

record cli_file =
  cf_servers :: "(string, json) dict option"
  cf_aliases :: "(string, string) dict option"
  cf_default_server :: "string option option"

datatype zip_entry = ZipText string string | ZipFile string

datatype cli_content = PlainText string | ZipArchive "zip_entry list"

datatype req_body = NoBody | JsonBody json | FileBody cli_content | WsToken json

text \<open>
  A request to \<^verbatim>\<open>URL(server) / path\<close> with a query, sent by a session with an authorization header; the
  log websocket sends the token as its first message instead.
\<close>

record cli_request =
  rq_server :: string
  rq_path :: "string list"
  rq_query :: "(string, string) dict"
  rq_bearer :: "json option"
  rq_body :: req_body

record http_resp =
  rs_status :: nat
  rs_json :: "cli_exn + json"
  rs_text :: string

record cli =
  cl_config :: cli_config
  cl_saved :: "cli_file option"
  cl_out :: "string list"
  cl_requests :: "cli_request list"
  cl_files :: "(string, cli_content) dict"

text \<open>The outside world; the network sees how many requests were made before.\<close>

record cli_env =
  RED :: string
  GREEN :: string
  CYAN :: string
  YELLOW :: string
  MAGENTA :: string
  FORE_RESET :: string
  py_str :: "json \<Rightarrow> string"
  net :: "nat \<Rightarrow> cli_request \<Rightarrow> cli_exn + http_resp"
  traceback :: "cli_exn \<Rightarrow> string"

type_synonym 'a cli_m = "(cli_exn, cli, 'a) em"

definition cprint :: "string \<Rightarrow> unit cli_m" where
  "cprint line s = (Inr (), s\<lparr>cl_out := cl_out s @ [line]\<rparr>)"

fun cprints :: "string list \<Rightarrow> unit cli_m" where
  "cprints [] = cret ()"
| "cprints (l # ls) = cthen (cprint l) (cprints ls)"

definition cli_write_file :: "string \<Rightarrow> cli_content \<Rightarrow> unit cli_m" where
  "cli_write_file p c s = (Inr (), s\<lparr>cl_files := dict_set p c (cl_files s)\<rparr>)"

text \<open>\<^verbatim>\<open>data[key]\<close> on a decoded JSON value.\<close>

definition subscript :: "json \<Rightarrow> string \<Rightarrow> cli_exn + json" where
  "subscript data key =
     (case data of
        JObj d \<Rightarrow> (case map_of d key of None \<Rightarrow> Inl (CliExn KeyError) | Some v \<Rightarrow> Inr v)
      | _ \<Rightarrow> Inl (CliExn TypeError))"

definition http_send :: "cli_env \<Rightarrow> cli_request \<Rightarrow> http_resp cli_m" where
  "http_send E r s = (net E (length (cl_requests s)) r, s\<lparr>cl_requests := cl_requests s @ [r]\<rparr>)"

section \<open>Saved servers\<close>

definition get_token_of :: "cli_env \<Rightarrow> string \<Rightarrow> json cli_m" where
  "get_token_of E server =
     cbind (cget (\<lambda>s. map_of (cc_servers (cl_config s)) server)) (\<lambda>t. case t of
       Some tok \<Rightarrow> cret tok
     | None \<Rightarrow> cthen (cprint (RED E @ ''No access token saved for '' @ server @ ''.'' @ FORE_RESET E)) (cret JNull))"

definition get_default_server :: "cli_env \<Rightarrow> (string option \<times> json) cli_m" where
  "get_default_server E =
     cbind (cget (\<lambda>s. cc_default_server (cl_config s))) (\<lambda>d. case d of
       None \<Rightarrow>
         cthen (cprints [RED E @ ''Default server not configured.'' @ FORE_RESET E,
           ''Perhaps you forgot to '' @ CYAN E @ ''mbc login'' @ FORE_RESET E @ ''?''])
         (cret (None, JNull))
     | Some server \<Rightarrow> cbind (get_token_of E server) (\<lambda>t. cret (Some server, t)))"

text \<open>\<^verbatim>\<open>server\<close> may be \<^verbatim>\<open>None\<close> or empty.\<close>

definition cli_get_token :: "cli_env \<Rightarrow> string option \<Rightarrow> (string option \<times> json) cli_m" where
  "cli_get_token E server =
     (if \<not> opt_truthy server then get_default_server E
      else cbind (cget (\<lambda>s. dict_get (cc_aliases (cl_config s)) (the server) (the server))) (\<lambda>server.
        cbind (get_token_of E server) (\<lambda>t. cret (Some server, t))))"

definition resolve_alias :: "cli_config \<Rightarrow> string \<Rightarrow> string option" where
  "resolve_alias c a = map_of (cc_aliases c) a"

definition cli_save_config :: "unit cli_m" where
  "cli_save_config s = (Inr (), s\<lparr>cl_saved := Some
     \<lparr>cf_servers = Some (cc_servers (cl_config s)), cf_aliases = Some (cc_aliases (cl_config s)),
      cf_default_server = Some (cc_default_server (cl_config s))\<rparr>\<rparr>)"

definition or_default :: "'a option \<Rightarrow> 'a \<Rightarrow> 'a" where
  "or_default v d = (case v of None \<Rightarrow> d | Some x \<Rightarrow> x)"

definition cli_load_config :: "unit cli_m" where
  "cli_load_config s = (Inr (), case cl_saved s of
     None \<Rightarrow> s
   | Some f \<Rightarrow> s\<lparr>cl_config :=
       \<lparr>cc_servers = or_default (cf_servers f) [], cc_aliases = or_default (cf_aliases f) [],
        cc_default_server = or_default (cf_default_server f) None\<rparr>\<rparr>)"

text \<open>A new process: the initial value of \<^verbatim>\<open>config\<close>, then \<^verbatim>\<open>load_config\<close> as \<^verbatim>\<open>app\<close> calls it.\<close>

definition cli_start :: "cli_file option \<Rightarrow> cli" where
  "cli_start f = snd (cli_load_config
     \<lparr>cl_config = \<lparr>cc_servers = [], cc_aliases = [], cc_default_server = None\<rparr>,
      cl_saved = f, cl_out = [], cl_requests = [], cl_files = []\<rparr>)"

section \<open>HTTP sessions\<close>

definition report_connection_error :: "cli_env \<Rightarrow> cli_exn \<Rightarrow> unit cli_m" where
  "report_connection_error E e =
     (case client_error_text e of
        Some m \<Rightarrow> cprint (RED E @ ''Connection error: '' @ m @ FORE_RESET E)
      | None \<Rightarrow> craise e)"

definition with_http :: "cli_env \<Rightarrow> (json option \<Rightarrow> unit cli_m) \<Rightarrow> unit cli_m" where
  "with_http E func = ccatch (func None) (report_connection_error E)"

definition with_authenticated_http ::
    "cli_env \<Rightarrow> (json option \<Rightarrow> string \<Rightarrow> unit cli_m) \<Rightarrow> string option \<Rightarrow> unit cli_m" where
  "with_authenticated_http E func server =
     cbind (cli_get_token E server) (\<lambda>(server, token).
       if \<not> truthy token then cret ()
       else ccatch (func (Some token) (the server)) (report_connection_error E))"

section \<open>Validators\<close>

text \<open>The list of licences is loaded on first use.\<close>

record spdx =
  spdx_list :: "(string, string) dict option"

definition spdx_load :: "(string, string) dict \<Rightarrow> spdx \<Rightarrow> spdx" where
  "spdx_load file s = (case spdx_list s of Some _ \<Rightarrow> s | None \<Rightarrow> s\<lparr>spdx_list := Some file\<rparr>)"

definition spdx_ready :: "(string, string) dict \<Rightarrow> spdx \<Rightarrow> spdx" where
  "spdx_ready file s = (if spdx_list s = None \<or> spdx_list s = Some [] then spdx_load file s else s)"

definition spdx_get :: "(string, string) dict \<Rightarrow> string \<Rightarrow> spdx \<Rightarrow> (cli_exn + string) \<times> spdx" where
  "spdx_get file i s =
     (let s = spdx_ready file s in
      (case map_of (the (spdx_list s)) i of None \<Rightarrow> Inl (CliExn KeyError) | Some l \<Rightarrow> Inr l, s))"

definition spdx_valid :: "(string, string) dict \<Rightarrow> string \<Rightarrow> spdx \<Rightarrow> bool \<times> spdx" where
  "spdx_valid file i s = (let s = spdx_ready file s in (in_dict i (the (spdx_list s)), s))"

text \<open>The file system as it looks from a working directory.\<close>

record fsview =
  abspath :: "string \<Rightarrow> string"
  path_exists :: "string \<Rightarrow> bool"
  isdir :: "string \<Rightarrow> bool"
  isfile :: "string \<Rightarrow> bool"
  dirname :: "string \<Rightarrow> string"
  getcwd :: string
  walk :: "string \<Rightarrow> (string \<times> string list) list"
  iglob :: "string \<Rightarrow> string list"

definition path_type :: "fsview \<Rightarrow> string \<Rightarrow> cli_exn + string" where
  "path_type F v =
     (let v = abspath F v in
      if path_exists F v then Inr v
      else let directory = dirname F v in
        if \<not> isdir F directory then
          Inl (BadParameter (directory @ (if path_exists F directory then '' is not a directory'' else '' does not exist'')))
        else Inr v)"

text \<open>\<open>parse\<close> stands for \<^verbatim>\<open>packaging.version.Version\<close>; a version is represented by its normal form.\<close>

definition version_type :: "(string \<Rightarrow> string option) \<Rightarrow> string \<Rightarrow> cli_exn + string" where
  "version_type parse v =
     (case parse v of None \<Rightarrow> Inl (BadParameter (v @ '' is not a valid PEP-440 version'')) | Some n \<Rightarrow> Inr n)"

definition spdx_type :: "(string, string) dict \<Rightarrow> string \<Rightarrow> cli_exn + string" where
  "spdx_type licences v =
     (if \<not> fst (spdx_valid licences v \<lparr>spdx_list = None\<rparr>)
      then Inl (BadParameter (v @ '' is not a valid SPDX license identifier'')) else Inr v)"

text \<open>\<^verbatim>\<open>ClickValidator.validate\<close> and \<^verbatim>\<open>Required.validate\<close>.\<close>

definition click_validate :: "(string \<Rightarrow> cli_exn + string) \<Rightarrow> string \<Rightarrow> cli_exn + unit" where
  "click_validate click_type t =
     (case click_type t of
        Inr _ \<Rightarrow> Inr ()
      | Inl (BadParameter m) \<Rightarrow> Inl (ValidationError m)
      | Inl e \<Rightarrow> Inl e)"

definition required_validate :: "(string \<Rightarrow> cli_exn + unit) option \<Rightarrow> string \<Rightarrow> cli_exn + unit" where
  "required_validate proxy t =
     (if length t = 0 then Inl (ValidationError ''This field is required'')
      else case proxy of None \<Rightarrow> Inr () | Some p \<Rightarrow> p t)"

section \<open>Options and questions\<close>

text \<open>
  \<^verbatim>\<open>required_unless\<close>: the name of another option, a list of names, or pairs of a name and a value.
\<close>

datatype required_unless =
    UnlessKey string
  | UnlessAny "string list"
  | UnlessEq "(string \<times> json) list"

record question =
  q_type :: string
  q_name :: string
  q_message :: string
  q_required_unless :: "required_unless option"
  q_default :: "json option"
  q_validate :: "(string \<Rightarrow> cli_exn + unit) option"

record opt =
  o_long :: string
  o_message :: string
  o_inq_type :: "string option"
  o_validator :: "(string \<Rightarrow> cli_exn + unit) option"
  o_required :: bool
  o_default :: "json option"
  o_is_flag :: bool
  o_prompt :: bool
  o_required_unless :: "required_unless option"

text \<open>Option names are ASCII.\<close>

definition capitalized :: "string \<Rightarrow> string" where
  "capitalized n = (case n of [] \<Rightarrow> [] | c # cs \<Rightarrow> char_upper c # cs)"

definition option_question :: "opt \<Rightarrow> question" where
  "option_question p =
     \<lparr>q_type = (case o_inq_type p of Some t \<Rightarrow> t | None \<Rightarrow> if o_is_flag p then ''confirm'' else ''input''),
      q_name = drop 2 (o_long p),
      q_message = (if o_message p = [] then capitalized (drop 2 (o_long p)) else o_message p),
      q_required_unless = o_required_unless p,
      q_default = o_default p,
      q_validate =
        (if o_required p \<or> o_required_unless p \<noteq> None then Some (required_validate (o_validator p))
         else o_validator p)\<rparr>"

text \<open>
  The decorators of a function are applied from the last to the first; each that prompts adds its
  question to \<^verbatim>\<open>__inquirer_questions__\<close>.
\<close>

fun add_option :: "opt \<Rightarrow> (string, question) dict \<Rightarrow> (string, question) dict" where
  "add_option p d = (if o_prompt p then dict_set (drop 2 (o_long p)) (option_question p) d else d)"

definition questions_of :: "opt list \<Rightarrow> (string, question) dict" where
  "questions_of ps = foldr add_option ps []"

definition yesno :: "json \<Rightarrow> json" where
  "yesno v =
     (if \<not> truthy v then JNull
      else case v of
        JBool b \<Rightarrow> JBool b
      | JStr t \<Rightarrow>
          if str_lower t \<in> set [''true'', ''t'', ''yes'', ''y''] then JBool True
          else if str_lower t \<in> set [''false'', ''f'', ''no'', ''n''] then JBool False
          else JNull
      | _ \<Rightarrow> JNull)"

subsection \<open>Which questions are asked\<close>

text \<open>The loop over a list of names; a name that is not an option ends it by a \<^verbatim>\<open>KeyError\<close>.\<close>

fun any_given :: "(string, json) dict \<Rightarrow> string list \<Rightarrow> bool" where
  "any_given kwargs [] = False"
| "any_given kwargs (v # vs) =
     (case map_of kwargs v of None \<Rightarrow> False | Some x \<Rightarrow> if truthy x then True else any_given kwargs vs)"

text \<open>\<^verbatim>\<open>kwargs.get(v, object()) == v\<close>.\<close>

definition value_is_own_key :: "(string, json) dict \<Rightarrow> json \<Rightarrow> bool" where
  "value_is_own_key kwargs v = (case v of JStr t \<Rightarrow> map_of kwargs t = Some (JStr t) | _ \<Rightarrow> False)"

definition excused :: "(string, json) dict \<Rightarrow> required_unless \<Rightarrow> bool" where
  "excused kwargs u =
     (case u of
        UnlessKey k \<Rightarrow> any_given kwargs [k]
      | UnlessAny ks \<Rightarrow> any_given kwargs ks
      | UnlessEq kvs \<Rightarrow> list_ex (\<lambda>(k, v). value_is_own_key kwargs v) kvs)"

definition answered :: "question \<Rightarrow> json \<Rightarrow> bool" where
  "answered q v \<longleftrightarrow> v \<noteq> JNull \<and> (q_type q \<noteq> ''confirm'' \<or> v \<noteq> JStr ''null'')"

text \<open>The body of the loop over the arguments.\<close>

definition check_argument ::
    "(string, json) dict \<Rightarrow> string \<times> json \<Rightarrow> (string, question) dict \<Rightarrow> (string, question) dict" where
  "check_argument kwargs kv questions =
     (case kv of (key, v) \<Rightarrow>
        case map_of questions key of
          None \<Rightarrow> questions
        | Some q \<Rightarrow>
            if answered q v then dict_del key questions
            else case q_required_unless q of
              None \<Rightarrow> questions
            | Some u \<Rightarrow>
                if excused kwargs u then dict_del key questions
                else dict_set key (q\<lparr>q_required_unless := None\<rparr>) questions)"

definition question_list :: "(string, json) dict \<Rightarrow> (string, question) dict \<Rightarrow> question list" where
  "question_list kwargs questions = rev (map snd (fold (check_argument kwargs) kwargs questions))"

definition dict_update :: "('k, 'v) dict \<Rightarrow> ('k, 'v) dict \<Rightarrow> ('k, 'v) dict" where
  "dict_update d e = fold (\<lambda>(k, v). dict_set k v) e d"

text \<open>\<open>prompt\<close> is \<^verbatim>\<open>questionary.prompt\<close>; an interrupted prompt gives an empty answer.\<close>

definition cliq_command ::
    "cli_env \<Rightarrow> (question list \<Rightarrow> (string, json) dict) \<Rightarrow> (string, question) dict
     \<Rightarrow> ((string, json) dict \<Rightarrow> unit cli_m) \<Rightarrow> (string, json) dict \<Rightarrow> unit cli_m" where
  "cliq_command E prompt questions func kwargs =
     (let qs = question_list kwargs questions; resp = prompt qs in
      if resp = [] \<and> qs \<noteq> [] then cret ()
      else ccatch (func (dict_update kwargs resp)) (\<lambda>e.
        cprints [RED E @ ''Fatal error running command'' @ FORE_RESET E, traceback E e]))"

text \<open>
  With pairs of a name and a value the test looks up the value instead of the name, so an option is not
  excused although the other one has the value that was asked for.
\<close>

lemma unless_compares_value_with_itself:
  "map_of kwargs k = Some (JStr t) \<Longrightarrow> map_of kwargs t = None \<Longrightarrow> \<not> excused kwargs (UnlessEq [(k, JStr t)])"
  by (simp add: excused_def value_is_own_key_def)

section \<open>The prompt\<close>

text \<open>
  What is to be asked: an option without a value that no other option excuses. The loop above works
  on a dict that shrinks while it runs; that it computes this list is shown below.
\<close>

definition needed :: "(string, json) dict \<Rightarrow> question \<Rightarrow> bool" where
  "needed kwargs q \<longleftrightarrow>
     (case map_of kwargs (q_name q) of
        None \<Rightarrow> True
      | Some v \<Rightarrow> \<not> answered q v \<and>
          (case q_required_unless q of None \<Rightarrow> True | Some u \<Rightarrow> \<not> excused kwargs u))"

text \<open>An option that was checked has lost its \<^verbatim>\<open>required_unless\<close>.\<close>

definition as_asked :: "(string, json) dict \<Rightarrow> question \<Rightarrow> question" where
  "as_asked kwargs q = (if in_dict (q_name q) kwargs then q\<lparr>q_required_unless := None\<rparr> else q)"

definition settle ::
    "(string, json) dict \<Rightarrow> (string, json) dict \<Rightarrow> string \<times> question \<Rightarrow> (string \<times> question) option" where
  "settle kwargs ks kq =
     (case map_of ks (fst kq) of
        None \<Rightarrow> Some kq
      | Some v \<Rightarrow>
          if answered (snd kq) v then None
          else case q_required_unless (snd kq) of
            None \<Rightarrow> Some kq
          | Some u \<Rightarrow> if excused kwargs u then None else Some (fst kq, (snd kq)\<lparr>q_required_unless := None\<rparr>))"

lemma dict_set_map_filter:
  "dict_ok d \<Longrightarrow> map_of d k = Some x \<Longrightarrow>
    dict_set k y d = List.map_filter (\<lambda>p. if fst p = k then Some (k, y) else Some p) d"
proof (induction k y d rule: dict_set.induct)
  case (2 k y a b d)
  have idle: "List.map_filter (\<lambda>p. if fst p = a then Some (a, y) else Some p) d = d" if "a \<notin> fst ` set d"
    using that by (induction d) (auto simp: List.map_filter_simps)
  show ?case using 2 idle by (auto simp: dict_ok_def List.map_filter_simps)
qed simp

lemma dict_del_map_filter: "dict_del k d = List.map_filter (\<lambda>p. if fst p = k then None else Some p) d"
  by (induction d) (auto simp: dict_del_def List.map_filter_simps)

lemma map_filter_cong: "(\<And>x. x \<in> set xs \<Longrightarrow> f x = g x) \<Longrightarrow> List.map_filter f xs = List.map_filter g xs"
  by (induction xs) (auto simp: List.map_filter_simps split: option.splits)

lemma map_filter_Some: "(\<And>x. x \<in> set xs \<Longrightarrow> f x = Some x) \<Longrightarrow> List.map_filter f xs = xs"
  by (induction xs) (auto simp: List.map_filter_simps)

lemma map_filter_map_filter:
  "List.map_filter g (List.map_filter f xs) = List.map_filter (\<lambda>x. Option.bind (f x) g) xs"
  by (induction xs) (auto simp: List.map_filter_simps split: option.splits)

lemma check_argument_map_filter:
  assumes "dict_ok d"
  shows "check_argument kwargs kv d = List.map_filter (settle kwargs [kv]) d"
proof -
  obtain key v where kv: "kv = (key, v)" by (cases kv)
  have at: "snd p = q" if "map_of d key = Some q" "p \<in> set d" "fst p = key" for p q
    using assms that by (metis dict_ok_def map_of_is_SomeI option.inject prod.collapse)
  show ?thesis
  proof (cases "map_of d key")
    case None
    then have "settle kwargs [kv] p = Some p" if "p \<in> set d" for p
      using that by (auto simp: kv settle_def map_of_eq_None_iff)
    then show ?thesis using None by (simp add: kv check_argument_def map_filter_Some)
  next
    case (Some q)
    note q = Some
    show ?thesis
    proof (cases "\<not> answered q v \<and> q_required_unless q = None")
      case True
      then have "settle kwargs [kv] p = Some p" if "p \<in> set d" for p
        using at [OF q that] by (auto simp: kv settle_def)
      then show ?thesis using True q by (simp add: kv check_argument_def map_filter_Some)
    next
      case False
      then show ?thesis using q at [OF q]
        by (auto simp: kv check_argument_def dict_del_map_filter dict_set_map_filter [OF assms q] settle_def
            intro!: map_filter_cong split: option.splits)
    qed
  qed
qed

lemma settle_keeps_key: "settle kwargs ks p = Some p' \<Longrightarrow> fst p' = fst p"
  by (auto simp: settle_def split: option.splits if_splits)

lemma dict_ok_settle: "dict_ok d \<Longrightarrow> dict_ok (List.map_filter (settle kwargs ks) d)"
proof (induction d)
  case (Cons p d)
  have "fst ` set (List.map_filter (settle kwargs ks) d) \<subseteq> fst ` set d"
    using settle_keeps_key by (induction d) (auto simp: List.map_filter_simps split: option.splits)
  then show ?case using Cons settle_keeps_key [of kwargs ks p]
    by (auto simp: List.map_filter_simps dict_ok_def split: option.splits)
qed (simp add: List.map_filter_simps)

lemma settle_Cons:
  assumes "key \<notin> fst ` set ks"
  shows "Option.bind (settle kwargs [(key, v)] p) (settle kwargs ks) = settle kwargs ((key, v) # ks) p"
proof -
  have "map_of ks key = None" using assms by (simp add: map_of_eq_None_iff)
  then show ?thesis by (cases "fst p = key") (auto simp: settle_def split: option.split)
qed

lemma fold_check_argument:
  "dict_ok ks \<Longrightarrow> dict_ok d \<Longrightarrow> fold (check_argument kwargs) ks d = List.map_filter (settle kwargs ks) d"
proof (induction ks arbitrary: d)
  case Nil
  then show ?case by (simp add: settle_def map_filter_Some)
next
  case (Cons kv ks)
  obtain key v where kv: "kv = (key, v)" by (cases kv)
  have "fold (check_argument kwargs) (kv # ks) d
      = List.map_filter (settle kwargs ks) (List.map_filter (settle kwargs [kv]) d)"
    using Cons.IH [of "List.map_filter (settle kwargs [kv]) d"] Cons.prems
    by (simp add: check_argument_map_filter dict_ok_settle) (simp add: dict_ok_def)
  also have "\<dots> = List.map_filter (settle kwargs (kv # ks)) d"
    using Cons.prems by (simp add: kv map_filter_map_filter settle_Cons dict_ok_def)
  finally show ?case .
qed

text \<open>Long names that differ still differ without their dashes.\<close>

lemma inj_option_names:
  assumes "distinct (map o_long ps)" and "\<forall>p\<in>set ps. take 2 (o_long p) = ''--''"
  shows "inj_on (\<lambda>p. drop 2 (o_long p)) (set ps)"
proof (rule inj_onI)
  fix p p' assume p: "p \<in> set ps" "p' \<in> set ps" "drop 2 (o_long p) = drop 2 (o_long p')"
  then have "o_long p = o_long p'" using assms(2) append_take_drop_id [of 2] by metis
  then show "p = p'" using p assms(1) by (simp add: distinct_map inj_on_def)
qed

lemma distinct_option_names:
  assumes "distinct (map o_long ps)" and "\<forall>p\<in>set ps. take 2 (o_long p) = ''--''"
  shows "distinct (map (\<lambda>p. drop 2 (o_long p)) ps)"
  using inj_option_names [OF assms] assms(1) by (simp add: distinct_map)

lemma questions_of_distinct:
  "distinct (map (\<lambda>p. drop 2 (o_long p)) ps) \<Longrightarrow>
    questions_of ps = rev (map (\<lambda>p. (drop 2 (o_long p), option_question p)) (filter o_prompt ps))"
proof (induction ps)
  case (Cons p ps)
  let ?e = "\<lambda>p. (drop 2 (o_long p), option_question p)"
  have "drop 2 (o_long p) \<notin> fst ` set (rev (map ?e (filter o_prompt ps)))"
    using Cons.prems by (auto simp: image_iff)
  moreover have "questions_of ps = rev (map ?e (filter o_prompt ps))" using Cons by simp
  ultimately show ?case by (simp add: questions_of_def dict_set_fresh)
qed (simp add: questions_of_def)

lemma settle_needed:
  "settle kwargs kwargs (q_name q, q) =
     (if needed kwargs q then Some (q_name q, as_asked kwargs q) else None)"
proof (cases "map_of kwargs (q_name q)")
  case (Some v)
  have same: "q_required_unless q = None \<Longrightarrow> q\<lparr>q_required_unless := None\<rparr> = q" by (cases q) simp
  show ?thesis using Some same by (auto simp: settle_def needed_def as_asked_def in_dict_def split: option.splits)
qed (simp add: settle_def needed_def as_asked_def in_dict_def)

lemma map_filter_needed:
  "map snd (List.map_filter (settle kwargs kwargs) (map (\<lambda>q. (q_name q, q)) qs))
    = map (as_asked kwargs) (filter (needed kwargs) qs)"
  by (induction qs) (auto simp: List.map_filter_simps settle_needed)

lemma rev_map_filter: "rev (List.map_filter f xs) = List.map_filter f (rev xs)"
  by (induction xs) (auto simp: List.map_filter_simps List.map_filter_def)

lemma prompt_asks_missing:
  assumes "distinct (map o_long ps)" and "\<forall>p\<in>set ps. take 2 (o_long p) = ''--''" and "dict_ok kwargs"
  shows "question_list kwargs (questions_of ps)
    = map (as_asked kwargs) (filter (needed kwargs) (map option_question (filter o_prompt ps)))"
proof -
  let ?e = "\<lambda>p. (drop 2 (o_long p), option_question p)" and ?P = "filter o_prompt ps"
  note names = distinct_option_names [OF assms(1,2)]
  have qs: "questions_of ps = rev (map ?e ?P)" by (rule questions_of_distinct [OF names])
  from names
  have "dict_ok (rev (map ?e ?P))"
    by (simp add: dict_ok_def rev_map [symmetric] comp_def distinct_map_filter)
  then have "question_list kwargs (questions_of ps)
      = map snd (List.map_filter (settle kwargs kwargs) (map ?e ?P))"
    using assms(3) by (simp add: question_list_def qs fold_check_argument rev_map rev_map_filter)
  also have "map ?e ?P = map (\<lambda>q. (q_name q, q)) (map option_question ?P)"
    by (simp add: option_question_def)
  finally show ?thesis unfolding map_filter_needed .
qed

definition demo_opt :: "string \<Rightarrow> bool \<Rightarrow> required_unless option \<Rightarrow> opt" where
  "demo_opt name required unless =
     \<lparr>o_long = ''--'' @ name, o_message = [], o_inq_type = None, o_validator = None, o_required = required,
      o_default = None, o_is_flag = False, o_prompt = True, o_required_unless = unless\<rparr>"

definition demo_options :: "opt list" where
  "demo_options = [demo_opt ''username'' True None, demo_opt ''password'' False (Some (UnlessAny [''list'', ''sso''])),
     demo_opt ''server'' True None, demo_opt ''alias'' False None]"

definition demo_kwargs :: "(string, json) dict" where
  "demo_kwargs = [(''username'', JNull), (''password'', JNull), (''server'', JStr ''http://localhost''),
     (''alias'', JNull), (''list'', JBool False), (''sso'', JBool True)]"

text \<open>
  What \<^verbatim>\<open>questionary.prompt\<close> promises: it is interrupted, or it has a valid answer to every question;
  only a confirmation is answered by something else than a text.
\<close>

definition answer_ok :: "question \<Rightarrow> json \<Rightarrow> bool" where
  "answer_ok q v \<longleftrightarrow>
     (case v of
        JNull \<Rightarrow> False
      | JStr t \<Rightarrow> (case q_validate q of None \<Rightarrow> True | Some validate \<Rightarrow> validate t = Inr ())
      | _ \<Rightarrow> q_type q = ''confirm'')"

definition prompt_ok :: "(question list \<Rightarrow> (string, json) dict) \<Rightarrow> bool" where
  "prompt_ok prompt \<longleftrightarrow>
     (\<forall>qs. prompt qs = [] \<or> list_all2 (\<lambda>q a. fst a = q_name q \<and> answer_ok q (snd a)) qs (prompt qs))"

lemma dict_update_other: "k \<notin> fst ` set e \<Longrightarrow> map_of (dict_update d e) k = map_of d k"
  unfolding dict_update_def by (induction e arbitrary: d) (auto split: prod.splits)

lemma dict_update_in: "dict_ok e \<Longrightarrow> (k, v) \<in> set e \<Longrightarrow> map_of (dict_update d e) k = Some v"
proof (induction e arbitrary: d)
  case (Cons a e)
  obtain x y where a: "a = (x, y)" by (cases a)
  have step: "dict_update d (a # e) = dict_update (dict_set x y d) e" by (simp add: dict_update_def a)
  show ?case
  proof (cases "(k, v) \<in> set e")
    case True
    then show ?thesis using Cons by (simp add: step dict_ok_def)
  next
    case False
    then have "k = x" "v = y" using Cons.prems a by auto
    then show ?thesis using Cons.prems dict_update_other [of x e "dict_set x y d"]
      by (simp only: step) (simp add: a dict_ok_def)
  qed
qed simp

lemma list_all2_fst: "list_all2 (\<lambda>q a. fst a = f q \<and> P q (snd a)) qs as \<Longrightarrow> map fst as = map f qs"
  by (induction rule: list_all2_induct) auto

lemma list_all2_entry:
  "list_all2 (\<lambda>q a. fst a = f q \<and> P q (snd a)) qs as \<Longrightarrow> q \<in> set qs \<Longrightarrow> \<exists>v. (f q, v) \<in> set as \<and> P q v"
proof (induction rule: list_all2_induct)
  case (Cons x xs y ys)
  then have "(f x, snd y) \<in> set (y # ys)" "P x (snd y)" by (metis list.set_intros(1) prod.collapse, blast)
  then show ?case using Cons by auto
qed simp

lemma as_asked_simps [simp]:
  "q_name (as_asked kwargs q) = q_name q" "answer_ok (as_asked kwargs q) v = answer_ok q v"
  by (simp_all add: as_asked_def answer_ok_def split: json.split)

lemma required_answer:
  "answer_ok (option_question p) v \<Longrightarrow> o_required p \<Longrightarrow> v \<notin> {JNull, JStr []}"
  by (auto simp: answer_ok_def option_question_def required_validate_def)

text \<open>
  C40. A command asks for exactly the options that have no value and that no other option excuses,
  once each and in the order of their declaration. When the prompt is interrupted nothing is run.
  Otherwise the function is called with a valid answer for every option that was asked for, which is
  not empty when the option is required, and with every other argument as it was given; an
  exception of the function ends in a message.
\<close>

theorem command_arguments:
  assumes "distinct (map o_long ps)" and "\<forall>p\<in>set ps. take 2 (o_long p) = ''--''" and "dict_ok kwargs"
    and "prompt_ok prompt"
  shows "let qs = question_list kwargs (questions_of ps) in
    qs = map (as_asked kwargs) (filter (needed kwargs) (map option_question (filter o_prompt ps)))
    \<and> (if prompt qs = [] \<and> qs \<noteq> [] then cliq_command E prompt (questions_of ps) func kwargs = cret ()
       else \<exists>kw. cliq_command E prompt (questions_of ps) func kwargs = ccatch (func kw) (\<lambda>e.
            cprints [RED E @ ''Fatal error running command'' @ FORE_RESET E, traceback E e])
         \<and> (\<forall>p\<in>set ps. o_prompt p \<and> needed kwargs (option_question p) \<longrightarrow>
              (\<exists>v. map_of kw (drop 2 (o_long p)) = Some v \<and> answer_ok (option_question p) v
                 \<and> (o_required p \<longrightarrow> v \<notin> {JNull, JStr []})))
         \<and> (\<forall>k. (\<forall>p\<in>set ps. o_prompt p \<and> needed kwargs (option_question p) \<longrightarrow> k \<noteq> drop 2 (o_long p))
              \<longrightarrow> map_of kw k = map_of kwargs k))"
proof -
  let ?Q = "filter (needed kwargs) (map option_question (filter o_prompt ps))"
  let ?qs = "question_list kwargs (questions_of ps)"
  have qs: "?qs = map (as_asked kwargs) ?Q" by (rule prompt_asks_missing [OF assms(1-3)])
  have name: "q_name (option_question p) = drop 2 (o_long p)" for p by (simp add: option_question_def)
  have "distinct (map q_name (map option_question (filter o_prompt ps)))"
    using distinct_option_names [OF assms(1,2)] by (simp add: comp_def name distinct_map_filter)
  then have dist: "distinct (map q_name ?Q)" by (rule distinct_map_filter)
  let ?kw = "dict_update kwargs (prompt ?qs)"
  have main: "(\<forall>p\<in>set ps. o_prompt p \<and> needed kwargs (option_question p) \<longrightarrow>
              (\<exists>v. map_of ?kw (drop 2 (o_long p)) = Some v \<and> answer_ok (option_question p) v
                 \<and> (o_required p \<longrightarrow> v \<notin> {JNull, JStr []})))
         \<and> (\<forall>k. (\<forall>p\<in>set ps. o_prompt p \<and> needed kwargs (option_question p) \<longrightarrow> k \<noteq> drop 2 (o_long p))
              \<longrightarrow> map_of ?kw k = map_of kwargs k)"
    if "\<not> (prompt ?qs = [] \<and> ?qs \<noteq> [])"
  proof -
    have all: "list_all2 (\<lambda>q a. fst a = q_name q \<and> answer_ok q (snd a)) ?qs (prompt ?qs)"
    proof (cases "prompt ?qs = []")
      case True
      then have "?qs = []" using that by blast
      then show ?thesis using True by simp
    next
      case False
      then show ?thesis using assms(4) unfolding prompt_ok_def by blast
    qed
    have keys: "map fst (prompt ?qs) = map q_name ?Q" using list_all2_fst [OF all] by (simp add: qs comp_def)
    have ok: "dict_ok (prompt ?qs)" using dist keys by (simp add: dict_ok_def)
    have asked: "\<exists>v. map_of ?kw (q_name q) = Some v \<and> answer_ok q v" if "q \<in> set ?Q" for q
      using list_all2_entry [OF all, of "as_asked kwargs q"] that dict_update_in [OF ok, of _ _ kwargs]
      by (auto simp: qs)
    have others: "map_of ?kw k = map_of kwargs k" if "k \<notin> q_name ` set ?Q" for k
      using dict_update_other [of k "prompt ?qs" kwargs] that by (metis keys list.set_map)
    have in_Q: "option_question p \<in> set ?Q" if "p \<in> set ps" "o_prompt p \<and> needed kwargs (option_question p)" for p
      using that by simp
    have "\<exists>v. map_of ?kw (drop 2 (o_long p)) = Some v \<and> answer_ok (option_question p) v
        \<and> (o_required p \<longrightarrow> v \<notin> {JNull, JStr []})"
      if "p \<in> set ps" "o_prompt p \<and> needed kwargs (option_question p)" for p
      using asked [OF in_Q [OF that]] required_answer unfolding name by blast
    moreover have "map_of ?kw k = map_of kwargs k"
      if "\<forall>p\<in>set ps. o_prompt p \<and> needed kwargs (option_question p) \<longrightarrow> k \<noteq> drop 2 (o_long p)" for k
      by (rule others) (use that in \<open>auto simp: name\<close>)
    ultimately show ?thesis by blast
  qed
  show ?thesis
  proof (cases "prompt ?qs = [] \<and> ?qs \<noteq> []")
    case True
    then show ?thesis using qs by (simp add: Let_def cliq_command_def)
  next
    case False
    then have "cliq_command E prompt (questions_of ps) func kwargs = ccatch (func ?kw) (\<lambda>e.
        cprints [RED E @ ''Fatal error running command'' @ FORE_RESET E, traceback E e])"
      by (simp only: Let_def cliq_command_def if_False)
    then show ?thesis using main [OF False] False qs unfolding Let_def if_not_P [OF False] by blast
  qed
qed

definition demo_prompt :: "question list \<Rightarrow> (string, json) dict" where
  "demo_prompt qs = (if list_all (\<lambda>q. answer_ok q (JStr ''x'')) qs then map (\<lambda>q. (q_name q, JStr ''x'')) qs else [])"

lemma demo_prompt_ok: "prompt_ok demo_prompt"
  by (auto simp: prompt_ok_def demo_prompt_def list.rel_map list_all_iff intro: list.rel_refl_strong)

theorem command_arguments_witness:
  "map q_name (question_list demo_kwargs (questions_of demo_options)) = [''username'', ''alias'']
   \<and> demo_prompt (question_list demo_kwargs (questions_of demo_options)) = [(''username'', JStr ''x''), (''alias'', JStr ''x'')]"
proof -
  have "question_list demo_kwargs (questions_of demo_options)
      = map (as_asked demo_kwargs) (filter (needed demo_kwargs) (map option_question (filter o_prompt demo_options)))"
    using command_arguments [of demo_options demo_kwargs demo_prompt] demo_prompt_ok
    by (simp add: Let_def demo_options_def demo_opt_def demo_kwargs_def dict_ok_def)
  then show ?thesis
    by (simp add: demo_options_def demo_opt_def demo_kwargs_def option_question_def needed_def as_asked_def answered_def
        excused_def in_dict_def demo_prompt_def answer_ok_def required_validate_def)
qed

end
