(* ===== verification/MB_Cli.thy ===== *)
theory MB_Cli
  imports MB_Cliq MB_Loader
begin

text \<open>
  The commands of the command line client: \<^verbatim>\<open>login\<close>, \<^verbatim>\<open>auth\<close>, \<^verbatim>\<open>upload\<close>, \<^verbatim>\<open>build\<close>, \<^verbatim>\<open>logs\<close> and \<^verbatim>\<open>init\<close>
  (\<^verbatim>\<open>cli/commands\<close>). The lemmas say which tokens go to which server, what a login leaves for later
  processes and what a built archive holds.

  YAML, jinja templates, time formats and the file system are parameters.
\<close>

section \<open>Login\<close>

definition http_post :: "cli_env \<Rightarrow> json option \<Rightarrow> string \<Rightarrow> string list \<Rightarrow> (string, string) dict \<Rightarrow> req_body \<Rightarrow> http_resp cli_m" where
  "http_post E sess server path query data =
     http_send E \<lparr>rq_server = server, rq_path = path, rq_query = query, rq_bearer = sess, rq_body = data\<rparr>"

definition set_config :: "(cli_config \<Rightarrow> cli_config) \<Rightarrow> unit cli_m" where
  "set_config f = cput (\<lambda>s. s\<lparr>cl_config := f (cl_config s)\<rparr>)"

definition store_login :: "cli_env \<Rightarrow> string \<Rightarrow> string \<Rightarrow> json \<Rightarrow> unit cli_m" where
  "store_login E server alias tok =
     cthen (set_config (\<lambda>c. c\<lparr>cc_servers := dict_set server tok (cc_servers c)\<rparr>))
     (cthen (cbind (cget (\<lambda>s. opt_truthy (cc_default_server (cl_config s)))) (\<lambda>has_default.
        if has_default then cret ()
        else cthen (cprint (str_join '' '' [CYAN E, ''Setting'', server, ''as the default server'']))
          (set_config (\<lambda>c. c\<lparr>cc_default_server := Some server\<rparr>))))
     (cthen (if alias \<noteq> [] then set_config (\<lambda>c. c\<lparr>cc_aliases := dict_set alias server (cc_aliases c)\<rparr>) else cret ())
     (cthen cli_save_config (cprint (GREEN E @ ''Logged in successfully'')))))"

text \<open>The message is joined to colour codes with \<open>+\<close>, which needs a string.\<close>

definition login_failed :: "cli_env \<Rightarrow> http_resp \<Rightarrow> unit cli_m" where
  "login_failed E resp =
     cbind (ccatch (cbind (clift (rs_json resp)) (\<lambda>data. clift (subscript data ''error'')))
       (\<lambda>e. if e \<in> {JSONDecodeError, CliExn KeyError} then cret (JStr (rs_text resp)) else craise e))
     (\<lambda>err. case err of JStr m \<Rightarrow> cprint (RED E @ m @ FORE_RESET E) | _ \<Rightarrow> craise (CliExn TypeError))"

definition login_request :: "string \<Rightarrow> string \<Rightarrow> json" where
  "login_request username password = JObj [(''username'', JStr username), (''password'', JStr password)]"

definition login_post :: "string \<Rightarrow> string \<Rightarrow> string \<Rightarrow> cli_request" where
  "login_post server username password =
     \<lparr>rq_server = server, rq_path = [''_matrix'', ''maubot'', ''v1'', ''auth'', ''login''], rq_query = [],
      rq_bearer = None, rq_body = JsonBody (login_request username password)\<rparr>"

definition cli_login :: "cli_env \<Rightarrow> string \<Rightarrow> string \<Rightarrow> string \<Rightarrow> string \<Rightarrow> unit cli_m" where
  "cli_login E server username password alias =
     with_http E (\<lambda>sess.
       cbind (http_post E sess server [''_matrix'', ''maubot'', ''v1'', ''auth'', ''login''] []
           (JsonBody (login_request username password))) (\<lambda>resp.
         if rs_status resp = 200
         then cbind (clift (rs_json resp)) (\<lambda>data. cbind (clift (subscript data ''token'')) (store_login E server alias))
         else login_failed E resp))"

section \<open>Matrix accounts\<close>

definition auth_path :: "string list \<Rightarrow> string list" where
  "auth_path rest = [''_matrix'', ''maubot'', ''v1'', ''client'', ''auth''] @ rest"

definition list_servers :: "cli_env \<Rightarrow> json option \<Rightarrow> string \<Rightarrow> unit cli_m" where
  "list_servers E sess server =
     cbind (http_post E sess server (auth_path [''servers'']) [] NoBody) (\<lambda>resp.
     cbind (clift (rs_json resp)) (\<lambda>data.
       cthen (cprint (GREEN E @ ''Available Matrix servers for registration and login:'' @ FORE_RESET E))
       (case data of
          JObj d \<Rightarrow> cprints (map (\<lambda>server. ''* '' @ CYAN E @ server @ FORE_RESET E) (map fst d))
        | _ \<Rightarrow> craise (CliExn AttributeError))))"

definition friendly_error :: "string \<Rightarrow> string option" where
  "friendly_error errcode =
     (if errcode = ''server_not_found'' then Some
        (''Registration target server not found.\<newline>\<newline>To log in or register through maubot, you must add the server to the\<newline>''
         @ ''homeservers section in the config. If you only want to log in,\<newline>leave the `secret` field empty.'')
      else if errcode = ''registration_no_sso'' then Some
        (''The register operation is only for registering with a password.\<newline>\<newline>''
         @ ''To register with SSO, simply leave out the --register flag.'')
      else None)"

definition choose_error :: "json \<Rightarrow> json \<Rightarrow> cli_exn + json" where
  "choose_error errcode error =
     (case errcode of
        JStr c \<Rightarrow> Inr (case friendly_error c of Some m \<Rightarrow> JStr m | None \<Rightarrow> error)
      | JArr _ \<Rightarrow> Inl (CliExn TypeError)
      | JObj _ \<Rightarrow> Inl (CliExn TypeError)
      | _ \<Rightarrow> Inr error)"

text \<open>The exceptions that make the client fall back to the text of a response.\<close>

fun unreadable :: "cli_exn \<Rightarrow> bool" where
  "unreadable (ContentTypeError _) = True"
| "unreadable JSONDecodeError = True"
| "unreadable (CliExn KeyError) = True"
| "unreadable _ = False"

definition or_text :: "http_resp \<Rightarrow> json cli_m \<Rightarrow> json cli_m" where
  "or_text resp m = ccatch m (\<lambda>e. if unreadable e then cret (JStr (rs_text resp)) else craise e)"

definition print_error :: "cli_env \<Rightarrow> http_resp \<Rightarrow> bool \<Rightarrow> unit cli_m" where
  "print_error E resp is_register =
     cbind (or_text resp (cbind (clift (rs_json resp)) (\<lambda>err_data.
        cbind (clift (subscript err_data ''errcode'')) (\<lambda>code.
        cbind (clift (subscript err_data ''error'')) (\<lambda>err. clift (choose_error code err))))))
     (\<lambda>err. cprint (RED E @ ''Failed to '' @ (if is_register then ''register'' else ''log in'') @ '': ''
        @ py_str E err @ FORE_RESET E))"

definition print_response :: "cli_env \<Rightarrow> http_resp \<Rightarrow> bool \<Rightarrow> unit cli_m" where
  "print_response E resp is_register =
     (if rs_status resp = 200 then
        cbind (clift (rs_json resp)) (\<lambda>data.
        cbind (clift (subscript data ''user_id'')) (\<lambda>user_id.
        cthen (cprint (GREEN E @ ''Successfully '' @ (if is_register then ''registered'' else ''logged in as'') @ '' ''
           @ CYAN E @ py_str E user_id @ GREEN E @ ''.''))
        (cbind (clift (subscript data ''access_token'')) (\<lambda>tok.
        cthen (cprint (GREEN E @ ''Access token: '' @ CYAN E @ py_str E tok @ FORE_RESET E))
        (cbind (clift (subscript data ''device_id'')) (\<lambda>device.
        cprint (GREEN E @ ''Device ID: '' @ CYAN E @ py_str E device @ FORE_RESET E)))))))
      else if rs_status resp \<in> set [201, 202] then
        cbind (clift (rs_json resp)) (\<lambda>data.
        cbind (clift (subscript data ''id'')) (\<lambda>i.
        cbind (clift (subscript data ''device_id'')) (\<lambda>device.
        cprint (GREEN E @ ''Successfully '' @ (if rs_status resp = 201 then ''created'' else ''updated'')
          @ '' client for '' @ CYAN E @ py_str E i @ GREEN E @ '' / '' @ CYAN E @ py_str E device @ GREEN E @ ''.''
          @ FORE_RESET E))))
      else print_error E resp is_register)"

text \<open>Opening the browser has no effect on the client; \<^verbatim>\<open>URL / reg_id\<close> needs a string.\<close>

definition wait_sso :: "cli_env \<Rightarrow> http_resp \<Rightarrow> json option \<Rightarrow> string \<Rightarrow> string \<Rightarrow> unit cli_m" where
  "wait_sso E resp sess server homeserver =
     cbind (clift (rs_json resp)) (\<lambda>data.
     cbind (clift (subscript data ''sso_url'')) (\<lambda>sso_url.
     cbind (clift (subscript data ''id'')) (\<lambda>reg_id.
     cthen (cprints [GREEN E @ ''Opening '' @ CYAN E @ py_str E sso_url @ FORE_RESET E,
       GREEN E @ ''Waiting for login token...'' @ FORE_RESET E])
     (case reg_id of
        JStr i \<Rightarrow>
          cbind (http_post E sess server (auth_path [homeserver, ''sso'', i, ''wait'']) [] (JsonBody (JObj [])))
            (\<lambda>resp. print_response E resp False)
      | _ \<Rightarrow> craise (CliExn TypeError)))))"

record auth_args =
  aa_homeserver :: string
  aa_username :: string
  aa_password :: string
  aa_register :: bool
  aa_list :: bool
  aa_update_client :: bool
  aa_device_name :: string
  aa_sso :: bool

definition auth_request_data :: "auth_args \<Rightarrow> (string, string) dict \<times> json" where
  "auth_request_data a =
     ((if aa_update_client a then [(''update_client'', ''true'')] else [])
        @ (if aa_sso a then [(''sso'', ''true'')] else []),
      JObj ((if aa_sso a then [] else [(''username'', JStr (aa_username a)), (''password'', JStr (aa_password a))])
        @ [(''device_name'', JStr (aa_device_name a))]))"

definition auth_run :: "cli_env \<Rightarrow> auth_args \<Rightarrow> json option \<Rightarrow> string \<Rightarrow> unit cli_m" where
  "auth_run E a sess server =
     (if aa_list a then list_servers E sess server
      else cbind (http_post E sess server
          (auth_path [aa_homeserver a, if aa_register a then ''register'' else ''login''])
          (fst (auth_request_data a)) (JsonBody (snd (auth_request_data a)))) (\<lambda>resp.
        if \<not> (200 \<le> rs_status resp \<and> rs_status resp < 300) then print_error E resp (aa_register a)
        else if aa_sso a then wait_sso E resp sess server (aa_homeserver a)
        else print_response E resp (aa_register a)))"

definition auth_command :: "cli_env \<Rightarrow> auth_args \<Rightarrow> string option \<Rightarrow> unit cli_m" where
  "auth_command E a server = with_authenticated_http E (auth_run E a) server"

section \<open>Uploads\<close>

text \<open>For an answer that is not an object, the membership test or the subscript raises.\<close>

definition upload_error :: "cli_env \<Rightarrow> http_resp \<Rightarrow> json cli_m" where
  "upload_error E resp =
     or_text resp (cbind (clift (rs_json resp)) (\<lambda>err.
       case err of
         JObj d \<Rightarrow> cthen (if in_dict ''stacktrace'' d then cprint (py_str E (obj_get d ''stacktrace'')) else cret ())
           (clift (subscript err ''error''))
       | _ \<Rightarrow> craise (CliExn TypeError)))"

definition upload_file :: "cli_env \<Rightarrow> json option \<Rightarrow> cli_content \<Rightarrow> string \<Rightarrow> unit cli_m" where
  "upload_file E sess file server =
     cbind (http_post E sess server [''_matrix'', ''maubot'', ''v1'', ''plugins'', ''upload'']
         [(''allow_override'', ''true'')] (FileBody file)) (\<lambda>resp.
       if rs_status resp \<in> set [200, 201] then
         cbind (clift (rs_json resp)) (\<lambda>data.
         cbind (clift (subscript data ''id'')) (\<lambda>i.
         cbind (clift (subscript data ''version'')) (\<lambda>v.
           cprint (GREEN E @ ''Plugin '' @ CYAN E @ py_str E i @ '' v'' @ py_str E v @ GREEN E @ '' uploaded to ''
             @ CYAN E @ server @ GREEN E @ '' successfully.'' @ FORE_RESET E))))
       else cbind (upload_error E resp) (\<lambda>err.
         cprint (RED E @ ''Failed to upload plugin: '' @ py_str E err @ FORE_RESET E)))"

definition open_rb :: "string \<Rightarrow> cli_content cli_m" where
  "open_rb p = cbind (cget (\<lambda>s. map_of (cl_files s) p)) (\<lambda>f.
     case f of None \<Rightarrow> craise (CliExn FileNotFoundError) | Some c \<Rightarrow> cret c)"

definition upload_command :: "cli_env \<Rightarrow> string \<Rightarrow> string option \<Rightarrow> unit cli_m" where
  "upload_command E path server =
     with_authenticated_http E (\<lambda>sess server. cbind (open_rb path) (\<lambda>file. upload_file E sess file server)) server"

section \<open>Building plugins\<close>

text \<open>\<open>bl_view\<close> is the file system from a working directory, \<open>bl_ask\<close> the prompt for overwriting a file.\<close>

record build_env =
  bl_view :: "string \<Rightarrow> fsview"
  bl_open :: "string \<Rightarrow> string option"
  bl_yaml :: "string \<Rightarrow> string + json"
  bl_deserialize :: "json \<Rightarrow> string + full_meta"
  bl_dump :: "full_meta \<Rightarrow> string"
  bl_ask :: "string \<Rightarrow> bool option"

definition path_joined :: "string \<Rightarrow> string \<Rightarrow> string" where
  "path_joined a b =
     (if startswith b ''/'' then b else if a = [] \<or> endswith a ''/'' then a @ b else a @ ''/'' @ b)"

definition build_read_meta :: "cli_env \<Rightarrow> build_env \<Rightarrow> string \<Rightarrow> full_meta option cli_m" where
  "build_read_meta E B path =
     (case bl_open B (path_joined path ''maubot.yaml'') of
        None \<Rightarrow> cthen (cprint (RED E @ ''Failed to build plugin: Metadata file not found'' @ FORE_RESET E)) (cret None)
      | Some text \<Rightarrow>
     (case bl_yaml B text of
        Inl e \<Rightarrow> cthen (cprints [RED E @ ''Failed to build plugin: Metadata file is not YAML'', RED E @ e @ FORE_RESET E]) (cret None)
      | Inr meta_dict \<Rightarrow>
     (case bl_deserialize B meta_dict of
        Inl e \<Rightarrow> cthen (cprints [RED E @ ''Failed to build plugin: Metadata file is not valid'', RED E @ e @ FORE_RESET E]) (cret None)
      | Inr meta \<Rightarrow> cret (Some meta))))"

definition remove_file :: "string \<Rightarrow> unit cli_m" where
  "remove_file p s = (Inr (), s\<lparr>cl_files := dict_del p (cl_files s)\<rparr>)"

text \<open>An interrupted prompt has no entry \<^verbatim>\<open>override\<close>.\<close>

definition read_output_path :: "build_env \<Rightarrow> fsview \<Rightarrow> string option \<Rightarrow> full_meta \<Rightarrow> string option cli_m" where
  "read_output_path B F output meta =
     (let filename = meta_id meta @ ''-v'' @ meta_version meta @ ''.mbp'' in
      if \<not> opt_truthy output then cret (Some (abspath F (path_joined (getcwd F) filename)))
      else if isdir F (the output) then cret (Some (abspath F (path_joined (the output) filename)))
      else if path_exists F (the output) then
        (case bl_ask B (the output @ '' exists, override?'') of
           None \<Rightarrow> craise (CliExn KeyError)
         | Some False \<Rightarrow> cret None
         | Some True \<Rightarrow> cthen (remove_file (the output)) (cret (Some (abspath F (the output)))))
      else cret (Some (abspath F (the output))))"

definition zipdir :: "fsview \<Rightarrow> string \<Rightarrow> zip_entry list" where
  "zipdir F dir = concat (map (\<lambda>(root, files). map (\<lambda>file. ZipFile (path_joined root file)) files) (walk F dir))"

text \<open>The entries of a module, and the warning that is printed when it is skipped.\<close>

definition module_entries :: "cli_env \<Rightarrow> fsview \<Rightarrow> string \<Rightarrow> zip_entry list \<times> string list" where
  "module_entries E F module =
     (if isfile F (module @ ''.py'') then ([ZipFile (module @ ''.py'')], [])
      else if isdir F module then
        if isfile F (module @ ''/__init__.py'') then (zipdir F module, [])
        else ([], [YELLOW E @ ''Module '' @ module @ '' is missing __init__.py, skipping'' @ FORE_RESET E])
      else ([], [YELLOW E @ ''Module '' @ module @ '' not found, skipping'' @ FORE_RESET E]))"

definition write_plugin :: "cli_env \<Rightarrow> build_env \<Rightarrow> fsview \<Rightarrow> full_meta \<Rightarrow> zip_entry list \<times> string list" where
  "write_plugin E B F meta =
     (let mods = map (module_entries E F) (meta_modules meta) in
      (ZipText ''maubot.yaml'' (bl_dump B meta) # concat (map fst mods)
         @ concat (map (\<lambda>pattern. map ZipFile (iglob F pattern)) (extra_files meta)),
       concat (map snd mods)))"

text \<open>Where the archive goes: to a file or into memory.\<close>

datatype build_output = ToFile string | InMemory "zip_entry list"

definition upload_built :: "cli_env \<Rightarrow> build_output \<Rightarrow> string option \<Rightarrow> unit cli_m" where
  "upload_built E output server =
     with_authenticated_http E (\<lambda>sess server.
       cbind (cli_get_token E (Some server)) (\<lambda>(server, token).
         if \<not> truthy token then cret ()
         else case output of
           ToFile p \<Rightarrow> cbind (open_rb p) (\<lambda>file. upload_file E sess file (the server))
         | InMemory z \<Rightarrow> upload_file E sess (ZipArchive z) (the server))) server"

definition build :: "cli_env \<Rightarrow> build_env \<Rightarrow> string \<Rightarrow> string \<Rightarrow> string option \<Rightarrow> bool \<Rightarrow> string option \<Rightarrow> unit cli_m" where
  "build E B cwd path output upload server =
     cbind (build_read_meta E B path) (\<lambda>m. case m of
       None \<Rightarrow> cret ()
     | Some meta \<Rightarrow>
         let (entries, warnings) = write_plugin E B (bl_view B path) meta in
         if opt_truthy output \<or> \<not> upload then
           cbind (read_output_path B (bl_view B cwd) output meta) (\<lambda>out.
             if \<not> opt_truthy out then cret ()
             else cthen (cprints warnings) (cthen (cli_write_file (the out) (ZipArchive entries))
               (cthen (cprint (GREEN E @ ''Plugin built to '' @ CYAN E @ the out @ GREEN E @ ''.'' @ FORE_RESET E))
               (if upload then upload_built E (ToFile (the out)) server else cret ()))))
         else cthen (cprints warnings) (upload_built E (InMemory entries) server))"

section \<open>Logs\<close>

record log_entry =
  en_time :: string
  en_levelname :: string
  en_name :: string
  en_msg :: string
  en_exc_info :: json

definition str_index :: "char \<Rightarrow> string \<Rightarrow> nat \<Rightarrow> nat option" where
  "str_index c s start =
     (let n = length (takeWhile (\<lambda>x. x \<noteq> c) (drop start s)) in
      if start + n < length s then Some (start + n) else None)"

text \<open>\<open>strptime\<close> reads \<^verbatim>\<open>%Y-%m-%dT%H:%M:%S.%f%z\<close> and prints it with \<^verbatim>\<open>%Y-%m-%d %H:%M:%S\<close>.\<close>

definition parsedate :: "(string \<Rightarrow> string option) \<Rightarrow> string \<Rightarrow> cli_exn + string" where
  "parsedate strptime t =
     (case str_index (CHR ''+'') t 0 of
        None \<Rightarrow> Inl (CliExn (ValueError ''substring not found''))
      | Some i \<Rightarrow>
     (case str_index (CHR '':'') t i of
        None \<Rightarrow> Inl (CliExn (ValueError ''substring not found''))
      | Some i \<Rightarrow>
     (case strptime (take i t @ drop (i + 1) t) of
        None \<Rightarrow> Inl (CliExn (ValueError ''time data does not match format''))
      | Some d \<Rightarrow> Inr d)))"

definition level_color :: "cli_env \<Rightarrow> string \<Rightarrow> string" where
  "level_color E level =
     dict_get [(''DEBUG'', []), (''INFO'', CYAN E), (''WARNING'', YELLOW E), (''ERROR'', RED E), (''FATAL'', MAGENTA E)] level []"

definition print_entry :: "cli_env \<Rightarrow> (string \<Rightarrow> string option) \<Rightarrow> log_entry \<Rightarrow> unit cli_m" where
  "print_entry E strptime entry =
     cbind (clift (parsedate strptime (en_time entry))) (\<lambda>date.
     cthen (cprint (level_color E (en_levelname entry) @ ''['' @ date @ ''] ['' @ en_levelname entry @ ''@'' @ en_name entry
       @ ''] '' @ en_msg entry @ FORE_RESET E))
     (if truthy (en_exc_info entry) then cprint (py_str E (en_exc_info entry)) else cret ()))"

datatype log_msg = AuthSuccess bool | History "log_entry list" | LogLine log_entry

text \<open>\<^verbatim>\<open>xs[-n:]\<close>.\<close>

definition slice_tail :: "int \<Rightarrow> 'a list \<Rightarrow> 'a list" where
  "slice_tail n xs = (if n > 0 then drop (length xs - nat n) xs else drop (nat (- n)) xs)"

fun print_entries :: "cli_env \<Rightarrow> (string \<Rightarrow> string option) \<Rightarrow> log_entry list \<Rightarrow> unit cli_m" where
  "print_entries E strptime [] = cret ()"
| "print_entries E strptime (e # es) = cthen (print_entry E strptime e) (print_entries E strptime es)"

definition handle_msg :: "cli_env \<Rightarrow> (string \<Rightarrow> string option) \<Rightarrow> int \<Rightarrow> log_msg \<Rightarrow> bool cli_m" where
  "handle_msg E strptime history_count data =
     (case data of
        AuthSuccess True \<Rightarrow> cthen (cprint (GREEN E @ ''Connected to log websocket'' @ FORE_RESET E)) (cret True)
      | AuthSuccess False \<Rightarrow> cthen (cprint (RED E @ ''Failed to authenticate to log websocket'' @ FORE_RESET E)) (cret False)
      | History es \<Rightarrow> cthen (print_entries E strptime (slice_tail history_count es)) (cret True)
      | LogLine e \<Rightarrow> cthen (print_entry E strptime e) (cret True))"

datatype ws_msg = WsText log_msg | WsError string | WsClose | WsOther

fun view_messages :: "cli_env \<Rightarrow> (string \<Rightarrow> string option) \<Rightarrow> int \<Rightarrow> ws_msg list \<Rightarrow> unit cli_m" where
  "view_messages E strptime n [] = cret ()"
| "view_messages E strptime n (m # ms) =
     (case m of
        WsText data \<Rightarrow> cbind (handle_msg E strptime n data) (\<lambda>go. if \<not> go then cret () else view_messages E strptime n ms)
      | WsError e \<Rightarrow> cthen (cprint (YELLOW E @ ''Connection error: '' @ e @ FORE_RESET E)) (view_messages E strptime n ms)
      | WsClose \<Rightarrow> cthen (cprint (YELLOW E @ ''Server closed connection'' @ FORE_RESET E)) (view_messages E strptime n ms)
      | WsOther \<Rightarrow> view_messages E strptime n ms)"

text \<open>\<open>msgs\<close> are the messages that the server sends on the websocket.\<close>

definition view_logs :: "cli_env \<Rightarrow> (string \<Rightarrow> string option) \<Rightarrow> int \<Rightarrow> ws_msg list \<Rightarrow> string \<Rightarrow> json \<Rightarrow> unit cli_m" where
  "view_logs E strptime n msgs server tok =
     cbind (http_post E None server [''_matrix'', ''maubot'', ''v1'', ''logs''] [] (WsToken tok)) (\<lambda>_.
       view_messages E strptime n msgs)"

definition logs :: "cli_env \<Rightarrow> (string \<Rightarrow> string option) \<Rightarrow> ws_msg list \<Rightarrow> string option \<Rightarrow> int \<Rightarrow> unit cli_m" where
  "logs E strptime msgs server tail =
     cbind (cli_get_token E server) (\<lambda>(server, token).
       if \<not> truthy token then cret () else view_logs E strptime tail msgs (the server) token)"

section \<open>New plugins\<close>

record templates =
  tm_meta :: "string \<Rightarrow> string \<Rightarrow> string \<Rightarrow> bool \<Rightarrow> string \<Rightarrow> string"
  tm_module :: "bool \<Rightarrow> string \<Rightarrow> string"
  tm_base_config :: string

definition init_plugin ::
    "templates \<Rightarrow> (string, string) dict \<Rightarrow> string \<Rightarrow> string \<Rightarrow> string \<Rightarrow> string \<Rightarrow> bool \<Rightarrow> unit cli_m" where
  "init_plugin T licences name i version license config =
     (if name = [] then craise (CliExn IndexError)
      else let main_class = capitalized name in
        cthen (cli_write_file ''maubot.yaml'' (PlainText (tm_meta T i version license config main_class)))
        (cthen (if license \<noteq> [] then
             cbind (clift (fst (spdx_get licences license \<lparr>spdx_list = None\<rparr>))) (\<lambda>text. cli_write_file ''LICENSE'' (PlainText text))
           else cret ())
        (cthen (cli_write_file (name @ ''/__init__.py'') (PlainText (tm_module T config main_class)))
        (if config then cli_write_file ''base-config.yaml'' (PlainText (tm_base_config T)) else cret ()))))"

section \<open>Which tokens are sent\<close>

text \<open>
  From a state with the configuration \<open>c\<close>, the code keeps the configuration and only makes requests
  that satisfy \<open>P\<close>.
\<close>

definition sent :: "cli_config \<Rightarrow> (cli_request \<Rightarrow> bool) \<Rightarrow> cli \<Rightarrow> cli \<Rightarrow> bool" where
  "sent c P s t \<longleftrightarrow> cl_config s = c \<longrightarrow>
     cl_config t = c \<and> (\<exists>rs. cl_requests t = cl_requests s @ rs \<and> list_all P rs)"

definition sends :: "cli_config \<Rightarrow> (cli_request \<Rightarrow> bool) \<Rightarrow> ('e, cli, 'a) em \<Rightarrow> bool" where
  "sends c P = steps_by (sent c P)"

interpretation sending: state_relation "sent c P" for c P
  by unfold_locales (auto simp: sent_def)

named_theorems sends_rules

lemmas sends_basic [sends_rules] = sending.by_rules [folded sends_def]

text \<open>The token \<open>tok\<close> is the one saved for the server that \<open>name\<close> stands for.\<close>

definition token_for :: "cli_config \<Rightarrow> string option \<Rightarrow> string \<Rightarrow> json \<Rightarrow> bool" where
  "token_for c name server tok \<longleftrightarrow>
     map_of (cc_servers c) server = Some tok
     \<and> (if opt_truthy name then server = dict_get (cc_aliases c) (the name) (the name)
        else cc_default_server c = Some server)"

lemma sendsI:
  assumes "\<And>s. cl_config s = c \<Longrightarrow> cl_config (snd (m s)) = c \<and> cl_requests (snd (m s)) = cl_requests s"
  shows "sends c P m"
  using assms by (auto simp: sends_def steps_by_def sent_def)

lemma sends_pure [sends_rules]:
  "sends c P (cprint l)" "sends c P (cli_write_file p content)" "sends c P (remove_file p)"
  by (rule sendsI, simp add: cprint_def cli_write_file_def remove_file_def)+

lemma sends_prints [sends_rules]: "sends c P (cprints ls)"
  by (induction ls) (simp_all add: sends_rules)

lemma sends_post:
  "P \<lparr>rq_server = server, rq_path = path, rq_query = query, rq_bearer = sess, rq_body = data\<rparr>
    \<Longrightarrow> sends c P (http_post E sess server path query data)"
  by (auto simp: sends_def steps_by_def sent_def http_post_def http_send_def)

lemmas cli_effects = cbind_def cthen_def cret_def cget_def cput_def cprint_def

lemma get_token_of_value:
  "get_token_of E srv s = (case map_of (cc_servers (cl_config s)) srv of
     Some tok \<Rightarrow> (Inr tok, s)
   | None \<Rightarrow> (Inr JNull, s\<lparr>cl_out := cl_out s @ [RED E @ ''No access token saved for '' @ srv @ ''.'' @ FORE_RESET E]\<rparr>))"
  by (simp add: get_token_of_def cli_effects split: option.split)

lemma get_token_value:
  "\<exists>so tok t. cli_get_token E name s = (Inr (so, tok), t) \<and> cl_config t = cl_config s \<and> cl_requests t = cl_requests s
    \<and> (truthy tok \<longrightarrow> (\<exists>srv. so = Some srv \<and> token_for (cl_config s) name srv tok))"
proof (cases "opt_truthy name")
  case True
  then show ?thesis
    by (auto simp: cli_get_token_def cbind_def cret_def cget_def get_token_of_value token_for_def split: option.split)
next
  case False
  then have "cli_get_token E name = get_default_server E" by (simp add: cli_get_token_def)
  then show ?thesis using False
    by (auto simp: get_default_server_def cli_effects get_token_of_value token_for_def split: option.split)
qed

lemma sends_get_token:
  assumes "\<And>srv tok. truthy tok \<Longrightarrow> token_for c name srv tok \<Longrightarrow> sends c P (k (Some srv, tok))"
    and "\<And>srv tok. \<not> truthy tok \<Longrightarrow> sends c P (k (srv, tok))"
  shows "sends c P (cbind (cli_get_token E name) k)"
  unfolding sends_def steps_by_def
proof
  fix s :: cli
  obtain so tok t where t: "cli_get_token E name s = (Inr (so, tok), t)"
    and same: "cl_config t = cl_config s" "cl_requests t = cl_requests s"
    and tok: "truthy tok \<longrightarrow> (\<exists>srv. so = Some srv \<and> token_for (cl_config s) name srv tok)"
    using get_token_value [of E name s] by blast
  have "sent c P t (snd (k (so, tok) t))" if "cl_config s = c"
    using assms tok that by (cases "truthy tok") (auto simp: sends_def steps_by_def)
  then show "sent c P s (snd (cbind (cli_get_token E name) k s))"
    using same by (simp add: sent_def cbind_def t)
qed

lemma sends_report [sends_rules]: "sends c P (report_connection_error E e)"
  by (simp add: report_connection_error_def sends_rules split: option.split)

lemma sends_with_auth:
  assumes "\<And>srv tok. truthy tok \<Longrightarrow> token_for c name srv tok \<Longrightarrow> sends c P (func (Some tok) srv)"
  shows "sends c P (with_authenticated_http E func name)"
  unfolding with_authenticated_http_def
  by (rule sends_get_token) (simp_all add: assms sends_rules)

text \<open>The token a request carries, and that it is the one saved for the server the request goes to.\<close>

definition sent_token :: "cli_request \<Rightarrow> json option" where
  "sent_token r = (case rq_body r of WsToken t \<Rightarrow> if rq_bearer r = None then Some t else None | _ \<Rightarrow> rq_bearer r)"

definition proper :: "cli_config \<Rightarrow> string option \<Rightarrow> cli_request \<Rightarrow> bool" where
  "proper c name r \<longleftrightarrow> (case sent_token r of None \<Rightarrow> False | Some tok \<Rightarrow> token_for c name (rq_server r) tok)"

lemma proper_post:
  "token_for c name server tok \<Longrightarrow> (\<forall>t. data \<noteq> WsToken t) \<Longrightarrow>
    proper c name \<lparr>rq_server = server, rq_path = path, rq_query = query, rq_bearer = Some tok, rq_body = data\<rparr>"
  by (cases data) (simp_all add: proper_def sent_token_def)

lemma sends_proper_post:
  "token_for c name server tok \<Longrightarrow> (\<forall>t. data \<noteq> WsToken t) \<Longrightarrow>
    sends c (proper c name) (http_post E (Some tok) server path query data)"
  by (rule sends_post) (rule proper_post)

lemma sends_print_error [sends_rules]: "sends c P (print_error E resp b)"
  unfolding print_error_def or_text_def by (intro sends_rules) (simp_all add: sends_rules)

lemma sends_print_response [sends_rules]: "sends c P (print_response E resp b)"
  by (auto simp: print_response_def intro!: sends_rules)

lemma sends_upload_error [sends_rules]: "sends c P (upload_error E resp)"
  by (auto simp: upload_error_def or_text_def intro!: sends_rules split: json.split)

lemma sends_open_rb [sends_rules]: "sends c P (open_rb p)"
  by (auto simp: open_rb_def intro!: sends_rules split: option.split)

lemma sends_auth_run:
  "token_for c name server tok \<Longrightarrow> sends c (proper c name) (auth_run E a (Some tok) server)"
  unfolding auth_run_def list_servers_def wait_sso_def
  by (auto intro!: sends_rules sends_proper_post split: json.split)

lemma sends_upload_file:
  "token_for c name server tok \<Longrightarrow> sends c (proper c name) (upload_file E (Some tok) file server)"
  unfolding upload_file_def by (auto intro!: sends_rules sends_proper_post)

lemma sends_print_entry [sends_rules]: "sends c P (print_entry E strptime e)"
  by (auto simp: print_entry_def intro!: sends_rules)

lemma sends_print_entries [sends_rules]: "sends c P (print_entries E strptime es)"
  by (induction es) (auto intro!: sends_rules)

lemma sends_handle_msg [sends_rules]: "sends c P (handle_msg E strptime n data)"
  by (auto simp: handle_msg_def intro!: sends_rules split: log_msg.split bool.split)

lemma sends_view_messages [sends_rules]: "sends c P (view_messages E strptime n msgs)"
  by (induction msgs) (auto intro!: sends_rules split: ws_msg.split)

lemma sends_logs: "sends c (proper c name) (logs E strptime msgs name n)"
  unfolding logs_def
proof (rule sends_get_token)
  fix srv tok assume "truthy tok" "token_for c name srv tok"
  then show "sends c (proper c name)
      (case (Some srv, tok) of (server, token) \<Rightarrow>
        if \<not> truthy token then cret () else view_logs E strptime n msgs (the server) token)"
    by (auto simp: view_logs_def proper_def sent_token_def intro!: sends_rules sends_post)
qed (simp add: sends_rules)

text \<open>No alias stands for a name that is itself an alias, and neither does the default server.\<close>

definition aliases_final :: "cli_config \<Rightarrow> bool" where
  "aliases_final c \<longleftrightarrow>
     list_all (\<lambda>(a, srv). srv \<noteq> [] \<and> dict_get (cc_aliases c) srv srv = srv) (cc_aliases c)
     \<and> (case cc_default_server c of None \<Rightarrow> True | Some srv \<Rightarrow> srv \<noteq> [] \<and> dict_get (cc_aliases c) srv srv = srv)"

lemma token_for_again:
  assumes "aliases_final c" and "token_for c name srv tok" and "token_for c (Some srv) srv' tok'"
  shows "srv' = srv \<and> tok' = tok"
proof -
  have "srv \<noteq> [] \<and> dict_get (cc_aliases c) srv srv = srv"
  proof (cases "opt_truthy name")
    case True
    then have srv: "srv = dict_get (cc_aliases c) (the name) (the name)" using assms(2) by (simp add: token_for_def)
    show ?thesis
    proof (cases "map_of (cc_aliases c) (the name)")
      case None
      then show ?thesis using srv True by (auto simp: dict_get_def opt_truthy_def)
    next
      case (Some x)
      then have "(the name, srv) \<in> set (cc_aliases c)" using srv by (simp add: dict_get_def map_of_SomeD)
      then show ?thesis using assms(1) by (auto simp: aliases_final_def list_all_iff)
    qed
  next
    case False
    then show ?thesis using assms(1,2) by (simp add: token_for_def aliases_final_def)
  qed
  then have "srv' = srv" using assms(3) by (simp add: token_for_def opt_truthy_def)
  then show ?thesis using assms(2,3) by (simp add: token_for_def)
qed

lemma sends_upload_plugin:
  assumes "aliases_final c"
  shows "sends c (proper c name) (upload_built E output name)"
  unfolding upload_built_def
proof (rule sends_with_auth)
  fix srv tok assume t: "token_for c name srv tok"
  have "sends c (proper c name) (upload_file E (Some tok) z srv')" if "token_for c (Some srv) srv' tok'"
    for z srv' tok'
    using token_for_again [OF assms t that] sends_upload_file [OF t] by simp
  then show "sends c (proper c name) (cbind (cli_get_token E (Some srv)) (\<lambda>(server, token).
      if \<not> truthy token then cret ()
      else case output of
        ToFile p \<Rightarrow> cbind (open_rb p) (\<lambda>file. upload_file E (Some tok) file (the server))
      | InMemory z \<Rightarrow> upload_file E (Some tok) (ZipArchive z) (the server)))"
    by (intro sends_get_token) (auto intro!: sends_rules split: build_output.split)
qed

lemma sends_build:
  assumes "aliases_final c"
  shows "sends c (proper c name) (build E B cwd path output upload name)"
  unfolding build_def build_read_meta_def read_output_path_def Let_def
  by (auto intro!: sends_rules sends_upload_plugin [OF assms] split: option.split sum.split bool.split prod.split)


definition ex_cli_net :: "nat \<Rightarrow> cli_request \<Rightarrow> cli_exn + http_resp" where
  "ex_cli_net n r = Inr \<lparr>rs_status = 200, rs_json = Inr (JObj
     [(''token'', JStr ''T''), (''id'', JStr ''p''), (''version'', JStr ''1'')]), rs_text = []\<rparr>"

definition ex_cli :: cli_env where
  "ex_cli = \<lparr>RED = [], GREEN = [], CYAN = [], YELLOW = [], MAGENTA = [], FORE_RESET = [],
     py_str = (\<lambda>j. case j of JStr t \<Rightarrow> t | _ \<Rightarrow> []), net = ex_cli_net, traceback = (\<lambda>_. [])\<rparr>"

text \<open>The alias \<^verbatim>\<open>dev\<close> of the server \<^verbatim>\<open>b\<close>; in the second configuration \<^verbatim>\<open>b\<close> is also an alias of \<^verbatim>\<open>c\<close>.\<close>

definition ex_servers :: "(string, json) dict" where
  "ex_servers = [(''b'', JStr ''token of b''), (''c'', JStr ''token of c'')]"

definition ex_state :: "(string, string) dict \<Rightarrow> cli" where
  "ex_state aliases = \<lparr>cl_config = \<lparr>cc_servers = ex_servers, cc_aliases = aliases, cc_default_server = None\<rparr>,
     cl_saved = None, cl_out = [], cl_requests = [], cl_files = [(''p.mbp'', ZipArchive [])]\<rparr>"

lemma ex_aliases_final: "aliases_final (cl_config (ex_state [(''dev'', ''b'')]))"
  by (simp add: aliases_final_def ex_state_def dict_get_def)


text \<open>
  With a chain of aliases \<^verbatim>\<open>build --upload\<close> sends the token of one server to another one, where
  \<^verbatim>\<open>upload\<close> goes to the right server.
\<close>

lemma build_upload_foreign_token:
  "map (\<lambda>r. (rq_server r, sent_token r))
     (cl_requests (snd (upload_built ex_cli (ToFile ''p.mbp'') (Some ''dev'') (ex_state [(''dev'', ''b''), (''b'', ''c'')]))))
   = [(''c'', Some (JStr ''token of b''))]"
  by (simp add: ex_state_def ex_servers_def upload_built_def with_authenticated_http_def cli_get_token_def opt_truthy_def
        dict_get_def get_token_of_value cli_effects ccatch_def open_rb_def upload_file_def http_post_def
        http_send_def sent_token_def clift_def craise_def ex_cli_def ex_cli_net_def subscript_def)

section \<open>Logging in\<close>

text \<open>The configuration that a login leaves, and the file that holds it.\<close>

definition after_login :: "string \<Rightarrow> string \<Rightarrow> json \<Rightarrow> cli_config \<Rightarrow> cli_config" where
  "after_login server alias tok c =
     \<lparr>cc_servers = dict_set server tok (cc_servers c),
      cc_aliases = (if alias \<noteq> [] then dict_set alias server (cc_aliases c) else cc_aliases c),
      cc_default_server = (if opt_truthy (cc_default_server c) then cc_default_server c else Some server)\<rparr>"

definition saved_form :: "cli_config \<Rightarrow> cli_file" where
  "saved_form c = \<lparr>cf_servers = Some (cc_servers c), cf_aliases = Some (cc_aliases c),
     cf_default_server = Some (cc_default_server c)\<rparr>"

lemma load_saved: "cl_config (cli_start (Some (saved_form c))) = c"
  by (simp add: cli_start_def cli_load_config_def saved_form_def or_default_def)

lemma store_login_state:
  "fst (store_login E server alias tok s) = Inr ()
   \<and> cl_config (snd (store_login E server alias tok s)) = after_login server alias tok (cl_config s)
   \<and> cl_saved (snd (store_login E server alias tok s)) = Some (saved_form (after_login server alias tok (cl_config s)))
   \<and> cl_requests (snd (store_login E server alias tok s)) = cl_requests s"
  by (cases "opt_truthy (cc_default_server (cl_config s))"; cases "alias = []")
    (simp_all add: store_login_def cli_effects set_config_def cli_save_config_def after_login_def saved_form_def)

lemma login_state:
  assumes "net E (length (cl_requests s)) (login_post server username password) = Inr resp"
    and "rs_status resp = 200" and "rs_json resp = Inr data" and "subscript data ''token'' = Inr tok"
  shows "fst (cli_login E server username password alias s) = Inr ()
    \<and> cl_saved (snd (cli_login E server username password alias s)) = Some (saved_form (after_login server alias tok (cl_config s)))
    \<and> cl_requests (snd (cli_login E server username password alias s)) = cl_requests s @ [login_post server username password]"
proof -
  let ?t = "s\<lparr>cl_requests := cl_requests s @ [login_post server username password]\<rparr>"
  obtain t where t: "store_login E server alias tok ?t = (Inr (), t)"
    using store_login_state [of E server "alias" tok ?t] by (metis prod.collapse)
  have "http_post E None server [''_matrix'', ''maubot'', ''v1'', ''auth'', ''login''] []
      (JsonBody (login_request username password)) = http_send E (login_post server username password)"
    by (simp add: http_post_def login_post_def)
  then have "cli_login E server username password alias s = store_login E server alias tok ?t"
    using assms t by (simp add: cli_login_def with_http_def ccatch_def cbind_def http_send_def clift_def cret_def)
  then show ?thesis using store_login_state [of E server "alias" tok ?t] by simp
qed

text \<open>
  C39. A login is remembered: when the server has answered with a token, a later process that loads the
  saved file finds this token under the server's URL, unless that is the name of an alias, under the
  alias that was given, and without any name if no default server was set. The default server and the
  other tokens and aliases stay, and the password went to that server only.
\<close>

theorem login_remembered:
  assumes "net E (length (cl_requests s)) (login_post server username password) = Inr resp"
    and "rs_status resp = 200" and "rs_json resp = Inr data" and "subscript data ''token'' = Inr tok"
  shows "let s' = snd (cli_login E server username password alias s); p = cli_start (cl_saved s') in
    cl_requests s' = cl_requests s @ [login_post server username password]
    \<and> (server \<noteq> [] \<and> \<not> in_dict server (cc_aliases (cl_config p)) \<longrightarrow>
         cli_get_token E (Some server) p = (Inr (Some server, tok), p))
    \<and> (alias \<noteq> [] \<longrightarrow> cli_get_token E (Some alias) p = (Inr (Some server, tok), p))
    \<and> (\<not> opt_truthy (cc_default_server (cl_config s)) \<longrightarrow> cli_get_token E None p = (Inr (Some server, tok), p))
    \<and> (opt_truthy (cc_default_server (cl_config s)) \<longrightarrow>
         cc_default_server (cl_config p) = cc_default_server (cl_config s))
    \<and> (\<forall>other. other \<noteq> server \<longrightarrow>
         map_of (cc_servers (cl_config p)) other = map_of (cc_servers (cl_config s)) other)
    \<and> (\<forall>other. other \<noteq> alias \<longrightarrow>
         map_of (cc_aliases (cl_config p)) other = map_of (cc_aliases (cl_config s)) other)"
proof -
  let ?c = "after_login server alias tok (cl_config s)"
  obtain p where start: "cli_start (Some (saved_form ?c)) = p" by simp
  then have p: "cl_config p = ?c" using load_saved by blast
  have found: "get_token_of E server p = (Inr tok, p)"
    by (simp add: get_token_of_value p after_login_def)
  have "cli_get_token E (Some server) p = (Inr (Some server, tok), p)"
    if "server \<noteq> []" "\<not> in_dict server (cc_aliases (cl_config p))"
    using that found by (simp add: cli_get_token_def opt_truthy_def cli_effects dict_get_def in_dict_def)
  moreover have "cli_get_token E (Some alias) p = (Inr (Some server, tok), p)" if "alias \<noteq> []"
    using that found by (simp add: cli_get_token_def opt_truthy_def cli_effects dict_get_def p after_login_def)
  moreover have "cli_get_token E None p = (Inr (Some server, tok), p)"
    if "\<not> opt_truthy (cc_default_server (cl_config s))"
  proof -
    have "cc_default_server (cl_config p) = Some server" using that by (simp add: p after_login_def)
    then show ?thesis using found by (simp add: cli_get_token_def opt_truthy_def get_default_server_def cli_effects)
  qed
  moreover have "cc_default_server (cl_config p) = cc_default_server (cl_config s)"
    if "opt_truthy (cc_default_server (cl_config s))" using that by (simp add: p after_login_def)
  moreover have "map_of (cc_servers (cl_config p)) other = map_of (cc_servers (cl_config s)) other" if "other \<noteq> server" for other
    using that by (simp add: p after_login_def)
  moreover have "map_of (cc_aliases (cl_config p)) other = map_of (cc_aliases (cl_config s)) other" if "other \<noteq> alias" for other
    using that by (simp add: p after_login_def)
  ultimately show ?thesis using login_state [OF assms, of "alias"] unfolding Let_def by (simp add: start)
qed

theorem login_remembered_witness:
  "fst (cli_get_token ex_cli (Some ''dev'')
     (cli_start (cl_saved (snd (cli_login ex_cli ''http://b'' ''user'' ''pw'' ''dev'' (ex_state []))))))
   = Inr (Some ''http://b'', JStr ''T'')"
  using login_remembered [of ex_cli "ex_state []" "''http://b''" "''user''" "''pw''" _
      "JObj [(''token'', JStr ''T''), (''id'', JStr ''p''), (''version'', JStr ''1'')]" "JStr ''T''" "''dev''"]
  by (simp add: ex_cli_def ex_cli_net_def subscript_def Let_def)

text \<open>
  A refused login whose answer is not JSON, for example from a proxy, is reported as a connection error:
  unlike the other commands, \<^verbatim>\<open>login\<close> does not fall back to the text of the answer.
\<close>

lemma login_html_error:
  assumes "net E (length (cl_requests s)) (login_post server username password) = Inr resp"
    and "rs_status resp \<noteq> 200" and "rs_json resp = Inl (ContentTypeError m)"
  shows "cl_out (snd (cli_login E server username password alias s))
    = cl_out s @ [RED E @ ''Connection error: '' @ m @ FORE_RESET E]"
proof -
  have "http_post E None server [''_matrix'', ''maubot'', ''v1'', ''auth'', ''login''] []
      (JsonBody (login_request username password)) = http_send E (login_post server username password)"
    by (simp add: http_post_def login_post_def)
  then show ?thesis using assms
    by (simp add: cli_login_def with_http_def ccatch_def cbind_def http_send_def clift_def craise_def login_failed_def
        report_connection_error_def cprint_def)
qed

section \<open>Logs and archives\<close>

text \<open>\<open>--tail 0\<close> prints the whole history, because the slice \<^verbatim>\<open>[-0:]\<close> is the whole list.\<close>

lemma tail_of_history:
  "0 < n \<Longrightarrow> length (slice_tail n xs) = min (nat n) (length xs)"
  "slice_tail 0 xs = xs"
  by (simp_all add: slice_tail_def min_def)

text \<open>Python's name of the highest level is not the one in the table of colours.\<close>

lemma critical_has_no_color: "level_color E ''CRITICAL'' = []"
  by (simp add: level_color_def dict_get_def)

text \<open>\<^verbatim>\<open>yesno\<close> means to keep booleans, but \<^verbatim>\<open>False\<close> is caught by the test for missing values.\<close>

lemma yesno_false: "yesno (JBool False) = JNull" "yesno (JBool True) = JBool True"
  by (simp_all add: yesno_def)

text \<open>
  A module is left out of the archive, with a warning, exactly when it is neither a file nor a package;
  otherwise its file or its \<^verbatim>\<open>__init__.py\<close> is in the archive.
\<close>

lemma module_entries_cases:
  assumes "isdir F module \<Longrightarrow> isfile F (module @ ''/__init__.py'') \<Longrightarrow>
      \<exists>fs. (module, fs) \<in> set (walk F module) \<and> ''__init__.py'' \<in> set fs"
    and "module \<noteq> []" and "\<not> endswith module ''/''"
  shows "snd (module_entries E F module) = [] \<longleftrightarrow>
      isfile F (module @ ''.py'') \<or> isdir F module \<and> isfile F (module @ ''/__init__.py'')"
    and "snd (module_entries E F module) = [] \<Longrightarrow>
      ZipFile (module @ ''.py'') \<in> set (fst (module_entries E F module))
      \<or> ZipFile (module @ ''/__init__.py'') \<in> set (fst (module_entries E F module))"
proof -
  show cases: "snd (module_entries E F module) = [] \<longleftrightarrow>
      isfile F (module @ ''.py'') \<or> isdir F module \<and> isfile F (module @ ''/__init__.py'')"
    by (simp add: module_entries_def)
  assume "snd (module_entries E F module) = []"
  moreover have "ZipFile (module @ ''/__init__.py'') \<in> set (zipdir F module)"
    if dir: "isdir F module" "isfile F (module @ ''/__init__.py'')"
  proof -
    obtain fs where "(module, fs) \<in> set (walk F module)" "''__init__.py'' \<in> set fs" using assms(1) [OF dir] by blast
    moreover have "path_joined module ''__init__.py'' = module @ ''/__init__.py''"
      using assms(2,3) by (simp add: path_joined_def startswith_def)
    ultimately show ?thesis unfolding zipdir_def by force
  qed
  ultimately show "ZipFile (module @ ''.py'') \<in> set (fst (module_entries E F module))
      \<or> ZipFile (module @ ''/__init__.py'') \<in> set (fst (module_entries E F module))"
    using cases by (auto simp: module_entries_def)
qed

end
