(* ===== verification/MB_Standalone.thy ===== *)
theory MB_Standalone
  imports MB_Events MB_Effects MB_Loader MB_Server MB_Program
begin

text \<open>
  The standalone mode (\<^verbatim>\<open>standalone/__main__.py\<close>, \<^verbatim>\<open>config.py\<close>, \<^verbatim>\<open>database.py\<close>, \<^verbatim>\<open>loader.py\<close>): one plugin
  with one client, configured by one file. The order of the calls of a run, from the start of the
  database to its stop, is recorded as a trace, on which the lemmas are stated: what is confirmed
  before plugin code runs, and what is stopped however the run ends.

  The homeserver answers \<^verbatim>\<open>whoami\<close> with a finite list of answers, after which the user interrupts the
  program; every run that ends is one of these. The other calls may raise, as a parameter says that
  sees the trace.
\<close>

section \<open>Configuration\<close>

definition env_key :: "string \<Rightarrow> string" where
  "env_key key = ''MAUBOT_'' @ map char_upper (replace_char (CHR ''.'') (CHR ''_'') key)"

text \<open>\<open>Config.__getitem__\<close>: a variable of the environment wins over the file.\<close>

definition sa_getitem :: "(string \<Rightarrow> string option) \<Rightarrow> cfg \<Rightarrow> string \<Rightarrow> json" where
  "sa_getitem environ c key = (case environ (env_key key) of Some v \<Rightarrow> JStr v | None \<Rightarrow> cfg_get c key)"

definition sa_do_update :: "cfg \<Rightarrow> cfg \<Rightarrow> cfg" where
  "sa_do_update self base =
     (let base = cfg_copies self [''user.credentials.id'', ''user.credentials.homeserver'',
            ''user.credentials.access_token'', ''user.credentials.device_id'', ''user.sync'',
            ''user.appservice'', ''user.hs_token'', ''user.autojoin'', ''user.displayname'',
            ''user.avatar_url'', ''user.ignore_initial_sync'', ''user.ignore_first_sync''] base;
          base = (if base ''server'' \<noteq> None
            then cfg_copies self [''server.hostname'', ''server.port'', ''server.base_path'', ''server.public_url''] base
            else base);
          base = cfg_copies self [''database'', ''database_opts'', ''crypto_db_pickle_key''] base;
          base = (if base ''plugin_config'' \<noteq> None then cfg_copies self [''plugin_config''] base else base) in
      cfg_copies self [''logging''] base)"

section \<open>The sync position\<close>

text \<open>The table \<^verbatim>\<open>standalone_next_batch\<close>: its rows by user, with next batch and filter.\<close>

type_synonym nb_table = "string \<rightharpoonup> string \<times> string"

record next_batch_store =
  nb_user_id :: string
  nb_next_batch :: string
  nb_filter_id :: string

definition nb_new :: "string \<Rightarrow> next_batch_store" where
  "nb_new user = \<lparr>nb_user_id = user, nb_next_batch = [], nb_filter_id = []\<rparr>"

definition nb_load :: "next_batch_store \<Rightarrow> nb_table \<Rightarrow> next_batch_store \<times> nb_table" where
  "nb_load nb t =
     (case t (nb_user_id nb) of
        Some (batch, filter_id) \<Rightarrow> (nb\<lparr>nb_next_batch := batch, nb_filter_id := filter_id\<rparr>, t)
      | None \<Rightarrow> (nb, t(nb_user_id nb \<mapsto> (nb_next_batch nb, nb_filter_id nb))))"

text \<open>An \<^verbatim>\<open>UPDATE\<close> changes nothing when there is no row.\<close>

definition nb_put_filter_id :: "string \<Rightarrow> next_batch_store \<Rightarrow> nb_table \<Rightarrow> next_batch_store \<times> nb_table" where
  "nb_put_filter_id f nb t =
     (let nb = nb\<lparr>nb_filter_id := f\<rparr> in
      (nb, case t (nb_user_id nb) of None \<Rightarrow> t | Some (b, _) \<Rightarrow> t(nb_user_id nb \<mapsto> (b, nb_filter_id nb))))"

definition nb_put_next_batch :: "string \<Rightarrow> next_batch_store \<Rightarrow> nb_table \<Rightarrow> next_batch_store \<times> nb_table" where
  "nb_put_next_batch b nb t =
     (let nb = nb\<lparr>nb_next_batch := b\<rparr> in
      (nb, case t (nb_user_id nb) of None \<Rightarrow> t | Some (_, f) \<Rightarrow> t(nb_user_id nb \<mapsto> (nb_next_batch nb, f))))"

definition nb_get_next_batch :: "next_batch_store \<Rightarrow> string" where
  "nb_get_next_batch nb = nb_next_batch nb"

section \<open>Files of the plugin\<close>

record fs_loader =
  fl_path :: string
  fl_meta :: full_meta

definition fl_join :: "string \<Rightarrow> string \<Rightarrow> string" where
  "fl_join a b = (if startswith b ''/'' then b else if a = [] \<or> endswith a ''/'' then a @ b else a @ ''/'' @ b)"

definition fl_source :: "fs_loader \<Rightarrow> string" where
  "fl_source l = fl_path l"

text \<open>\<open>read\<close> and \<open>listdir\<close> are the file system.\<close>

definition fl_read_file :: "(string \<Rightarrow> exn + byte list) \<Rightarrow> fs_loader \<Rightarrow> string \<Rightarrow> exn + byte list" where
  "fl_read_file read l p = read (fl_join (fl_path l) p)"

definition fl_list_files :: "(string \<Rightarrow> exn + string list) \<Rightarrow> fs_loader \<Rightarrow> string \<Rightarrow> exn + string list" where
  "fl_list_files listdir l d = listdir (fl_join (fl_path l) d)"

section \<open>Set-up\<close>

datatype sa_exn = Exn exn | KeyboardInterrupt

text \<open>\<^verbatim>\<open>except Exception\<close>: neither interrupts nor \<^verbatim>\<open>sys.exit\<close>.\<close>

fun sa_is_exception :: "sa_exn \<Rightarrow> bool" where
  "sa_is_exception (Exn (SystemExit _)) = False"
| "sa_is_exception (Exn _) = True"
| "sa_is_exception KeyboardInterrupt = False"

fun is_runtime_error :: "sa_exn \<Rightarrow> bool" where
  "is_runtime_error (Exn (RuntimeError _)) = True"
| "is_runtime_error _ = False"

record web_setup =
  ws_base_path :: "string option"
  ws_public_url :: "string option"

record sa_setup =
  su_module :: string
  su_main_class :: string
  su_user_id :: json
  su_device_id :: json
  su_crypto :: bool
  su_appservice :: bool
  su_sync :: bool
  su_autojoin :: bool
  su_displayname :: json
  su_avatar_url :: json
  su_web :: "web_setup option"
  su_has_config :: bool
  su_meta :: full_meta

text \<open>
  Whether the encryption library is there, the plugin's configuration (whose errors end the program),
  and the joining of a public URL with a base path, which is yarl's.
\<close>

record setup_env =
  se_environ :: "string \<Rightarrow> string option"
  se_has_olm :: bool
  se_load_config :: "exn option"
  se_public_url :: "string \<Rightarrow> string \<Rightarrow> string"

definition sa_main_class_of :: "full_meta \<Rightarrow> exn + (string \<times> string)" where
  "sa_main_class_of m =
     (if CHR ''/'' \<in> set (meta_main_class m) then Inr (split_once (CHR ''/'') (meta_main_class m))
      else if meta_modules m = [] then Inl IndexError
      else Inr (last (meta_modules m), meta_main_class m))"

text \<open>A plugin that ships a base configuration counts as one with a configuration.\<close>

definition effective_config :: "full_meta \<Rightarrow> bool" where
  "effective_config m \<longleftrightarrow> meta_config m \<or> ''base-config.yaml'' \<in> set (extra_files m)"

definition sa_web :: "setup_env \<Rightarrow> cfg \<Rightarrow> full_meta \<Rightarrow> exn + web_setup option" where
  "sa_web S c m =
     (let get = sa_getitem (se_environ S) c in
      if meta_webapp m then
        (case (get ''server.base_path'', get ''server.public_url'') of
           (JStr base, JStr url) \<Rightarrow>
             let web_base_path = str_rstrip base ''/'' in
             if isl (prefix_resource_init (\<lambda>p. p) web_base_path) then Inl AssertionError
             else Inr (Some \<lparr>ws_base_path = Some web_base_path,
               ws_public_url = Some (str_rstrip (se_public_url S url (dropWhile (\<lambda>c. c = CHR ''/'') web_base_path)) ''/'')\<rparr>)
         | (JStr base, _) \<Rightarrow> Inl TypeError
         | _ \<Rightarrow> Inl AttributeError)
      else if truthy (get ''user.appservice'') then Inr (Some \<lparr>ws_base_path = None, ws_public_url = None\<rparr>)
      else Inr None)"

text \<open>The statements before \<open>main\<close>; an uncaught exception ends the program.\<close>

definition sa_prepare :: "setup_env \<Rightarrow> cfg \<Rightarrow> full_meta \<Rightarrow> exn + sa_setup" where
  "sa_prepare S c m =
     (let get = sa_getitem (se_environ S) c in
      case sa_main_class_of m of
        Inl e \<Rightarrow> Inl e
      | Inr (module, main_class) \<Rightarrow>
     (let device_id = get ''user.credentials.device_id'' in
      if effective_config m \<and> se_load_config S \<noteq> None then Inl (SystemExit 1)
      else case sa_web S c m of
        Inl e \<Rightarrow> Inl e
      | Inr web \<Rightarrow> Inr
          \<lparr>su_module = module, su_main_class = main_class, su_user_id = get ''user.credentials.id'',
           su_device_id = device_id, su_crypto = (truthy device_id \<and> se_has_olm S),
           su_appservice = truthy (get ''user.appservice''), su_sync = truthy (get ''user.sync''),
           su_autojoin = truthy (get ''user.autojoin''), su_displayname = get ''user.displayname'',
           su_avatar_url = get ''user.avatar_url'', su_web = web, su_has_config = effective_config m, su_meta = m\<rparr>))"

text \<open>\<^verbatim>\<open>_handle_plugin_request\<close>, behind a prefix resource for the same path.\<close>

definition handle_plugin_request :: "string \<Rightarrow> web_handler \<Rightarrow> web_request \<Rightarrow> web_response" where
  "handle_plugin_request web_base_path plugin_webapp req =
     (if startswith (req_path req) web_base_path
      then plugin_webapp (req\<lparr>req_path := drop (length web_base_path) (req_path req)\<rparr>)
      else empty_response 404)"

section \<open>Running\<close>

datatype sa_call =
    DbStart | UpgradeCryptoStore | UpgradeStateStore | OpenCrypto | GetDeviceId | LoadCrypto | PutDeviceId json
  | WebSetup | SiteStart | Whoami | Sleep nat | CreateFilter | PutFilter string | ClientStart string
  | AccountShared | ShareKeys | OnInvite | JoinRoom string | SetAvatarUrl json | SetDisplayname json
  | CreateEngine | UpgradePlugin | BotStart | ClientStop | BotStop | WebShutdown | WebCleanup | DbStop

record whoami =
  wh_user_id :: string
  wh_device_id :: "string option"

record sa_env =
  sa_fails :: "sa_call list \<Rightarrow> sa_call \<Rightarrow> sa_exn option"
  sa_stored_device :: json
  sa_filter :: string
  sa_shared :: bool
  sa_has_upgrade_table :: bool

record sa =
  sa_trace :: "sa_call list"
  sa_answers :: "(sa_exn + whoami) list"
  sa_rows :: nb_table
  sa_nb :: next_batch_store
  sa_client :: bool
  sa_bot :: bool
  sa_server :: bool

type_synonym 'a sa_m = "(sa_exn, sa, 'a) em"

text \<open>A call is made, and raises if the environment says so.\<close>

definition make_call :: "sa_env \<Rightarrow> sa_call \<Rightarrow> unit sa_m" where
  "make_call E c s = (case sa_fails E (sa_trace s) c of None \<Rightarrow> Inr () | Some e \<Rightarrow> Inl e, s\<lparr>sa_trace := sa_trace s @ [c]\<rparr>)"

definition sa_exit :: "nat \<Rightarrow> unit sa_m" where
  "sa_exit n = craise (Exn (SystemExit n))"

definition load_next_batch :: "json \<Rightarrow> unit sa_m" where
  "load_next_batch user = cput (\<lambda>s.
     let (nb, t) = nb_load (nb_new (case user of JStr u \<Rightarrow> u | _ \<Rightarrow> [])) (sa_rows s) in s\<lparr>sa_nb := nb, sa_rows := t\<rparr>)"

definition sa_start_crypto :: "sa_env \<Rightarrow> sa_setup \<Rightarrow> unit sa_m" where
  "sa_start_crypto E u =
     cthen (make_call E UpgradeCryptoStore) (cthen (make_call E UpgradeStateStore) (cthen (make_call E OpenCrypto)
     (cthen (make_call E GetDeviceId)
     (if truthy (sa_stored_device E) \<and> sa_stored_device E \<noteq> su_device_id u then sa_exit 10
      else cthen (make_call E LoadCrypto) (cwhen (\<not> truthy (sa_stored_device E)) (make_call E (PutDeviceId (su_device_id u))))))))"

definition start_web :: "sa_env \<Rightarrow> unit sa_m" where
  "start_web E = cthen (make_call E WebSetup) (cthen (cput (\<lambda>s. s\<lparr>sa_server := True\<rparr>)) (make_call E SiteStart))"

text \<open>The loop over the answers; without an answer left the sleep is interrupted.\<close>

definition check_whoami :: "sa_setup \<Rightarrow> whoami \<Rightarrow> unit sa_m" where
  "check_whoami u w =
     (if JStr (wh_user_id w) \<noteq> su_user_id u then sa_exit 11
      else if opt_truthy (wh_device_id w) \<and> truthy (su_device_id u) \<and> JStr (the (wh_device_id w)) \<noteq> su_device_id u
      then sa_exit 12
      else cret ())"

fun confirm_loop :: "sa_env \<Rightarrow> sa_setup \<Rightarrow> (sa_exn + whoami) list \<Rightarrow> unit sa_m" where
  "confirm_loop E u [] = craise KeyboardInterrupt"
| "confirm_loop E u (a # as) =
     cthen (cput (\<lambda>s. s\<lparr>sa_trace := sa_trace s @ [Whoami], sa_answers := as\<rparr>))
     (case a of
        Inl e \<Rightarrow> if sa_is_exception e then cthen (make_call E (Sleep 10)) (confirm_loop E u as) else craise e
      | Inr w \<Rightarrow> check_whoami u w)"

definition confirm :: "sa_env \<Rightarrow> sa_setup \<Rightarrow> unit sa_m" where
  "confirm E u = cbind (cget sa_answers) (confirm_loop E u)"

definition sa_start_sync :: "sa_env \<Rightarrow> sa_setup \<Rightarrow> unit sa_m" where
  "sa_start_sync E u =
     (if su_sync u then
        cthen (cbind (cget (\<lambda>s. nb_filter_id (sa_nb s))) (\<lambda>f.
          cwhen (f = []) (cthen (make_call E CreateFilter) (cthen (make_call E (PutFilter (sa_filter E)))
            (cput (\<lambda>s. let (nb, t) = nb_put_filter_id (sa_filter E) (sa_nb s) (sa_rows s) in s\<lparr>sa_nb := nb, sa_rows := t\<rparr>))))))
        (cbind (cget (\<lambda>s. nb_filter_id (sa_nb s))) (\<lambda>f. make_call E (ClientStart f)))
      else cwhen (su_appservice u \<and> su_crypto u \<and> \<not> sa_shared E) (make_call E ShareKeys))"

definition set_profile :: "sa_env \<Rightarrow> sa_setup \<Rightarrow> unit sa_m" where
  "set_profile E u =
     cthen (cwhen (su_avatar_url u \<noteq> JStr ''disable'') (make_call E (SetAvatarUrl (su_avatar_url u))))
     (cwhen (su_displayname u \<noteq> JStr ''disable'') (make_call E (SetDisplayname (su_displayname u))))"

definition plugin_database :: "sa_env \<Rightarrow> sa_setup \<Rightarrow> unit sa_m" where
  "plugin_database E u =
     cwhen (meta_database (su_meta u))
       (case meta_database_type (su_meta u) of
          SQLALCHEMY \<Rightarrow> make_call E CreateEngine
        | ASYNCPG \<Rightarrow> cwhen (sa_has_upgrade_table E) (make_call E UpgradePlugin)
        | OtherDatabase _ \<Rightarrow> sa_exit 13)"

text \<open>\<open>main\<close>, in its three parts: up to the web server, the confirmation, and what follows it.\<close>

definition sa_connect :: "sa_env \<Rightarrow> sa_setup \<Rightarrow> unit sa_m" where
  "sa_connect E u =
     cthen (make_call E DbStart)
     (cthen (load_next_batch (su_user_id u))
     (cthen (cput (\<lambda>s. s\<lparr>sa_client := True\<rparr>))
     (cthen (cwhen (su_crypto u) (sa_start_crypto E u))
     (cwhen (su_web u \<noteq> None) (start_web E)))))"

definition sa_enter :: "sa_env \<Rightarrow> sa_setup \<Rightarrow> unit sa_m" where
  "sa_enter E u =
     cthen (sa_start_sync E u)
     (cthen (cwhen (su_autojoin u) (make_call E OnInvite))
     (cthen (set_profile E u) (plugin_database E u)))"

definition sa_start_plugin :: "sa_env \<Rightarrow> unit sa_m" where
  "sa_start_plugin E = cthen (cput (\<lambda>s. s\<lparr>sa_bot := True\<rparr>)) (make_call E BotStart)"

definition sa_main :: "sa_env \<Rightarrow> sa_setup \<Rightarrow> unit sa_m" where
  "sa_main E u = cthen (sa_connect E u) (cthen (confirm E u) (cthen (sa_enter E u) (sa_start_plugin E)))"

text \<open>The handler that autojoin registers.\<close>

definition handle_invite_sa :: "sa_env \<Rightarrow> string \<Rightarrow> string \<Rightarrow> string \<Rightarrow> bool \<Rightarrow> unit sa_m" where
  "handle_invite_sa E mxid state_key room_id is_invite =
     cwhen (state_key = mxid \<and> is_invite) (make_call E (JoinRoom room_id))"

text \<open>
  An event that the homeserver pushed: \<open>trim\<close> removes the fallback of a reply, and the event gets the
  flags of the sync stream it would have come from.
\<close>

datatype sync_flag = JOINED_ROOM | EPHEMERAL | TIMELINE

definition handle_appservice_event :: "('a \<Rightarrow> bool) \<Rightarrow> ('a \<Rightarrow> 'a) \<Rightarrow> ('a \<Rightarrow> bool) \<Rightarrow> 'a \<Rightarrow> 'a \<times> sync_flag list" where
  "handle_appservice_event is_message trim is_ephemeral evt =
     (if is_message evt then trim evt else evt, [JOINED_ROOM, if is_ephemeral evt then EPHEMERAL else TIMELINE])"

section \<open>Stopping\<close>

definition stop_bot :: "sa_env \<Rightarrow> unit sa_m" where
  "stop_bot E = ccatch (make_call E BotStop) (\<lambda>e. if sa_is_exception e then cret () else craise e)"

definition stop_web :: "sa_env \<Rightarrow> bool \<Rightarrow> unit sa_m" where
  "stop_web E suppress_stop_error =
     ccatch (cthen (make_call E WebShutdown) (make_call E WebCleanup)) (\<lambda>e.
       if is_runtime_error e
       then if suppress_stop_error then cret () else cthen (make_call E DbStop) (craise e)
       else craise e)"

definition sa_stop :: "sa_env \<Rightarrow> bool \<Rightarrow> unit sa_m" where
  "sa_stop E suppress_stop_error =
     cthen (cbind (cget sa_client) (\<lambda>b. cwhen b (make_call E ClientStop)))
     (cthen (cbind (cget sa_bot) (\<lambda>b. cwhen b (stop_bot E)))
     (cthen (cbind (cget sa_server) (\<lambda>b. cwhen b (stop_web E suppress_stop_error)))
     (make_call E DbStop)))"

text \<open>How the process ends: with an exit code, or by an exception that nothing catches.\<close>

datatype sa_outcome = Exit nat | Crash sa_exn

definition ends :: "unit sa_m \<Rightarrow> sa_outcome \<Rightarrow> sa \<Rightarrow> sa_outcome \<times> sa" where
  "ends m out s = (case m s of (Inl e, t) \<Rightarrow> (Crash e, t) | (Inr _, t) \<Rightarrow> (out, t))"

text \<open>\<open>forever\<close> is the exception that ends \<^verbatim>\<open>run_forever\<close>.\<close>

definition sa_run :: "sa_env \<Rightarrow> sa_setup \<Rightarrow> sa_exn \<Rightarrow> sa \<Rightarrow> sa_outcome \<times> sa" where
  "sa_run E u forever s =
     (case sa_main E u s of
        (Inl (Exn (SystemExit n)), t) \<Rightarrow> ends (sa_stop E True) (Exit n) t
      | (Inl e, t) \<Rightarrow> ends (sa_stop E True) (Exit 1) t
      | (Inr _, t) \<Rightarrow>
          if forever = KeyboardInterrupt then ends (sa_stop E False) (Exit 0) t
          else if sa_is_exception forever then (Exit 1, t)
          else (Crash forever, t))"

definition sa_init :: "nb_table \<Rightarrow> (sa_exn + whoami) list \<Rightarrow> sa" where
  "sa_init rows answers =
     \<lparr>sa_trace = [], sa_answers = answers, sa_rows = rows, sa_nb = nb_new [], sa_client = False, sa_bot = False,
      sa_server = False\<rparr>"

section \<open>The environment\<close>

text \<open>
  Variables are text, so a switch that the environment sets is on, whatever it says: with
  \<^verbatim>\<open>MAUBOT_USER_SYNC=false\<close> the client syncs.
\<close>

lemma environment_switches_on:
  assumes "environ (env_key ''user.sync'') = Some ''false''" and "sa_prepare
      \<lparr>se_environ = environ, se_has_olm = olm, se_load_config = lc, se_public_url = pu\<rparr> c m = Inr u"
  shows "su_sync u"
  using assms by (auto simp: sa_prepare_def sa_getitem_def Let_def split: sum.splits if_splits)

lemma env_key_sync: "env_key ''user.sync'' = ''MAUBOT_USER_SYNC''"
  by code_simp

text \<open>The base path is matched as a string, so a path that only begins with the same letters is taken too.\<close>

lemma base_path_without_boundary:
  "prefix_raw_match ''/bot'' ''/bottle/x''"
  "handle_plugin_request ''/bot'' app \<lparr>req_path = ''/bottle/x'', req_query = q, req_headers = h\<rparr>
    = app \<lparr>req_path = ''tle/x'', req_query = q, req_headers = h\<rparr>"
  by (simp_all add: prefix_raw_match_def handle_plugin_request_def startswith_def)

section \<open>The sync position survives restarts\<close>

datatype nb_event = NbStart string | NbPutFilter string | NbPutBatch string

type_synonym nb_state = "next_batch_store option \<times> nb_table"

text \<open>A new process loads the row of its user; the puts are those of the running client.\<close>

fun nb_step :: "nb_event \<Rightarrow> nb_state \<Rightarrow> nb_state option" where
  "nb_step (NbStart user) (nb, t) = (let (nb, t) = nb_load (nb_new user) t in Some (Some nb, t))"
| "nb_step (NbPutFilter f) (None, t) = None"
| "nb_step (NbPutFilter f) (Some nb, t) = (let (nb, t) = nb_put_filter_id f nb t in Some (Some nb, t))"
| "nb_step (NbPutBatch b) (None, t) = None"
| "nb_step (NbPutBatch b) (Some nb, t) = (let (nb, t) = nb_put_next_batch b nb t in Some (Some nb, t))"

definition nb_inv :: "nb_table \<Rightarrow> nb_state \<Rightarrow> bool" where
  "nb_inv t0 s \<longleftrightarrow>
     (case fst s of
        None \<Rightarrow> True
      | Some nb \<Rightarrow> snd s (nb_user_id nb) = Some (nb_next_batch nb, nb_filter_id nb))
     \<and> dom t0 \<subseteq> dom (snd s)"

interpretation nb: event_invariant nb_step "(None, t0)" "nb_inv t0" for t0
proof (unfold_locales, goal_cases)
  case (2 s e s')
  then show ?case
    by (cases "(e, s)" rule: nb_step.cases)
      (auto simp: nb_inv_def nb_load_def nb_new_def nb_put_filter_id_def nb_put_next_batch_def split: option.splits)
qed (simp add: nb_inv_def)

fun nb_started :: "nb_event \<Rightarrow> string list" where
  "nb_started (NbStart user) = [user]"
| "nb_started _ = []"

lemma nb_other_rows:
  "run nb_step es s = Some s' \<Longrightarrow> v \<notin> set (concat (map nb_started es)) \<Longrightarrow>
    (\<forall>nb. fst s = Some nb \<longrightarrow> nb_user_id nb \<noteq> v) \<Longrightarrow> snd s' v = snd s v"
proof (induction es arbitrary: s)
  case (Cons e es)
  obtain u where u: "nb_step e s = Some u" "run nb_step es u = Some s'"
    using Cons.prems(1) by (auto split: option.splits)
  have "snd u v = snd s v \<and> (\<forall>nb. fst u = Some nb \<longrightarrow> nb_user_id nb \<noteq> v)"
    using u(1) Cons.prems(2,3)
    by (cases "(e, s)" rule: nb_step.cases)
      (auto simp: nb_load_def nb_new_def nb_put_filter_id_def nb_put_next_batch_def Let_def split: option.splits)
  then show ?case using Cons.IH [OF u(2)] Cons.prems(2) by auto
qed simp

text \<open>
  The sync position survives restarts: after any sequence of starts and updates, for any users, a
  new process for the current user reads back exactly the batch and filter the running one holds, and
  reading changes nothing. The rows of users that were not started stay as they were, and no row is lost.
\<close>

theorem next_batch_restored:
  assumes "run nb_step es (None, t0) = Some (Some nb, t)"
  shows "nb_load (nb_new (nb_user_id nb)) t = (nb, t)
    \<and> (\<forall>v. v \<notin> set (concat (map nb_started es)) \<longrightarrow> t v = t0 v) \<and> dom t0 \<subseteq> dom t"
  using nb.run_inv [OF assms] nb_other_rows [OF assms]
  by (cases nb) (simp add: nb_inv_def nb_load_def nb_new_def)

theorem next_batch_restored_witness:
  "fst (nb_load (nb_new ''@a:hs'') (snd (the (run nb_step
      [NbStart ''@a:hs'', NbPutFilter ''f'', NbPutBatch ''s1'', NbStart ''@a:hs'', NbPutBatch ''s2''] (None, Map.empty)))))
   = \<lparr>nb_user_id = ''@a:hs'', nb_next_batch = ''s2'', nb_filter_id = ''f''\<rparr>"
  using next_batch_restored [of "[NbStart ''@a:hs'', NbPutFilter ''f'', NbPutBatch ''s1'', NbStart ''@a:hs'', NbPutBatch ''s2'']"
      Map.empty "\<lparr>nb_user_id = ''@a:hs'', nb_next_batch = ''s2'', nb_filter_id = ''f''\<rparr>" "[''@a:hs'' \<mapsto> (''s2'', ''f'')]"]
  by (simp add: nb_load_def nb_new_def nb_put_filter_id_def nb_put_next_batch_def)

section \<open>The order of calls\<close>

definition extends :: "(sa_call \<Rightarrow> bool) \<Rightarrow> sa \<Rightarrow> sa \<Rightarrow> bool" where
  "extends P s t \<longleftrightarrow> (\<exists>tr. sa_trace t = sa_trace s @ tr \<and> list_all P tr)"

interpretation tracing: state_relation "extends P" for P
  by unfold_locales (auto simp: extends_def)

named_theorems traced

lemmas traced_basic [traced] = tracing.by_rules

lemma traced_put [traced]: "(\<And>s. sa_trace (f s) = sa_trace s) \<Longrightarrow> steps_by (extends P) (cput f)"
  by (simp add: steps_by_def cput_def extends_def)

lemma traced_call [traced]: "P c \<Longrightarrow> steps_by (extends P) (make_call E c)"
  by (auto simp: steps_by_def make_call_def extends_def)

text \<open>Calls that act for the account or run plugin code, which have to wait for the confirmation.\<close>

fun acting :: "sa_call \<Rightarrow> bool" where
  "acting CreateFilter = True"
| "acting (PutFilter _) = True"
| "acting (ClientStart _) = True"
| "acting ShareKeys = True"
| "acting OnInvite = True"
| "acting (JoinRoom _) = True"
| "acting (SetAvatarUrl _) = True"
| "acting (SetDisplayname _) = True"
| "acting CreateEngine = True"
| "acting UpgradePlugin = True"
| "acting BotStart = True"
| "acting _ = False"

fun stopping :: "sa_call \<Rightarrow> bool" where
  "stopping ClientStop = True"
| "stopping BotStop = True"
| "stopping WebShutdown = True"
| "stopping WebCleanup = True"
| "stopping DbStop = True"
| "stopping _ = False"

lemma traced_connect:
  assumes "\<And>c. \<not> acting c \<Longrightarrow> \<not> stopping c \<Longrightarrow> P c"
  shows "steps_by (extends P) (sa_connect E u)"
  unfolding sa_connect_def load_next_batch_def sa_start_crypto_def start_web_def sa_exit_def
  by (auto intro!: traced assms split: prod.split)

lemma traced_confirm_loop:
  assumes "\<And>c. \<not> acting c \<Longrightarrow> \<not> stopping c \<Longrightarrow> P c"
  shows "steps_by (extends P) (confirm_loop E u as)"
proof (induction as)
  case (Cons a as)
  have "steps_by (extends P) (cput (\<lambda>s. s\<lparr>sa_trace := sa_trace s @ [Whoami], sa_answers := as\<rparr>))"
    by (simp add: steps_by_def cput_def extends_def assms)
  moreover have "steps_by (extends P) (case a of
      Inl e \<Rightarrow> if sa_is_exception e then cthen (make_call E (Sleep 10)) (confirm_loop E u as) else craise e
    | Inr w \<Rightarrow> check_whoami u w)"
    using Cons by (auto simp: check_whoami_def sa_exit_def intro!: traced assms split: sum.split)
  ultimately show ?case unfolding confirm_loop.simps by (rule tracing.by_then)
qed (simp add: traced)

lemma traced_confirm:
  assumes "\<And>c. \<not> acting c \<Longrightarrow> \<not> stopping c \<Longrightarrow> P c"
  shows "steps_by (extends P) (confirm E u)"
  unfolding confirm_def by (intro traced traced_confirm_loop assms) assumption+

lemma traced_enter:
  assumes "\<And>c. c \<noteq> BotStart \<Longrightarrow> \<not> stopping c \<Longrightarrow> P c"
  shows "steps_by (extends P) (sa_enter E u)"
  unfolding sa_enter_def sa_start_sync_def set_profile_def plugin_database_def sa_exit_def
  by (auto intro!: traced assms split: prod.split database_type.split)

subsection \<open>Confirmation\<close>

definition whoami_ok :: "sa_setup \<Rightarrow> whoami \<Rightarrow> bool" where
  "whoami_ok u w \<longleftrightarrow> JStr (wh_user_id w) = su_user_id u
     \<and> (opt_truthy (wh_device_id w) \<and> truthy (su_device_id u) \<longrightarrow> JStr (the (wh_device_id w)) = su_device_id u)"

lemma check_whoami_ok: "fst (check_whoami u w s) = Inr () \<longleftrightarrow> whoami_ok u w"
  by (auto simp: check_whoami_def whoami_ok_def sa_exit_def craise_def cret_def)

definition confirmed :: "sa_setup \<Rightarrow> (sa_exn + whoami) list \<Rightarrow> bool" where
  "confirmed u as \<longleftrightarrow>
     (\<exists>pre w post. as = pre @ Inr w # post \<and> whoami_ok u w \<and> (\<forall>a\<in>set pre. \<exists>e. a = Inl e \<and> sa_is_exception e))"

lemma confirm_loop_confirmed: "fst (confirm_loop E u as s) = Inr () \<Longrightarrow> confirmed u as"
proof (induction as arbitrary: s)
  case (Cons a as)
  show ?case
  proof (cases a)
    case (Inl e)
    then have e: "sa_is_exception e"
      using Cons.prems by (auto simp: cthen_def cbind_def cput_def craise_def split: if_splits)
    moreover have "\<exists>t. fst (confirm_loop E u as t) = Inr ()"
      using Cons.prems Inl e
      by (auto simp: cthen_def cbind_def cput_def split: prod.splits sum.splits)
    ultimately obtain pre w post where "as = pre @ Inr w # post" "whoami_ok u w"
        "\<forall>a\<in>set pre. \<exists>e. a = Inl e \<and> sa_is_exception e"
      using Cons.IH unfolding confirmed_def by blast
    then show ?thesis using Inl e unfolding confirmed_def by (intro exI [of _ "Inl e # pre"]) auto
  next
    case (Inr w)
    then have "fst (check_whoami u w (snd (cput (\<lambda>s. s\<lparr>sa_trace := sa_trace s @ [Whoami], sa_answers := as\<rparr>) s))) = Inr ()"
      using Cons.prems by (simp add: cthen_def cbind_def cput_def)
    then have "whoami_ok u w" by (simp only: check_whoami_ok)
    then show ?thesis using Inr unfolding confirmed_def by (intro exI [of _ "[]"]) auto
  qed
qed (simp add: craise_def)

text \<open>Answers are only consumed by the confirmation.\<close>

definition same_answers :: "sa \<Rightarrow> sa \<Rightarrow> bool" where
  "same_answers s t \<longleftrightarrow> sa_answers t = sa_answers s"

interpretation answering: state_relation same_answers
  by unfold_locales (auto simp: same_answers_def)

lemma answers_put: "(\<And>s. sa_answers (f s) = sa_answers s) \<Longrightarrow> steps_by same_answers (cput f)"
  by (simp add: steps_by_def same_answers_def cput_def)

lemma connect_keeps_answers: "steps_by same_answers (sa_connect E u)"
proof -
  have "steps_by same_answers (make_call E c)" for c by (simp add: steps_by_def same_answers_def make_call_def)
  then show ?thesis
    unfolding sa_connect_def load_next_batch_def sa_start_crypto_def start_web_def sa_exit_def
    by (auto intro!: answering.by_rules answers_put split: prod.split)
qed

lemma then_elim:
  assumes "cthen m n s = (r, t)"
  obtains (raised) e where "m s = (Inl e, t)" and "r = Inl e"
    | (went_on) t' where "m s = (Inr (), t')" and "n t' = (r, t)"
  using assms by (cases "m s"; cases "fst (m s)") (auto simp: cthen_def cbind_def)

lemma steps_byD: "steps_by R m \<Longrightarrow> m s = (r, t) \<Longrightarrow> R s t"
  by (metis snd_conv steps_by_def)

lemma extends_mono: "extends P s t \<Longrightarrow> (\<And>c. P c \<Longrightarrow> Q c) \<Longrightarrow> extends Q s t"
  unfolding extends_def using list.pred_mono_strong by blast

text \<open>
  How \<open>main\<close> can end: before the account is confirmed, without any call that acts; after that and
  before the plugin is started; or with a plugin that \<open>stop\<close> knows of.
\<close>

lemma main_cases:
  assumes "sa_main E u s = (r, t)"
  obtains (early) "extends (\<lambda>c. \<not> acting c \<and> \<not> stopping c) s t"
    | (entered) "confirmed u (sa_answers s)" and "extends (\<lambda>c. c \<noteq> BotStart \<and> \<not> stopping c) s t"
    | (started) "confirmed u (sa_answers s)" and "extends (\<lambda>c. \<not> stopping c) s t" and "sa_bot t"
proof -
  let ?P = "\<lambda>c. \<not> acting c \<and> \<not> stopping c" and ?Q = "\<lambda>c. c \<noteq> BotStart \<and> \<not> stopping c"
  have weaker: "extends ?P x y \<Longrightarrow> extends ?Q x y" "extends ?Q x y \<Longrightarrow> extends (\<lambda>c. \<not> stopping c) x y" for x y
    by (auto elim!: extends_mono)
  have connect: "steps_by (extends ?P) (sa_connect E u)" by (rule traced_connect) simp
  have confirm: "steps_by (extends ?P) (confirm E u)" by (rule traced_confirm) simp
  have enter: "steps_by (extends ?Q) (sa_enter E u)" by (rule traced_enter) simp
  from assms show thesis unfolding sa_main_def
  proof (cases rule: then_elim)
    case (raised e)
    then show thesis using early steps_byD [OF connect] by blast
  next
    case (went_on t1)
    note t1 = steps_byD [OF connect went_on(1)]
    have ans: "sa_answers t1 = sa_answers s"
      using steps_byD [OF connect_keeps_answers went_on(1)] by (simp add: same_answers_def)
    from went_on(2) show thesis
    proof (cases rule: then_elim)
      case (raised e)
      then show thesis using early tracing.R_trans [OF t1] steps_byD [OF confirm] by blast
    next
      case (went_on t2)
      note t2 = tracing.R_trans [OF t1 steps_byD [OF confirm went_on(1)]]
      have "fst (confirm_loop E u (sa_answers t1) t1) = Inr ()"
        using went_on(1) by (simp add: confirm_def cbind_def cget_def)
      then have ok: "confirmed u (sa_answers s)" using confirm_loop_confirmed ans by metis
      from went_on(2) show thesis
      proof (cases rule: then_elim)
        case (raised e)
        then show thesis using entered ok tracing.R_trans [OF weaker(1) [OF t2]] steps_byD [OF enter] by blast
      next
        case (went_on t3)
        have "extends (\<lambda>c. \<not> stopping c) t3 t \<and> sa_bot t"
          using went_on(2) by (auto simp: sa_start_plugin_def cthen_def cbind_def cput_def make_call_def extends_def)
        then show thesis
          using started ok tracing.R_trans [OF weaker(2) [OF tracing.R_trans [OF weaker(1) [OF t2] steps_byD [OF enter went_on(1)]]]]
          by blast
      qed
    qed
  qed
qed

subsection \<open>Stopping\<close>

text \<open>
  What the calls of \<open>stop\<close> raise: the client does not, the plugin raises ordinary exceptions only, and
  the web server only the \<^verbatim>\<open>RuntimeError\<close>s that \<open>stop\<close> expects.
\<close>

definition orderly_stop :: "sa_env \<Rightarrow> bool" where
  "orderly_stop E \<longleftrightarrow>
     (\<forall>tr. sa_fails E tr ClientStop = None
        \<and> (\<forall>e. sa_fails E tr BotStop = Some e \<longrightarrow> sa_is_exception e)
        \<and> (\<forall>e. sa_fails E tr WebShutdown = Some e \<or> sa_fails E tr WebCleanup = Some e \<longrightarrow> is_runtime_error e))"

definition stop_calls :: "sa \<Rightarrow> sa_call list \<Rightarrow> sa_call list" where
  "stop_calls s web =
     (if sa_client s then [ClientStop] else []) @ (if sa_bot s then [BotStop] else [])
     @ (if sa_server s then web else []) @ [DbStop]"

text \<open>How far the web server got: cleaned up, or not after a failed shutdown.\<close>

definition web_calls :: "sa_call list \<Rightarrow> bool" where
  "web_calls web \<longleftrightarrow> web \<in> {[WebShutdown], [WebShutdown, WebCleanup]}"

lemma stop_trace:
  assumes "orderly_stop E"
  shows "\<exists>web. web_calls web \<and> sa_trace (snd (sa_stop E b s)) = sa_trace s @ stop_calls s web"
proof -
  have client: "sa_fails E tr ClientStop = None" for tr using assms by (simp add: orderly_stop_def)
  have bot: "stop_bot E t = (Inr (), t\<lparr>sa_trace := sa_trace t @ [BotStop]\<rparr>)" for t
    using assms by (auto simp: stop_bot_def ccatch_def make_call_def cret_def orderly_stop_def split: option.split)
  have run: "is_runtime_error e" if "sa_fails E tr WebShutdown = Some e \<or> sa_fails E tr WebCleanup = Some e" for e tr
    using assms that by (auto simp: orderly_stop_def)
  have web: "\<exists>web. web_calls web \<and> sa_trace (snd (cthen (stop_web E b) (make_call E DbStop) t)) = sa_trace t @ web @ [DbStop]" for t
  proof (cases "sa_fails E (sa_trace t) WebShutdown")
    case (Some e)
    then show ?thesis using run [of "sa_trace t" e]
      by (intro exI [of _ "[WebShutdown]"])
        (simp add: web_calls_def stop_web_def ccatch_def cthen_def cbind_def make_call_def cret_def craise_def split: option.split)
  next
    case None
    then show ?thesis using run [of "sa_trace t @ [WebShutdown]"]
      by (intro exI [of _ "[WebShutdown, WebCleanup]"])
        (auto simp: web_calls_def stop_web_def ccatch_def cthen_def cbind_def make_call_def cret_def craise_def split: option.split)
  qed
  show ?thesis
    using web [of "s\<lparr>sa_trace := sa_trace s @ (if sa_client s then [ClientStop] else []) @ (if sa_bot s then [BotStop] else [])\<rparr>"]
    by (cases "sa_client s"; cases "sa_bot s"; cases "sa_server s")
      (auto simp: sa_stop_def stop_calls_def web_calls_def cwhen_def cthen_def cbind_def cget_def cret_def client bot make_call_def)
qed

lemma stop_only_stops: "steps_by (extends stopping) (sa_stop E b)"
  unfolding sa_stop_def stop_bot_def stop_web_def by (auto intro!: traced)

lemma ends_state: "snd (ends m out s) = snd (m s)"
  by (simp add: ends_def split: prod.split sum.split)

text \<open>After \<open>main\<close> the process stops everything, unless the bot broke down while it ran.\<close>

lemma run_cases:
  assumes "sa_main E u s = (r, t)"
  obtains b where "snd (sa_run E u forever s) = snd (sa_stop E b t)"
    | "snd (sa_run E u forever s) = t" and "r = Inr ()" and "forever \<noteq> KeyboardInterrupt"
proof (cases r)
  case (Inl e)
  then have "snd (sa_run E u forever s) = snd (sa_stop E True t)"
    using assms by (cases e rule: sa_is_exception.cases) (simp_all add: sa_run_def ends_state)
  then show thesis using that(1) by blast
next
  case (Inr x)
  then show thesis using assms that by (cases "forever = KeyboardInterrupt") (simp_all add: sa_run_def ends_state)
qed



subsection \<open>Exit codes\<close>

definition calm :: "sa_env \<Rightarrow> bool" where
  "calm E \<longleftrightarrow> (\<forall>tr c. sa_fails E tr c = None)"

lemma calm_call: "calm E \<Longrightarrow> make_call E c s = (Inr (), s\<lparr>sa_trace := sa_trace s @ [c]\<rparr>)"
  by (simp add: calm_def make_call_def)

definition wrong_device :: "sa_setup \<Rightarrow> whoami \<Rightarrow> bool" where
  "wrong_device u w \<longleftrightarrow>
     opt_truthy (wh_device_id w) \<and> truthy (su_device_id u) \<and> JStr (the (wh_device_id w)) \<noteq> su_device_id u"

definition unsupported_database :: "sa_setup \<Rightarrow> bool" where
  "unsupported_database u \<longleftrightarrow> meta_database (su_meta u)
     \<and> (case meta_database_type (su_meta u) of OtherDatabase _ \<Rightarrow> True | _ \<Rightarrow> False)"

definition exit_code :: "sa_env \<Rightarrow> sa_setup \<Rightarrow> whoami \<Rightarrow> nat" where
  "exit_code E u w =
     (if su_crypto u \<and> truthy (sa_stored_device E) \<and> sa_stored_device E \<noteq> su_device_id u then 10
      else if JStr (wh_user_id w) \<noteq> su_user_id u then 11
      else if wrong_device u w then 12
      else if unsupported_database u then 13
      else 0)"

lemma calm_connect:
  assumes "calm E"
  shows "fst (sa_connect E u s) =
    (if su_crypto u \<and> truthy (sa_stored_device E) \<and> sa_stored_device E \<noteq> su_device_id u
     then Inl (Exn (SystemExit 10)) else Inr ())"
  by (simp add: sa_connect_def sa_start_crypto_def start_web_def load_next_batch_def cwhen_def cthen_def cbind_def cput_def
      cret_def craise_def sa_exit_def calm_call [OF assms])

lemma calm_confirm_loop:
  assumes "calm E" and "\<forall>e\<in>set es. sa_is_exception e"
  shows "fst (confirm_loop E u (map Inl es @ Inr w # rest) s) =
    (if JStr (wh_user_id w) \<noteq> su_user_id u then Inl (Exn (SystemExit 11))
     else if wrong_device u w then Inl (Exn (SystemExit 12)) else Inr ())"
  using assms(2)
proof (induction es arbitrary: s)
  case Nil
  then show ?case
    by (simp add: check_whoami_def wrong_device_def cthen_def cbind_def cput_def cret_def craise_def sa_exit_def)
next
  case (Cons e es)
  then show ?case by (simp add: cthen_def cbind_def cput_def calm_call [OF assms(1)])
qed

lemma calm_enter:
  assumes "calm E"
  shows "fst (sa_enter E u s) = (if unsupported_database u then Inl (Exn (SystemExit 13)) else Inr ())"
  by (simp add: sa_enter_def sa_start_sync_def set_profile_def plugin_database_def unsupported_database_def cwhen_def cthen_def
      cbind_def cput_def cget_def cret_def craise_def sa_exit_def calm_call [OF assms] split: database_type.split)

lemma calm_stop: "calm E \<Longrightarrow> fst (sa_stop E b s) = Inr ()"
  by (simp add: sa_stop_def stop_bot_def stop_web_def ccatch_def cwhen_def cthen_def cbind_def cget_def cret_def calm_call)

lemma fst_cthen:
  "fst (cthen m n s) = (case fst (m s) of Inl e \<Rightarrow> Inl e | Inr _ \<Rightarrow> fst (n (snd (m s))))"
  by (simp add: cthen_def cbind_def split: prod.split sum.split)

text \<open>
  C38. The exit code says what was wrong: when the calls succeed and the homeserver answers after any
  number of failed attempts, the program ends with 10 for another device in the encryption store, 11 for
  another user, 12 for another device, 13 for a database type that is not supported, and otherwise
  runs until it is interrupted and exits with 0. In particular no number of failed attempts makes it
  give up.
\<close>

theorem standalone_exit_codes:
  assumes "calm E" and "\<forall>e\<in>set es. sa_is_exception e"
  shows "fst (sa_run E u KeyboardInterrupt (sa_init rows (map Inl es @ Inr w # rest))) = Exit (exit_code E u w)"
proof -
  let ?s = "sa_init rows (map Inl es @ Inr w # rest)"
  let ?t = "snd (sa_connect E u ?s)"
  have "sa_answers ?t = map Inl es @ Inr w # rest"
    using connect_keeps_answers [of E u] by (simp add: steps_by_def same_answers_def sa_init_def)
  then have "fst (confirm E u ?t) =
      (if JStr (wh_user_id w) \<noteq> su_user_id u then Inl (Exn (SystemExit 11))
       else if wrong_device u w then Inl (Exn (SystemExit 12)) else Inr ())"
    by (simp add: confirm_def cbind_def cget_def calm_confirm_loop [OF assms])
  then have "fst (sa_main E u ?s) = (if exit_code E u w = 0 then Inr () else Inl (Exn (SystemExit (exit_code E u w))))"
    by (simp add: sa_main_def fst_cthen calm_connect [OF assms(1)] calm_enter [OF assms(1)] exit_code_def
        sa_start_plugin_def calm_call [OF assms(1)] cput_def)
  moreover have "fst (ends (sa_stop E b) out x) = out" for b out x
    using calm_stop [OF assms(1), of b x] by (cases "sa_stop E b x") (simp add: ends_def)
  ultimately show ?thesis
    by (cases "sa_main E u ?s") (simp add: sa_run_def split: if_splits)
qed

subsection \<open>A plugin with a web app\<close>

definition ex_setup :: sa_setup where
  "ex_setup = \<lparr>su_module = ''m'', su_main_class = ''Bot'', su_user_id = JStr ''@a:hs'', su_device_id = JStr ''DEV'',
     su_crypto = False, su_appservice = False, su_sync = True, su_autojoin = True, su_displayname = JStr ''disable'',
     su_avatar_url = JStr ''disable'', su_web = Some \<lparr>ws_base_path = Some ''/bot'', ws_public_url = None\<rparr>,
     su_has_config = False,
     su_meta = \<lparr>meta_id = ''p'', meta_version = ''1'', meta_modules = [''m''], meta_main_class = ''Bot'', meta_maubot = [],
       meta_database = True, meta_database_type = ASYNCPG, meta_config = False, meta_webapp = True, extra_files = []\<rparr>\<rparr>"

text \<open>An environment in which the plugin and the web server fail to stop, and one in which nothing fails.\<close>

definition ex_env_sa :: "(sa_call \<Rightarrow> sa_exn option) \<Rightarrow> sa_env" where
  "ex_env_sa fails = \<lparr>sa_fails = (\<lambda>_. fails), sa_stored_device = JNull, sa_filter = ''f'', sa_shared = True,
     sa_has_upgrade_table = True\<rparr>"

definition ex_failing_calls :: "sa_call \<Rightarrow> sa_exn option" where
  "ex_failing_calls c =
     (if c = BotStop then Some (Exn (OtherException ''boom''))
      else if c = WebShutdown then Some (Exn (RuntimeError ''closed'')) else None)"

definition ex_answers :: "(sa_exn + whoami) list" where
  "ex_answers = [Inl (Exn (MatrixConnectionError ''down'')), Inr \<lparr>wh_user_id = ''@a:hs'', wh_device_id = Some ''DEV''\<rparr>]"

lemmas ex_standalone_defs = ex_setup_def ex_env_sa_def ex_failing_calls_def ex_answers_def sa_init_def sa_run_def sa_main_def
  sa_connect_def sa_enter_def sa_start_plugin_def load_next_batch_def nb_load_def nb_new_def start_web_def confirm_def
  check_whoami_def sa_start_sync_def nb_put_filter_id_def set_profile_def plugin_database_def cwhen_def cthen_def cbind_def
  cput_def cget_def cret_def make_call_def opt_truthy_def ends_def sa_stop_def stop_bot_def stop_web_def ccatch_def craise_def

lemma ex_run:
  "sa_trace (snd (sa_run (ex_env_sa ex_failing_calls) ex_setup KeyboardInterrupt (sa_init Map.empty ex_answers)))
   = [DbStart, WebSetup, SiteStart, Whoami, Sleep 10, Whoami, CreateFilter, PutFilter ''f'', ClientStart ''f'', OnInvite,
      UpgradePlugin, BotStart, ClientStop, BotStop, WebShutdown, DbStop]"
  by (simp add: ex_standalone_defs)


lemma ex_stop_contract: "orderly_stop (ex_env_sa ex_failing_calls)"
  by (simp add: orderly_stop_def ex_env_sa_def ex_failing_calls_def)


theorem standalone_exit_codes_witness:
  "fst (sa_run (ex_env_sa (\<lambda>_. None)) ex_setup KeyboardInterrupt (sa_init Map.empty
     (map Inl [Exn (MatrixConnectionError ''down'')] @ Inr \<lparr>wh_user_id = ''@b:hs'', wh_device_id = None\<rparr> # []))) = Exit 11"
  by (subst standalone_exit_codes)
    (simp_all add: calm_def ex_env_sa_def exit_code_def ex_setup_def)

end
