(* ===== verification/MB_Startup.thy ===== *)
theory MB_Startup
  imports MB_Reachable MB_Program "HOL-Library.Multiset"
begin

text \<open>
  Start-up and shut-down of the whole program (\<^verbatim>\<open>Maubot.start\<close> and \<^verbatim>\<open>Maubot.stop\<close> of
  \<^verbatim>\<open>maubot/__main__.py\<close>), composed from the databases, the instances, the clients and the server.
\<close>

section \<open>The steps\<close>

text \<open>What happens outside the program's own objects, in order.\<close>

datatype boot_step = DbStep db_action | SuperStart | ServerStart | ServerStop | DbStop

text \<open>
  What the program does not decide: how the calls to the databases, to mautrix's \<^verbatim>\<open>Program\<close> and to
  aiohttp end (\<open>None\<close> is a return), the order in which the coroutines of a \<^verbatim>\<open>gather\<close> get through, and how
  \<^verbatim>\<open>Program.stop\<close> runs the shut-down actions it has been given.
\<close>

record ('y, 'c) boot =
  b_env :: "('y, 'c) env"
  b_db_fails :: "db_action \<Rightarrow> exn option option"
  b_pools :: db_pools
  b_order :: "nat list \<Rightarrow> nat list"
  b_super_start :: "exn option"
  b_super_stop :: "(world \<Rightarrow> (world, unit) res) list \<Rightarrow> world \<Rightarrow> (world, unit) res"
  b_server_start :: "exn option"
  b_server_stop :: "exn option"
  b_db_stop :: "exn option"

record boot_state =
  b_world :: world
  b_steps :: "boot_step list"

definition boot_world :: "(world \<Rightarrow> (world, 'a) res) \<Rightarrow> boot_state \<Rightarrow> (boot_state, 'a) res" where
  "boot_world f s =
     (case f (b_world s) of
        Ok x w \<Rightarrow> Ok x (s\<lparr>b_world := w\<rparr>)
      | Raise e w \<Rightarrow> Raise e (s\<lparr>b_world := w\<rparr>))"

definition boot_call :: "boot_step \<Rightarrow> exn option \<Rightarrow> boot_state \<Rightarrow> (boot_state, unit) res" where
  "boot_call b r s =
     (let s = s\<lparr>b_steps := b_steps s @ [b]\<rparr> in case r of None \<Rightarrow> Ok () s | Some e \<Rightarrow> Raise e s)"

definition boot_db :: "('y, 'c) boot \<Rightarrow> boot_state \<Rightarrow> (boot_state, unit) res" where
  "boot_db B s =
     (let (r, acts) = start_db (b_db_fails B) (b_pools B); s = s\<lparr>b_steps := b_steps s @ map DbStep acts\<rparr> in
      case r of None \<Rightarrow> Ok () s | Some e \<Rightarrow> Raise e s)"

section \<open>Start-up\<close>

text \<open>One row of \<^verbatim>\<open>PluginInstance.all\<close> or \<^verbatim>\<open>Client.all\<close>: the cached object, or a new one.\<close>

definition inst_of_row :: "inst_row \<Rightarrow> world \<Rightarrow> nat \<times> world" where
  "inst_of_row r w =
     (case map_of (inst_cache w) (i_id r) of
        Some a \<Rightarrow> (a, w)
      | None \<Rightarrow> (let (a, w) = new_inst r w in (a, inst_postinit a w)))"

definition client_of_row :: "('y, 'c) env \<Rightarrow> client_row \<Rightarrow> world \<Rightarrow> (world, nat) res" where
  "client_of_row E r w =
     (case map_of (client_cache w) (c_id r) of
        Some a \<Rightarrow> Ok a w
      | None \<Rightarrow> (let (a, w) = new_client r w in bind (postinit E a w) (\<lambda>_ w. Ok a w)))"

text \<open>\<^verbatim>\<open>gather(*[plugin.load() async for plugin in PluginInstance.all()])\<close>, and the same for clients.\<close>

definition load_all_instances :: "('y, 'c) env \<Rightarrow> (nat list \<Rightarrow> nat list) \<Rightarrow> world \<Rightarrow> (world, unit) res" where
  "load_all_instances E order w =
     (let (as, w) = inst_all w in
      gather (map (\<lambda>a w. bind (inst_load E a w) (\<lambda>_ w. Ok () w)) (order as)) w)"

definition start_all :: "('y, 'c) env \<Rightarrow> (nat list \<Rightarrow> nat list) \<Rightarrow> world \<Rightarrow> (world, unit) res" where
  "start_all E order w = bind (client_all E w) (\<lambda>as w. gather (map (client_start E 0) (order as)) w)"

text \<open>\<^verbatim>\<open>async for plugin in PluginInstance.all(): await plugin.load()\<close>: one row at a time.\<close>

fun load_each :: "('y, 'c) env \<Rightarrow> (string \<times> inst_row) list \<Rightarrow> world \<Rightarrow> (world, unit) res" where
  "load_each E [] w = Ok () w"
| "load_each E ((k, r) # rows) w =
     (let (a, w) = inst_of_row r w in bind (inst_load E a w) (\<lambda>_ w. load_each E rows w))"

definition maubot_start :: "('y, 'c) boot \<Rightarrow> boot_state \<Rightarrow> (boot_state, unit) res" where
  "maubot_start B s =
     bind (boot_db B s) (\<lambda>_ s.
     bind (boot_world (load_all_instances (b_env B) (b_order B)) s) (\<lambda>_ s.
     bind (boot_world (start_all (b_env B) (b_order B)) s) (\<lambda>_ s.
     bind (boot_call SuperStart (b_super_start B) s) (\<lambda>_ s.
     bind (boot_world (\<lambda>w. load_each (b_env B) (db_inst_all w) w) s) (\<lambda>_ s.
     boot_call ServerStart (b_server_start B) s)))))"

section \<open>Shut-down\<close>

definition TimeoutError :: exn where
  "TimeoutError = OtherException ''TimeoutError''"

text \<open>\<^verbatim>\<open>Client.cache.values()\<close>: one object for every key.\<close>

definition cached_clients :: "world \<Rightarrow> nat list" where
  "cached_clients w = map snd (AList.clearjunk (client_cache w))"

definition maubot_stop :: "('y, 'c) boot \<Rightarrow> boot_state \<Rightarrow> (boot_state, unit) res" where
  "maubot_stop B s =
     bind (boot_world (\<lambda>w. b_super_stop B (map (client_stop (b_env B)) (cached_clients w)) w) s) (\<lambda>_ s.
     bind (catch (boot_call ServerStop (b_server_stop B) s)
             (\<lambda>e s. if e = TimeoutError then Ok () s else Raise e s)) (\<lambda>_ s.
     boot_call DbStop (b_db_stop B) s))"

definition system_exit :: "('y, 'c) boot \<Rightarrow> bool \<Rightarrow> boot_state \<Rightarrow> (boot_state, unit) res" where
  "system_exit B has_db s = (if has_db then boot_call DbStop (b_db_stop B) s else Ok () s)"

section \<open>Rows and lookups\<close>

lemma inst_all_rows_step:
  "inst_all_rows ((k, r) # rows) w =
     (let (a, w) = inst_of_row r w; (as, w) = inst_all_rows rows w in (a # as, w))"
  by (simp add: inst_of_row_def)

text \<open>Going through the rows is the same as looking every id up.\<close>

lemma inst_of_row_get:
  assumes "inst_inv w" and "map_of (inst_table w) k = Some r"
  shows "case inst_of_row r w of (a, v) \<Rightarrow> inst_get None None k w = Ok (Some a) v \<and> inst_table v = inst_table w"
proof -
  have "i_id r = k" using assms by (simp add: inst_inv_def)
  then show ?thesis
    using assms(2) by (auto simp: inst_of_row_def inst_get_def db_inst_get_def new_inst_def inst_postinit_def
        split: option.split)
qed

lemma client_all_rows_step:
  "client_all_rows E ((k, r) # rows) w =
     bind (client_of_row E r w) (\<lambda>a w. bind (client_all_rows E rows w) (\<lambda>as w. Ok (a # as) w))"
  by (simp add: client_of_row_def)

lemma client_of_row_get:
  assumes "client_inv w" and "map_of (client_table w) k = Some r"
  obtains a v where "client_of_row E r w = Ok a v" "client_get E None None None k w = Ok (Some a) v"
    "client_table v = client_table w"
proof -
  have k: "c_id r = k" using assms by (simp add: client_inv_def)
  show thesis
  proof (cases "map_of (client_cache w) k")
    case (Some a)
    then show thesis using that [of a w] by (simp add: client_of_row_def client_get_None k)
  next
    case None
    then show thesis using that [of "length (clients w)" "with_client E r w"] assms(2) new_client_postinit [of r w E "\<lambda>a. a"]
      by (simp add: client_of_row_def client_get_None k with_client_def)
  qed
qed

text \<open>Rows that are those of the table.\<close>

definition rows_of :: "(string \<times> 'r) list \<Rightarrow> (string, 'r) dict \<Rightarrow> bool" where
  "rows_of rows tab \<longleftrightarrow> (\<forall>(k, r) \<in> set rows. map_of tab k = Some r)"

lemma rows_of_Cons [simp]: "rows_of ((k, r) # rows) tab \<longleftrightarrow> map_of tab k = Some r \<and> rows_of rows tab"
  by (simp add: rows_of_def)

lemma rows_of_same:
  assumes "rows_of rows t" and "\<And>j. j \<in> fst ` set rows \<Longrightarrow> map_of t' j = map_of t j"
  shows "rows_of rows t'"
  unfolding rows_of_def
proof clarify
  fix k r
  assume kr: "(k, r) \<in> set rows"
  then have "map_of t' k = map_of t k" by (intro assms(2)) (rule image_eqI [of _ _ "(k, r)"], simp_all)
  then show "map_of t' k = Some r" using assms(1) kr by (auto simp: rows_of_def)
qed

lemma rows_of_clearjunk: "rows_of (AList.clearjunk t) t"
  unfolding rows_of_def
proof clarify
  fix k r
  assume "(k, r) \<in> set (AList.clearjunk t)"
  then have "map_of (AList.clearjunk t) k = Some r" by (intro map_of_is_SomeI distinct_clearjunk)
  then show "map_of t k = Some r" by (simp add: map_of_clearjunk)
qed

lemma rows_of_all: "rows_of (db_inst_all w) (inst_table w)" "rows_of (db_client_all w) (client_table w)"
  by (simp_all add: db_inst_all_def db_client_all_def rows_of_clearjunk)

lemma distinct_rows: "distinct (map fst (db_inst_all w))" "distinct (map fst (db_client_all w))"
  by (simp_all add: db_inst_all_def db_client_all_def distinct_clearjunk)

lemma keys_of_all: "fst ` set (db_inst_all w) = dom (map_of (inst_table w))"
  by (simp add: db_inst_all_def dom_map_of_conv_image_fst dom_clearjunk)

section \<open>Start-up keeps the program reachable\<close>

lemma gather_invariant:
  "I w \<Longrightarrow> (\<And>g v. g \<in> set gs \<Longrightarrow> I v \<Longrightarrow> I (state_of (g v))) \<Longrightarrow> I (state_of (gather gs w))"
proof (induction gs arbitrary: w)
  case (Cons g gs)
  then have "I (state_of (g w))" by simp
  then have "I (state_of (gather gs (state_of (g w))))" using Cons.IH Cons.prems(2) by simp
  then show ?case by (cases "g w") simp_all
qed simp

lemma reachable_world: "reachable E A w \<Longrightarrow> world_ok w"
  by (drule reachable_system) (simp add: system_ok_def)

lemma inst_of_row_reachable:
  assumes w: "reachable E A w" and r: "map_of (inst_table w) k = Some r" and run: "inst_of_row r w = (a, v)"
  shows "reachable E A v" "map_of (inst_cache v) k = Some a" "inst_table v = inst_table w"
    "map_of (inst_cache w) \<subseteq>\<^sub>m map_of (inst_cache v)"
proof -
  have inv: "inst_inv w" by (rule world_okD(3) [OF reachable_world [OF w]])
  have get: "inst_get None None k w = Ok (Some a) v" and tab: "inst_table v = inst_table w"
    using inst_of_row_get [OF inv r] run by simp_all
  show "reachable E A v" using reachable.lookups [OF w, of v] get by (metis insertCI state_of.simps(1))
  show "map_of (inst_cache v) k = Some a"
    using insts_by_id.get_fills [OF inv, of "(None, None)" k a v] get by simp
  show "inst_table v = inst_table w" by (rule tab)
  show "map_of (inst_cache w) \<subseteq>\<^sub>m map_of (inst_cache v)"
    using insts_by_id.get_grows [OF inv, of _ _ "(None, None)" k] get by (fastforce simp: map_le_def)
qed

lemma inst_all_rows_reachable:
  "reachable E A w \<Longrightarrow> rows_of rows (inst_table w) \<Longrightarrow> inst_all_rows rows w = (as, v) \<Longrightarrow>
     reachable E A v \<and> map_of (inst_cache w) \<subseteq>\<^sub>m map_of (inst_cache v) \<and> (\<forall>a \<in> set as. cached a v)"
proof (induction rows arbitrary: w as)
  case (Cons kr rows)
  obtain k r where kr: "kr = (k, r)" by (cases kr)
  obtain a u where a: "inst_of_row r w = (a, u)" by fastforce
  obtain bs where bs: "inst_all_rows rows u = (bs, v)" "as = a # bs"
    using Cons.prems(3) unfolding kr inst_all_rows_step a by (auto split: prod.splits)
  note u = inst_of_row_reachable [OF Cons.prems(1) _ a, of k]
  have ih: "reachable E A v \<and> map_of (inst_cache u) \<subseteq>\<^sub>m map_of (inst_cache v) \<and> (\<forall>a \<in> set bs. cached a v)"
    using Cons.prems(2) u kr bs(1) by (intro Cons.IH) simp_all
  have "map_of (inst_cache v) k = Some a"
    using ih u(2) Cons.prems(2) kr by (auto simp: map_le_def dest: bspec [of _ _ k])
  then have "cached a v" using cachedD(3) [OF reachable_world] ih by blast
  then show ?case using ih u(4) Cons.prems(2) kr bs(2) map_le_trans by auto
qed (simp add: map_le_refl)

lemma inst_load_reachable:
  assumes "reachable E A w" and "cached a w"
  shows "reachable E A (state_of (inst_load E a w))" "inst_cache (state_of (inst_load E a w)) = inst_cache w"
  using reachable.load [OF assms] inst_load_sys(1) [OF reachable_world [OF assms(1)] assms(2), of E]
  by (simp_all add: holds_def sys_def)

lemma load_all_reachable:
  assumes w: "reachable E A w" and ord: "\<And>as. set (order as) = set as"
  shows "reachable E A (state_of (load_all_instances E order w))"
proof -
  obtain as v where run: "inst_all w = (as, v)" by fastforce
  have v: "reachable E A v" "\<forall>a \<in> set as. cached a v"
    using inst_all_rows_reachable [OF w rows_of_all(1)] run by (simp_all add: inst_all_def)
  let ?I = "\<lambda>u. reachable E A u \<and> (\<forall>a \<in> set as. cached a u)"
  have "?I (state_of (gather (map (\<lambda>a w. bind (inst_load E a w) (\<lambda>_ w. Ok () w)) (order as)) v))"
  proof (rule gather_invariant)
    fix g u
    assume g: "g \<in> set (map (\<lambda>a w. bind (inst_load E a w) (\<lambda>_ w. Ok () w)) (order as))" and u: "?I u"
    then obtain a where a: "a \<in> set as" "g = (\<lambda>w. bind (inst_load E a w) (\<lambda>_ w. Ok () w))" using ord by auto
    have st: "state_of (g u) = state_of (inst_load E a u)" by (cases "inst_load E a u") (simp_all add: a(2))
    have "holds (sys u) (inst_load E a u)" using inst_load_sys(1) [OF reachable_world] u a(1) by blast
    then show "?I (state_of (g u))"
      unfolding st using inst_load_reachable(1) [of E A u a] sys_cached [of u "state_of (inst_load E a u)"] u a(1)
      by (simp add: holds_def)
  qed (use v in simp)
  then show ?thesis by (simp add: load_all_instances_def run)
qed

lemma client_all_rows_reachable:
  "reachable E A w \<Longrightarrow> rows_of rows (client_table w) \<Longrightarrow>
     \<exists>as v. client_all_rows E rows w = Ok as v \<and> reachable E A v \<and> (\<forall>a \<in> set as. a < length (clients v))
       \<and> length (clients w) \<le> length (clients v)"
proof (induction rows arbitrary: w)
  case (Cons kr rows)
  obtain k r where kr: "kr = (k, r)" by (cases kr)
  have inv: "client_inv w" by (rule world_okD(2) [OF reachable_world [OF Cons.prems(1)]])
  obtain a u where a: "client_of_row E r w = Ok a u"
    and get: "client_get E None None None k w = Ok (Some a) u" and tab: "client_table u = client_table w"
    using Cons.prems(2) kr by (auto intro: client_of_row_get [OF inv, of k r E])
  have u: "reachable E A u" using reachable.lookups [OF Cons.prems(1), of u] get by (metis insertCI state_of.simps(1))
  have al: "a < length (clients u)"
    using client_get_system(2) [OF reachable_system [OF Cons.prems(1)] get] by (simp add: client_sys_def)
  have "rows_of rows (client_table u)" using Cons.prems(2) kr tab by simp
  from Cons.IH [OF u this] obtain bs v where "client_all_rows E rows u = Ok bs v" "reachable E A v"
      "\<forall>a \<in> set bs. a < length (clients v)" "length (clients u) \<le> length (clients v)" by blast
  moreover have "length (clients w) \<le> length (clients u)" using client_get_grows [of w E None None None k] get by simp
  moreover have "client_all_rows E (kr # rows) w = bind (client_all_rows E rows u) (\<lambda>as w. Ok (a # as) w)"
    unfolding kr client_all_rows_step a by (simp only: bind.simps)
  ultimately show ?case using al by (intro exI [of _ "a # bs"] exI [of _ v]) (simp add: order_less_le_trans)
qed simp

lemma start_all_reachable:
  assumes w: "reachable E A w" and ord: "\<And>as. set (order as) = set as"
  shows "reachable E A (state_of (start_all E order w))"
proof -
  obtain as v where run: "client_all E w = Ok as v" and v: "reachable E A v" "\<forall>a \<in> set as. a < length (clients v)"
    using client_all_rows_reachable [OF w rows_of_all(2)] by (auto simp: client_all_def)
  let ?I = "\<lambda>u. reachable E A u \<and> length (clients v) \<le> length (clients u)"
  have "?I (state_of (gather (map (client_start E 0) (order as)) v))"
  proof (rule gather_invariant)
    fix g u
    assume g: "g \<in> set (map (client_start E 0) (order as))" and u: "?I u"
    then obtain a where a: "a < length (clients v)" "g = client_start E 0 a" using ord v by auto
    have "client_sys (length (clients v) - 1) u"
      using u a(1) reachable_system by (auto simp: client_sys_def)
    then have "holds (client_sys (length (clients v) - 1)) (g u)"
      unfolding a(2) using a(1) by (intro client_start_sys_le) simp_all
    moreover have "reachable E A (state_of (g u))"
      unfolding a(2) by (rule reachable.client_startup [of E A u a]) (use u a(1) in auto)
    ultimately show "?I (state_of (g u))" using a(1) unfolding holds_def client_sys_def by linarith
  qed (use v in simp)
  then show ?thesis by (simp add: start_all_def run)
qed

section \<open>What loading leaves alone\<close>

text \<open>Loading an instance changes no other instance object and no other row of the table.\<close>

definition load_frame :: "nat \<Rightarrow> world \<Rightarrow> world \<Rightarrow> bool" where
  "load_frame a w v \<longleftrightarrow> length (instances v) = length (instances w) \<and> (\<forall>b. b \<noteq> a \<longrightarrow> instances v ! b = instances w ! b)
     \<and> i_id (instances v ! a) = i_id (instances w ! a)
     \<and> (\<forall>j. j \<noteq> i_id (instances w ! a) \<longrightarrow> map_of (inst_table v) j = map_of (inst_table w) j)
     \<and> dom (map_of (inst_table v)) = dom (map_of (inst_table w))"

lemma load_frame_same:
  "instances v = instances u \<Longrightarrow> inst_table v = inst_table u \<Longrightarrow> load_frame a w v = load_frame a w u"
  by (simp add: load_frame_def)

lemma load_frame_upd:
  assumes "load_frame a w v" and "\<And>i. i_id (f i) = i_id i"
  shows "load_frame a w (upd_inst a f v)"
  using assms by (cases "a < length (instances v)") (auto simp: load_frame_def upd_inst_def list_update_beyond)

lemma inst_update_load_frame: "load_frame a w v \<Longrightarrow> holds (load_frame a w) (inst_update a v)"
  by (auto simp: inst_update_def db_inst_update_def load_frame_def inst_row.defs in_dict_def)

lemma fail_load_frame: "load_frame a w v \<Longrightarrow> holds (load_frame a w) (fail_load a v)"
  by (auto simp: fail_load_def inst_update_enabled_def intro!: holds_bind inst_update_load_frame load_frame_upd)

lemma load_loader_frame: "load_frame a w v \<Longrightarrow> holds (load_frame a w) (load_loader a v)"
  by (auto simp: load_loader_def fail_load_frame intro: load_frame_upd split: sum.split)

lemma load_client_frame:
  assumes "load_frame a w v"
  shows "holds (load_frame a w) (load_client E a v)"
proof (cases "i_client (instances v ! a)")
  case None
  let ?r = "client_get E None None None (primary_user (instances v ! a)) v"
  have "load_frame a w (state_of ?r)"
    using assms load_frame_same [of "state_of ?r" v a w] by (simp add: client_get_None with_client_def split: option.split)
  then have "holds (load_frame a w) ?r" by (simp add: holds_def)
  then show ?thesis
    using None by (auto simp: load_client_def intro!: holds_bind fail_load_frame load_frame_upd split: option.split)
qed (use assms in \<open>simp add: load_client_def\<close>)

lemma enable_webapp_load_frame:
  assumes "load_frame a w v"
  shows "load_frame a w (enable_webapp a v)"
proof -
  have "load_frame a w (v\<lparr>srv := s\<rparr>)" for s using assms load_frame_same [of "v\<lparr>srv := s\<rparr>" v a w] by simp
  then show ?thesis by (auto simp: enable_webapp_def split: prod.split intro!: load_frame_upd)
qed

lemma add_reference_load_frame: "load_frame a w v \<Longrightarrow> load_frame a w (add_reference a v)"
  by (auto simp: add_reference_def load_frame_def split: option.split)

lemma inst_load_frame: "holds (load_frame a w) (inst_load E a w)"
proof -
  have meta: "holds (load_frame a w) (meta_of a v)" if "load_frame a w v" for v
    using that by (simp add: holds_def)
  have "load_frame a w w" by (simp add: load_frame_def)
  then show ?thesis
    unfolding inst_load_def
    by (auto intro!: holds_bind load_loader_frame load_client_frame meta add_reference_load_frame enable_webapp_load_frame)
qed

section \<open>The last loop of the start-up\<close>

text \<open>The instance of a row has an object, which has both its dependencies or is disabled.\<close>

definition instance_settled :: "string \<Rightarrow> world \<Rightarrow> bool" where
  "instance_settled k w \<longleftrightarrow> (\<exists>a. map_of (inst_cache w) k = Some a
     \<and> (i_enabled (instances w ! a) \<longrightarrow> i_loader (instances w ! a) \<noteq> None \<and> i_client (instances w ! a) \<noteq> None))"

lemma settled_keeps:
  assumes "instance_settled k w" and "map_of (inst_cache w) \<subseteq>\<^sub>m map_of (inst_cache v)"
    and "\<And>a. map_of (inst_cache w) k = Some a \<Longrightarrow> instances v ! a = instances w ! a"
  shows "instance_settled k v"
  using assms unfolding instance_settled_def map_le_def by (metis domI)

lemma inst_of_row_instances:
  assumes "inst_inv w" and "inst_of_row r w = (a, v)" and "map_of (inst_cache w) k = Some b"
  shows "instances v ! b = instances w ! b"
  using assms by (auto simp: inst_of_row_def new_inst_def inst_postinit_def inst_inv_def nth_append upd_inst_def
      split: option.splits dest: spec [of _ k])

lemma load_row:
  assumes w: "reachable E A w" and r: "map_of (inst_table w) k = Some r" and a: "inst_of_row r w = (a, u)"
    and run: "inst_load E a u = Ok b v"
  shows "reachable E A v" "instance_settled k v" "j \<noteq> k \<Longrightarrow> instance_settled j w \<Longrightarrow> instance_settled j v"
    "j \<noteq> k \<Longrightarrow> map_of (inst_table v) j = map_of (inst_table w) j" "dom (map_of (inst_table v)) = dom (map_of (inst_table w))"
proof -
  note u = inst_of_row_reachable [OF w r a]
  have ok: "world_ok u" "world_ok w" using u(1) w by (simp_all add: reachable_world)
  have c: "cached a u" "i_id (instances u ! a) = k" using cachedD [OF ok(1) u(2)] by simp_all
  have al: "a < length (instances u)" using c(1) by (simp add: cached_def)
  show v: "reachable E A v" using inst_load_reachable(1) [OF u(1) c(1)] run by simp
  have ic: "inst_cache v = inst_cache u" using inst_load_reachable(2) [OF u(1) c(1)] run by simp
  have f: "load_frame a u v" using inst_load_frame [of a u E] run by simp
  have "if b then i_loader (instances v ! a) \<noteq> None \<and> i_client (instances v ! a) \<noteq> None else \<not> i_enabled (instances v ! a)"
    using run inst_load_sys(2) [OF ok(1) c(1), of E v] inst_load_outcome [OF run al] by (cases b) auto
  then show "instance_settled k v" using u(2) ic by (auto simp: instance_settled_def split: if_splits)
  show "map_of (inst_table v) j = map_of (inst_table w) j" if "j \<noteq> k"
    using f that u(3) c(2) by (simp add: load_frame_def)
  show "dom (map_of (inst_table v)) = dom (map_of (inst_table w))" using f u(3) by (simp add: load_frame_def)
  assume j: "j \<noteq> k" "instance_settled j w"
  have "instances v ! d = instances w ! d" if "map_of (inst_cache w) j = Some d" for d
  proof -
    have "map_of (inst_cache u) j = Some d" using that u(4) by (metis map_le_def domI)
    then have "d \<noteq> a" using cachedD(2) [OF ok(1)] c(2) j(1) by blast
    then show ?thesis using f inst_of_row_instances [OF world_okD(3) [OF ok(2)] a that] by (simp add: load_frame_def)
  qed
  then show "instance_settled j v" using j(2) u(4) ic by (intro settled_keeps [OF j(2)]) simp_all
qed

lemma load_each_settles:
  "reachable E A w \<Longrightarrow> rows_of rows (inst_table w) \<Longrightarrow> distinct (map fst rows) \<Longrightarrow> load_each E rows w = Ok () v \<Longrightarrow>
     (\<forall>k \<in> fst ` set rows. instance_settled k v) \<and> (\<forall>k. k \<notin> fst ` set rows \<longrightarrow> instance_settled k w \<longrightarrow> instance_settled k v)
     \<and> dom (map_of (inst_table v)) = dom (map_of (inst_table w))"
proof (induction rows arbitrary: w)
  case (Cons kr rows)
  obtain k r where kr: "kr = (k, r)" by (cases kr)
  obtain a u where a: "inst_of_row r w = (a, u)" by fastforce
  obtain b x where run: "inst_load E a u = Ok b x" and rest: "load_each E rows x = Ok () v"
    using Cons.prems(4) unfolding kr load_each.simps a by (auto simp: bind_eq_Ok)
  have r: "map_of (inst_table w) k = Some r" using Cons.prems(2) kr by simp
  note x = load_row [OF Cons.prems(1) r a run]
  have k: "k \<notin> fst ` set rows" "distinct (map fst rows)" using Cons.prems(3) kr by auto
  have "rows_of rows (inst_table w)" using Cons.prems(2) kr by simp
  then have "rows_of rows (inst_table x)" by (rule rows_of_same) (metis k(1) x(4))
  note ih = Cons.IH [OF x(1) this k(2) rest]
  have ih': "instance_settled j v" if "j \<in> fst ` set rows" for j using ih that by blast
  have "instance_settled j v" if "j \<in> fst ` set (kr # rows)" for j
  proof (cases "j = k")
    case True
    then show ?thesis using ih x(2) k(1) by blast
  next
    case False
    then show ?thesis using ih' that by (simp add: kr)
  qed
  moreover have "instance_settled j v" if "j \<notin> fst ` set (kr # rows)" "instance_settled j w" for j
    using that ih x(3) kr by simp
  moreover have "dom (map_of (inst_table v)) = dom (map_of (inst_table w))" using ih x(5) by simp
  ultimately show ?case by blast
qed simp

lemma load_each_reachable:
  "reachable E A w \<Longrightarrow> rows_of rows (inst_table w) \<Longrightarrow> distinct (map fst rows) \<Longrightarrow>
     reachable E A (state_of (load_each E rows w))"
proof (induction rows arbitrary: w)
  case (Cons kr rows)
  obtain k r where kr: "kr = (k, r)" by (cases kr)
  obtain a u where a: "inst_of_row r w = (a, u)" by fastforce
  have r: "map_of (inst_table w) k = Some r" using Cons.prems(2) kr by simp
  note u = inst_of_row_reachable [OF Cons.prems(1) r a]
  have c: "cached a u" using cachedD(3) [OF reachable_world [OF u(1)] u(2)] .
  show ?case
  proof (cases "inst_load E a u")
    case (Ok b x)
    note x = load_row [OF Cons.prems(1) r a Ok]
    have k: "k \<notin> fst ` set rows" "distinct (map fst rows)" using Cons.prems(3) kr by auto
    have "rows_of rows (inst_table w)" using Cons.prems(2) kr by simp
    then have "rows_of rows (inst_table x)" by (rule rows_of_same) (metis k(1) x(4))
    then show ?thesis using Cons.IH [OF x(1) _ k(2)] by (simp add: kr a Ok)
  next
    case (Raise e x)
    then show ?thesis using inst_load_reachable(1) [OF u(1) c] by (simp add: kr a)
  qed
qed simp

section \<open>What stopping does\<close>

text \<open>The part of the world that stopping a client leaves as it is, and the flags it only clears.\<close>

definition halts :: "world \<Rightarrow> world \<Rightarrow> bool" where
  "halts w v \<longleftrightarrow> map c_references (clients v) = map c_references (clients w)
     \<and> client_cache v = client_cache w \<and> length (instances v) = length (instances w)
     \<and> (\<forall>b < length (instances w). \<not> i_started (instances w ! b) \<longrightarrow> instances v ! b = instances w ! b)"

lemma halts_refl [simp]: "halts w w"
  by (simp add: halts_def)

lemma halts_trans: "halts u v \<Longrightarrow> halts v w \<Longrightarrow> halts u w"
  by (simp add: halts_def)

lemma upd_mx_map:
  assumes "\<And>y m. f (y\<lparr>mx := m\<rparr>) = f y"
  shows "map f (clients (upd_mx c g w)) = map f (clients w)"
  using assms by (cases "c < length (clients w)")
    (simp_all add: upd_mx_def upd_client_def map_update list_update_same_conv list_update_beyond)

lemma upd_mx_flags: "map c_started (clients (upd_mx c g w)) = map c_started (clients w)"
  "map c_references (clients (upd_mx c g w)) = map c_references (clients w)"
  by (rule upd_mx_map; simp)+

lemma upd_mx_other: "instances (upd_mx c g w) = instances w" "client_cache (upd_mx c g w) = client_cache w"
  by (simp_all add: upd_mx_def upd_client_def)

lemma internal_stop_flags:
  "map c_started (clients v) = flags \<Longrightarrow> holds (\<lambda>v. map c_started (clients v) = flags) (internal_stop E a v)"
  by (auto simp: internal_stop_def Let_def perform_def upd_mx_flags upd_webapp_def log_event_def split: option.split)

lemma inst_stop_flags: "holds (\<lambda>v. map c_started (clients v) = map c_started (clients w)) (inst_stop E a w)"
proof -
  let ?I = "\<lambda>v. map c_started (clients v) = map c_started (clients w)"
  have db: "holds ?I (stop_database E a v)" if "?I v" for v
    using that by (simp add: stop_database_def perform_def log_event_def split: option.splits inst_db.splits)
  show ?thesis
    unfolding inst_stop_def Let_def by (auto intro!: holds_bind holds_swallow internal_stop_flags db)
qed

lemma inst_stop_halts:
  assumes "a < length (instances w)"
  shows "holds (halts w) (inst_stop E a w)"
    and "\<not> i_started (instances (state_of (inst_stop E a w)) ! a)"
    and "b \<noteq> a \<Longrightarrow> instances (state_of (inst_stop E a w)) ! b = instances w ! b"
proof -
  have f: "stop_frame a w (state_of (inst_stop E a w))" using inst_stop_frame by (simp add: holds_def)
  have idle: "inst_stop E a w = Ok () w" if "\<not> i_started (instances w ! a)" using that by (simp add: inst_stop_def)
  show "b \<noteq> a \<Longrightarrow> instances (state_of (inst_stop E a w)) ! b = instances w ! b" using f by (simp add: stop_frame_def)
  show "holds (halts w) (inst_stop E a w)"
  proof (cases "i_started (instances w ! a)")
    case True
    then have "instances (state_of (inst_stop E a w)) ! b = instances w ! b" if "\<not> i_started (instances w ! b)" for b
      using f that by (cases "b = a") (simp_all add: stop_frame_def)
    then show ?thesis using f by (simp add: holds_def halts_def stop_frame_def)
  qed (simp add: idle)
  show "\<not> i_started (instances (state_of (inst_stop E a w)) ! a)"
    using inst_stop_outcome [OF assms, of E] idle by (cases "i_started (instances w ! a)") (auto split: res.splits)
qed

lemma gather_state: "state_of (gather (g # gs) w) = state_of (gather gs (state_of (g w)))"
  by (cases "g w") simp_all

lemma stop_all_halts:
  "\<forall>(k, b) \<in> set rs. b < length (instances w) \<Longrightarrow> v = state_of (gather (map (\<lambda>(k, i). inst_stop E i) rs) w) \<Longrightarrow>
     halts w v \<and> map c_started (clients v) = map c_started (clients w)
     \<and> (\<forall>b \<in> snd ` set rs. \<not> i_started (instances v ! b)) \<and> (\<forall>b. b \<notin> snd ` set rs \<longrightarrow> instances v ! b = instances w ! b)"
proof (induction rs arbitrary: w)
  case (Cons r rs)
  obtain k a where r: "r = (k, a)" by (cases r)
  define u where "u = state_of (inst_stop E a w)"
  have a: "a < length (instances w)" using Cons.prems(1) r by simp
  have s: "halts w u" "\<not> i_started (instances u ! a)" "b \<noteq> a \<Longrightarrow> instances u ! b = instances w ! b"
    "map c_started (clients u) = map c_started (clients w)" for b
    using inst_stop_halts [OF a, where E = E] inst_stop_flags [where w = w and E = E and a = a] by (simp_all add: holds_def u_def)
  have len: "length (instances u) = length (instances w)" using s(1) by (simp add: halts_def)
  have v: "v = state_of (gather (map (\<lambda>(k, i). inst_stop E i) rs) u)"
    using Cons.prems(2) gather_state [of "inst_stop E a"] by (simp add: r u_def)
  have ih: "halts u v \<and> map c_started (clients v) = map c_started (clients u)
     \<and> (\<forall>b \<in> snd ` set rs. \<not> i_started (instances v ! b)) \<and> (\<forall>b. b \<notin> snd ` set rs \<longrightarrow> instances v ! b = instances u ! b)"
    using Cons.prems(1) by (intro Cons.IH v) (simp add: len)
  have "instances v ! a = instances u ! a" using ih s(2) a by (simp add: halts_def len)
  then have "\<not> i_started (instances v ! a)" using s(2) by simp
  then show ?case using ih s(3,4) halts_trans [OF s(1)] r by auto
qed simp

lemma client_stop_halts:
  assumes ok: "world_ok w" and c: "c < length (clients w)" and v: "v = state_of (client_stop E c w)"
  shows "halts w v" "\<not> c_started (clients v ! c)" "d < length (clients w) \<Longrightarrow> d \<noteq> c \<Longrightarrow> c_started (clients v ! d) = c_started (clients w ! d)"
    "c_started (clients w ! c) \<Longrightarrow> (k, b) \<in> set (c_references (clients w ! c)) \<Longrightarrow> \<not> i_started (instances v ! b)"
    "c_started (clients w ! c) \<longrightarrow> b \<notin> snd ` set (c_references (clients w ! c)) \<Longrightarrow> instances v ! b = instances w ! b"
proof -
  let ?rs = "c_references (clients w ! c)" and ?w = "upd_client c (\<lambda>x. x\<lparr>c_started := False\<rparr>) w"
  let ?run = "filter (\<lambda>(k, i). i_started (instances w ! i)) ?rs"
  define u where "u = state_of (stop_plugins E c ?w)"
  have idle: "v = w" if "\<not> c_started (clients w ! c)" using that v by (simp add: client_stop_def)
  have u: "halts ?w u \<and> map c_started (clients u) = map c_started (clients ?w)
     \<and> (\<forall>b \<in> snd ` set ?run. \<not> i_started (instances u ! b)) \<and> (\<forall>b. b \<notin> snd ` set ?run \<longrightarrow> instances u ! b = instances ?w ! b)"
  proof (rule stop_all_halts [where E = E])
    show "\<forall>(k, b) \<in> set ?run. b < length (instances ?w)"
      using refs_of_client(1) [OF ok c] cachedD(1) [OF ok] by auto
    show "u = state_of (gather (map (\<lambda>(k, i). inst_stop E i) ?run) ?w)"
      by (simp add: u_def stop_plugins_def c)
  qed
  have rest: "instances v = instances u" "client_cache v = client_cache u" "map c_references (clients v) = map c_references (clients u)"
    "map c_started (clients v) = map c_started (clients u)" if "c_started (clients w ! c)"
  proof -
    have "v = state_of (case stop_plugins E c ?w of Ok _ w \<Rightarrow> (let w = stop_sync c w in
        if crypto (clients w ! c) then crypto_do E ''close'' c w else Ok () w) | Raise e w \<Rightarrow> Raise e w)"
      using that v by (cases "stop_plugins E c ?w") (simp_all add: client_stop_def)
    moreover have "state_of (let w = stop_sync c u in if crypto (clients w ! c) then crypto_do E ''close'' c w else Ok () w) = x \<Longrightarrow>
        instances x = instances u \<and> client_cache x = client_cache u \<and> map c_references (clients x) = map c_references (clients u)
        \<and> map c_started (clients x) = map c_started (clients u)" for x
      by (auto simp: Let_def stop_sync_def log_event_def crypto_do_def perform_def upd_mx_flags upd_mx_other split: option.split)
    ultimately show "instances v = instances u" "client_cache v = client_cache u" "map c_references (clients v) = map c_references (clients u)"
      "map c_started (clients v) = map c_started (clients u)"
      by (cases "stop_plugins E c ?w"; simp add: u_def)+
  qed
  have refs: "map c_references (clients ?w) = map c_references (clients w)"
    using c by (simp add: upd_client_def map_update list_update_same_conv)
  have flags: "map c_started (clients ?w) = (map c_started (clients w))[c := False]"
    by (simp add: upd_client_def map_update)
  show "halts w v"
    using u rest idle refs by (cases "c_started (clients w ! c)") (simp_all add: halts_def)
  have lv: "length (clients v) = length (clients w)"
    using \<open>halts w v\<close> unfolding halts_def by (metis length_map)
  have flag: "c_started (clients v ! d) \<longleftrightarrow> d \<noteq> c \<and> c_started (clients w ! d)" if "d < length (clients w)" for d
  proof (cases "c_started (clients w ! c)")
    case True
    have "map c_started (clients v) ! d = (map c_started (clients w))[c := False] ! d" using u rest(4) [OF True] flags by simp
    then show ?thesis using that c lv by (auto simp: nth_list_update)
  qed (use that idle in auto)
  show "\<not> c_started (clients v ! c)" "d < length (clients w) \<Longrightarrow> d \<noteq> c \<Longrightarrow> c_started (clients v ! d) = c_started (clients w ! d)"
    using flag c by blast+
  show "\<not> i_started (instances v ! b)" if "c_started (clients w ! c)" "(k, b) \<in> set ?rs"
  proof (cases "i_started (instances w ! b)")
    case True
    then have "(k, b) \<in> set ?run" using that(2) by simp
    then have "b \<in> snd ` set ?run" by (rule image_eqI [rotated]) simp
    then show ?thesis using u unfolding rest(1) [OF that(1)] by blast
  next
    case False
    have "b < length (instances w)" using refs_of_client(1) [OF ok c that(2)] cachedD(1) [OF ok] by simp
    then show ?thesis using False u rest(1) [OF that(1)] by (simp add: halts_def)
  qed
  show "instances v ! b = instances w ! b" if "c_started (clients w ! c) \<longrightarrow> b \<notin> snd ` set ?rs"
  proof (cases "c_started (clients w ! c)")
    case True
    then have "b \<notin> snd ` set ?run" using that by auto
    then show ?thesis using u rest(1) [OF True] by simp
  qed (simp add: idle)
qed

lemma shut_down_halts:
  "world_ok w \<Longrightarrow> \<forall>c \<in> set cs. c < length (clients w) \<Longrightarrow> v = state_of (gather (map (client_stop E) cs) w) \<Longrightarrow>
     halts w v \<and> (\<forall>c < length (clients w). c_started (clients v ! c) \<longrightarrow> c_started (clients w ! c) \<and> c \<notin> set cs)
     \<and> (\<forall>c \<in> set cs. c_started (clients w ! c) \<longrightarrow>
          (\<forall>(k, b) \<in> set (c_references (clients w ! c)). \<not> i_started (instances v ! b)))
     \<and> (\<forall>b. (\<forall>c \<in> set cs. c_started (clients w ! c) \<longrightarrow> b \<notin> snd ` set (c_references (clients w ! c)))
          \<longrightarrow> instances v ! b = instances w ! b)"
proof (induction cs arbitrary: w)
  case (Cons c cs)
  define u where "u = state_of (client_stop E c w)"
  have c: "c < length (clients w)" using Cons.prems(2) by simp
  note s = client_stop_halts [OF Cons.prems(1) c u_def]
  have ok: "world_ok u" using client_stop_ok [OF Cons.prems(1) c, of E] by (simp add: holds_def sys_def u_def)
  have refs: "map c_references (clients u) = map c_references (clients w)" using s(1) by (simp add: halts_def)
  then have len: "length (clients u) = length (clients w)" by (metis length_map)
  then have ref: "c_references (clients u ! d) = c_references (clients w ! d)" if "d < length (clients w)" for d
    using that refs by (metis nth_map)
  have v: "v = state_of (gather (map (client_stop E) cs) u)" using Cons.prems(3) by (simp only: list.map gather_state u_def)
  have cs: "\<forall>d \<in> set cs. d < length (clients u)" using Cons.prems(2) len by simp
  note ih = Cons.IH [OF ok cs v]
  show ?case
  proof (intro conjI ballI allI impI)
    show "halts w v" using halts_trans [OF s(1)] ih by blast
  next
    fix d assume "d < length (clients w)" "c_started (clients v ! d)"
    then show "c_started (clients w ! d)" "d \<notin> set (c # cs)" using ih len s(2,3) by (metis, metis set_ConsD)
  next
    fix d r assume d: "d \<in> set (c # cs)" "c_started (clients w ! d)" and r: "r \<in> set (c_references (clients w ! d))"
    obtain k b where kb: "r = (k, b)" by (cases r)
    have dl: "d < length (clients w)" using d(1) Cons.prems(2) by auto
    have b: "b < length (instances w)" using refs_of_client(1) [OF Cons.prems(1) dl] r kb cachedD(1) [OF Cons.prems(1)] by blast
    have "\<not> i_started (instances v ! b)"
    proof (cases "d = c")
      case True
      then have "\<not> i_started (instances u ! b)" using s(4) d(2) r kb by blast
      then show ?thesis using ih b s(1) by (simp add: halts_def)
    next
      case False
      then have "c_started (clients u ! d)" "d \<in> set cs" using s(3) [OF dl] d by auto
      then have "\<forall>(k, b) \<in> set (c_references (clients u ! d)). \<not> i_started (instances v ! b)" using ih by blast
      then show ?thesis using r kb ref [OF dl] by auto
    qed
    then show "case r of (k, b) \<Rightarrow> \<not> i_started (instances v ! b)" by (simp add: kb)
  next
    fix b assume b: "\<forall>d \<in> set (c # cs). c_started (clients w ! d) \<longrightarrow> b \<notin> snd ` set (c_references (clients w ! d))"
    have "instances u ! b = instances w ! b" using b by (intro s(5)) simp
    moreover have "b \<notin> snd ` set (c_references (clients u ! d))" if "d \<in> set cs" "c_started (clients u ! d)" for d
    proof -
      have dl: "d < length (clients w)" using that(1) Cons.prems(2) by simp
      then have "c_started (clients w ! d)" using that(2) s(2,3) by metis
      then show ?thesis using b that(1) ref [OF dl] by simp
    qed
    ultimately show "instances v ! b = instances w ! b" using ih by simp
  qed
qed simp

section \<open>Properties\<close>

text \<open>
  What is relied on: \<^verbatim>\<open>gather\<close> runs every coroutine, and \<^verbatim>\<open>Program.stop\<close> gathers the shut-down actions,
  these and perhaps others that do not touch the world.
\<close>

definition boot_ok :: "('y, 'c) boot \<Rightarrow> bool" where
  "boot_ok B \<longleftrightarrow> (\<forall>as. mset (b_order B as) = mset as)
     \<and> (\<forall>gs w. \<exists>ns. mset ns = mset [0..<length gs] \<and> b_super_stop B gs w = gather (map (\<lambda>n. gs ! n) ns) w)"

lemma state_on_world: "b_world (state_of (boot_world f s)) = state_of (f (b_world s))"
  by (simp add: boot_world_def split: res.split)

lemma boot_ok_order:
  assumes "boot_ok B"
  shows "set (b_order B as) = set as"
proof -
  have "mset (b_order B as) = mset as" using assms by (simp add: boot_ok_def)
  then show ?thesis by (rule mset_eq_setD)
qed

text \<open>A property of the state that every phase of the start-up keeps holds however it ends.\<close>

lemma bind_invariant:
  "I (state_of r) \<Longrightarrow> (\<And>x s. r = Ok x s \<Longrightarrow> I s \<Longrightarrow> I (state_of (k x s))) \<Longrightarrow> I (state_of (bind r k))"
  by (cases r) auto

lemma boot_call_world: "b_world (state_of (boot_call b r s)) = b_world s"
  by (simp add: boot_call_def Let_def split: option.split)

lemma boot_db_world: "b_world (state_of (boot_db B s)) = b_world s"
  by (simp add: boot_db_def Let_def split: prod.split option.split)

lemma maubot_start_reachable:
  assumes "reachable (b_env B) A (b_world s)" and ok: "boot_ok B"
  shows "reachable (b_env B) A (b_world (state_of (maubot_start B s)))"
proof -
  note ord = boot_ok_order [OF ok]
  show ?thesis
    unfolding maubot_start_def
    by (intro bind_invariant [where I = "\<lambda>s. reachable (b_env B) A (b_world s)"])
      (simp_all only: boot_db_world boot_call_world state_on_world assms(1) load_all_reachable [OF _ ord]
        start_all_reachable [OF _ ord] load_each_reachable [OF _ rows_of_all(1) distinct_rows(1)])
qed

text \<open>The steps are a part of \<open>L\<close>, the first \<open>i\<close> of them when the code returns.\<close>

definition progress :: "boot_step list \<Rightarrow> boot_step list \<Rightarrow> nat \<Rightarrow> (boot_state, 'a) res \<Rightarrow> bool" where
  "progress pre L i r \<longleftrightarrow> (\<exists>n. b_steps (state_of r) = pre @ take n L) \<and> (\<forall>x t. r = Ok x t \<longrightarrow> b_steps t = pre @ take i L)"

lemma progress_bind:
  "progress pre L i r \<Longrightarrow> (\<And>x t. b_steps t = pre @ take i L \<Longrightarrow> progress pre L j (k x t)) \<Longrightarrow> progress pre L j (bind r k)"
  by (cases r) (auto simp: progress_def)

lemma progress_on_world: "b_steps u = pre @ take i L \<Longrightarrow> progress pre L i (boot_world f u)"
  by (auto simp: progress_def boot_world_def split: res.split)

lemma progress_call:
  "b_steps u = pre @ take i L \<Longrightarrow> i < length L \<Longrightarrow> L ! i = b \<Longrightarrow> progress pre L (Suc i) (boot_call b r u)"
  by (auto simp: progress_def boot_call_def Let_def take_Suc_conv_app_nth split: option.split intro: exI [of _ "Suc i"])

lemma progress_db:
  assumes "b_steps s = pre" and "L = map DbStep (start_actions (b_pools B)) @ rest"
  shows "progress pre L (length (start_actions (b_pools B))) (boot_db B s)"
proof -
  obtain r acts where run: "start_db (b_db_fails B) (b_pools B) = (r, acts)" by fastforce
  obtain n where n: "n \<le> length (start_actions (b_pools B))" "acts = take n (start_actions (b_pools B))"
      "r = None \<longleftrightarrow> n = length (start_actions (b_pools B))"
    using run_actions_prefix [OF run [unfolded start_db_def]] by auto
  have "map DbStep acts = take n L" using n(1,2) assms(2) by (simp add: take_map)
  then show ?thesis
    using n(3) assms(1) by (auto simp: progress_def boot_db_def run Let_def split: option.split)
qed

lemma maubot_start_steps:
  fixes B :: "('y, 'c) boot"
  defines "L \<equiv> map DbStep (start_actions (b_pools B)) @ [SuperStart, ServerStart]"
  shows "progress (b_steps s) L (length L) (maubot_start B s)"
proof -
  let ?m = "length (start_actions (b_pools B))"
  have "L ! ?m = SuperStart" "L ! Suc ?m = ServerStart" "length L = Suc (Suc ?m)"
    by (simp_all add: L_def nth_append)
  note L = this
  have db: "progress (b_steps s) L ?m (boot_db B s)" by (rule progress_db) (simp_all add: L_def)
  show ?thesis
    unfolding maubot_start_def L(3)
    by (rule progress_bind [OF db] progress_bind [OF progress_on_world] progress_bind [OF progress_call [OF _ _ L(1)]]
        progress_call [OF _ _ L(2)] | assumption | (simp add: L(3); fail))+
qed

lemma maubot_start_Ok:
  assumes run: "maubot_start B s = Ok () t" and s: "reachable (b_env B) A (b_world s)" and ok: "boot_ok B"
  obtains w where "reachable (b_env B) A w" "load_each (b_env B) (db_inst_all w) w = Ok () (b_world t)"
proof -
  obtain s1 s2 s3 s4 s5 where steps: "boot_db B s = Ok () s1" "boot_world (load_all_instances (b_env B) (b_order B)) s1 = Ok () s2"
    "boot_world (start_all (b_env B) (b_order B)) s2 = Ok () s3" "boot_call SuperStart (b_super_start B) s3 = Ok () s4"
    "boot_world (\<lambda>w. load_each (b_env B) (db_inst_all w) w) s4 = Ok () s5" "boot_call ServerStart (b_server_start B) s5 = Ok () t"
    using run by (auto simp: maubot_start_def bind_eq_Ok)
  note ord = boot_ok_order [OF ok]
  have "b_world s1 = b_world s" using boot_db_world [of B s] steps(1) by simp
  then have "reachable (b_env B) A (b_world s2)"
    using load_all_reachable [where order = "b_order B", OF s ord] state_on_world [of "load_all_instances (b_env B) (b_order B)" s1] steps(2) by simp
  then have "reachable (b_env B) A (b_world s3)"
    using start_all_reachable [where order = "b_order B", OF _ ord] state_on_world [of "start_all (b_env B) (b_order B)" s2] steps(3) by simp
  moreover have "b_world s4 = b_world s3" "b_world t = b_world s5"
    using boot_call_world [of SuperStart "b_super_start B" s3] boot_call_world [of ServerStart "b_server_start B" s5] steps(4,6) by simp_all
  moreover have "load_each (b_env B) (db_inst_all (b_world s4)) (b_world s4) = Ok () (b_world s5)"
    using steps(5) by (auto simp: boot_world_def split: res.splits)
  ultimately show thesis using that [of "b_world s4"] by simp
qed

text \<open>
  C2. Start-up. However it ends, it leaves a world that the program can reach, and the web server is
  started last, after the databases, the instances, the clients and the other actions. When it
  returns, every row of the instance table has an object in the cache; unless that object is
  disabled it has a plugin and a client, and both count it among their references.
\<close>

theorem startup_links_instances:
  assumes "reachable (b_env B) A (b_world s)" and "boot_ok B"
  shows "reachable (b_env B) A (b_world (state_of (maubot_start B s)))
    \<and> (\<exists>n. b_steps (state_of (maubot_start B s)) =
         b_steps s @ take n (map DbStep (start_actions (b_pools B)) @ [SuperStart, ServerStart]))
    \<and> (\<forall>t. maubot_start B s = Ok () t \<longrightarrow>
         b_steps t = b_steps s @ map DbStep (start_actions (b_pools B)) @ [SuperStart, ServerStart]
         \<and> (\<forall>k r. map_of (inst_table (b_world t)) k = Some r \<longrightarrow>
             (\<exists>a. map_of (inst_cache (b_world t)) k = Some a \<and> (\<not> i_enabled (instances (b_world t) ! a)
               \<or> (\<exists>l c. i_loader (instances (b_world t) ! a) = Some l \<and> i_client (instances (b_world t) ! a) = Some c
                    \<and> (k, a) \<in> set (l_references (loaders (b_world t) ! l))
                    \<and> (k, a) \<in> set (c_references (clients (b_world t) ! c)))))))"
proof -
  have reach: "reachable (b_env B) A (b_world (state_of (maubot_start B s)))" by (rule maubot_start_reachable [OF assms])
  have counted: "\<exists>a. map_of (inst_cache (b_world t)) k = Some a \<and> (\<not> i_enabled (instances (b_world t) ! a)
       \<or> (\<exists>l c. i_loader (instances (b_world t) ! a) = Some l \<and> i_client (instances (b_world t) ! a) = Some c
          \<and> (k, a) \<in> set (l_references (loaders (b_world t) ! l)) \<and> (k, a) \<in> set (c_references (clients (b_world t) ! c))))"
    if run: "maubot_start B s = Ok () t" and k: "map_of (inst_table (b_world t)) k = Some r" for t k r
  proof -
    have ok: "world_ok (b_world t)" using reachable_world [OF reach] run by simp
    obtain w where w: "reachable (b_env B) A w" "load_each (b_env B) (db_inst_all w) w = Ok () (b_world t)"
      by (rule maubot_start_Ok [OF run assms])
    note l = load_each_settles [OF w(1) rows_of_all(1) distinct_rows(1) w(2), unfolded keys_of_all]
    have "k \<in> dom (map_of (inst_table (b_world t)))" using k by blast
    then have "k \<in> dom (map_of (inst_table w))" using l by simp
    then have "instance_settled k (b_world t)" using l by blast
    then show ?thesis using world_okD(5) [OF ok, of k] by (fastforce simp: instance_settled_def inst_linked_def)
  qed
  show ?thesis using reach counted maubot_start_steps [of s B] unfolding progress_def by (auto simp del: take_append)
qed

lemma cached_clients_cache:
  assumes "client_inv w"
  shows "c \<in> set (cached_clients w) \<longleftrightarrow> (\<exists>k. map_of (client_cache w) k = Some c)"
    "c \<in> set (cached_clients w) \<Longrightarrow> c < length (clients w)"
proof -
  have "set (AList.clearjunk (client_cache w)) = {(k, c). map_of (client_cache w) k = Some c}"
    using map_of_eq_Some_iff [OF distinct_clearjunk, of "client_cache w"] by (auto simp: map_of_clearjunk)
  then show *: "c \<in> set (cached_clients w) \<longleftrightarrow> (\<exists>k. map_of (client_cache w) k = Some c)"
    by (force simp: cached_clients_def)
  show "c \<in> set (cached_clients w) \<Longrightarrow> c < length (clients w)"
    using * assms by (auto simp: client_inv_def)
qed

lemma nth_image_lessThan: "(\<lambda>n. xs ! n) ` {..<length xs} = set xs"
  by (simp add: set_conv_nth image_def lessThan_def Bex_def) metis

lemma maubot_stop_world:
  assumes "boot_ok B"
  obtains cs where "set cs = set (cached_clients (b_world s))"
    "b_world (state_of (maubot_stop B s)) = state_of (gather (map (client_stop (b_env B)) cs) (b_world s))"
proof -
  let ?gs = "map (client_stop (b_env B)) (cached_clients (b_world s))"
  obtain ns where ns: "mset ns = mset [0..<length ?gs]" "b_super_stop B ?gs (b_world s) = gather (map (\<lambda>n. ?gs ! n) ns) (b_world s)"
    using assms unfolding boot_ok_def by meson
  define cs where "cs = map (\<lambda>n. cached_clients (b_world s) ! n) ns"
  define hs where "hs = map (\<lambda>n. ?gs ! n) ns"
  have "set ns = set [0..<length ?gs]" by (rule mset_eq_setD [OF ns(1)])
  then have sns: "set ns = {..<length (cached_clients (b_world s))}" by (simp add: lessThan_atLeast0)
  have hs: "b_super_stop B ?gs (b_world s) = gather hs (b_world s)" using ns(2) by (simp add: hs_def)
  have "map (client_stop (b_env B)) cs = hs" using sns by (simp add: cs_def hs_def)
  moreover have "set cs = set (cached_clients (b_world s))"
    by (simp add: cs_def sns nth_image_lessThan)
  moreover have "b_world (state_of (maubot_stop B s)) = state_of (gather hs (b_world s))"
  proof -
    have "b_world (state_of (bind (boot_world (\<lambda>w. b_super_stop B (map (client_stop (b_env B)) (cached_clients w)) w) s) k)) =
        state_of (gather hs (b_world s))" if "\<And>x t. b_world (state_of (k x t)) = b_world t" for k :: "unit \<Rightarrow> boot_state \<Rightarrow> (boot_state, unit) res"
      using that by (cases "gather hs (b_world s)") (simp_all add: boot_world_def hs)
    moreover have "b_world (state_of (bind (catch (boot_call ServerStop r t) (\<lambda>e s. if e = TimeoutError then Ok () s else Raise e s))
        (\<lambda>_ s. boot_call DbStop q s))) = b_world t" for r q t
      by (simp add: boot_call_def Let_def split: option.split)
    ultimately show ?thesis by (simp add: maubot_stop_def)
  qed
  ultimately show thesis using that by metis
qed


section \<open>An example\<close>

text \<open>One plugin file, one instance, and a client that is switched off.\<close>

definition ex_off :: world where
  "ex_off = ex_start\<lparr>client_table := [(''@a:b'', ex_row\<lparr>c_enabled := False\<rparr>)]\<rparr>"

lemma ex_off_simps [simp]:
  "loaders ex_off = []" "id_cache ex_off = []" "path_cache ex_off = []" "clients ex_off = []" "client_cache ex_off = []"
  "instances ex_off = []" "inst_cache ex_off = []" "tasks ex_off = []" "fs ex_off = ex_fs" "dir_cache ex_off = []" "modules ex_off = []"
  "client_table ex_off = [(''@a:b'', ex_row\<lparr>c_enabled := False\<rparr>)]" "inst_table ex_off = [(''i'', ex_irow)]"
  by (simp_all add: ex_off_def)

definition ex_off_scanned :: world where
  "ex_off_scanned = ex_off\<lparr>loaders := [ex_loader], id_cache := [(''a.b'', 0)], path_cache := [(ustr ''/a.mbp'', 0)],
     dir_cache := [(ustr ''/a.mbp'', zi_files ex_importer)]\<rparr>"

lemma ex_off_scan: "get_loader ex_who (ustr ''/a.mbp'') ex_off = Ok 0 ex_off_scanned"
proof -
  have "preload ex_who (new_loader (ustr ''/a.mbp''), ex_off) =
      Ok () (ex_loader, ex_off\<lparr>dir_cache := [(ustr ''/a.mbp'', zi_files ex_importer)]\<rparr>)"
    by (simp add: preload_def ex_who_load_meta new_loader_def get_importer_def ex_importer_init
        self_path_def ex_who_checks ex_loader_def)
  moreover have "le_abspath ex_who (ustr ''/a.mbp'') = ustr ''/a.mbp''"
    by (simp add: ex_who_def ex_net_def loader_env.defs ex_env_def)
  ultimately show ?thesis
    by (simp add: get_loader_def loader_init_def Let_def in_dict_def ex_loader_def loader_id_def ex_meta_def ex_off_scanned_def)
qed

lemma ex_off_reachable: "reachable ex_who A ex_off_scanned"
proof -
  have "reachable ex_who A ex_off"
    by (rule reachable.init) (simp_all add: ex_row_def ex_irow_def in_dict_def)
  then show ?thesis by (rule reachable.lookups [where path = "ustr ''/a.mbp''"]) (simp add: ex_off_scan)
qed

definition ex_boot :: "(unit, bytes) boot" where
  "ex_boot = \<lparr>b_env = ex_who, b_db_fails = (\<lambda>_. None), b_pools = \<lparr>dp_main = ''sqlite'', dp_crypto = NoPool, dp_plugin = NoPool\<rparr>,
     b_order = rev, b_super_start = None, b_super_stop = gather, b_server_start = None, b_server_stop = Some TimeoutError, b_db_stop = None\<rparr>"

lemma ex_boot_ok: "boot_ok ex_boot"
  by (auto simp: boot_ok_def ex_boot_def map_nth intro: exI [of _ "[0..<n]" for n])

definition ex_off_loaded :: world where
  "ex_off_loaded = state_of (inst_load ex_who 0 (with_inst ex_irow ex_off_scanned))"

lemma ex_off_load:
  "inst_load ex_who 0 (with_inst ex_irow ex_off_scanned) = Ok True ex_off_loaded"
  "inst_cache ex_off_loaded = [(''i'', 0)]" "inst_table ex_off_loaded = [(''i'', ex_irow)]"
  "client_cache ex_off_loaded = [(''@a:b'', 0)]" "client_table ex_off_loaded = [(''@a:b'', ex_row\<lparr>c_enabled := False\<rparr>)]"
  "\<not> c_enabled (clients ex_off_loaded ! 0)"
  "i_loader (instances ex_off_loaded ! 0) = Some 0" "i_client (instances ex_off_loaded ! 0) = Some 0"
  "l_meta (loaders ex_off_loaded ! 0) = Some ex_meta"
proof -
  have "client_get ex_who None None None ''@a:b'' w = Ok (Some (length (clients w))) (with_client ex_who (ex_row\<lparr>c_enabled := False\<rparr>) w)"
    if "client_cache w = []" "client_table w = [(''@a:b'', ex_row\<lparr>c_enabled := False\<rparr>)]" for w
    using that by (simp add: client_get_None)
  then have "\<exists>v. inst_load ex_who 0 (with_inst ex_irow ex_off_scanned) = Ok True v \<and> inst_cache v = [(''i'', 0)] \<and> inst_table v = [(''i'', ex_irow)]
     \<and> client_cache v = [(''@a:b'', 0)] \<and> client_table v = [(''@a:b'', ex_row\<lparr>c_enabled := False\<rparr>)]
     \<and> \<not> c_enabled (clients v ! 0) \<and> i_loader (instances v ! 0) = Some 0 \<and> i_client (instances v ! 0) = Some 0
     \<and> l_meta (loaders v ! 0) = Some ex_meta"
    by (simp add: inst_load_def load_loader_def load_client_def find_plugin_def meta_of_def ex_loader_def
        with_client_def enable_webapp_def add_reference_def ex_meta_def with_inst_def ex_off_scanned_def
        split: prod.split)
      (simp add: ex_irow_def ex_row_def postinit_fields_def Let_def enable_crypto_def prepare_crypto_def client_init_def client_row.defs
        client.defs)
  then show "inst_load ex_who 0 (with_inst ex_irow ex_off_scanned) = Ok True ex_off_loaded"
    "inst_cache ex_off_loaded = [(''i'', 0)]" "inst_table ex_off_loaded = [(''i'', ex_irow)]"
    "client_cache ex_off_loaded = [(''@a:b'', 0)]" "client_table ex_off_loaded = [(''@a:b'', ex_row\<lparr>c_enabled := False\<rparr>)]"
    "\<not> c_enabled (clients ex_off_loaded ! 0)" "i_loader (instances ex_off_loaded ! 0) = Some 0"
    "i_client (instances ex_off_loaded ! 0) = Some 0" "l_meta (loaders ex_off_loaded ! 0) = Some ex_meta"
    by (auto simp: ex_off_loaded_def)
qed

lemma ex_off_load_again: "\<exists>v. inst_load ex_who 0 ex_off_loaded = Ok True v"
  by (simp add: inst_load_def load_loader_def load_client_def meta_of_def ex_off_load)

lemma ex_off_all:
  "load_all_instances ex_who rev ex_off_scanned = Ok () ex_off_loaded" "start_all ex_who rev ex_off_loaded = Ok () ex_off_loaded"
  "\<exists>v. load_each ex_who (db_inst_all ex_off_loaded) ex_off_loaded = Ok () v"
proof -
  have "inst_all ex_off_scanned = ([0], with_inst ex_irow ex_off_scanned)"
    by (simp add: inst_all_def db_inst_all_def ex_off_scanned_def new_inst_def inst_postinit_def with_inst_def fresh_inst_def upd_inst_def)
  then show "load_all_instances ex_who rev ex_off_scanned = Ok () ex_off_loaded" by (simp add: load_all_instances_def ex_off_load(1))
  have "client_all ex_who ex_off_loaded = Ok [0] ex_off_loaded"
    by (simp add: client_all_def db_client_all_def ex_off_load) (simp add: ex_row_def)
  then show "start_all ex_who rev ex_off_loaded = Ok () ex_off_loaded"
    by (simp add: start_all_def client_start_def client_start_inner_def swallow_def Let_def ex_off_load)
  obtain v where "inst_load ex_who 0 ex_off_loaded = Ok True v" using ex_off_load_again by blast
  then show "\<exists>v. load_each ex_who (db_inst_all ex_off_loaded) ex_off_loaded = Ok () v"
    by (simp add: db_inst_all_def ex_off_load inst_of_row_def) (simp add: ex_irow_def)
qed

lemma ex_off_start:
  "\<exists>v. maubot_start ex_boot \<lparr>b_world = ex_off_scanned, b_steps = []\<rparr> =
     Ok () \<lparr>b_world = v, b_steps = [DbStep StartMain, DbStep UpgradeStateStore, SuperStart, ServerStart]\<rparr>"
proof -
  obtain v where "load_each ex_who (db_inst_all ex_off_loaded) ex_off_loaded = Ok () v" using ex_off_all(3) by blast
  then show ?thesis
    by (simp add: maubot_start_def ex_boot_def boot_db_def start_db_def start_actions_def boot_world_def boot_call_def ex_off_all(1,2))
qed

theorem startup_links_instances_witness:
  "\<exists>t. maubot_start ex_boot \<lparr>b_world = ex_off_scanned, b_steps = []\<rparr> = Ok () t
     \<and> b_steps t = [DbStep StartMain, DbStep UpgradeStateStore, SuperStart, ServerStart] \<and> reachable ex_who ex_api (b_world t)"
proof -
  obtain v where v: "maubot_start ex_boot \<lparr>b_world = ex_off_scanned, b_steps = []\<rparr> =
     Ok () \<lparr>b_world = v, b_steps = [DbStep StartMain, DbStep UpgradeStateStore, SuperStart, ServerStart]\<rparr>"
    using ex_off_start by blast
  have "b_env ex_boot = ex_who" by (simp add: ex_boot_def)
  then have "reachable (b_env ex_boot) ex_api (b_world \<lparr>b_world = ex_off_scanned, b_steps = []\<rparr>)"
    using ex_off_reachable by simp
  from startup_links_instances [OF this ex_boot_ok] show ?thesis using v \<open>b_env ex_boot = ex_who\<close> by simp
qed

text \<open>The same world with a running client and instance.\<close>

definition ex_running :: world where
  "ex_running = upd_client 0 (\<lambda>c. c\<lparr>c_started := True\<rparr>) (upd_inst 0 (\<lambda>i. i\<lparr>i_started := True\<rparr>) ex_off_loaded)"

lemma i_id_ex_irow: "i_id ex_irow = ''i''"
  by (simp add: ex_irow_def)

lemma ex_running:
  "world_ok ex_running" "c_started (clients ex_running ! 0)" "i_started (instances ex_running ! 0)"
  "map_of (client_cache ex_running) ''@a:b'' = Some 0" "(''i'', 0) \<in> set (c_references (clients ex_running ! 0))"
proof -
  have look: "inst_get None None ''i'' ex_off_scanned = Ok (Some 0) (with_inst ex_irow ex_off_scanned)"
    using new_inst_postinit [of ex_irow ex_off_scanned] by (simp add: inst_get_def db_inst_get_def ex_off_scanned_def)
  have "reachable ex_who ex_api (with_inst ex_irow ex_off_scanned)"
    by (rule reachable.lookups [OF ex_off_reachable, where k = "''i''"]) (simp add: look)
  then have "reachable ex_who ex_api ex_off_loaded"
    by (rule reachable.load [where a = 0]) (simp_all add: cached_def ex_off_loaded_def with_inst_def ex_off_scanned_def
        fresh_inst_def i_id_ex_irow)
  then have ok: "world_ok ex_off_loaded" by (rule reachable_world)
  have vw: "view ex_running = view ex_off_loaded"
    by (simp add: ex_running_def view_upd_client view_upd_inst cview_def iview_def)
  show "world_ok ex_running" by (rule world_ok_view [OF vw ok])
  have lk: "inst_linked ''i'' 0 ex_off_loaded" using world_okD(5) [OF ok, of "''i''" 0] by (simp add: ex_off_load)
  then have c: "0 < length (clients ex_off_loaded)" "(''i'', 0) \<in> set (c_references (clients ex_off_loaded ! 0))"
    by (simp_all add: inst_linked_def ex_off_load)
  have i: "0 < length (instances ex_off_loaded)" using cachedD(1) [OF ok, of "''i''" 0] by (simp add: ex_off_load)
  show "c_started (clients ex_running ! 0)" "i_started (instances ex_running ! 0)"
    "map_of (client_cache ex_running) ''@a:b'' = Some 0" "(''i'', 0) \<in> set (c_references (clients ex_running ! 0))"
    using c i by (simp_all add: ex_running_def ex_off_load upd_client_def upd_inst_def)
qed


end
