(* ===== verification/MB_Sql.thy ===== *)
theory MB_Sql
  imports MB_Instance
begin

text \<open>
  The SQL that \<^verbatim>\<open>maubot/db\<close> writes: the statements and parameters of \<^verbatim>\<open>db/client.py\<close> and
  \<^verbatim>\<open>db/instance.py\<close> on tables with columns and constraints. It refines the row operations of
  \<^verbatim>\<open>MB_World\<close>. The meaning of the statements is the documented one of SQLite and PostgreSQL, for what
  the code uses of them: no statement of the code changes a column that another table refers
  to, so that \<^verbatim>\<open>ON UPDATE CASCADE\<close> never applies.
\<close>

section \<open>Tables\<close>

datatype sqlval = SNull | SText string | SBool bool | SInt int

datatype coltype = TEXT | VARCHAR | BOOLEAN | INTEGER | ENUM string

record column =
  col_name :: string
  col_type :: coltype
  not_null :: bool

text \<open>\<^verbatim>\<open>FOREIGN KEY (fk_col) REFERENCES fk_table(fk_ref) ON DELETE RESTRICT\<close>.\<close>

record fkey =
  fk_col :: string
  fk_table :: string
  fk_ref :: string

text \<open>A row gives a value to every column; columns that a table does not have are \<^verbatim>\<open>NULL\<close>.\<close>

type_synonym sqlrow = "string \<Rightarrow> sqlval"

record sqltable =
  t_columns :: "column list"
  t_key :: "string list"
  t_fkeys :: "fkey list"
  t_checks :: "(string \<times> string list) list"
  t_rows :: "sqlrow list"

record sqldb =
  d_tables :: "(string, sqltable) dict"
  d_enums :: "(string, string list) dict"

definition UndefinedTable :: exn where
  "UndefinedTable = OtherException ''UndefinedTable''"

definition CheckViolation :: exn where
  "CheckViolation = OtherException ''CheckViolation''"

definition InterfaceError :: exn where
  "InterfaceError = OtherException ''InterfaceError''"

definition null_in :: "column list \<Rightarrow> sqlrow \<Rightarrow> bool" where
  "null_in cs r \<longleftrightarrow> list_ex (\<lambda>c. not_null c \<and> r (col_name c) = SNull) cs"

definition null_violated :: "sqltable \<Rightarrow> sqlrow \<Rightarrow> bool" where
  "null_violated t r \<longleftrightarrow> null_in (t_columns t) r"

definition check_violated :: "sqltable \<Rightarrow> sqlrow \<Rightarrow> bool" where
  "check_violated t r \<longleftrightarrow> list_ex (\<lambda>(c, vs). r c \<noteq> SNull \<and> r c \<notin> SText ` set vs) (t_checks t)"

definition row_key :: "sqltable \<Rightarrow> sqlrow \<Rightarrow> sqlval list" where
  "row_key t r = map r (t_key t)"

definition refers :: "sqldb \<Rightarrow> fkey \<Rightarrow> sqlval \<Rightarrow> bool" where
  "refers d f v \<longleftrightarrow> v = SNull \<or> (case map_of (d_tables d) (fk_table f) of None \<Rightarrow> False
     | Some t \<Rightarrow> list_ex (\<lambda>r. r (fk_ref f) = v) (t_rows t))"

definition fkey_violated :: "sqldb \<Rightarrow> sqltable \<Rightarrow> sqlrow \<Rightarrow> bool" where
  "fkey_violated d t r \<longleftrightarrow> list_ex (\<lambda>f. \<not> refers d f (r (fk_col f))) (t_fkeys t)"

text \<open>A row of another table that refers to a row that is to be deleted.\<close>

definition referred :: "sqldb \<Rightarrow> string \<Rightarrow> sqlrow \<Rightarrow> bool" where
  "referred d n r \<longleftrightarrow> list_ex (\<lambda>(_, t). list_ex (\<lambda>f. fk_table f = n \<and>
      list_ex (\<lambda>s. s (fk_col f) \<noteq> SNull \<and> s (fk_col f) = r (fk_ref f)) (t_rows t)) (t_fkeys t)) (d_tables d)"

section \<open>Statements\<close>

text \<open>\<open>($n, c)\<close> is the parameter number \<open>n\<close>, counted from one, for the column \<open>c\<close>.\<close>

datatype stmt =
    Insert string "(nat \<times> string) list"
  | Update string "(nat \<times> string) list" "nat \<times> string"
  | Delete string "nat \<times> string"

fun stmt_table :: "stmt \<Rightarrow> string" where
  "stmt_table (Insert n _) = n"
| "stmt_table (Update n _ _) = n"
| "stmt_table (Delete n _) = n"

fun stmt_params :: "stmt \<Rightarrow> nat list" where
  "stmt_params (Insert _ cs) = map fst cs"
| "stmt_params (Update _ cs w) = fst w # map fst cs"
| "stmt_params (Delete _ w) = [fst w]"

definition arg :: "sqlval list \<Rightarrow> nat \<Rightarrow> sqlval" where
  "arg vs n = vs ! (n - 1)"

text \<open>The columns that a statement assigns.\<close>

definition assign :: "sqlval list \<Rightarrow> (nat \<times> string) list \<Rightarrow> sqlrow \<Rightarrow> sqlrow" where
  "assign vs cs r = (\<lambda>c. case map_of (map (\<lambda>(n, c). (c, n)) cs) c of Some n \<Rightarrow> arg vs n | None \<Rightarrow> r c)"

definition selected :: "sqlval list \<Rightarrow> nat \<times> string \<Rightarrow> sqlrow \<Rightarrow> bool" where
  "selected vs p r \<longleftrightarrow> (case p of (n, c) \<Rightarrow> arg vs n \<noteq> SNull \<and> r c = arg vs n)"

definition with_rows :: "string \<Rightarrow> sqltable \<Rightarrow> sqlrow list \<Rightarrow> sqldb \<Rightarrow> sqldb" where
  "with_rows n t rs d = d\<lparr>d_tables := dict_set n (t\<lparr>t_rows := rs\<rparr>) (d_tables d)\<rparr>"

text \<open>One statement on its table.\<close>

fun exec_on :: "stmt \<Rightarrow> sqlval list \<Rightarrow> sqltable \<Rightarrow> sqldb \<Rightarrow> exn + sqldb" where
  "exec_on (Insert n cs) vs t d =
     (let r = assign vs cs (\<lambda>_. SNull) in
      if null_violated t r then Inl NotNullViolation
      else if check_violated t r then Inl CheckViolation
      else if row_key t r \<in> row_key t ` set (t_rows t) then Inl UniqueViolation
      else if fkey_violated d t r then Inl ForeignKeyViolation
      else Inr (with_rows n t (t_rows t @ [r]) d))"
| "exec_on (Update n cs p) vs t d =
     (let rs = map (\<lambda>r. if selected vs p r then assign vs cs r else r) (t_rows t);
          new = map (assign vs cs) (filter (selected vs p) (t_rows t)) in
      if list_ex (null_violated t) new then Inl NotNullViolation
      else if list_ex (check_violated t) new then Inl CheckViolation
      else if \<not> distinct (map (row_key t) rs) then Inl UniqueViolation
      else if list_ex (fkey_violated d t) new then Inl ForeignKeyViolation
      else Inr (with_rows n t rs d))"
| "exec_on (Delete n p) vs t d =
     (if list_ex (referred d n) (filter (selected vs p) (t_rows t)) then Inl ForeignKeyViolation
      else Inr (with_rows n t (filter (\<lambda>r. \<not> selected vs p r) (t_rows t)) d))"

text \<open>\<^verbatim>\<open>conn.execute(q, *args)\<close>.\<close>

definition sql_execute :: "stmt \<Rightarrow> sqlval list \<Rightarrow> sqldb \<Rightarrow> exn + sqldb" where
  "sql_execute q vs d =
     (if list_ex (\<lambda>n. n = 0 \<or> length vs < n) (stmt_params q) then Inl InterfaceError
      else case map_of (d_tables d) (stmt_table q) of
        None \<Rightarrow> Inl UndefinedTable
      | Some t \<Rightarrow> exec_on q vs t d)"

text \<open>\<^verbatim>\<open>SELECT columns FROM table [WHERE column=$n]\<close>: a record gives the columns by name.\<close>

definition sql_select ::
    "string \<Rightarrow> string list \<Rightarrow> (nat \<times> string) option \<Rightarrow> sqlval list \<Rightarrow> sqldb \<Rightarrow> exn + (string, sqlval) dict list" where
  "sql_select n cs p vs d =
     (case map_of (d_tables d) n of
        None \<Rightarrow> Inl UndefinedTable
      | Some t \<Rightarrow> Inr (map (\<lambda>r. map (\<lambda>c. (c, r c)) cs)
          (case p of None \<Rightarrow> t_rows t | Some p \<Rightarrow> filter (selected vs p) (t_rows t))))"

section \<open>Clients\<close>

definition text_or_null :: "string option \<Rightarrow> sqlval" where
  "text_or_null x = (case x of None \<Rightarrow> SNull | Some s \<Rightarrow> SText s)"

definition opt_text :: "sqlval \<Rightarrow> string option" where
  "opt_text v = (case v of SText s \<Rightarrow> Some s | _ \<Rightarrow> None)"

definition the_text :: "sqlval \<Rightarrow> string" where
  "the_text v = (case v of SText s \<Rightarrow> s | _ \<Rightarrow> [])"

text \<open>\<^verbatim>\<open>bool(value)\<close>; SQLite has numbers for booleans.\<close>

definition sql_bool :: "sqlval \<Rightarrow> bool" where
  "sql_bool v = (case v of SBool b \<Rightarrow> b | SInt n \<Rightarrow> n \<noteq> 0 | SText s \<Rightarrow> s \<noteq> [] | SNull \<Rightarrow> False)"

definition client_columns :: "string list" where
  "client_columns = [''id'', ''homeserver'', ''access_token'', ''device_id'', ''enabled'', ''next_batch'', ''filter_id'',
     ''sync'', ''autojoin'', ''online'', ''displayname'', ''avatar_url'']"

definition client_values :: "client_row \<Rightarrow> sqlval list" where
  "client_values r = [SText (c_id r), text_or_null (homeserver r), text_or_null (access_token r), SText (device_id r),
     SBool (c_enabled r), SText (next_batch r), SText (filter_id r), SBool (c_sync r), SBool (autojoin r), SBool (online r),
     SText (displayname r), SText (avatar_url r)]"

text \<open>\<^verbatim>\<open>cls(**row)\<close> with the conversions of \<^verbatim>\<open>Client.__init__\<close>.\<close>

definition client_from_row :: "(string, sqlval) dict option \<Rightarrow> client_row option" where
  "client_from_row r = (case r of None \<Rightarrow> None | Some d \<Rightarrow>
     (let col = dict_get d in Some
      \<lparr>c_id = the_text (col ''id'' SNull), homeserver = opt_text (col ''homeserver'' SNull),
       access_token = opt_text (col ''access_token'' SNull), device_id = the_text (col ''device_id'' SNull),
       c_enabled = sql_bool (col ''enabled'' SNull), next_batch = the_text (col ''next_batch'' SNull),
       filter_id = the_text (col ''filter_id'' SNull), c_sync = sql_bool (col ''sync'' SNull),
       autojoin = sql_bool (col ''autojoin'' SNull), online = sql_bool (col ''online'' SNull),
       displayname = the_text (col ''displayname'' SNull), avatar_url = the_text (col ''avatar_url'' SNull)\<rparr>))"

definition sql_client_all :: "sqldb \<Rightarrow> exn + client_row list" where
  "sql_client_all d = map_sum id (List.map_filter (\<lambda>r. client_from_row (Some r))) (sql_select ''client'' client_columns None [] d)"

text \<open>\<^verbatim>\<open>fetchrow\<close> is the first row or \<^verbatim>\<open>None\<close>.\<close>

definition fetchrow :: "'a list \<Rightarrow> 'a option" where
  "fetchrow rs = (case rs of [] \<Rightarrow> None | r # _ \<Rightarrow> Some r)"

definition sql_client_get :: "string \<Rightarrow> sqldb \<Rightarrow> exn + client_row option" where
  "sql_client_get k d = map_sum id (\<lambda>rs. client_from_row (fetchrow rs))
     (sql_select ''client'' client_columns (Some (1, ''id'')) [SText k] d)"

definition client_insert_cols :: "(nat \<times> string) list" where
  "client_insert_cols =
     [(1, ''id''), (2, ''homeserver''), (3, ''access_token''), (4, ''device_id''), (5, ''enabled''), (6, ''next_batch''),
      (7, ''filter_id''), (8, ''sync''), (9, ''autojoin''), (10, ''online''), (11, ''displayname''), (12, ''avatar_url'')]"

definition sql_client_insert :: "client_row \<Rightarrow> sqldb \<Rightarrow> exn + sqldb" where
  "sql_client_insert r = sql_execute (Insert ''client'' client_insert_cols) (client_values r)"

definition sql_put_next_batch :: "string \<Rightarrow> client_row \<Rightarrow> sqldb \<Rightarrow> exn + sqldb" where
  "sql_put_next_batch token r = sql_execute (Update ''client'' [(1, ''next_batch'')] (2, ''id'')) [SText token, SText (c_id r)]"

definition client_update_cols :: "(nat \<times> string) list" where
  "client_update_cols =
     [(2, ''homeserver''), (3, ''access_token''), (4, ''device_id''), (5, ''enabled''), (6, ''next_batch''), (7, ''filter_id''),
      (8, ''sync''), (9, ''autojoin''), (10, ''online''), (11, ''displayname''), (12, ''avatar_url'')]"

definition sql_client_update :: "client_row \<Rightarrow> sqldb \<Rightarrow> exn + sqldb" where
  "sql_client_update r = sql_execute (Update ''client'' client_update_cols (1, ''id'')) (client_values r)"

definition sql_client_delete :: "string \<Rightarrow> sqldb \<Rightarrow> exn + sqldb" where
  "sql_client_delete k = sql_execute (Delete ''client'' (1, ''id'')) [SText k]"

section \<open>Instances\<close>

definition inst_columns :: "string list" where
  "inst_columns = [''id'', ''type'', ''enabled'', ''primary_user'', ''config'', ''database_engine'']"

definition inst_values :: "inst_row \<Rightarrow> sqlval list" where
  "inst_values r = [SText (i_id r), SText (i_type r), SBool (i_enabled r), SText (primary_user r), SText (config_str r),
     text_or_null (database_engine_str r)]"

text \<open>\<^verbatim>\<open>DatabaseEngine(value)\<close>.\<close>

definition engine_of :: "string \<Rightarrow> exn + database_engine" where
  "engine_of s = (if s = ''sqlite'' then Inr SQLITE else if s = ''postgres'' then Inr POSTGRES
     else Inl (ValueError ''not a valid DatabaseEngine''))"

definition inst_from_row :: "(string, sqlval) dict option \<Rightarrow> exn + inst_row option" where
  "inst_from_row r = (case r of None \<Rightarrow> Inr None | Some d \<Rightarrow>
     (let col = dict_get d; e = opt_text (col ''database_engine'' SNull) in
      case (if opt_truthy e then map_sum id Some (engine_of (the e)) else Inr None) of
        Inl x \<Rightarrow> Inl x
      | Inr en \<Rightarrow> Inr (Some
          \<lparr>i_id = the_text (col ''id'' SNull), i_type = the_text (col ''type'' SNull), i_enabled = sql_bool (col ''enabled'' SNull),
           primary_user = the_text (col ''primary_user'' SNull), config_str = the_text (col ''config'' SNull), engine = en\<rparr>)))"

fun from_rows :: "(string, sqlval) dict list \<Rightarrow> exn + inst_row list" where
  "from_rows [] = Inr []"
| "from_rows (r # rs) =
     (case inst_from_row (Some r) of
        Inl x \<Rightarrow> Inl x
      | Inr i \<Rightarrow> (case from_rows rs of Inl x \<Rightarrow> Inl x | Inr is \<Rightarrow> Inr (the i # is)))"

definition sql_inst_all :: "sqldb \<Rightarrow> exn + inst_row list" where
  "sql_inst_all d = (case sql_select ''instance'' inst_columns None [] d of Inl x \<Rightarrow> Inl x | Inr rs \<Rightarrow> from_rows rs)"

definition sql_inst_get :: "string \<Rightarrow> sqldb \<Rightarrow> exn + inst_row option" where
  "sql_inst_get k d = (case sql_select ''instance'' inst_columns (Some (1, ''id'')) [SText k] d of
     Inl x \<Rightarrow> Inl x | Inr rs \<Rightarrow> inst_from_row (fetchrow rs))"

definition sql_inst_update_id :: "string \<Rightarrow> string \<Rightarrow> sqldb \<Rightarrow> exn + sqldb" where
  "sql_inst_update_id new_id k = sql_execute (Update ''instance'' [(1, ''id'')] (2, ''id'')) [SText new_id, SText k]"

definition inst_insert_cols :: "(nat \<times> string) list" where
  "inst_insert_cols = [(1, ''id''), (2, ''type''), (3, ''enabled''), (4, ''primary_user''), (5, ''config''), (6, ''database_engine'')]"

definition sql_inst_insert :: "inst_row \<Rightarrow> sqldb \<Rightarrow> exn + sqldb" where
  "sql_inst_insert r = sql_execute (Insert ''instance'' inst_insert_cols) (inst_values r)"

definition inst_update_cols :: "(nat \<times> string) list" where
  "inst_update_cols = [(2, ''type''), (3, ''enabled''), (4, ''primary_user''), (5, ''config''), (6, ''database_engine'')]"

definition sql_inst_update :: "inst_row \<Rightarrow> sqldb \<Rightarrow> exn + sqldb" where
  "sql_inst_update r = sql_execute (Update ''instance'' inst_update_cols (1, ''id'')) (inst_values r)"

definition sql_inst_delete :: "string \<Rightarrow> sqldb \<Rightarrow> exn + sqldb" where
  "sql_inst_delete k = sql_execute (Delete ''instance'' (1, ''id'')) [SText k]"

section \<open>The schema\<close>

definition column_def :: "string \<Rightarrow> coltype \<Rightarrow> column" where
  "column_def n t = \<lparr>col_name = n, col_type = t, not_null = True\<rparr>"

definition client_schema :: "column list" where
  "client_schema = [\<lparr>col_name = ''id'', col_type = TEXT, not_null = False\<rparr>, column_def ''homeserver'' TEXT,
     column_def ''access_token'' TEXT, column_def ''device_id'' TEXT, column_def ''enabled'' BOOLEAN, column_def ''next_batch'' TEXT,
     column_def ''filter_id'' TEXT, column_def ''sync'' BOOLEAN, column_def ''autojoin'' BOOLEAN, column_def ''online'' BOOLEAN,
     column_def ''displayname'' TEXT, column_def ''avatar_url'' TEXT]"

definition inst_schema :: "column list" where
  "inst_schema = [\<lparr>col_name = ''id'', col_type = TEXT, not_null = False\<rparr>, column_def ''type'' TEXT, column_def ''enabled'' BOOLEAN,
     column_def ''primary_user'' TEXT, column_def ''config'' TEXT]"

definition engine_column :: column where
  "engine_column = \<lparr>col_name = ''database_engine'', col_type = TEXT, not_null = False\<rparr>"

definition user_fkey :: fkey where
  "user_fkey = \<lparr>fk_col = ''primary_user'', fk_table = ''client'', fk_ref = ''id''\<rparr>"

definition client_rows :: "sqldb \<Rightarrow> sqlrow list" where
  "client_rows d = (case map_of (d_tables d) ''client'' of None \<Rightarrow> [] | Some t \<Rightarrow> t_rows t)"

definition inst_rows :: "sqldb \<Rightarrow> sqlrow list" where
  "inst_rows d = (case map_of (d_tables d) ''instance'' of None \<Rightarrow> [] | Some t \<Rightarrow> t_rows t)"

text \<open>The keys of a row are texts, and no column that must have a value is \<^verbatim>\<open>NULL\<close>.\<close>

definition is_text :: "sqlval \<Rightarrow> bool" where
  "is_text v \<longleftrightarrow> (case v of SText _ \<Rightarrow> True | _ \<Rightarrow> False)"

definition client_row_ok :: "sqlrow \<Rightarrow> bool" where
  "client_row_ok r \<longleftrightarrow> is_text (r ''id'') \<and> \<not> null_in client_schema r"

definition inst_row_ok :: "sqlrow \<Rightarrow> bool" where
  "inst_row_ok r \<longleftrightarrow> is_text (r ''id'') \<and> is_text (r ''primary_user'') \<and> \<not> null_in (inst_schema @ [engine_column]) r
     \<and> r ''database_engine'' \<in> {SNull, SText ''sqlite'', SText ''postgres''}"

text \<open>The database after both upgrades, with rows that satisfy their constraints.\<close>

definition sql_ok :: "sqldb \<Rightarrow> bool" where
  "sql_ok d \<longleftrightarrow> dict_ok (d_tables d)
     \<and> map_of (d_tables d) ''client'' = Some \<lparr>t_columns = client_schema, t_key = [''id''], t_fkeys = [], t_checks = [], t_rows = client_rows d\<rparr>
     \<and> map_of (d_tables d) ''instance'' = Some \<lparr>t_columns = inst_schema @ [engine_column], t_key = [''id''], t_fkeys = [user_fkey],
          t_checks = [], t_rows = inst_rows d\<rparr>
     \<and> (\<forall>(n, t) \<in> set (d_tables d). \<forall>f \<in> set (t_fkeys t). n = ''instance'' \<or> fk_table f \<notin> {''client'', ''instance''})
     \<and> distinct (map (\<lambda>r. r ''id'') (client_rows d)) \<and> distinct (map (\<lambda>r. r ''id'') (inst_rows d))
     \<and> (\<forall>r \<in> set (client_rows d). client_row_ok r) \<and> (\<forall>r \<in> set (inst_rows d). inst_row_ok r)
     \<and> (\<lambda>r. r ''primary_user'') ` set (inst_rows d) \<subseteq> (\<lambda>r. r ''id'') ` set (client_rows d)"

section \<open>Rows of the database and rows of the model\<close>

definition client_of :: "sqlrow \<Rightarrow> client_row" where
  "client_of r = \<lparr>c_id = the_text (r ''id''), homeserver = opt_text (r ''homeserver''), access_token = opt_text (r ''access_token''),
     device_id = the_text (r ''device_id''), c_enabled = sql_bool (r ''enabled''), next_batch = the_text (r ''next_batch''),
     filter_id = the_text (r ''filter_id''), c_sync = sql_bool (r ''sync''), autojoin = sql_bool (r ''autojoin''),
     online = sql_bool (r ''online''), displayname = the_text (r ''displayname''), avatar_url = the_text (r ''avatar_url'')\<rparr>"

definition engine_at :: "sqlval \<Rightarrow> database_engine option" where
  "engine_at v = (if v = SText ''sqlite'' then Some SQLITE else if v = SText ''postgres'' then Some POSTGRES else None)"

definition inst_of :: "sqlrow \<Rightarrow> inst_row" where
  "inst_of r = \<lparr>i_id = the_text (r ''id''), i_type = the_text (r ''type''), i_enabled = sql_bool (r ''enabled''),
     primary_user = the_text (r ''primary_user''), config_str = the_text (r ''config''), engine = engine_at (r ''database_engine'')\<rparr>"

text \<open>The tables of the database hold what the two tables of the model hold.\<close>

definition stored :: "sqldb \<Rightarrow> world \<Rightarrow> bool" where
  "stored d w \<longleftrightarrow> sql_ok d \<and> dict_ok (inst_table w)
     \<and> map_of (map (\<lambda>r. (the_text (r ''id''), client_of r)) (client_rows d)) = map_of (client_table w)
     \<and> map_of (map (\<lambda>r. (the_text (r ''id''), inst_of r)) (inst_rows d)) = map_of (inst_table w)"

lemma client_from_row_columns: "client_from_row (Some (map (\<lambda>c. (c, r c)) client_columns)) = Some (client_of r)"
  by (simp add: client_from_row_def client_columns_def client_of_def Let_def dict_get_def)

lemma inst_from_row_columns:
  "inst_row_ok r \<Longrightarrow> inst_from_row (Some (map (\<lambda>c. (c, r c)) inst_columns)) = Inr (Some (inst_of r))"
  by (auto simp: inst_from_row_def inst_columns_def inst_of_def Let_def dict_get_def inst_row_ok_def opt_text_def opt_truthy_def
      engine_of_def engine_at_def)

section \<open>Rows by their key\<close>

definition find_row :: "string \<Rightarrow> sqlrow list \<Rightarrow> sqlrow option" where
  "find_row k rs = find (\<lambda>r. r ''id'' = SText k) rs"

lemma is_text_iff: "is_text v \<longleftrightarrow> v = SText (the_text v)"
  by (cases v) (simp_all add: is_text_def the_text_def)

lemma map_of_rows:
  "\<forall>r \<in> set rs. is_text (r ''id'') \<Longrightarrow> map_of (map (\<lambda>r. (the_text (r ''id''), f r)) rs) k = map_option f (find_row k rs)"
  by (induction rs) (auto simp: find_row_def is_text_iff the_text_def)

lemma find_row_id: "find_row k rs = Some r \<Longrightarrow> r \<in> set rs \<and> r ''id'' = SText k"
  by (auto simp: find_row_def find_Some_iff)

lemma find_row_None: "find_row k rs = None \<longleftrightarrow> SText k \<notin> (\<lambda>r. r ''id'') ` set rs"
  by (auto simp: find_row_def find_None_iff image_iff)

lemma find_row_insert:
  "r ''id'' = SText n \<Longrightarrow> find_row n rs = None \<Longrightarrow> find_row k (rs @ [r]) = (if k = n then Some r else find_row k rs)"
  by (induction rs) (auto simp: find_row_def split: if_splits)

lemma find_row_update:
  "(\<And>r. u r ''id'' = r ''id'') \<Longrightarrow> find_row k (map (\<lambda>r. if r ''id'' = SText n then u r else r) rs) =
     (if k = n then map_option u (find_row n rs) else find_row k rs)"
  by (induction rs) (auto simp: find_row_def)

lemma find_row_delete:
  "find_row k (filter (\<lambda>r. r ''id'' \<noteq> SText n) rs) = (if k = n then None else find_row k rs)"
  by (induction rs) (auto simp: find_row_def)

lemma find_row_rename:
  "(\<And>r. u r ''id'' = SText m) \<Longrightarrow> m = n \<or> find_row m rs = None \<Longrightarrow> distinct (map (\<lambda>r. r ''id'') rs) \<Longrightarrow>
     find_row k (map (\<lambda>r. if r ''id'' = SText n then u r else r) rs) =
     (if k = m then (case find_row n rs of None \<Rightarrow> None | Some r \<Rightarrow> Some (u r)) else if k = n then None else find_row k rs)"
proof (induction rs)
  case (Cons r rs)
  have none: "find_row n rs = None" if "r ''id'' = SText n"
    using Cons.prems(3) that by (auto simp: find_row_None)
  show ?case using Cons none by (auto simp: find_row_def split: option.splits if_splits)
qed (simp add: find_row_def)

section \<open>Tables after a statement\<close>

abbreviation client_tab :: "sqldb \<Rightarrow> sqltable" where
  "client_tab d \<equiv> \<lparr>t_columns = client_schema, t_key = [''id''], t_fkeys = [], t_checks = [], t_rows = client_rows d\<rparr>"

abbreviation inst_tab :: "sqldb \<Rightarrow> sqltable" where
  "inst_tab d \<equiv> \<lparr>t_columns = inst_schema @ [engine_column], t_key = [''id''], t_fkeys = [user_fkey], t_checks = [], t_rows = inst_rows d\<rparr>"

definition set_client_rows :: "sqlrow list \<Rightarrow> sqldb \<Rightarrow> sqldb" where
  "set_client_rows rs d = with_rows ''client'' (client_tab d) rs d"

definition set_inst_rows :: "sqlrow list \<Rightarrow> sqldb \<Rightarrow> sqldb" where
  "set_inst_rows rs d = with_rows ''instance'' (inst_tab d) rs d"

lemma rows_after [simp]:
  "client_rows (set_client_rows rs d) = rs" "inst_rows (set_client_rows rs d) = inst_rows d"
  "inst_rows (set_inst_rows rs d) = rs" "client_rows (set_inst_rows rs d) = client_rows d"
  by (simp_all add: client_rows_def inst_rows_def set_client_rows_def set_inst_rows_def with_rows_def)

lemma set_dict_set: "dict_ok t \<Longrightarrow> set (dict_set k v t) = insert (k, v) {p \<in> set t. fst p \<noteq> k}"
  by (induction k v t rule: dict_set.induct) (auto simp: dict_ok_def)

lemma set_client_rows_ok:
  assumes "sql_ok d" and "distinct (map (\<lambda>r. r ''id'') rs)" and "\<forall>r \<in> set rs. client_row_ok r"
    and "(\<lambda>r. r ''primary_user'') ` set (inst_rows d) \<subseteq> (\<lambda>r. r ''id'') ` set rs"
  shows "sql_ok (set_client_rows rs d)"
  using assms by (auto simp: sql_ok_def) (auto simp: set_client_rows_def with_rows_def set_dict_set)

lemma set_inst_rows_ok:
  assumes "sql_ok d" and "distinct (map (\<lambda>r. r ''id'') rs)" and "\<forall>r \<in> set rs. inst_row_ok r"
    and "(\<lambda>r. r ''primary_user'') ` set rs \<subseteq> (\<lambda>r. r ''id'') ` set (client_rows d)"
  shows "sql_ok (set_inst_rows rs d)"
  using assms by (auto simp: sql_ok_def) (auto simp: set_inst_rows_def with_rows_def set_dict_set)

lemma execute_client:
  assumes "sql_ok d" and "stmt_table q = ''client''" and "\<forall>n \<in> set (stmt_params q). 0 < n \<and> n \<le> length vs"
  shows "sql_execute q vs d = exec_on q vs (client_tab d) d"
  using assms by (fastforce simp: sql_execute_def sql_ok_def list_ex_iff)

lemma execute_inst:
  assumes "sql_ok d" and "stmt_table q = ''instance''" and "\<forall>n \<in> set (stmt_params q). 0 < n \<and> n \<le> length vs"
  shows "sql_execute q vs d = exec_on q vs (inst_tab d) d"
  using assms by (fastforce simp: sql_execute_def sql_ok_def list_ex_iff)

lemma exec_insert_client:
  assumes "sql_ok d" and "r = assign vs cs (\<lambda>_. SNull)" and "r ''id'' = SText k"
  shows "exec_on (Insert ''client'' cs) vs (client_tab d) d =
     (if null_violated (client_tab d) r then Inl NotNullViolation
      else if find_row k (client_rows d) \<noteq> None then Inl UniqueViolation
      else Inr (set_client_rows (client_rows d @ [r]) d))"
  using assms by (auto simp: Let_def check_violated_def fkey_violated_def row_key_def find_row_None set_client_rows_def)

lemma exec_insert_inst:
  assumes "sql_ok d" and "r = assign vs cs (\<lambda>_. SNull)" and "r ''id'' = SText k"
  shows "exec_on (Insert ''instance'' cs) vs (inst_tab d) d =
     (if null_violated (inst_tab d) r then Inl NotNullViolation
      else if find_row k (inst_rows d) \<noteq> None then Inl UniqueViolation
      else if fkey_violated d (inst_tab d) r then Inl ForeignKeyViolation
      else Inr (set_inst_rows (inst_rows d @ [r]) d))"
  using assms by (auto simp: Let_def check_violated_def row_key_def find_row_None set_inst_rows_def)

lemma filter_find:
  "distinct (map (\<lambda>r. r ''id'') rs) \<Longrightarrow> filter (\<lambda>r. r ''id'' = SText k) rs = (case find_row k rs of None \<Rightarrow> [] | Some r \<Rightarrow> [r])"
proof (induction rs)
  case (Cons r rs)
  have "find_row k rs = None" if "r ''id'' = SText k" using Cons.prems that by (auto simp: find_row_None)
  then show ?case using Cons by (auto simp: find_row_def split: option.splits)
qed (simp add: find_row_def)

lemma distinct_singletons: "distinct (map (\<lambda>r. [r ''id'']) rs) \<longleftrightarrow> distinct (map (\<lambda>r. r ''id'') rs)"
  by (induction rs) auto

lemma selected_id: "arg vs n = SText k \<Longrightarrow> selected vs (n, ''id'') = (\<lambda>r. r ''id'' = SText k)"
  by (auto simp: selected_def)

lemma distinct_update:
  assumes "\<And>r. u r ''id'' = r ''id''" and "distinct (map (\<lambda>r. r ''id'') rs)"
  shows "distinct (map (\<lambda>r. r ''id'') (map (\<lambda>r. if P r then u r else r) rs))"
proof -
  have "map (\<lambda>r. r ''id'') (map (\<lambda>r. if P r then u r else r) rs) = map (\<lambda>r. r ''id'') rs" using assms(1) by simp
  then show ?thesis using assms(2) by (simp only:)
qed

lemma ids_update:
  assumes "\<And>r. u r ''id'' = r ''id''"
  shows "(\<lambda>r. r ''id'') ` set (map (\<lambda>r. if P r then u r else r) rs) = (\<lambda>r. r ''id'') ` set rs"
proof -
  have "map (\<lambda>r. r ''id'') (map (\<lambda>r. if P r then u r else r) rs) = map (\<lambda>r. r ''id'') rs" using assms by simp
  then show ?thesis by (metis image_set)
qed

lemma exec_update_client:
  assumes ok: "sql_ok d" and k: "arg vs n = SText k" and id: "\<And>r. assign vs cs r ''id'' = r ''id''"
  shows "exec_on (Update ''client'' cs (n, ''id'')) vs (client_tab d) d =
     (if \<exists>r. find_row k (client_rows d) = Some r \<and> null_violated (client_tab d) (assign vs cs r) then Inl NotNullViolation
      else Inr (set_client_rows (map (\<lambda>r. if r ''id'' = SText k then assign vs cs r else r) (client_rows d)) d))"
proof -
  have d: "distinct (map (\<lambda>r. r ''id'') (client_rows d))" using ok by (simp add: sql_ok_def)
  have key: "map (row_key (client_tab d)) rs = map (\<lambda>r. [r ''id'']) rs" for rs by (simp add: row_key_def)
  show ?thesis
    unfolding exec_on.simps selected_id [OF k] Let_def key distinct_singletons
    using distinct_update [of "assign vs cs" "client_rows d", OF id d] filter_find [OF d, of k]
    by (cases "find_row k (client_rows d)") (simp_all add: check_violated_def fkey_violated_def set_client_rows_def del: map_map)
qed

lemma exec_update_inst:
  assumes ok: "sql_ok d" and k: "arg vs n = SText k"
  shows "exec_on (Update ''instance'' cs (n, ''id'')) vs (inst_tab d) d =
     (let rs = map (\<lambda>r. if r ''id'' = SText k then assign vs cs r else r) (inst_rows d) in
      if \<exists>r. find_row k (inst_rows d) = Some r \<and> null_violated (inst_tab d) (assign vs cs r) then Inl NotNullViolation
      else if \<not> distinct (map (\<lambda>r. r ''id'') rs) then Inl UniqueViolation
      else if \<exists>r. find_row k (inst_rows d) = Some r \<and> fkey_violated d (inst_tab d) (assign vs cs r) then Inl ForeignKeyViolation
      else Inr (set_inst_rows rs d))"
proof -
  have d: "distinct (map (\<lambda>r. r ''id'') (inst_rows d))" using ok by (simp add: sql_ok_def)
  have key: "map (row_key (inst_tab d)) rs = map (\<lambda>r. [r ''id'']) rs" for rs by (simp add: row_key_def)
  show ?thesis
    unfolding exec_on.simps selected_id [OF k] Let_def key distinct_singletons
    using filter_find [OF d, of k]
    by (cases "find_row k (inst_rows d)") (simp_all add: check_violated_def set_inst_rows_def del: map_map)
qed

lemma fkey_violated_inst:
  assumes "sql_ok d" and "s ''primary_user'' = SText u"
  shows "fkey_violated d (inst_tab d) s \<longleftrightarrow> find_row u (client_rows d) = None"
  using assms by (auto simp: fkey_violated_def refers_def user_fkey_def sql_ok_def list_ex_iff find_row_None image_iff)

lemma referred_client:
  assumes ok: "sql_ok d" and r: "r ''id'' = SText k"
  shows "referred d ''client'' r \<longleftrightarrow> (\<exists>s \<in> set (inst_rows d). s ''primary_user'' = SText k)"
proof -
  have own: "fk_table f \<noteq> ''client''" if "(n, t) \<in> set (d_tables d)" "f \<in> set (t_fkeys t)" "n \<noteq> ''instance''" for n t f
    using ok that by (auto simp: sql_ok_def)
  have dd: "distinct (map fst (d_tables d))" and inst: "map_of (d_tables d) ''instance'' = Some (inst_tab d)"
    using ok by (simp_all add: sql_ok_def dict_ok_def)
  then have mem: "(''instance'', t) \<in> set (d_tables d) \<longleftrightarrow> t = inst_tab d" for t
    using map_of_eq_Some_iff [OF dd, of "''instance''" t] by auto
  show ?thesis
  proof
    assume "referred d ''client'' r"
    then obtain n t f s where h: "(n, t) \<in> set (d_tables d)" "f \<in> set (t_fkeys t)" "fk_table f = ''client''"
        "s \<in> set (t_rows t)" "s (fk_col f) = r (fk_ref f)"
      by (auto simp: referred_def list_ex_iff)
    then have "n = ''instance''" using own by blast
    then have "t = inst_tab d" using h(1) mem by simp
    then have "f = user_fkey" "s \<in> set (inst_rows d)" using h(2,4) by simp_all
    then show "\<exists>s \<in> set (inst_rows d). s ''primary_user'' = SText k" using h(5) r by (auto simp: user_fkey_def)
  next
    assume "\<exists>s \<in> set (inst_rows d). s ''primary_user'' = SText k"
    then obtain s where s: "s \<in> set (inst_rows d)" "s ''primary_user'' = SText k" by blast
    have m: "(''instance'', inst_tab d) \<in> set (d_tables d)" using mem by simp
    show "referred d ''client'' r"
      unfolding referred_def list_ex_iff
      by (rule bexI [OF _ m]) (use s r in \<open>auto simp: user_fkey_def list_ex_iff intro!: bexI [of _ s]\<close>)
  qed
qed

lemma referred_inst: "sql_ok d \<Longrightarrow> \<not> referred d ''instance'' r"
  by (fastforce simp: referred_def list_ex_iff sql_ok_def dict_ok_def user_fkey_def dest: map_of_is_SomeI [rotated])

section \<open>Refinement\<close>

text \<open>
  An implementation that refines a specification operation by operation: it raises the same
  exception, or both return in related states. Then it does so for every sequence of operations.
\<close>

fun run_ops :: "('o \<Rightarrow> 's \<Rightarrow> exn + 's) \<Rightarrow> 'o list \<Rightarrow> 's \<Rightarrow> exn list \<times> 's" where
  "run_ops f [] s = ([], s)"
| "run_ops f (x # xs) s =
     (case f x s of
        Inl e \<Rightarrow> (let (es, t) = run_ops f xs s in (e # es, t))
      | Inr t \<Rightarrow> run_ops f xs t)"

locale refines =
  fixes rel :: "'d \<Rightarrow> 'w \<Rightarrow> bool"
    and conc :: "'o \<Rightarrow> 'd \<Rightarrow> exn + 'd"
    and abst :: "'o \<Rightarrow> 'w \<Rightarrow> exn + 'w"
  assumes simulates: "rel d w \<Longrightarrow> (case conc x d of Inl e \<Rightarrow> abst x w = Inl e | Inr d' \<Rightarrow> \<exists>w'. abst x w = Inr w' \<and> rel d' w')"
begin

lemma run_simulates:
  "rel d w \<Longrightarrow> fst (run_ops conc xs d) = fst (run_ops abst xs w) \<and> rel (snd (run_ops conc xs d)) (snd (run_ops abst xs w))"
proof (induction xs arbitrary: d w)
  case (Cons x xs)
  show ?case
  proof (cases "conc x d")
    case (Inl e)
    then have "abst x w = Inl e" using simulates [OF Cons.prems, of x] by simp
    then show ?thesis using Inl Cons.IH [OF Cons.prems] by (cases "run_ops conc xs d"; cases "run_ops abst xs w") simp
  next
    case (Inr d')
    then obtain w' where w': "abst x w = Inr w'" "rel d' w'" using simulates [OF Cons.prems, of x] by auto
    then show ?thesis using Inr Cons.IH [OF w'(2)] by simp
  qed
qed simp

end

text \<open>The operations on the rows, in the program and in the model.\<close>

datatype row_op =
    InsertClient client_row
  | UpdateClient client_row
  | DeleteClient string
  | InsertInst inst_row
  | UpdateInst inst_row
  | DeleteInst string

fun sql_op :: "row_op \<Rightarrow> sqldb \<Rightarrow> exn + sqldb" where
  "sql_op (InsertClient r) d = sql_client_insert r d"
| "sql_op (UpdateClient r) d = sql_client_update r d"
| "sql_op (DeleteClient k) d = sql_client_delete k d"
| "sql_op (InsertInst r) d = sql_inst_insert r d"
| "sql_op (UpdateInst r) d = sql_inst_update r d"
| "sql_op (DeleteInst k) d = sql_inst_delete k d"

fun sum_of :: "('w, 'a) res \<Rightarrow> exn + 'w" where
  "sum_of (Ok _ w) = Inr w"
| "sum_of (Raise e _) = Inl e"

fun model_op :: "row_op \<Rightarrow> world \<Rightarrow> exn + world" where
  "model_op (InsertClient r) w = sum_of (db_client_insert r w)"
| "model_op (UpdateClient r) w = sum_of (db_client_update r w)"
| "model_op (DeleteClient k) w = sum_of (db_client_delete k w)"
| "model_op (InsertInst r) w = sum_of (db_inst_insert r w)"
| "model_op (UpdateInst r) w = sum_of (db_inst_update r w)"
| "model_op (DeleteInst k) w = sum_of (db_inst_delete k w)"

lemma stored_rows:
  assumes "stored d w"
  shows "map_of (client_table w) k = map_option client_of (find_row k (client_rows d))"
    "map_of (inst_table w) k = map_option inst_of (find_row k (inst_rows d))"
    "in_dict k (client_table w) \<longleftrightarrow> find_row k (client_rows d) \<noteq> None" "in_dict k (inst_table w) \<longleftrightarrow> find_row k (inst_rows d) \<noteq> None"
proof -
  have "\<forall>r \<in> set (client_rows d). is_text (r ''id'')" "\<forall>r \<in> set (inst_rows d). is_text (r ''id'')"
    using assms by (auto simp: stored_def sql_ok_def client_row_ok_def inst_row_ok_def)
  note m = map_of_rows [OF this(1), of client_of k] map_of_rows [OF this(2), of inst_of k]
  show c: "map_of (client_table w) k = map_option client_of (find_row k (client_rows d))"
    "map_of (inst_table w) k = map_option inst_of (find_row k (inst_rows d))"
    using m assms unfolding stored_def by metis+
  show "in_dict k (client_table w) \<longleftrightarrow> find_row k (client_rows d) \<noteq> None" "in_dict k (inst_table w) \<longleftrightarrow> find_row k (inst_rows d) \<noteq> None"
    by (simp_all add: in_dict_def c)
qed

lemma stored_clients:
  assumes "stored d w" and "sql_ok (set_client_rows rs d)"
    and "\<And>k. map_option client_of (find_row k rs) = map_of t k"
  shows "stored (set_client_rows rs d) (w\<lparr>client_table := t\<rparr>)"
proof -
  have "\<forall>r \<in> set rs. is_text (r ''id'')" using assms(2) by (auto simp: sql_ok_def client_row_ok_def)
  then have "map_of (map (\<lambda>r. (the_text (r ''id''), client_of r)) rs) = map_of t"
    using assms(3) by (intro ext) (simp add: map_of_rows)
  then show ?thesis using assms(1,2) by (simp add: stored_def)
qed

lemma stored_insts:
  assumes "stored d w" and "sql_ok (set_inst_rows rs d)" and "dict_ok t"
    and "\<And>k. map_option inst_of (find_row k rs) = map_of t k"
  shows "stored (set_inst_rows rs d) (w\<lparr>inst_table := t\<rparr>)"
proof -
  have "\<forall>r \<in> set rs. is_text (r ''id'')" using assms(2) by (auto simp: sql_ok_def inst_row_ok_def)
  then have "map_of (map (\<lambda>r. (the_text (r ''id''), inst_of r)) rs) = map_of t"
    using assms(4) by (intro ext) (simp add: map_of_rows)
  then show ?thesis using assms(1-3) by (simp add: stored_def)
qed

lemma storedD:
  assumes "stored d w"
  shows "sql_ok d" "dict_ok (inst_table w)" "distinct (map (\<lambda>r. r ''id'') (client_rows d))" "distinct (map (\<lambda>r. r ''id'') (inst_rows d))"
    "\<forall>r \<in> set (client_rows d). client_row_ok r" "\<forall>r \<in> set (inst_rows d). inst_row_ok r"
    "(\<lambda>r. r ''primary_user'') ` set (inst_rows d) \<subseteq> (\<lambda>r. r ''id'') ` set (client_rows d)"
  using assms by (simp_all add: stored_def sql_ok_def)

abbreviation agrees :: "sqldb \<Rightarrow> exn + sqldb \<Rightarrow> exn + world \<Rightarrow> bool" where
  "agrees d c a \<equiv> (case c of Inl e \<Rightarrow> a = Inl e | Inr d' \<Rightarrow> \<exists>w'. a = Inr w' \<and> stored d' w')"

lemma insert_client_refined:
  assumes st: "stored d w"
  shows "agrees d (sql_client_insert r d) (sum_of (db_client_insert r w))"
proof -
  note D = storedD [OF st]
  define s where "s = assign (client_values r) client_insert_cols (\<lambda>_. SNull)"
  have id: "s ''id'' = SText (c_id r)" by (simp add: s_def client_insert_cols_def assign_def arg_def client_values_def)
  have row: "client_of s = r"
    by (simp add: s_def client_insert_cols_def assign_def arg_def client_values_def client_of_def the_text_def sql_bool_def opt_text_def text_or_null_def
        split: option.split)
  have null: "null_violated (client_tab d) s \<longleftrightarrow> \<not> row_complete r"
    by (simp add: null_violated_def null_in_def client_schema_def column_def_def row_complete_def s_def client_insert_cols_def assign_def arg_def client_values_def
        text_or_null_def split: option.split)
  have "sql_client_insert r d = exec_on (Insert ''client'' client_insert_cols) (client_values r) (client_tab d) d"
    unfolding sql_client_insert_def by (rule execute_client [OF D(1)]) (simp_all add: client_insert_cols_def client_values_def)
  also have "\<dots> = (if \<not> row_complete r then Inl NotNullViolation
      else if find_row (c_id r) (client_rows d) \<noteq> None then Inl UniqueViolation
      else Inr (set_client_rows (client_rows d @ [s]) d))"
    by (simp only: exec_insert_client [OF D(1) s_def id] null)
  finally have run: "sql_client_insert r d = \<dots>" .
  show ?thesis
  proof (cases "row_complete r \<and> find_row (c_id r) (client_rows d) = None")
    case True
    have "stored (set_client_rows (client_rows d @ [s]) d) (w\<lparr>client_table := dict_set (c_id r) r (client_table w)\<rparr>)"
    proof (rule stored_clients [OF st])
      show "sql_ok (set_client_rows (client_rows d @ [s]) d)"
        using True D id null by (intro set_client_rows_ok) (auto simp: find_row_None client_row_ok_def is_text_def null_violated_def)
      show "map_option client_of (find_row k (client_rows d @ [s])) = map_of (dict_set (c_id r) r (client_table w)) k" for k
        using True id row by (simp add: find_row_insert stored_rows [OF st])
    qed
    then show ?thesis using True run stored_rows(3) [OF st, of "c_id r"] by (simp add: db_client_insert_def)
  next
    case False
    then show ?thesis using run stored_rows(3) [OF st, of "c_id r"] by (auto simp: db_client_insert_def)
  qed
qed

lemma update_client_refined:
  assumes st: "stored d w"
  shows "agrees d (sql_client_update r d) (sum_of (db_client_update r w))"
proof -
  note D = storedD [OF st]
  let ?u = "assign (client_values r) client_update_cols"
  have k: "arg (client_values r) 1 = SText (c_id r)" by (simp add: arg_def client_values_def)
  have id: "?u s ''id'' = s ''id''" for s by (simp add: client_update_cols_def assign_def)
  have row: "client_of (?u s) = r" if "s ''id'' = SText (c_id r)" for s
    using that by (simp add: client_update_cols_def assign_def arg_def client_values_def client_of_def the_text_def sql_bool_def
        opt_text_def text_or_null_def split: option.split)
  have null: "null_violated (client_tab d) (?u s) \<longleftrightarrow> \<not> row_complete r" for s
    by (simp add: null_violated_def null_in_def client_schema_def column_def_def row_complete_def client_update_cols_def assign_def arg_def
        client_values_def text_or_null_def split: option.split)
  let ?rs = "map (\<lambda>s. if s ''id'' = SText (c_id r) then ?u s else s) (client_rows d)"
  have "sql_client_update r d = exec_on (Update ''client'' client_update_cols (1, ''id'')) (client_values r) (client_tab d) d"
    unfolding sql_client_update_def
    by (rule execute_client [OF D(1)]) (simp_all add: client_update_cols_def client_values_def)
  also have "\<dots> = (if find_row (c_id r) (client_rows d) \<noteq> None \<and> \<not> row_complete r then Inl NotNullViolation
      else Inr (set_client_rows ?rs d))"
    by (simp only: exec_update_client [OF D(1) k id] null) (cases "find_row (c_id r) (client_rows d)"; simp)
  finally have run: "sql_client_update r d = \<dots>" .
  have find: "map_option client_of (find_row j ?rs) =
      (if j = c_id r then map_option (\<lambda>_. r) (find_row j (client_rows d)) else map_option client_of (find_row j (client_rows d)))" for j
    unfolding find_row_update [where u = ?u, OF id]
    using row find_row_id [of "c_id r" "client_rows d"] by (cases "find_row (c_id r) (client_rows d)") simp_all
  have ok: "sql_ok (set_client_rows ?rs d)" if "find_row (c_id r) (client_rows d) = None \<or> row_complete r"
  proof (rule set_client_rows_ok [OF D(1)])
    show "distinct (map (\<lambda>s. s ''id'') ?rs)" by (rule distinct_update [of ?u, OF id D(3)])
    have "client_row_ok (?u s)" if s: "s \<in> set (client_rows d)" "s ''id'' = SText (c_id r)" for s
    proof -
      have "row_complete r" using s \<open>_ \<or> row_complete r\<close> by (auto simp: find_row_None image_iff)
      then show ?thesis using null [of s] s(2) by (simp add: client_row_ok_def id is_text_def null_violated_def)
    qed
    then show "\<forall>s \<in> set ?rs. client_row_ok s" using D(5) by auto
    show "(\<lambda>r. r ''primary_user'') ` set (inst_rows d) \<subseteq> (\<lambda>r. r ''id'') ` set ?rs"
      using D(7) by (simp only: ids_update [of ?u, OF id])
  qed
  show ?thesis
  proof (cases "find_row (c_id r) (client_rows d)")
    case None
    have "stored (set_client_rows ?rs d) (w\<lparr>client_table := client_table w\<rparr>)"
      by (rule stored_clients [OF st ok]) (auto simp: find stored_rows [OF st] None)
    then show ?thesis using None run stored_rows(3) [OF st, of "c_id r"] by (simp add: db_client_update_def)
  next
    case (Some s)
    have "stored (set_client_rows ?rs d) (w\<lparr>client_table := dict_set (c_id r) r (client_table w)\<rparr>)" if "row_complete r"
      by (rule stored_clients [OF st ok]) (use that in \<open>auto simp: find stored_rows [OF st] Some\<close>)
    then show ?thesis using Some run stored_rows(3) [OF st, of "c_id r"] by (simp add: db_client_update_def)
  qed
qed

lemma delete_client_refined:
  assumes st: "stored d w"
  shows "agrees d (sql_client_delete k d) (sum_of (db_client_delete k w))"
proof -
  note D = storedD [OF st]
  let ?rs = "filter (\<lambda>r. r ''id'' \<noteq> SText k) (client_rows d)"
  have sel: "selected [SText k] (1, ''id'') = (\<lambda>r. r ''id'' = SText k)" by (rule selected_id) (simp add: arg_def)
  have used: "list_ex (\<lambda>(_, r). primary_user r = k) (inst_table w) \<longleftrightarrow> (\<exists>s \<in> set (inst_rows d). s ''primary_user'' = SText k)"
  proof -
    have "(j, i) \<in> set (inst_table w) \<longleftrightarrow> (\<exists>s. find_row j (inst_rows d) = Some s \<and> i = inst_of s)" for j i
      using map_of_eq_Some_iff [of "inst_table w" j i] D(2) stored_rows(2) [OF st, of j] by (auto simp: dict_ok_def)
    then have "(\<exists>j i. (j, i) \<in> set (inst_table w) \<and> primary_user i = k) \<longleftrightarrow>
        (\<exists>j s. find_row j (inst_rows d) = Some s \<and> primary_user (inst_of s) = k)" by auto
    moreover have "list_ex (\<lambda>(_, r). primary_user r = k) (inst_table w) \<longleftrightarrow> (\<exists>j i. (j, i) \<in> set (inst_table w) \<and> primary_user i = k)"
      by (auto simp: list_ex_iff)
    moreover have "primary_user (inst_of s) = the_text (s ''primary_user'')" for s by (simp add: inst_of_def)
    ultimately have "list_ex (\<lambda>(_, r). primary_user r = k) (inst_table w) \<longleftrightarrow>
        (\<exists>j s. find_row j (inst_rows d) = Some s \<and> the_text (s ''primary_user'') = k)" by simp
    also have "\<dots> \<longleftrightarrow> (\<exists>s \<in> set (inst_rows d). s ''primary_user'' = SText k)"
    proof
      assume "\<exists>j s. find_row j (inst_rows d) = Some s \<and> the_text (s ''primary_user'') = k"
      then show "\<exists>s \<in> set (inst_rows d). s ''primary_user'' = SText k"
        using D(6) find_row_id by (fastforce simp: inst_row_ok_def is_text_iff)
    next
      assume "\<exists>s \<in> set (inst_rows d). s ''primary_user'' = SText k"
      then obtain s where s: "s \<in> set (inst_rows d)" "s ''primary_user'' = SText k" by blast
      then have "s ''id'' = SText (the_text (s ''id''))" using D(6) by (simp add: inst_row_ok_def is_text_iff)
      then have "filter (\<lambda>r. r ''id'' = SText (the_text (s ''id''))) (inst_rows d) \<noteq> []" using s(1) by (auto simp: filter_empty_conv)
      then obtain s' where s': "find_row (the_text (s ''id'')) (inst_rows d) = Some s'"
        using filter_find [OF D(4)] by (cases "find_row (the_text (s ''id'')) (inst_rows d)") auto
      have "s' = s"
        using find_row_id [OF s'] s(1) D(4) \<open>s ''id'' = _\<close> by (metis (no_types, lifting) distinct_map inj_onD)
      then show "\<exists>j s. find_row j (inst_rows d) = Some s \<and> the_text (s ''primary_user'') = k"
        using s' s(2) by (intro exI [of _ "the_text (s ''id'')"] exI [of _ s]) (simp add: the_text_def)
    qed
    finally show ?thesis .
  qed
  have "sql_client_delete k d = exec_on (Delete ''client'' (1, ''id'')) [SText k] (client_tab d) d"
    unfolding sql_client_delete_def by (rule execute_client [OF D(1)]) simp_all
  also have "\<dots> = (if find_row k (client_rows d) \<noteq> None \<and> (\<exists>s \<in> set (inst_rows d). s ''primary_user'' = SText k)
      then Inl ForeignKeyViolation else Inr (set_client_rows ?rs d))"
    using filter_find [OF D(3), of k] referred_client [OF D(1)] find_row_id [of k "client_rows d"]
    unfolding exec_on.simps sel by (cases "find_row k (client_rows d)") (simp_all add: set_client_rows_def)
  finally have run: "sql_client_delete k d = \<dots>" .
  have "stored (set_client_rows ?rs d) (w\<lparr>client_table := dict_del k (client_table w)\<rparr>)"
    if "find_row k (client_rows d) = None \<or> \<not> (\<exists>s \<in> set (inst_rows d). s ''primary_user'' = SText k)"
  proof (rule stored_clients [OF st])
    have ids: "(\<lambda>r. r ''id'') ` set ?rs = (\<lambda>r. r ''id'') ` set (client_rows d) - {SText k}" by auto
    have "SText k \<notin> (\<lambda>r. r ''primary_user'') ` set (inst_rows d)"
      using that
    proof
      assume "find_row k (client_rows d) = None"
      then show ?thesis using D(7) unfolding find_row_None by (rule contra_subsetD [rotated])
    qed (simp add: image_iff eq_commute [of "SText k"])
    then have "(\<lambda>r. r ''primary_user'') ` set (inst_rows d) \<subseteq> (\<lambda>r. r ''id'') ` set ?rs"
      using D(7) unfolding ids by blast
    then show "sql_ok (set_client_rows ?rs d)" using D by (intro set_client_rows_ok) (auto simp: distinct_map_filter)
  qed (auto simp: find_row_delete stored_rows [OF st])
  then show ?thesis using run stored_rows(3) [OF st, of k] used by (auto simp: db_client_delete_def)
qed

text \<open>What the two statements that write an instance put into its row.\<close>

lemma inst_assigned:
  assumes "cs \<in> {inst_insert_cols, inst_update_cols}" and "cs = inst_update_cols \<Longrightarrow> s ''id'' = SText (i_id r)"
  defines "u \<equiv> assign (inst_values r) cs s"
  shows "u ''id'' = SText (i_id r)" "inst_of u = r" "\<not> null_violated (inst_tab d) u" "inst_row_ok u"
    "u ''primary_user'' = SText (primary_user r)"
proof -
  have e: "engine_at (text_or_null (database_engine_str r)) = engine r"
    "text_or_null (database_engine_str r) \<in> {SNull, SText ''sqlite'', SText ''postgres''}"
  proof -
    consider "engine r = None" | "engine r = Some SQLITE" | "engine r = Some POSTGRES"
      by (metis database_engine.exhaust not_None_eq)
    then show "engine_at (text_or_null (database_engine_str r)) = engine r"
      "text_or_null (database_engine_str r) \<in> {SNull, SText ''sqlite'', SText ''postgres''}"
      by (cases; simp add: engine_at_def text_or_null_def database_engine_str_def)+
  qed
  have cols: "u ''id'' = SText (i_id r)" "u ''type'' = SText (i_type r)" "u ''enabled'' = SBool (i_enabled r)"
    "u ''primary_user'' = SText (primary_user r)" "u ''config'' = SText (config_str r)"
    "u ''database_engine'' = text_or_null (database_engine_str r)"
    using assms(1,2) by (auto simp: u_def assign_def inst_insert_cols_def inst_update_cols_def arg_def inst_values_def)
  show "u ''id'' = SText (i_id r)" "u ''primary_user'' = SText (primary_user r)" by (rule cols)+
  show "inst_of u = r" by (simp add: inst_of_def cols e the_text_def sql_bool_def)
  show "\<not> null_violated (inst_tab d) u"
    by (simp add: null_violated_def null_in_def inst_schema_def column_def_def engine_column_def cols)
  show "inst_row_ok u" using e(2)
    by (simp add: inst_row_ok_def cols is_text_def null_in_def inst_schema_def column_def_def engine_column_def)
qed

lemma insert_inst_refined:
  assumes st: "stored d w"
  shows "agrees d (sql_inst_insert r d) (sum_of (db_inst_insert r w))"
proof -
  note D = storedD [OF st]
  define s where "s = assign (inst_values r) inst_insert_cols (\<lambda>_. SNull)"
  have "inst_insert_cols \<noteq> inst_update_cols" by (simp add: inst_insert_cols_def inst_update_cols_def)
  then have s: "s ''id'' = SText (i_id r)" "inst_of s = r" "\<not> null_violated (inst_tab d) s" "inst_row_ok s"
    "s ''primary_user'' = SText (primary_user r)"
    unfolding s_def by (intro inst_assigned; simp)+
  have "sql_inst_insert r d = exec_on (Insert ''instance'' inst_insert_cols) (inst_values r) (inst_tab d) d"
    unfolding sql_inst_insert_def by (rule execute_inst [OF D(1)]) (simp_all add: inst_insert_cols_def inst_values_def)
  also have "\<dots> = (if find_row (i_id r) (inst_rows d) \<noteq> None then Inl UniqueViolation
      else if find_row (primary_user r) (client_rows d) = None then Inl ForeignKeyViolation
      else Inr (set_inst_rows (inst_rows d @ [s]) d))"
    by (simp only: exec_insert_inst [OF D(1) s_def s(1)] s(3) fkey_violated_inst [of d s, OF D(1) s(5)] if_False)
  finally have run: "sql_inst_insert r d = \<dots>" .
  show ?thesis
  proof (cases "find_row (i_id r) (inst_rows d) = None \<and> find_row (primary_user r) (client_rows d) \<noteq> None")
    case True
    have "stored (set_inst_rows (inst_rows d @ [s]) d) (w\<lparr>inst_table := dict_set (i_id r) r (inst_table w)\<rparr>)"
    proof (rule stored_insts [OF st])
      show "sql_ok (set_inst_rows (inst_rows d @ [s]) d)"
        using True D s(1,4,5) by (intro set_inst_rows_ok) (auto simp: find_row_None)
      show "dict_ok (dict_set (i_id r) r (inst_table w))" using D(2) by simp
      show "map_option inst_of (find_row k (inst_rows d @ [s])) = map_of (dict_set (i_id r) r (inst_table w)) k" for k
        using True s(1,2) by (simp add: find_row_insert stored_rows [OF st])
    qed
    then show ?thesis using True run stored_rows(3) [OF st, of "primary_user r"] stored_rows(4) [OF st, of "i_id r"]
      by (simp add: db_inst_insert_def)
  next
    case False
    then show ?thesis using run stored_rows(3) [OF st, of "primary_user r"] stored_rows(4) [OF st, of "i_id r"]
      by (auto simp: db_inst_insert_def)
  qed
qed

lemma update_inst_refined:
  assumes st: "stored d w"
  shows "agrees d (sql_inst_update r d) (sum_of (db_inst_update r w))"
proof -
  note D = storedD [OF st]
  let ?u = "assign (inst_values r) inst_update_cols"
  have k: "arg (inst_values r) 1 = SText (i_id r)" by (simp add: arg_def inst_values_def)
  have id: "?u s ''id'' = s ''id''" for s by (simp add: inst_update_cols_def assign_def)
  have u: "inst_of (?u s) = r" "\<not> null_violated (inst_tab d) (?u s)" "inst_row_ok (?u s)"
    "?u s ''primary_user'' = SText (primary_user r)" if "s ''id'' = SText (i_id r)" for s
    using that by (intro inst_assigned; simp)+
  let ?rs = "map (\<lambda>s. if s ''id'' = SText (i_id r) then ?u s else s) (inst_rows d)"
  have dist: "distinct (map (\<lambda>s. s ''id'') ?rs)" by (rule distinct_update [of ?u, OF id D(4)])
  have hit: "\<not> null_violated (inst_tab d) (?u s)" "fkey_violated d (inst_tab d) (?u s) \<longleftrightarrow> find_row (primary_user r) (client_rows d) = None"
    if "find_row (i_id r) (inst_rows d) = Some s" for s
    using u find_row_id [OF that] fkey_violated_inst [OF D(1), of "?u s"] by simp_all
  have "sql_inst_update r d = exec_on (Update ''instance'' inst_update_cols (1, ''id'')) (inst_values r) (inst_tab d) d"
    unfolding sql_inst_update_def by (rule execute_inst [OF D(1)]) (simp_all add: inst_update_cols_def inst_values_def)
  also have "\<dots> = (if find_row (i_id r) (inst_rows d) \<noteq> None \<and> find_row (primary_user r) (client_rows d) = None
      then Inl ForeignKeyViolation else Inr (set_inst_rows ?rs d))"
    using hit dist unfolding exec_update_inst [OF D(1) k] Let_def by (cases "find_row (i_id r) (inst_rows d)") simp_all
  finally have run: "sql_inst_update r d = \<dots>" .
  have find: "map_option inst_of (find_row j ?rs) =
      (if j = i_id r then map_option (\<lambda>_. r) (find_row j (inst_rows d)) else map_option inst_of (find_row j (inst_rows d)))" for j
    unfolding find_row_update [where u = ?u, OF id]
    using u(1) find_row_id [of "i_id r" "inst_rows d"] by (cases "find_row (i_id r) (inst_rows d)") simp_all
  show ?thesis
  proof (cases "find_row (i_id r) (inst_rows d)")
    case None
    have "?rs = inst_rows d" using None by (intro map_idI) (auto simp: find_row_None image_iff)
    then have "stored (set_inst_rows ?rs d) (w\<lparr>inst_table := inst_table w\<rparr>)"
      using D by (intro stored_insts [OF st _ D(2)] set_inst_rows_ok) (simp_all add: stored_rows [OF st])
    then show ?thesis using None run stored_rows(4) [OF st, of "i_id r"] by (simp add: db_inst_update_def)
  next
    case (Some s)
    have "stored (set_inst_rows ?rs d) (w\<lparr>inst_table := dict_set (i_id r) r (inst_table w)\<rparr>)"
      if "find_row (primary_user r) (client_rows d) \<noteq> None"
    proof (rule stored_insts [OF st])
      have "SText (primary_user r) \<in> (\<lambda>r. r ''id'') ` set (client_rows d)" using that by (simp add: find_row_None)
      then show "sql_ok (set_inst_rows ?rs d)" using D dist u(3,4) by (intro set_inst_rows_ok) auto
      show "dict_ok (dict_set (i_id r) r (inst_table w))" using D(2) by simp
    qed (auto simp: find stored_rows [OF st] Some)
    then show ?thesis using Some run stored_rows(3) [OF st, of "primary_user r"] stored_rows(4) [OF st, of "i_id r"]
      by (auto simp: db_inst_update_def)
  qed
qed

lemma delete_inst_refined:
  assumes st: "stored d w"
  shows "agrees d (sql_inst_delete k d) (sum_of (db_inst_delete k w))"
proof -
  note D = storedD [OF st]
  let ?rs = "filter (\<lambda>r. r ''id'' \<noteq> SText k) (inst_rows d)"
  have sel: "selected [SText k] (1, ''id'') = (\<lambda>r. r ''id'' = SText k)" by (rule selected_id) (simp add: arg_def)
  have "sql_inst_delete k d = exec_on (Delete ''instance'' (1, ''id'')) [SText k] (inst_tab d) d"
    unfolding sql_inst_delete_def by (rule execute_inst [OF D(1)]) simp_all
  also have "\<dots> = Inr (set_inst_rows ?rs d)"
    using referred_inst [OF D(1)] unfolding exec_on.simps sel by (simp add: set_inst_rows_def list_ex_iff)
  finally have run: "sql_inst_delete k d = \<dots>" .
  have ok: "sql_ok (set_inst_rows ?rs d)" using D by (intro set_inst_rows_ok) (auto simp: distinct_map_filter)
  have "dict_ok (dict_del k (inst_table w))" using D(2) by simp
  then have "stored (set_inst_rows ?rs d) (w\<lparr>inst_table := dict_del k (inst_table w)\<rparr>)"
    by (intro stored_insts [OF st ok]) (auto simp: find_row_delete stored_rows [OF st])
  then show ?thesis using run by (simp add: db_inst_delete_def)
qed

interpretation sql_rows: refines stored sql_op model_op
proof unfold_locales
  fix d w x
  assume st: "stored d w"
  show "agrees d (sql_op x d) (model_op x w)"
    by (cases x) (simp_all only: sql_op.simps model_op.simps insert_client_refined [OF st] update_client_refined [OF st]
        delete_client_refined [OF st] insert_inst_refined [OF st] update_inst_refined [OF st] delete_inst_refined [OF st])
qed

text \<open>The two statements that write one column, and the object they belong to.\<close>

lemma put_next_batch_refined:
  assumes st: "stored d w" and r: "c_id r = c_id (clients w ! a)"
  shows "agrees d (sql_put_next_batch token r d) (sum_of (db_put_next_batch token a w))"
proof -
  note D = storedD [OF st]
  define f where "f = assign [SText token, SText (c_id r)] [(1, ''next_batch'')]"
  have k: "arg [SText token, SText (c_id r)] 2 = SText (c_id r)" by (simp add: arg_def)
  have u: "f s = s(''next_batch'' := SText token)" for s by (auto simp: f_def assign_def arg_def)
  have id: "f s ''id'' = s ''id''" for s unfolding u by simp
  have row: "client_of (f s) = (client_of s)\<lparr>next_batch := token\<rparr>" for s unfolding u by (simp add: client_of_def the_text_def)
  have keep: "client_row_ok (f s)" if "client_row_ok s" for s
    using that unfolding u by (simp add: client_row_ok_def null_in_def client_schema_def column_def_def)
  let ?rs = "map (\<lambda>s. if s ''id'' = SText (c_id r) then f s else s) (client_rows d)"
  have "sql_put_next_batch token r d = exec_on (Update ''client'' [(1, ''next_batch'')] (2, ''id'')) [SText token, SText (c_id r)] (client_tab d) d"
    unfolding sql_put_next_batch_def by (rule execute_client [OF D(1)]) simp_all
  also have "\<dots> = Inr (set_client_rows ?rs d)"
  proof -
    have "\<not> null_violated (client_tab d) (f s)" if "find_row (c_id r) (client_rows d) = Some s" for s
    proof -
      have "client_row_ok (f s)" using keep D(5) find_row_id [OF that] by blast
      then show ?thesis unfolding client_row_ok_def null_violated_def by simp
    qed
    then show ?thesis unfolding exec_update_client [OF D(1) k id [unfolded f_def], folded f_def] by simp
  qed
  finally have run: "sql_put_next_batch token r d = \<dots>" .
  have ok: "sql_ok (set_client_rows ?rs d)"
  proof (rule set_client_rows_ok [OF D(1) distinct_update [of f, OF id D(3)]])
    show "\<forall>s \<in> set ?rs. client_row_ok s" using D(5) keep by auto
    show "(\<lambda>r. r ''primary_user'') ` set (inst_rows d) \<subseteq> (\<lambda>r. r ''id'') ` set ?rs"
      using D(7) by (simp only: ids_update [of f, OF id])
  qed
  let ?t = "case map_of (client_table w) (c_id r) of Some x \<Rightarrow> dict_set (c_id r) (x\<lparr>next_batch := token\<rparr>) (client_table w) | None \<Rightarrow> client_table w"
  have "stored (set_client_rows ?rs d) (w\<lparr>client_table := ?t\<rparr>)"
  proof (rule stored_clients [OF st ok])
    show "map_option client_of (find_row j ?rs) = map_of ?t j" for j
      unfolding find_row_update [where u = f, OF id]
      by (cases "find_row (c_id r) (client_rows d)") (simp_all add: stored_rows [OF st] row)
  qed
  moreover have "stored e (upd_client a g v) = stored e v" for e g v by (simp add: stored_def upd_client_def)
  moreover have "sum_of (db_put_next_batch token a w) = Inr (upd_client a (\<lambda>c. c\<lparr>next_batch := token\<rparr>) (w\<lparr>client_table := ?t\<rparr>))"
    using r by (simp add: db_put_next_batch_def Let_def split: option.split)
  ultimately show ?thesis by (simp add: run)
qed

lemma distinct_rename:
  assumes "\<And>r. u r ''id'' = SText n" and "distinct (map (\<lambda>r. r ''id'') rs)" and "SText k \<in> (\<lambda>r. r ''id'') ` set rs"
  shows "distinct (map (\<lambda>r. r ''id'') (map (\<lambda>r. if r ''id'' = SText k then u r else r) rs)) \<longleftrightarrow>
     n = k \<or> SText n \<notin> (\<lambda>r. r ''id'') ` set rs"
proof -
  let ?ids = "map (\<lambda>r. r ''id'') rs" and ?g = "\<lambda>v. if v = SText k then SText n else v"
  have "map (\<lambda>r. r ''id'') (map (\<lambda>r. if r ''id'' = SText k then u r else r) rs) = map ?g ?ids" using assms(1) by simp
  moreover have "distinct (map ?g ?ids) \<longleftrightarrow> inj_on ?g (set ?ids)" using assms(2) distinct_map [of ?g ?ids] by blast
  moreover have "inj_on ?g (set ?ids) \<longleftrightarrow> n = k \<or> SText n \<notin> set ?ids"
  proof
    assume inj: "inj_on ?g (set ?ids)"
    show "n = k \<or> SText n \<notin> set ?ids" using inj_onD [OF inj, of "SText k" "SText n"] assms(3) by auto
  next
    assume "n = k \<or> SText n \<notin> set ?ids"
    then show "inj_on ?g (set ?ids)" by (intro inj_onI) (metis (full_types))
  qed
  ultimately show ?thesis by (simp only: set_map)
qed

lemma update_id_refined:
  assumes st: "stored d w"
  shows "agrees d (sql_inst_update_id n (i_id (instances w ! a)) d) (sum_of (db_inst_update_id a n w))"
proof -
  note D = storedD [OF st]
  define k where "k = i_id (instances w ! a)"
  define f where "f = assign [SText n, SText k] [(1, ''id'')]"
  have kk: "arg [SText n, SText k] 2 = SText k" by (simp add: arg_def)
  have u: "f s = s(''id'' := SText n)" for s by (auto simp: f_def assign_def arg_def)
  have id: "f s ''id'' = SText n" for s unfolding u by simp
  have row: "inst_of (f s) = (inst_of s)\<lparr>i_id := n\<rparr>" for s unfolding u by (simp add: inst_of_def the_text_def)
  have keep: "inst_row_ok (f s)" if "inst_row_ok s" for s
    using that unfolding u by (simp add: inst_row_ok_def is_text_def null_in_def inst_schema_def column_def_def engine_column_def)
  have user: "f s ''primary_user'' = s ''primary_user''" for s unfolding u by simp
  let ?rs = "map (\<lambda>s. if s ''id'' = SText k then f s else s) (inst_rows d)"
  have users: "(\<lambda>r. r ''primary_user'') ` set ?rs = (\<lambda>r. r ''primary_user'') ` set (inst_rows d)"
  proof -
    have "map (\<lambda>r. r ''primary_user'') ?rs = map (\<lambda>r. r ''primary_user'') (inst_rows d)" by (simp del: One_nat_def add: user)
    then show ?thesis by (metis image_set)
  qed
  have fine: "\<not> null_violated (inst_tab d) (f s)" "\<not> fkey_violated d (inst_tab d) (f s)" if "find_row k (inst_rows d) = Some s" for s
  proof -
    have s: "s \<in> set (inst_rows d)" "inst_row_ok s" using find_row_id [OF that] D(6) by auto
    show "\<not> null_violated (inst_tab d) (f s)" using keep [OF s(2)] by (simp add: inst_row_ok_def null_violated_def)
    have pu: "s ''primary_user'' = SText (the_text (s ''primary_user''))" using s(2) by (simp add: inst_row_ok_def is_text_iff)
    then have "f s ''primary_user'' = SText (the_text (s ''primary_user''))" by (simp only: user)
    moreover have "SText (the_text (s ''primary_user'')) \<in> (\<lambda>r. r ''id'') ` set (client_rows d)" using D(7) s(1) pu by auto
    ultimately show "\<not> fkey_violated d (inst_tab d) (f s)" using fkey_violated_inst [OF D(1)] by (simp only: find_row_None) blast
  qed
  have "sql_inst_update_id n k d = exec_on (Update ''instance'' [(1, ''id'')] (2, ''id'')) [SText n, SText k] (inst_tab d) d"
    unfolding sql_inst_update_id_def by (rule execute_inst [OF D(1)]) simp_all
  also have "\<dots> = (if \<not> distinct (map (\<lambda>r. r ''id'') ?rs) then Inl UniqueViolation else Inr (set_inst_rows ?rs d))"
    using fine unfolding exec_update_inst [OF D(1) kk, of "[(1, ''id'')]", folded f_def] Let_def by (cases "find_row k (inst_rows d)") simp_all
  finally have run: "sql_inst_update_id n k d = \<dots>" .
  have up: "stored e (upd_inst a g v) = stored e v" for e g v by (simp add: stored_def upd_inst_def)
  show ?thesis
  proof (cases "find_row k (inst_rows d)")
    case None
    then have same: "?rs = inst_rows d" by (intro map_idI) (auto simp: find_row_None image_iff)
    have "stored (set_inst_rows ?rs d) (w\<lparr>inst_table := inst_table w\<rparr>)"
      unfolding same using D by (intro stored_insts [OF st _ D(2)] set_inst_rows_ok) (simp_all add: stored_rows [OF st])
    then show ?thesis using None run D(4) same stored_rows(2) [OF st, of k]
      by (simp add: db_inst_update_id_def k_def [symmetric] up)
  next
    case (Some s)
    have new: "distinct (map (\<lambda>r. r ''id'') ?rs) \<longleftrightarrow> n = k \<or> find_row n (inst_rows d) = None"
      unfolding find_row_None by (rule distinct_rename [of f, OF id D(4)]) (use find_row_id [OF Some] in \<open>auto intro: image_eqI [of _ _ s]\<close>)
    show ?thesis
    proof (cases "n = k \<or> find_row n (inst_rows d) = None")
      case True
      have "stored (set_inst_rows ?rs d) (w\<lparr>inst_table := dict_set n ((inst_of s)\<lparr>i_id := n\<rparr>) (dict_del k (inst_table w))\<rparr>)"
      proof (rule stored_insts [OF st])
        show "sql_ok (set_inst_rows ?rs d)"
        proof (rule set_inst_rows_ok [OF D(1)])
          show "distinct (map (\<lambda>r. r ''id'') ?rs)" using True new by blast
          show "\<forall>s \<in> set ?rs. inst_row_ok s" using D(6) keep by auto
          show "(\<lambda>r. r ''primary_user'') ` set ?rs \<subseteq> (\<lambda>r. r ''id'') ` set (client_rows d)" unfolding users by (rule D(7))
        qed
        show "dict_ok (dict_set n ((inst_of s)\<lparr>i_id := n\<rparr>) (dict_del k (inst_table w)))" using D(2) by (intro dict_ok_set dict_ok_del)
        show "map_option inst_of (find_row j ?rs) = map_of (dict_set n ((inst_of s)\<lparr>i_id := n\<rparr>) (dict_del k (inst_table w))) j" for j
          unfolding find_row_rename [where u = f and m = n and n = k, OF id True D(4)]
          using Some by (simp add: row stored_rows [OF st])
      qed
      then show ?thesis using run new True Some stored_rows(2) [OF st, of k] stored_rows(4) [OF st, of n]
        by (auto simp: db_inst_update_id_def k_def [symmetric] up)
    next
      case False
      then show ?thesis using run new Some stored_rows(2) [OF st, of k] stored_rows(4) [OF st, of n]
        by (auto simp: db_inst_update_id_def k_def [symmetric])
    qed
  qed
qed

section \<open>Properties\<close>

lemma record_eq:
  "sql_ok d \<Longrightarrow> sql_select ''client'' client_columns p vs d = Inr (map (\<lambda>r. map (\<lambda>c. (c, r c)) client_columns)
     (case p of None \<Rightarrow> client_rows d | Some p \<Rightarrow> filter (selected vs p) (client_rows d)))"
  "sql_ok d \<Longrightarrow> sql_select ''instance'' inst_columns p vs d = Inr (map (\<lambda>r. map (\<lambda>c. (c, r c)) inst_columns)
     (case p of None \<Rightarrow> inst_rows d | Some p \<Rightarrow> filter (selected vs p) (inst_rows d)))"
  by (simp_all add: sql_select_def sql_ok_def split: option.split)

lemma sql_client_reads:
  assumes st: "stored d w"
  shows "sql_client_get k d = Inr (db_client_get k w)" "sql_inst_get k d = Inr (db_inst_get k w)"
    "sql_client_all d = Inr (map client_of (client_rows d))" "sql_inst_all d = Inr (map inst_of (inst_rows d))"
proof -
  note D = storedD [OF st]
  have sel: "selected [SText k] (1, ''id'') = (\<lambda>r. r ''id'' = SText k)" by (rule selected_id) (simp add: arg_def)
  show "sql_client_get k d = Inr (db_client_get k w)"
    unfolding sql_client_get_def record_eq [OF D(1)] option.case sel filter_find [OF D(3)]
    using stored_rows(1) [OF st, of k] client_from_row_columns
    by (cases "find_row k (client_rows d)") (simp_all add: fetchrow_def db_client_get_def client_from_row_def)
  show "sql_inst_get k d = Inr (db_inst_get k w)"
  proof (cases "find_row k (inst_rows d)")
    case None
    then show ?thesis unfolding sql_inst_get_def record_eq [OF D(1)] option.case sel filter_find [OF D(4)]
      using stored_rows(2) [OF st, of k] by (simp add: fetchrow_def db_inst_get_def inst_from_row_def)
  next
    case (Some r)
    then have "inst_row_ok r" using D(6) find_row_id by blast
    then show ?thesis unfolding sql_inst_get_def record_eq [OF D(1)] option.case sel filter_find [OF D(4)]
      using stored_rows(2) [OF st, of k] inst_from_row_columns Some by (simp add: fetchrow_def db_inst_get_def)
  qed
  have "List.map_filter (\<lambda>r. client_from_row (Some r)) (map (\<lambda>r. map (\<lambda>c. (c, r c)) client_columns) rs) = map client_of rs" for rs
    by (simp add: List.map_filter_def client_from_row_columns comp_def)
  then show "sql_client_all d = Inr (map client_of (client_rows d))"
    unfolding sql_client_all_def record_eq [OF D(1)] option.case by simp
  have "from_rows (map (\<lambda>r. map (\<lambda>c. (c, r c)) inst_columns) rs) = Inr (map inst_of rs)" if "\<forall>r \<in> set rs. inst_row_ok r" for rs
    using that by (induction rs) (simp_all add: inst_from_row_columns)
  then show "sql_inst_all d = Inr (map inst_of (inst_rows d))"
    unfolding sql_inst_all_def record_eq [OF D(1)] option.case using D(6) by simp
qed

lemma stored_all:
  assumes st: "stored d w"
  shows "r \<in> set (map client_of (client_rows d)) \<longleftrightarrow> (\<exists>k. db_client_get k w = Some r)"
    "i \<in> set (map inst_of (inst_rows d)) \<longleftrightarrow> (\<exists>k. db_inst_get k w = Some i)"
proof -
  note D = storedD [OF st]
  have ex: "x \<in> set (map f rs) \<longleftrightarrow> (\<exists>k. map_option f (find_row k rs) = Some x)"
    if "distinct (map (\<lambda>r. r ''id'') rs)" "\<forall>r \<in> set rs. is_text (r ''id'')" for f :: "sqlrow \<Rightarrow> 'b" and rs x
  proof
    assume "x \<in> set (map f rs)"
    then obtain r where r: "r \<in> set rs" "x = f r" by auto
    have "r ''id'' = SText (the_text (r ''id''))" using that(2) r(1) by (simp add: is_text_iff)
    then have "r \<in> set (filter (\<lambda>s. s ''id'' = SText (the_text (r ''id''))) rs)" using r(1) by simp
    then have "find_row (the_text (r ''id'')) rs = Some r"
      unfolding filter_find [OF that(1)] by (cases "find_row (the_text (r ''id'')) rs") simp_all
    then show "\<exists>k. map_option f (find_row k rs) = Some x" using r(2) by (intro exI [of _ "the_text (r ''id'')"]) simp
  next
    assume "\<exists>k. map_option f (find_row k rs) = Some x"
    then show "x \<in> set (map f rs)" using find_row_id by fastforce
  qed
  show "r \<in> set (map client_of (client_rows d)) \<longleftrightarrow> (\<exists>k. db_client_get k w = Some r)"
    using ex [OF D(3), of r client_of] D(5) stored_rows(1) [OF st] by (simp add: db_client_get_def client_row_ok_def)
  show "i \<in> set (map inst_of (inst_rows d)) \<longleftrightarrow> (\<exists>k. db_inst_get k w = Some i)"
    using ex [OF D(4), of i inst_of] D(6) stored_rows(2) [OF st] by (simp add: db_inst_get_def inst_row_ok_def)
qed


text \<open>A database without rows.\<close>

definition empty_tables :: sqldb where
  "empty_tables = \<lparr>d_tables =
     [(''client'', \<lparr>t_columns = client_schema, t_key = [''id''], t_fkeys = [], t_checks = [], t_rows = []\<rparr>),
      (''instance'', \<lparr>t_columns = inst_schema @ [engine_column], t_key = [''id''], t_fkeys = [user_fkey], t_checks = [], t_rows = []\<rparr>)],
     d_enums = []\<rparr>"

lemma empty_stored: "client_table w = [] \<Longrightarrow> inst_table w = [] \<Longrightarrow> stored empty_tables w"
  by (simp add: stored_def sql_ok_def empty_tables_def client_rows_def inst_rows_def dict_ok_def)

definition ex_ops :: "row_op list" where
  "ex_ops = [InsertInst ex_irow, InsertClient ex_row, InsertInst ex_irow, DeleteClient ''@a:b'', InsertClient ex_row]"

definition ex_empty :: world where
  "ex_empty = ex_run0\<lparr>client_table := [], inst_table := []\<rparr>"

lemma ex_ops_model: "fst (run_ops model_op ex_ops ex_empty) = [ForeignKeyViolation, ForeignKeyViolation, UniqueViolation]"
  by (simp add: ex_ops_def ex_empty_def db_inst_insert_def db_client_insert_def db_client_delete_def in_dict_def ex_irow_def ex_row_def
      row_complete_def)


end
