(* ===== verification/MB_Migration.thy ===== *)
theory MB_Migration
  imports MB_Sql MB_Program
begin

text \<open>
  The upgrades of the database schema (\<^verbatim>\<open>maubot/db/upgrade\<close>): the first version, made from nothing or
  from the schema of the old program, and the second. They run on the tables of \<^verbatim>\<open>MB_Sql\<close>. A failed
  upgrade is \<open>Inl\<close>: mautrix runs it in a transaction, which leaves the database as it was.
\<close>

section \<open>Statements that change the schema\<close>

datatype ddl =
    CreateTable string sqltable
  | RenameTable string string
  | DropTable string
  | AddColumn string column
  | AlterType string string coltype
  | AlterTypeLower string string coltype
  | CreateEnum string "string list"
  | DropEnumIfExists string
  | InsertRow string "(string \<times> sqlval) list"
  | CopyRows string string "string list" string

definition DuplicateObject :: exn where
  "DuplicateObject = OtherException ''DuplicateObject''"

definition UndefinedColumn :: exn where
  "UndefinedColumn = OtherException ''UndefinedColumn''"

definition DependentObjects :: exn where
  "DependentObjects = OtherException ''DependentObjectsStillExist''"

definition InvalidText :: exn where
  "InvalidText = OtherException ''InvalidTextRepresentation''"

text \<open>\<^verbatim>\<open>LOWER\<close> of SQL.\<close>

fun sql_lower :: "sqlval \<Rightarrow> sqlval" where
  "sql_lower (SText s) = SText (str_lower s)"
| "sql_lower v = v"

definition set_table :: "string \<Rightarrow> sqltable \<Rightarrow> sqldb \<Rightarrow> sqldb" where
  "set_table n t d = d\<lparr>d_tables := dict_set n t (d_tables d)\<rparr>"

definition with_table :: "string \<Rightarrow> (sqltable \<Rightarrow> exn + sqldb) \<Rightarrow> sqldb \<Rightarrow> exn + sqldb" where
  "with_table n f d = (case map_of (d_tables d) n of None \<Rightarrow> Inl UndefinedTable | Some t \<Rightarrow> f t)"

text \<open>A value that a column of a type can hold; an enumeration has its labels only.\<close>

definition castable :: "sqldb \<Rightarrow> coltype \<Rightarrow> sqlval \<Rightarrow> bool" where
  "castable d ty v \<longleftrightarrow> (case ty of
     ENUM e \<Rightarrow> (case map_of (d_enums d) e of None \<Rightarrow> False | Some ls \<Rightarrow> v = SNull \<or> v \<in> SText ` set ls)
   | _ \<Rightarrow> True)"

text \<open>\<^verbatim>\<open>ALTER COLUMN c TYPE ty USING f(c)\<close>.\<close>

definition alter_type :: "string \<Rightarrow> string \<Rightarrow> coltype \<Rightarrow> (sqlval \<Rightarrow> sqlval) \<Rightarrow> sqldb \<Rightarrow> exn + sqldb" where
  "alter_type n c ty f d = with_table n (\<lambda>t.
     if c \<notin> col_name ` set (t_columns t) then Inl UndefinedColumn
     else if list_ex (\<lambda>r. \<not> castable d ty (f (r c))) (t_rows t) then Inl InvalidText
     else Inr (set_table n (t\<lparr>t_columns := map (\<lambda>x. if col_name x = c then x\<lparr>col_type := ty\<rparr> else x) (t_columns t),
                              t_rows := map (\<lambda>r. r(c := f (r c))) (t_rows t)\<rparr>) d)) d"

definition uses_enum :: "sqldb \<Rightarrow> string \<Rightarrow> bool" where
  "uses_enum d e \<longleftrightarrow> list_ex (\<lambda>(_, t). list_ex (\<lambda>c. col_type c = ENUM e) (t_columns t)) (d_tables d)"

text \<open>Rows inserted one after the other.\<close>

fun insert_rows :: "string \<Rightarrow> sqlrow list \<Rightarrow> sqldb \<Rightarrow> exn + sqldb" where
  "insert_rows n [] d = Inr d"
| "insert_rows n (r # rs) d = (case with_table n (\<lambda>t.
      if null_violated t r then Inl NotNullViolation
      else if check_violated t r then Inl CheckViolation
      else if row_key t r \<in> row_key t ` set (t_rows t) then Inl UniqueViolation
      else if fkey_violated d t r then Inl ForeignKeyViolation
      else Inr (set_table n (t\<lparr>t_rows := t_rows t @ [r]\<rparr>) d)) d of
    Inl e \<Rightarrow> Inl e | Inr d \<Rightarrow> insert_rows n rs d)"

fun exec_ddl :: "ddl \<Rightarrow> sqldb \<Rightarrow> exn + sqldb" where
  "exec_ddl (CreateTable n t) d = (if in_dict n (d_tables d) then Inl DuplicateObject else Inr (set_table n t d))"
| "exec_ddl (RenameTable n m) d = with_table n (\<lambda>t. if in_dict m (d_tables d) then Inl DuplicateObject
     else Inr (d\<lparr>d_tables := dict_set m t (dict_del n (d_tables d))\<rparr>)) d"
| "exec_ddl (DropTable n) d = with_table n (\<lambda>_. Inr (d\<lparr>d_tables := dict_del n (d_tables d)\<rparr>)) d"
| "exec_ddl (AddColumn n c) d = with_table n (\<lambda>t.
     if col_name c \<in> col_name ` set (t_columns t) then Inl DuplicateObject
     else if not_null c \<and> t_rows t \<noteq> [] then Inl NotNullViolation
     else Inr (set_table n (t\<lparr>t_columns := t_columns t @ [c], t_rows := map (\<lambda>r. r(col_name c := SNull)) (t_rows t)\<rparr>) d)) d"
| "exec_ddl (AlterType n c ty) d = alter_type n c ty (\<lambda>v. v) d"
| "exec_ddl (AlterTypeLower n c ty) d = alter_type n c ty sql_lower d"
| "exec_ddl (CreateEnum e ls) d = (if in_dict e (d_enums d) then Inl DuplicateObject
     else Inr (d\<lparr>d_enums := dict_set e ls (d_enums d)\<rparr>))"
| "exec_ddl (DropEnumIfExists e) d = (if \<not> in_dict e (d_enums d) then Inr d
     else if uses_enum d e then Inl DependentObjects
     else Inr (d\<lparr>d_enums := dict_del e (d_enums d)\<rparr>))"
| "exec_ddl (InsertRow n cvs) d = insert_rows n [\<lambda>c. case map_of cvs c of Some v \<Rightarrow> v | None \<Rightarrow> SNull] d"
| "exec_ddl (CopyRows n m cs low) d = with_table m (\<lambda>t. insert_rows n (map (\<lambda>r c.
      if c \<notin> set cs then SNull else if c = low then sql_lower (r c) else r c) (t_rows t)) d) d"

fun run_ddl :: "ddl list \<Rightarrow> sqldb \<Rightarrow> exn + sqldb" where
  "run_ddl [] d = Inr d"
| "run_ddl (q # qs) d = (case exec_ddl q d of Inl e \<Rightarrow> Inl e | Inr d \<Rightarrow> run_ddl qs d)"

section \<open>The first version\<close>

definition last_legacy_version :: string where
  "last_legacy_version = ''90aa88820eab''"

definition v1_client :: sqltable where
  "v1_client = \<lparr>t_columns = client_schema, t_key = [''id''], t_fkeys = [], t_checks = [], t_rows = []\<rparr>"

definition v1_instance :: sqltable where
  "v1_instance = \<lparr>t_columns = inst_schema, t_key = [''id''], t_fkeys = [user_fkey], t_checks = [], t_rows = []\<rparr>"

definition create_v1_tables :: "ddl list" where
  "create_v1_tables = [CreateTable ''client'' v1_client, CreateTable ''instance'' v1_instance]"

definition memberships :: "string list" where
  "memberships = [''join'', ''leave'', ''invite'', ''ban'', ''knock'']"

definition profile_columns :: "string list" where
  "profile_columns = [''room_id'', ''user_id'', ''membership'', ''displayname'', ''avatar_url'']"

definition new_profile :: sqltable where
  "new_profile = \<lparr>t_columns = map (\<lambda>c. \<lparr>col_name = c, col_type = TEXT, not_null = (c = ''membership'')\<rparr>) profile_columns,
     t_key = [''room_id'', ''user_id''], t_fkeys = [], t_checks = [(''membership'', memberships)], t_rows = []\<rparr>"

definition version_table :: sqltable where
  "version_table = \<lparr>t_columns = [\<lparr>col_name = ''version'', col_type = INTEGER, not_null = False\<rparr>], t_key = [''version''],
     t_fkeys = [], t_checks = [], t_rows = []\<rparr>"

definition update_state_store :: "scheme \<Rightarrow> ddl list" where
  "update_state_store sc =
     [CreateTable ''mx_version'' version_table, InsertRow ''mx_version'' [(''version'', SInt 2)]] @
     (if sc \<noteq> Sqlite then
        [AlterType ''mx_user_profile'' ''membership'' TEXT, DropEnumIfExists ''membership'', CreateEnum ''membership'' memberships,
         AlterTypeLower ''mx_user_profile'' ''membership'' (ENUM ''membership'')]
      else
        [CreateTable ''new_mx_user_profile'' new_profile,
         CopyRows ''new_mx_user_profile'' ''mx_user_profile'' profile_columns ''membership'',
         DropTable ''mx_user_profile'', RenameTable ''new_mx_user_profile'' ''mx_user_profile''])"

definition columns_to_adjust :: "(string \<times> string list) list" where
  "columns_to_adjust =
     [(''client'', [''id'', ''homeserver'', ''device_id'', ''next_batch'', ''filter_id'', ''displayname'', ''avatar_url'']),
      (''instance'', [''id'', ''type'', ''primary_user'']),
      (''mx_room_state'', [''room_id'']),
      (''mx_user_profile'', [''room_id'', ''user_id'', ''displayname'', ''avatar_url''])]"

definition varchar_to_text :: "ddl list" where
  "varchar_to_text = concat (map (\<lambda>(t, cs). map (\<lambda>c. AlterType t c TEXT) cs) columns_to_adjust)"

text \<open>\<^verbatim>\<open>fetchval\<close>: the first column of the first row, or \<^verbatim>\<open>None\<close>.\<close>

definition legacy_version :: "sqldb \<Rightarrow> sqlval" where
  "legacy_version d = (case map_of (d_tables d) ''alembic_version'' of
     None \<Rightarrow> SNull | Some t \<Rightarrow> (case t_rows t of [] \<Rightarrow> SNull | r # _ \<Rightarrow> r ''version_num''))"

definition migrate_legacy_to_v1 :: "scheme \<Rightarrow> sqldb \<Rightarrow> exn + sqldb" where
  "migrate_legacy_to_v1 sc d =
     (if legacy_version d \<noteq> SText last_legacy_version
      then Inl (RuntimeError ''Legacy database is not on last version. Please upgrade the old database with alembic or drop it completely first.'')
      else run_ddl ([RenameTable ''plugin'' ''instance''] @ update_state_store sc
             @ (if sc \<noteq> Sqlite then varchar_to_text else []) @ [DropTable ''alembic_version'']) d)"

definition upgrade_v1 :: "scheme \<Rightarrow> sqldb \<Rightarrow> exn + sqldb" where
  "upgrade_v1 sc d = (if in_dict ''alembic_version'' (d_tables d) then migrate_legacy_to_v1 sc d else run_ddl create_v1_tables d)"

section \<open>The second version\<close>

definition upgrade_v2 :: "sqldb \<Rightarrow> exn + sqldb" where
  "upgrade_v2 d = exec_ddl (AddColumn ''instance'' engine_column) d"

text \<open>The upgrade table runs the upgrades in the order of their registration.\<close>

definition upgrade_all :: "scheme \<Rightarrow> sqldb \<Rightarrow> exn + sqldb" where
  "upgrade_all sc d = (case upgrade_v1 sc d of Inl e \<Rightarrow> Inl e | Inr d \<Rightarrow> upgrade_v2 d)"

section \<open>Running statements\<close>

lemma run_ddl_append: "run_ddl (qs @ rs) d = (case run_ddl qs d of Inl e \<Rightarrow> Inl e | Inr d \<Rightarrow> run_ddl rs d)"
  by (induction qs arbitrary: d) (simp_all split: sum.split)

lemma tables_set [simp]: "map_of (d_tables (set_table n t d)) = (map_of (d_tables d))(n \<mapsto> t)"
  "d_enums (set_table n t d) = d_enums d" "dict_ok (d_tables d) \<Longrightarrow> dict_ok (d_tables (set_table n t d))"
  by (simp_all add: set_table_def)

lemma dict_set_same: "map_of d k = Some v \<Longrightarrow> dict_set k v d = d"
  by (induction k v d rule: dict_set.induct) (auto split: if_splits)

lemma dict_set_twice: "dict_set k v (dict_set k u d) = dict_set k v d"
  by (induction k u d rule: dict_set.induct) auto

lemma set_table_same: "map_of (d_tables d) n = Some t \<Longrightarrow> set_table n t d = d"
  by (simp add: set_table_def dict_set_same)

lemma set_table_twice: "set_table n t (set_table n u d) = set_table n t d"
  by (simp add: set_table_def dict_set_twice)

text \<open>Columns that become \<^verbatim>\<open>TEXT\<close>.\<close>

definition all_text :: "string list \<Rightarrow> column list \<Rightarrow> column list" where
  "all_text cs cols = map (\<lambda>x. if col_name x \<in> set cs then x\<lparr>col_type := TEXT\<rparr> else x) cols"

lemma col_names_all_text [simp]: "col_name ` set (all_text cs cols) = col_name ` set cols"
proof -
  have "map col_name (all_text cs cols) = map col_name cols" by (simp add: all_text_def)
  then show ?thesis by (metis set_map)
qed

lemma exec_alter_text:
  assumes "map_of (d_tables d) n = Some t" and "c \<in> col_name ` set (t_columns t)"
  shows "exec_ddl (AlterType n c TEXT) d = Inr (set_table n (t\<lparr>t_columns := all_text [c] (t_columns t)\<rparr>) d)"
  using assms by (simp add: alter_type_def with_table_def castable_def all_text_def list_ex_iff)

lemma run_texts:
  "map_of (d_tables d) n = Some t \<Longrightarrow> set cs \<subseteq> col_name ` set (t_columns t) \<Longrightarrow>
   run_ddl (map (\<lambda>c. AlterType n c TEXT) cs @ qs) d = run_ddl qs (set_table n (t\<lparr>t_columns := all_text cs (t_columns t)\<rparr>) d)"
proof (induction cs arbitrary: d t)
  case Nil
  then show ?case by (simp add: all_text_def set_table_same)
next
  case (Cons c cs)
  let ?t = "t\<lparr>t_columns := all_text [c] (t_columns t)\<rparr>"
  have "all_text cs (all_text [c] (t_columns t)) = all_text (c # cs) (t_columns t)" by (auto simp: all_text_def)
  moreover have "run_ddl (map (\<lambda>c. AlterType n c TEXT) cs @ qs) (set_table n ?t d) =
      run_ddl qs (set_table n (?t\<lparr>t_columns := all_text cs (t_columns ?t)\<rparr>) (set_table n ?t d))"
    using Cons.prems(2) by (intro Cons.IH) simp_all
  ultimately show ?case
    using exec_alter_text [OF Cons.prems(1), of c] Cons.prems(2) by (simp add: set_table_twice)
qed

lemma insert_rows_run:
  "map_of (d_tables d) n = Some t \<Longrightarrow> t_fkeys t = [] \<Longrightarrow> \<forall>r \<in> set rs. \<not> null_violated t r \<and> \<not> check_violated t r \<Longrightarrow>
   distinct (map (row_key t) (t_rows t @ rs)) \<Longrightarrow> insert_rows n rs d = Inr (set_table n (t\<lparr>t_rows := t_rows t @ rs\<rparr>) d)"
proof (induction rs arbitrary: d t)
  case (Cons r rs)
  let ?t = "t\<lparr>t_rows := t_rows t @ [r]\<rparr>"
  have same: "null_violated ?t = null_violated t" "check_violated ?t = check_violated t" "row_key ?t = row_key t"
    by (simp_all add: fun_eq_iff null_violated_def check_violated_def row_key_def)
  have "row_key t r \<notin> row_key t ` set (t_rows t)" using Cons.prems(4) by auto
  moreover have "\<not> fkey_violated d t r" using Cons.prems(2) by (simp add: fkey_violated_def)
  ultimately have "insert_rows n (r # rs) d = insert_rows n rs (set_table n ?t d)"
    using Cons.prems(1,3) by (simp add: with_table_def)
  also have "\<dots> = Inr (set_table n (?t\<lparr>t_rows := t_rows ?t @ rs\<rparr>) (set_table n ?t d))"
    using Cons.prems by (intro Cons.IH) (simp_all add: same)
  finally show ?case by (simp add: set_table_twice)
qed (simp add: set_table_same)

section \<open>A new database\<close>


section \<open>A database of the old program\<close>

text \<open>
  The tables of the last version of the old program: clients, plugin instances, room states and user
  profiles. Memberships are in upper case, and only the profiles use the enumeration \<^verbatim>\<open>membership\<close>.
\<close>

definition legacy_ok :: "sqldb \<Rightarrow> sqltable \<Rightarrow> sqltable \<Rightarrow> sqltable \<Rightarrow> sqltable \<Rightarrow> bool" where
  "legacy_ok d tc tp tr tu \<longleftrightarrow> dict_ok (d_tables d)
     \<and> map_of (d_tables d) ''client'' = Some tc \<and> map_of (d_tables d) ''plugin'' = Some tp
     \<and> map_of (d_tables d) ''mx_room_state'' = Some tr \<and> map_of (d_tables d) ''mx_user_profile'' = Some tu
     \<and> legacy_version d = SText last_legacy_version
     \<and> (\<forall>n \<in> {''instance'', ''mx_version'', ''new_mx_user_profile''}. \<not> in_dict n (d_tables d))
     \<and> {''id'', ''homeserver'', ''device_id'', ''next_batch'', ''filter_id'', ''displayname'', ''avatar_url''} \<subseteq> col_name ` set (t_columns tc)
     \<and> {''id'', ''type'', ''primary_user''} \<subseteq> col_name ` set (t_columns tp) \<and> ''database_engine'' \<notin> col_name ` set (t_columns tp)
     \<and> ''room_id'' \<in> col_name ` set (t_columns tr) \<and> set profile_columns \<subseteq> col_name ` set (t_columns tu)
     \<and> (\<forall>r \<in> set (t_rows tu). sql_lower (r ''membership'') \<in> SText ` set memberships)
     \<and> distinct (map (\<lambda>r. [r ''room_id'', r ''user_id'']) (t_rows tu))
     \<and> (\<forall>(n, t) \<in> set (d_tables d). \<forall>c \<in> set (t_columns t).
          col_type c = ENUM ''membership'' \<longrightarrow> n = ''mx_user_profile'' \<and> col_name c = ''membership'')"

lemma legacy_version_table: "legacy_version d = SText v \<Longrightarrow> in_dict ''alembic_version'' (d_tables d)"
  by (auto simp: legacy_version_def in_dict_def split: option.splits)

definition renamed :: "sqltable \<Rightarrow> sqldb \<Rightarrow> sqldb" where
  "renamed tp d = d\<lparr>d_tables := dict_set ''instance'' tp (dict_del ''plugin'' (d_tables d))\<rparr>"

definition versioned :: "sqldb \<Rightarrow> sqldb" where
  "versioned d = set_table ''mx_version'' (version_table\<lparr>t_rows := [\<lambda>c. if c = ''version'' then SInt 2 else SNull]\<rparr>) d"

lemma rename_step:
  assumes "legacy_ok d tc tp tr tu"
  shows "exec_ddl (RenameTable ''plugin'' ''instance'') d = Inr (renamed tp d)"
  using assms by (simp add: legacy_ok_def with_table_def renamed_def)

lemma version_steps:
  assumes "\<not> in_dict ''mx_version'' (d_tables d)"
  shows "run_ddl ([CreateTable ''mx_version'' version_table, InsertRow ''mx_version'' [(''version'', SInt 2)]] @ qs) d = run_ddl qs (versioned d)"
proof -
  have "(\<lambda>c. case if c = ''version'' then Some (SInt 2) else None of Some v \<Rightarrow> v | None \<Rightarrow> SNull) = (\<lambda>c. if c = ''version'' then SInt 2 else SNull)"
    by auto
  then show ?thesis
    using assms by (simp add: with_table_def versioned_def version_table_def null_violated_def null_in_def check_violated_def
        fkey_violated_def set_table_twice)
qed

text \<open>The profiles on PostgreSQL: the type of the column is replaced.\<close>

definition lowered :: "sqlrow \<Rightarrow> sqlrow" where
  "lowered r = r(''membership'' := sql_lower (r ''membership''))"

definition pg_profile :: "sqltable \<Rightarrow> sqltable" where
  "pg_profile tu = tu\<lparr>t_columns := map (\<lambda>x. if col_name x = ''membership'' then x\<lparr>col_type := ENUM ''membership''\<rparr> else x)
       (all_text [''membership''] (t_columns tu)), t_rows := map lowered (t_rows tu)\<rparr>"

lemma pg_profile_steps:
  assumes tu: "map_of (d_tables d) ''mx_user_profile'' = Some tu" and col: "''membership'' \<in> col_name ` set (t_columns tu)"
    and ok: "dict_ok (d_tables d)" and rows: "\<forall>r \<in> set (t_rows tu). sql_lower (r ''membership'') \<in> SText ` set memberships"
    and enum: "\<forall>(n, t) \<in> set (d_tables d). \<forall>c \<in> set (t_columns t).
          col_type c = ENUM ''membership'' \<longrightarrow> n = ''mx_user_profile'' \<and> col_name c = ''membership''"
  obtains es where "run_ddl ([AlterType ''mx_user_profile'' ''membership'' TEXT, DropEnumIfExists ''membership'', CreateEnum ''membership'' memberships,
         AlterTypeLower ''mx_user_profile'' ''membership'' (ENUM ''membership'')] @ qs) d =
     run_ddl qs (set_table ''mx_user_profile'' (pg_profile tu) (d\<lparr>d_enums := es\<rparr>))"
proof -
  let ?t = "tu\<lparr>t_columns := all_text [''membership''] (t_columns tu)\<rparr>"
  let ?d = "set_table ''mx_user_profile'' ?t d"
  have one: "exec_ddl (AlterType ''mx_user_profile'' ''membership'' TEXT) d = Inr ?d" by (rule exec_alter_text [OF tu col])
  have unused: "\<not> uses_enum ?d ''membership''"
  proof
    assume "uses_enum ?d ''membership''"
    then obtain n t c where c: "(n, t) \<in> set (d_tables ?d)" "c \<in> set (t_columns t)" "col_type c = ENUM ''membership''"
      by (auto simp: uses_enum_def list_ex_iff)
    have dok: "distinct (map fst (d_tables ?d))" using ok by (simp add: dict_ok_def [symmetric])
    have m: "map_of (d_tables ?d) n = Some t" by (rule map_of_is_SomeI [OF dok c(1)])
    show False
    proof (cases "n = ''mx_user_profile''")
      case True
      then have "t = ?t" using m by simp
      then have "c \<in> set (all_text [''membership''] (t_columns tu))" using c(2) by simp
      then have "c \<in> set (t_columns tu)" "col_name c \<noteq> ''membership''" using c(3) by (auto simp: all_text_def split: if_splits)
      then show False using enum map_of_SomeD [OF tu] c(3) by blast
    next
      case False
      then have "map_of (d_tables d) n = Some t" using m by simp
      then have "(n, t) \<in> set (d_tables d)" by (rule map_of_SomeD)
      then show False using enum c(2,3) False by blast
    qed
  qed
  obtain es0 where two: "exec_ddl (DropEnumIfExists ''membership'') ?d = Inr (?d\<lparr>d_enums := es0\<rparr>)" "map_of es0 ''membership'' = None"
  proof (cases "in_dict ''membership'' (d_enums d)")
    case True
    then show thesis using that [of "dict_del ''membership'' (d_enums d)"] unused by simp
  next
    case False
    then show thesis using that [of "d_enums d"] by (simp add: in_dict_def)
  qed
  let ?es = "dict_set ''membership'' memberships es0"
  have three: "exec_ddl (CreateEnum ''membership'' memberships) (?d\<lparr>d_enums := es0\<rparr>) = Inr (?d\<lparr>d_enums := ?es\<rparr>)"
    using two(2) by (simp add: in_dict_def)
  have fits: "\<not> list_ex (\<lambda>r. \<not> castable (?d\<lparr>d_enums := ?es\<rparr>) (ENUM ''membership'') (sql_lower (r ''membership''))) (t_rows ?t)"
    using rows by (simp add: list_ex_iff castable_def)
  have four: "exec_ddl (AlterTypeLower ''mx_user_profile'' ''membership'' (ENUM ''membership'')) (?d\<lparr>d_enums := ?es\<rparr>) =
      Inr (set_table ''mx_user_profile'' (pg_profile tu) (d\<lparr>d_enums := ?es\<rparr>))"
  proof -
    have "map_of (d_tables (?d\<lparr>d_enums := ?es\<rparr>)) ''mx_user_profile'' = Some ?t" by simp
    moreover have "(\<lambda>r. r(''membership'' := sql_lower (r ''membership''))) = lowered" by (simp add: fun_eq_iff lowered_def)
    moreover have "set_table n t (set_table n u d\<lparr>d_enums := e\<rparr>) = set_table n t (d\<lparr>d_enums := e\<rparr>)" for n t u e
      by (simp add: set_table_def dict_set_twice)
    ultimately show ?thesis using fits col by (simp add: alter_type_def with_table_def pg_profile_def del: list_ex_iff)
  qed
  show thesis using that [of ?es] by (simp add: one two three four del: exec_ddl.simps)
qed

text \<open>The profiles on SQLite: the rows are copied into a new table.\<close>

definition copied :: "sqlrow \<Rightarrow> sqlrow" where
  "copied r = (\<lambda>c. if c \<notin> set profile_columns then SNull else if c = ''membership'' then sql_lower (r c) else r c)"

definition sqlite_profile :: "sqltable \<Rightarrow> sqltable" where
  "sqlite_profile tu = new_profile\<lparr>t_rows := map copied (t_rows tu)\<rparr>"

lemma sqlite_profile_steps:
  assumes tu: "map_of (d_tables d) ''mx_user_profile'' = Some tu" and new: "\<not> in_dict ''new_mx_user_profile'' (d_tables d)"
    and ok: "dict_ok (d_tables d)" and rows: "\<forall>r \<in> set (t_rows tu). sql_lower (r ''membership'') \<in> SText ` set memberships"
    and keys: "distinct (map (\<lambda>r. [r ''room_id'', r ''user_id'']) (t_rows tu))"
  obtains d' where "run_ddl ([CreateTable ''new_mx_user_profile'' new_profile,
         CopyRows ''new_mx_user_profile'' ''mx_user_profile'' profile_columns ''membership'',
         DropTable ''mx_user_profile'', RenameTable ''new_mx_user_profile'' ''mx_user_profile''] @ qs) d = run_ddl qs d'"
    "map_of (d_tables d') = (map_of (d_tables d))(''mx_user_profile'' \<mapsto> sqlite_profile tu)" "dict_ok (d_tables d')"
proof -
  let ?n = "''new_mx_user_profile''" and ?u = "''mx_user_profile''"
  let ?d1 = "set_table ?n new_profile d" and ?d2 = "set_table ?n (sqlite_profile tu) d"
  let ?d3 = "?d2\<lparr>d_tables := dict_del ?u (d_tables ?d2)\<rparr>"
  let ?d4 = "?d3\<lparr>d_tables := dict_set ?u (sqlite_profile tu) (dict_del ?n (d_tables ?d3))\<rparr>"
  have one: "exec_ddl (CreateTable ?n new_profile) d = Inr ?d1" using new by simp
  have two: "exec_ddl (CopyRows ?n ?u profile_columns ''membership'') ?d1 = Inr ?d2"
  proof -
    have tu1: "map_of (d_tables ?d1) ?u = Some tu" using tu by simp
    have "\<forall>r \<in> set (map copied (t_rows tu)). \<not> null_violated new_profile r \<and> \<not> check_violated new_profile r"
    proof
      fix r assume "r \<in> set (map copied (t_rows tu))"
      then obtain m where m: "r ''membership'' = SText m" "m \<in> set memberships"
        using rows by (auto simp: copied_def profile_columns_def)
      show "\<not> null_violated new_profile r \<and> \<not> check_violated new_profile r"
        using m by (auto simp: null_violated_def null_in_def check_violated_def new_profile_def list_ex_iff)
    qed
    moreover have "row_key new_profile (copied r) = [r ''room_id'', r ''user_id'']" for r
      by (simp add: row_key_def new_profile_def copied_def profile_columns_def)
    then have "distinct (map (row_key new_profile) (t_rows new_profile @ map copied (t_rows tu)))"
      using keys by (simp add: comp_def new_profile_def)
    ultimately have "insert_rows ?n (map copied (t_rows tu)) ?d1 = Inr (set_table ?n (new_profile\<lparr>t_rows := t_rows new_profile @ map copied (t_rows tu)\<rparr>) ?d1)"
      by (intro insert_rows_run) (simp_all add: new_profile_def)
    then have "insert_rows ?n (map copied (t_rows tu)) ?d1 = Inr ?d2"
      by (simp add: set_table_twice sqlite_profile_def new_profile_def)
    moreover have "exec_ddl (CopyRows ?n ?u profile_columns ''membership'') ?d1 = insert_rows ?n (map copied (t_rows tu)) ?d1"
      unfolding exec_ddl.simps with_table_def tu1 option.case copied_def [abs_def] by simp
    ultimately show ?thesis by simp
  qed
  have "map_of (d_tables ?d2) ?u = Some tu" using tu by simp
  then have three: "exec_ddl (DropTable ?u) ?d2 = Inr ?d3" by (simp add: with_table_def)
  have four: "exec_ddl (RenameTable ?n ?u) ?d3 = Inr ?d4" by (simp add: with_table_def in_dict_def)
  have none: "map_of (d_tables d) ?n = None" using new by (simp add: in_dict_def)
  show thesis
  proof (rule that)
    show "run_ddl ([CreateTable ?n new_profile, CopyRows ?n ?u profile_columns ''membership'', DropTable ?u, RenameTable ?n ?u] @ qs) d = run_ddl qs ?d4"
      by (simp only: append_Cons append_Nil run_ddl.simps one two three four sum.case)
    show "map_of (d_tables ?d4) = (map_of (d_tables d))(?u \<mapsto> sqlite_profile tu)" using none by (auto simp: fun_eq_iff)
    show "dict_ok (d_tables ?d4)" using ok by (simp add: dict_ok_set dict_ok_del)
  qed
qed

text \<open>The state store on either engine.\<close>

definition new_user_profile :: "scheme \<Rightarrow> sqltable \<Rightarrow> sqltable" where
  "new_user_profile sc tu = (if sc = Sqlite then sqlite_profile tu else pg_profile tu)"

lemma state_store_steps:
  assumes l: "legacy_ok d tc tp tr tu"
  obtains d' where "run_ddl ([RenameTable ''plugin'' ''instance''] @ update_state_store sc @ qs) d = run_ddl qs d'"
    "map_of (d_tables d') = (map_of (d_tables d))(''plugin'' := None, ''instance'' \<mapsto> tp,
       ''mx_version'' \<mapsto> version_table\<lparr>t_rows := [\<lambda>c. if c = ''version'' then SInt 2 else SNull]\<rparr>,
       ''mx_user_profile'' \<mapsto> new_user_profile sc tu)"
    "dict_ok (d_tables d')"
proof -
  let ?d = "versioned (renamed tp d)"
  have ok: "dict_ok (d_tables ?d)" using l by (simp add: versioned_def renamed_def legacy_ok_def dict_ok_set dict_ok_del)
  have tabs: "map_of (d_tables ?d) = (map_of (d_tables d))(''plugin'' := None, ''instance'' \<mapsto> tp,
       ''mx_version'' \<mapsto> version_table\<lparr>t_rows := [\<lambda>c. if c = ''version'' then SInt 2 else SNull]\<rparr>)"
    by (simp add: versioned_def renamed_def)
  have start: "run_ddl ([RenameTable ''plugin'' ''instance''] @ [CreateTable ''mx_version'' version_table,
      InsertRow ''mx_version'' [(''version'', SInt 2)]] @ rs) d = run_ddl rs ?d" for rs
  proof -
    have "\<not> in_dict ''mx_version'' (d_tables (renamed tp d))" using l by (simp add: legacy_ok_def renamed_def in_dict_def)
    from version_steps [OF this, of rs] show ?thesis
      by (simp only: append_Cons append_Nil run_ddl.simps(2) rename_step [OF l] sum.case)
  qed
  have tu: "map_of (d_tables ?d) ''mx_user_profile'' = Some tu" using l by (simp add: tabs legacy_ok_def)
  have rows: "\<forall>r \<in> set (t_rows tu). sql_lower (r ''membership'') \<in> SText ` set memberships" using l by (simp add: legacy_ok_def)
  have enum: "\<forall>(n, t) \<in> set (d_tables ?d). \<forall>c \<in> set (t_columns t).
      col_type c = ENUM ''membership'' \<longrightarrow> n = ''mx_user_profile'' \<and> col_name c = ''membership''"
  proof clarify
    fix n t c
    assume nt: "(n, t) \<in> set (d_tables ?d)" and c: "c \<in> set (t_columns t)" "col_type c = ENUM ''membership''"
    have old: "n = ''mx_user_profile'' \<and> col_name c = ''membership''" if "(n', t) \<in> set (d_tables d)" "n' = n \<or> n' = ''plugin''" for n'
      using l that c unfolding legacy_ok_def by fastforce
    have "distinct (map fst (d_tables ?d))" using ok by (simp add: dict_ok_def)
    from map_of_is_SomeI [OF this nt] have m: "map_of (d_tables ?d) n = Some t" .
    show "n = ''mx_user_profile'' \<and> col_name c = ''membership''"
    proof (cases "n = ''mx_version''")
      case True
      then show ?thesis using m c by (auto simp: tabs version_table_def)
    next
      case other: False
      show ?thesis
      proof (cases "n = ''instance''")
        case True
        then have "map_of (d_tables d) ''plugin'' = Some t" using m l by (simp add: tabs legacy_ok_def)
        from old [OF map_of_SomeD [OF this]] show ?thesis by simp
      next
        case False
        then have "map_of (d_tables d) n = Some t" using m other by (simp add: tabs split: if_splits)
        from old [OF map_of_SomeD [OF this]] show ?thesis by simp
      qed
    qed
  qed
  show thesis
  proof (cases "sc = Sqlite")
    case True
    have new: "\<not> in_dict ''new_mx_user_profile'' (d_tables ?d)" using l by (simp add: in_dict_def tabs legacy_ok_def)
    have keys: "distinct (map (\<lambda>r. [r ''room_id'', r ''user_id'']) (t_rows tu))" using l by (simp add: legacy_ok_def)
    from sqlite_profile_steps [OF tu new ok rows keys, of qs] obtain d' where d': "run_ddl ([CreateTable ''new_mx_user_profile'' new_profile,
         CopyRows ''new_mx_user_profile'' ''mx_user_profile'' profile_columns ''membership'',
         DropTable ''mx_user_profile'', RenameTable ''new_mx_user_profile'' ''mx_user_profile''] @ qs) ?d = run_ddl qs d'"
      "map_of (d_tables d') = (map_of (d_tables ?d))(''mx_user_profile'' \<mapsto> sqlite_profile tu)" "dict_ok (d_tables d')" by metis
    show thesis
    proof (rule that [OF _ _ d'(3)])
      show "run_ddl ([RenameTable ''plugin'' ''instance''] @ update_state_store sc @ qs) d = run_ddl qs d'"
        using start d'(1) True by (simp add: update_state_store_def)
    qed (simp add: d'(2) tabs new_user_profile_def True)
  next
    case False
    have col: "''membership'' \<in> col_name ` set (t_columns tu)" using l by (auto simp: legacy_ok_def profile_columns_def)
    from pg_profile_steps [OF tu col ok rows enum, of qs] obtain es where es: "run_ddl ([AlterType ''mx_user_profile'' ''membership'' TEXT,
         DropEnumIfExists ''membership'', CreateEnum ''membership'' memberships,
         AlterTypeLower ''mx_user_profile'' ''membership'' (ENUM ''membership'')] @ qs) ?d =
       run_ddl qs (set_table ''mx_user_profile'' (pg_profile tu) (?d\<lparr>d_enums := es\<rparr>))" by metis
    show thesis
    proof (rule that [of "set_table ''mx_user_profile'' (pg_profile tu) (?d\<lparr>d_enums := es\<rparr>)"])
      show "run_ddl ([RenameTable ''plugin'' ''instance''] @ update_state_store sc @ qs) d =
          run_ddl qs (set_table ''mx_user_profile'' (pg_profile tu) (?d\<lparr>d_enums := es\<rparr>))"
        using start es False by (simp add: update_state_store_def)
      show "dict_ok (d_tables (set_table ''mx_user_profile'' (pg_profile tu) (?d\<lparr>d_enums := es\<rparr>)))"
        by (intro tables_set(3)) (simp add: ok)
    qed (simp add: tabs new_user_profile_def False)
  qed
qed

text \<open>The columns that become \<^verbatim>\<open>TEXT\<close> on PostgreSQL.\<close>

definition adjusted :: "scheme \<Rightarrow> string \<Rightarrow> sqltable \<Rightarrow> sqltable" where
  "adjusted sc n t = (if sc = Sqlite then t
     else t\<lparr>t_columns := all_text (dict_get columns_to_adjust n []) (t_columns t)\<rparr>)"

lemma varchar_steps:
  assumes tabs: "map_of (d_tables d) ''client'' = Some tc" "map_of (d_tables d) ''instance'' = Some ti"
      "map_of (d_tables d) ''mx_room_state'' = Some tr" "map_of (d_tables d) ''mx_user_profile'' = Some tu"
    and cols: "\<forall>(n, t) \<in> {(''client'', tc), (''instance'', ti), (''mx_room_state'', tr), (''mx_user_profile'', tu)}.
      set (dict_get columns_to_adjust n []) \<subseteq> col_name ` set (t_columns t)"
    and ok: "dict_ok (d_tables d)"
  obtains d' where "run_ddl ((if sc \<noteq> Sqlite then varchar_to_text else []) @ qs) d = run_ddl qs d'"
    "map_of (d_tables d') = (map_of (d_tables d))(''client'' \<mapsto> adjusted sc ''client'' tc, ''instance'' \<mapsto> adjusted sc ''instance'' ti,
       ''mx_room_state'' \<mapsto> adjusted sc ''mx_room_state'' tr, ''mx_user_profile'' \<mapsto> adjusted sc ''mx_user_profile'' tu)"
    "dict_ok (d_tables d')"
proof (cases "sc = Sqlite")
  case True
  have "(map_of (d_tables d))(''client'' \<mapsto> tc, ''instance'' \<mapsto> ti, ''mx_room_state'' \<mapsto> tr, ''mx_user_profile'' \<mapsto> tu) = map_of (d_tables d)"
    using tabs by (simp add: fun_eq_iff)
  then show thesis using that [of d] ok True by (simp add: adjusted_def)
next
  case False
  let ?cs = "\<lambda>n. dict_get columns_to_adjust n []" and ?alter = "\<lambda>n. map (\<lambda>c. AlterType n c TEXT) (dict_get columns_to_adjust n [])"
  let ?set = "\<lambda>n t. set_table n (t\<lparr>t_columns := all_text (?cs n) (t_columns t)\<rparr>)"
  let ?d = "?set ''mx_user_profile'' tu (?set ''mx_room_state'' tr (?set ''instance'' ti (?set ''client'' tc d)))"
  have list: "varchar_to_text = ?alter ''client'' @ ?alter ''instance'' @ ?alter ''mx_room_state'' @ ?alter ''mx_user_profile''"
    by (simp add: varchar_to_text_def columns_to_adjust_def dict_get_def)
  have "run_ddl (varchar_to_text @ qs) d = run_ddl qs ?d"
    unfolding list append_assoc
    by (subst run_texts [where t = tc], simp_all only: tabs tables_set map_upd_Some_unfold, use cols in simp,
        subst run_texts [where t = ti], simp add: tabs, use cols in simp,
        subst run_texts [where t = tr], simp add: tabs, use cols in simp,
        subst run_texts [where t = tu], simp add: tabs, use cols in simp, rule refl)
  then show thesis using that [of ?d] ok False by (simp add: adjusted_def)
qed

lemma profile_rows:
  "list_all2 (\<lambda>r r'. \<forall>c \<in> set profile_columns. r' c = (if c = ''membership'' then sql_lower (r c) else r c))
     (t_rows tu) (t_rows (adjusted sc ''mx_user_profile'' (new_user_profile sc tu)))"
  by (auto simp: adjusted_def new_user_profile_def sqlite_profile_def pg_profile_def copied_def lowered_def list_all2_conv_all_nth)

lemma all_text_texts: "c \<in> set (all_text cs cols) \<Longrightarrow> col_name c \<in> set cs \<Longrightarrow> col_type c = TEXT"
  by (auto simp: all_text_def split: if_splits)

lemma names_of_pg_profile: "col_name ` set (t_columns (pg_profile tu)) = col_name ` set (t_columns tu)"
proof -
  have "map col_name (t_columns (pg_profile tu)) = map col_name (t_columns tu)" by (simp add: pg_profile_def all_text_def)
  then show ?thesis by (metis set_map)
qed

lemma legacy_upgrade:
  assumes l: "legacy_ok d tc tp tr tu"
  obtains d' where "upgrade_all sc d = Inr d'"
    "map_of (d_tables d') = (map_of (d_tables d))(''plugin'' := None, ''alembic_version'' := None,
       ''mx_version'' \<mapsto> version_table\<lparr>t_rows := [\<lambda>c. if c = ''version'' then SInt 2 else SNull]\<rparr>,
       ''client'' \<mapsto> adjusted sc ''client'' tc, ''mx_room_state'' \<mapsto> adjusted sc ''mx_room_state'' tr,
       ''mx_user_profile'' \<mapsto> adjusted sc ''mx_user_profile'' (new_user_profile sc tu),
       ''instance'' \<mapsto> (adjusted sc ''instance'' tp)\<lparr>t_columns := t_columns (adjusted sc ''instance'' tp) @ [engine_column],
          t_rows := map (\<lambda>r. r(''database_engine'' := SNull)) (t_rows tp)\<rparr>)"
proof -
  let ?rest = "(if sc \<noteq> Sqlite then varchar_to_text else []) @ [DropTable ''alembic_version'']"
  obtain d1 where d1: "run_ddl ([RenameTable ''plugin'' ''instance''] @ update_state_store sc @ ?rest) d = run_ddl ?rest d1"
    "map_of (d_tables d1) = (map_of (d_tables d))(''plugin'' := None, ''instance'' \<mapsto> tp,
       ''mx_version'' \<mapsto> version_table\<lparr>t_rows := [\<lambda>c. if c = ''version'' then SInt 2 else SNull]\<rparr>,
       ''mx_user_profile'' \<mapsto> new_user_profile sc tu)" "dict_ok (d_tables d1)"
    by (rule state_store_steps [OF l])
  have tabs: "map_of (d_tables d1) ''client'' = Some tc" "map_of (d_tables d1) ''instance'' = Some tp"
    "map_of (d_tables d1) ''mx_room_state'' = Some tr" "map_of (d_tables d1) ''mx_user_profile'' = Some (new_user_profile sc tu)"
    using l by (simp_all add: d1(2) legacy_ok_def)
  have "set profile_columns \<subseteq> col_name ` set (t_columns (new_user_profile sc tu))"
    using l by (simp add: new_user_profile_def names_of_pg_profile legacy_ok_def) (auto simp: sqlite_profile_def new_profile_def image_image)
  then have cols: "\<forall>(n, t) \<in> {(''client'', tc), (''instance'', tp), (''mx_room_state'', tr), (''mx_user_profile'', new_user_profile sc tu)}.
      set (dict_get columns_to_adjust n []) \<subseteq> col_name ` set (t_columns t)"
    using l by (simp add: legacy_ok_def columns_to_adjust_def dict_get_def profile_columns_def) (intro conjI subsetI; auto)
  obtain d2 where d2: "run_ddl ((if sc \<noteq> Sqlite then varchar_to_text else []) @ [DropTable ''alembic_version'']) d1 = run_ddl [DropTable ''alembic_version''] d2"
    "map_of (d_tables d2) = (map_of (d_tables d1))(''client'' \<mapsto> adjusted sc ''client'' tc, ''instance'' \<mapsto> adjusted sc ''instance'' tp,
       ''mx_room_state'' \<mapsto> adjusted sc ''mx_room_state'' tr, ''mx_user_profile'' \<mapsto> adjusted sc ''mx_user_profile'' (new_user_profile sc tu))"
    by (rule varchar_steps [OF tabs cols d1(3)])
  have alembic: "in_dict ''alembic_version'' (d_tables d)" using l by (intro legacy_version_table) (simp add: legacy_ok_def)
  then obtain ta where ta: "map_of (d_tables d2) ''alembic_version'' = Some ta" by (auto simp: d2(2) d1(2) in_dict_def)
  let ?d3 = "d2\<lparr>d_tables := dict_del ''alembic_version'' (d_tables d2)\<rparr>"
  have v1: "upgrade_v1 sc d = Inr ?d3"
  proof -
    have "run_ddl [DropTable ''alembic_version''] d2 = Inr ?d3" by (simp add: with_table_def ta)
    then show ?thesis using alembic l d1(1) d2(1) by (simp add: upgrade_v1_def migrate_legacy_to_v1_def legacy_ok_def)
  qed
  let ?i = "adjusted sc ''instance'' tp"
  have inst: "map_of (d_tables ?d3) ''instance'' = Some ?i" by (simp add: d2(2))
  have "col_name ` set (t_columns ?i) = col_name ` set (t_columns tp)" by (simp add: adjusted_def)
  then have "''database_engine'' \<notin> col_name ` set (t_columns ?i)" using l by (simp add: legacy_ok_def)
  moreover have "t_rows ?i = t_rows tp" by (simp add: adjusted_def)
  ultimately have v2: "upgrade_v2 ?d3 = Inr (set_table ''instance'' (?i\<lparr>t_columns := t_columns ?i @ [engine_column],
      t_rows := map (\<lambda>r. r(''database_engine'' := SNull)) (t_rows tp)\<rparr>) ?d3)"
    unfolding upgrade_v2_def exec_ddl.simps with_table_def inst option.case by (simp add: engine_column_def)
  have "upgrade_all sc d = Inr (set_table ''instance'' (?i\<lparr>t_columns := t_columns ?i @ [engine_column],
      t_rows := map (\<lambda>r. r(''database_engine'' := SNull)) (t_rows tp)\<rparr>) ?d3)"
    by (simp only: upgrade_all_def v1 v2 sum.case)
  then show thesis by (rule that) (simp add: d2(2) d1(2) fun_eq_iff)
qed

text \<open>
  C12. The upgrade from the old program. A database that is not on the last version of the old program is refused. From that
  version the upgrade succeeds on either engine and keeps the data: clients and room states keep their rows, the plugin
  instances move to the table \<^verbatim>\<open>instance\<close> and get an empty engine, user profiles keep every column with the membership
  in lower case. On PostgreSQL the listed columns are of type \<^verbatim>\<open>TEXT\<close> afterwards. All other tables but the version tables are as before.
\<close>

theorem legacy_upgrade_keeps_data:
  "(in_dict ''alembic_version'' (d_tables d) \<and> legacy_version d \<noteq> SText last_legacy_version \<longrightarrow> (\<exists>m. upgrade_all sc d = Inl (RuntimeError m)))
   \<and> (legacy_ok d tc tp tr tu \<longrightarrow> (\<exists>d' tu'. upgrade_all sc d = Inr d'
       \<and> map_option t_rows (map_of (d_tables d') ''client'') = Some (t_rows tc)
       \<and> map_option t_rows (map_of (d_tables d') ''mx_room_state'') = Some (t_rows tr)
       \<and> map_option t_rows (map_of (d_tables d') ''instance'') = Some (map (\<lambda>r. r(''database_engine'' := SNull)) (t_rows tp))
       \<and> map_of (d_tables d') ''mx_user_profile'' = Some tu'
       \<and> list_all2 (\<lambda>r r'. \<forall>c \<in> set profile_columns. r' c = (if c = ''membership'' then sql_lower (r c) else r c)) (t_rows tu) (t_rows tu')
       \<and> \<not> in_dict ''alembic_version'' (d_tables d') \<and> \<not> in_dict ''plugin'' (d_tables d')
       \<and> (sc = Postgres \<longrightarrow> (\<forall>(n, cs) \<in> set columns_to_adjust. \<exists>t. map_of (d_tables d') n = Some t
            \<and> (\<forall>c \<in> set (t_columns t). col_name c \<in> set cs \<longrightarrow> col_type c = TEXT)))
       \<and> (\<forall>n. n \<notin> {''client'', ''mx_room_state'', ''instance'', ''mx_user_profile'', ''alembic_version'', ''plugin'', ''mx_version''} \<longrightarrow>
            map_of (d_tables d') n = map_of (d_tables d) n)))"
proof (intro conjI impI)
  assume "in_dict ''alembic_version'' (d_tables d) \<and> legacy_version d \<noteq> SText last_legacy_version"
  then show "\<exists>m. upgrade_all sc d = Inl (RuntimeError m)" by (simp add: upgrade_all_def upgrade_v1_def migrate_legacy_to_v1_def)
next
  assume l: "legacy_ok d tc tp tr tu"
  obtain d' where d': "upgrade_all sc d = Inr d'"
    "map_of (d_tables d') = (map_of (d_tables d))(''plugin'' := None, ''alembic_version'' := None,
       ''mx_version'' \<mapsto> version_table\<lparr>t_rows := [\<lambda>c. if c = ''version'' then SInt 2 else SNull]\<rparr>,
       ''client'' \<mapsto> adjusted sc ''client'' tc, ''mx_room_state'' \<mapsto> adjusted sc ''mx_room_state'' tr,
       ''mx_user_profile'' \<mapsto> adjusted sc ''mx_user_profile'' (new_user_profile sc tu),
       ''instance'' \<mapsto> (adjusted sc ''instance'' tp)\<lparr>t_columns := t_columns (adjusted sc ''instance'' tp) @ [engine_column],
          t_rows := map (\<lambda>r. r(''database_engine'' := SNull)) (t_rows tp)\<rparr>)"
    by (rule legacy_upgrade [OF l])
  have texts: "\<forall>(n, cs) \<in> set columns_to_adjust. \<exists>t. map_of (d_tables d') n = Some t
      \<and> (\<forall>c \<in> set (t_columns t). col_name c \<in> set cs \<longrightarrow> col_type c = TEXT)" if "sc = Postgres"
  proof -
    have adj: "col_type c = TEXT" if "c \<in> set (t_columns (adjusted Postgres n t))" "col_name c \<in> set (dict_get columns_to_adjust n [])" for c n t
      using that all_text_texts by (auto simp: adjusted_def)
    have cs: "cs = dict_get columns_to_adjust n []" if "(n, cs) \<in> set columns_to_adjust" for n cs
      using that by (auto simp: columns_to_adjust_def dict_get_def)
    have "\<exists>t. map_of (d_tables d') n = Some t \<and> (\<forall>c \<in> set (t_columns t). col_name c \<in> set cs \<longrightarrow> col_type c = TEXT)"
      if "(n, cs) \<in> set columns_to_adjust" for n cs
    proof -
      have "n \<in> {''client'', ''instance'', ''mx_room_state'', ''mx_user_profile''}" using that by (auto simp: columns_to_adjust_def)
      then show ?thesis using adj cs [OF that] \<open>sc = Postgres\<close> by (auto simp: d'(2) engine_column_def)
    qed
    then show ?thesis by blast
  qed
  show "\<exists>d' tu'. upgrade_all sc d = Inr d'
       \<and> map_option t_rows (map_of (d_tables d') ''client'') = Some (t_rows tc)
       \<and> map_option t_rows (map_of (d_tables d') ''mx_room_state'') = Some (t_rows tr)
       \<and> map_option t_rows (map_of (d_tables d') ''instance'') = Some (map (\<lambda>r. r(''database_engine'' := SNull)) (t_rows tp))
       \<and> map_of (d_tables d') ''mx_user_profile'' = Some tu'
       \<and> list_all2 (\<lambda>r r'. \<forall>c \<in> set profile_columns. r' c = (if c = ''membership'' then sql_lower (r c) else r c)) (t_rows tu) (t_rows tu')
       \<and> \<not> in_dict ''alembic_version'' (d_tables d') \<and> \<not> in_dict ''plugin'' (d_tables d')
       \<and> (sc = Postgres \<longrightarrow> (\<forall>(n, cs) \<in> set columns_to_adjust. \<exists>t. map_of (d_tables d') n = Some t
            \<and> (\<forall>c \<in> set (t_columns t). col_name c \<in> set cs \<longrightarrow> col_type c = TEXT)))
       \<and> (\<forall>n. n \<notin> {''client'', ''mx_room_state'', ''instance'', ''mx_user_profile'', ''alembic_version'', ''plugin'', ''mx_version''} \<longrightarrow>
            map_of (d_tables d') n = map_of (d_tables d) n)"
    using d'(1) texts profile_rows [of tu sc]
    by (intro exI [of _ d'] exI [of _ "adjusted sc ''mx_user_profile'' (new_user_profile sc tu)"])
      (simp add: d'(2) in_dict_def adjusted_def)
qed

section \<open>Examples\<close>


definition ex_legacy_table :: "string list \<Rightarrow> sqlrow list \<Rightarrow> sqltable" where
  "ex_legacy_table cs rs = \<lparr>t_columns = map (\<lambda>c. \<lparr>col_name = c, col_type = (if c = ''membership'' then ENUM ''membership'' else VARCHAR),
     not_null = False\<rparr>) cs, t_key = [], t_fkeys = [], t_checks = [], t_rows = rs\<rparr>"

definition ex_client_tab :: sqltable where
  "ex_client_tab = ex_legacy_table client_columns [\<lambda>c. if c = ''id'' then SText ''@a:b'' else SNull]"

definition ex_plugin_tab :: sqltable where
  "ex_plugin_tab = ex_legacy_table [''id'', ''type'', ''enabled'', ''primary_user'', ''config'']
     [\<lambda>c. if c = ''id'' then SText ''i'' else if c = ''primary_user'' then SText ''@a:b'' else SNull]"

definition ex_room_tab :: sqltable where
  "ex_room_tab = ex_legacy_table [''room_id''] []"

definition ex_profile_tab :: sqltable where
  "ex_profile_tab = ex_legacy_table profile_columns [\<lambda>c. if c = ''membership'' then SText ''JOIN'' else SText ''x'']"

definition ex_legacy :: sqldb where
  "ex_legacy = \<lparr>d_tables = [(''client'', ex_client_tab), (''plugin'', ex_plugin_tab), (''mx_room_state'', ex_room_tab),
       (''mx_user_profile'', ex_profile_tab), (''alembic_version'', ex_legacy_table [''version_num''] [\<lambda>_. SText last_legacy_version])],
     d_enums = [(''membership'', [''JOIN'', ''LEAVE''])]\<rparr>"

lemma ex_legacy_ok: "legacy_ok ex_legacy ex_client_tab ex_plugin_tab ex_room_tab ex_profile_tab"
proof -
  have "str_lower ''JOIN'' = ''join''" by code_simp
  then show ?thesis
    by (simp add: legacy_ok_def ex_legacy_def dict_ok_def in_dict_def legacy_version_def ex_legacy_table_def ex_client_tab_def
        ex_plugin_tab_def ex_room_tab_def ex_profile_tab_def client_columns_def profile_columns_def memberships_def image_image)
qed

theorem legacy_upgrade_keeps_data_witness:
  "\<exists>d'. upgrade_all Postgres ex_legacy = Inr d' \<and> map_option t_rows (map_of (d_tables d') ''client'') = Some (t_rows ex_client_tab)
     \<and> \<not> in_dict ''plugin'' (d_tables d')"
  using legacy_upgrade_keeps_data [of ex_legacy Postgres ex_client_tab ex_plugin_tab ex_room_tab ex_profile_tab] ex_legacy_ok by blast

end
