(* ===== verification/Spec2Isabelle.thy ===== *)
theory Spec2Isabelle
  imports MB_Commands MB_Auth MB_Reachable MB_Log MB_Matrix MB_ClientAuth MB_Database MB_Scheduler MB_Program MB_Proxy
    MB_Cli MB_Standalone MB_Startup MB_Migration
begin

text \<open>
  A verification development for maubot, a server that runs Matrix bots as plugins.

  \<^bold>\<open>The program.\<close> Plugins are zip archives that a loader reads and imports; a plugin is run by
  instances, each of which belongs to a Matrix client (a bot account) and may have a database and a
  web app. Clients, plugins and instances are objects in caches, mirrored in two database tables,
  and refer to each other. Admins manage them through an HTTP API. Plugin code handles Matrix
  events, commands and web requests, and schedules background work.

  \<^bold>\<open>The theories\<close>, with the files under \<^verbatim>\<open>src/maubot\<close> they model:

  \<^item> \<open>MB_Prelude\<close>: Python's dicts, strings, JSON values, exceptions and results, with the lemmas on
    them; the interface \<open>keyed_store\<close> of a cache and its interpretation on dicts.
  \<^item> \<open>MB_Events\<close>: event systems with the interfaces \<open>event_invariant\<close> and \<open>forward_simulation\<close>; the
    theories whose code is interleaved at its awaits interpret them.
  \<^item> \<open>MB_Commands\<close> (\<^verbatim>\<open>handlers/command.py\<close>): the command tree, binding, parsing of arguments, usage
    texts, passive commands. When a function is called and with what.
  \<^item> \<open>MB_Responses\<close>, \<open>MB_Server\<close>, \<open>MB_Auth\<close> (\<^verbatim>\<open>management/api/responses.py\<close>, \<^verbatim>\<open>server.py\<close>,
    \<^verbatim>\<open>plugin_server.py\<close>, \<^verbatim>\<open>management/api/auth.py\<close>, \<^verbatim>\<open>login.py\<close>, \<^verbatim>\<open>middleware.py\<close>): the catalogue of
    responses, routing to plugin web apps, tokens, login and the middlewares. Isolation of plugin
    routes, authorization of every request that is not exempt.
  \<^item> \<open>MB_Zipformat\<close>, \<open>MB_Zipimporter\<close> (\<^verbatim>\<open>lib/zipimport.py\<close>): archives at the level of bytes, the
    importer object and its directory cache. Round trip with a reference writer, bounds for
    arbitrary bytes, rejection of stale bytecode.
  \<^item> \<open>MB_Loader\<close> (\<^verbatim>\<open>loader/zip.py\<close>, \<^verbatim>\<open>abc.py\<close>, \<^verbatim>\<open>meta.py\<close>): plugin files, their definitions, the two
    caches, loading, reloading, deletion, the start-up scan.
  \<^item> \<open>MB_World\<close> (\<^verbatim>\<open>db/client.py\<close>, \<^verbatim>\<open>db/instance.py\<close>, \<^verbatim>\<open>db/upgrade\<close>): the state of the program, a record
    of the object heaps, caches, tables, server and queue of background tasks, the record \<open>env\<close> of
    everything outside, and the row operations with the constraints of the schema.
  \<^item> \<open>MB_Client\<close>, \<open>MB_Lifecycle\<close> (\<^verbatim>\<open>client.py\<close>): client objects, their settings and access details;
    starting with its retries. \<open>MB_Plugin\<close> (\<^verbatim>\<open>plugin_base.py\<close>, \<^verbatim>\<open>handlers/event.py\<close>, \<^verbatim>\<open>web.py\<close>) and
    \<open>MB_Instance\<close> (\<^verbatim>\<open>instance.py\<close>): plugin objects and instances, their start, stop, deletion and
    changes.
  \<^item> \<open>MB_Management\<close> (\<^verbatim>\<open>management/api/instance.py\<close>, \<^verbatim>\<open>plugin.py\<close>, \<^verbatim>\<open>plugin_upload.py\<close>, \<^verbatim>\<open>client.py\<close>):
    the request handlers on these objects.
  \<^item> \<open>MB_Links\<close>, \<open>MB_System\<close>, \<open>MB_Reachable\<close>: the invariant \<open>world_ok\<close> of the object graph, that every
    operation keeps it, the inductive set \<open>reachable\<close> of worlds, and what holds in all of them.
  \<^item> \<open>MB_Startup\<close> (\<^verbatim>\<open>__main__.py\<close>, the class methods \<^verbatim>\<open>all\<close>): start-up and shut-down of the whole program,
    composed from the databases, instances, clients and the server. What is linked after a start and
    stopped after a stop.
  \<^item> \<open>MB_Sql\<close> (\<^verbatim>\<open>db/client.py\<close>, \<^verbatim>\<open>db/instance.py\<close>): the program's SQL statements with their parameters on a
    model of SQL tables; the interface \<open>refines\<close> and the refinement of the row operations of \<open>MB_World\<close>.
    \<open>MB_Migration\<close> (\<^verbatim>\<open>db/upgrade\<close>): the upgrades of the schema, on both engines, for new and for legacy
    databases.
  \<^item> \<open>MB_ClientAuth\<close> (\<^verbatim>\<open>management/api/client_auth.py\<close>): registration, password login and single
    sign-on; the sessions are an event system.
  \<^item> \<open>MB_Log\<close> (\<^verbatim>\<open>management/api/log.py\<close>): the live log and its websockets as an event system, with the
    append-only journal as abstract specification and a simulation between them.
  \<^item> \<open>MB_Matrix\<close> (\<^verbatim>\<open>matrix.py\<close>): the client and the message events that plugins see.
  \<^item> \<open>MB_Database\<close> (\<^verbatim>\<open>lib/plugin_db.py\<close>, \<^verbatim>\<open>management/api/instance_database.py\<close>, the introspection in
    \<^verbatim>\<open>instance.py\<close>): the PostgreSQL proxy with its semaphore, table catalogues, queries.
  \<^item> \<open>MB_Scheduler\<close> (\<^verbatim>\<open>scheduler.py\<close>): periodic and delayed tasks as an event system.
  \<^item> \<open>MB_Program\<close> (\<^verbatim>\<open>config.py\<close>, \<^verbatim>\<open>__main__.py\<close>, \<^verbatim>\<open>lib/color_log.py\<close>) and \<open>MB_Proxy\<close>
    (\<^verbatim>\<open>management/api/client_proxy.py\<close>): configuration upgrade, database start-up, logger names, and
    the proxy to homeservers.
  \<^item> \<open>MB_Effects\<close>: code that changes a state and may raise, with exceptions as a parameter, and the
    interface \<open>state_relation\<close> of what it does to the state; used by the two programs that follow.
  \<^item> \<open>MB_Cliq\<close>, \<open>MB_Cli\<close> (\<^verbatim>\<open>cli\<close>): the command line client. Saved servers, options and the questions
    they lead to, sessions; the commands login, auth, upload, build, logs and init. Which token goes to
    which server, and that logins are remembered.
  \<^item> \<open>MB_Standalone\<close> (\<^verbatim>\<open>standalone\<close>): one plugin without the management API, as a trace of calls. What
    waits for the confirmation by the homeserver, what is stopped however a run ends, exit codes, and
    the sync position as an event system.
  \<^item> This theory: the composition of logins with the object graph.

  \<^bold>\<open>How the code is modelled.\<close> Code that changes the world is a function from a world to a result
  \<open>Ok value world\<close> or \<open>Raise exception world\<close>; every raise, early return and caught exception of the
  source is a branch. Objects are addresses into heaps (\<open>loaders\<close>, \<open>clients\<close>, \<open>instances\<close>), so that
  two references to one object see each other's changes. Handlers of the API run to completion one
  after the other, which is how their effects on the caches and tables appear; where the outcome
  depends on the interleaving inside a handler (log, single sign-on, scheduler, connection pool), the
  component is an event system whose events are the stretches between two awaits, and theorems hold
  for all sequences of events.

  Whatever is not code of this repository is a parameter: homeserver, encryption library, mautrix,
  aiohttp, bcrypt, YAML, SQL engines, plugin code, the clock. The oracles of \<open>env\<close> see the trace of
  all calls made so far, so that they may answer differently every time.

  \<^bold>\<open>Bounds.\<close> No definition has fuel: loops are structural, or have a termination proof. The retry
  loop of a client start is bounded by the program itself (nine attempts); that of the standalone mode
  runs over a finite list of answers of any length, after which the user interrupts it. Strings are
  lists of the code points 0 to 255, file names and archive contents lists of all code points and of
  8-bit words. Integers are unbounded as in Python; the fields of archives carry their 16 and 32 bits.

  \<^bold>\<open>Not modelled.\<close> Renaming of instances is modelled, but left out of \<open>reachable\<close>, because it breaks
  the graph (\<open>renamed_instance_duplicated\<close> shows how); so is a pending save of an instance that was
  deleted meanwhile. The coroutines that a start gathers run one after the other, in an order that is a
  parameter. The aiohttp runner is left out, as are the test helpers (\<^verbatim>\<open>testing\<close>), which only construct
  objects for tests, and the editor endpoint (\<^verbatim>\<open>dev_open.py\<close>).
\<close>

section \<open>Logins and the object graph\<close>

definition objects_reachable :: "('y, 'c) env \<Rightarrow> api \<Rightarrow> auth_world \<Rightarrow> bool" where
  "objects_reachable E A u \<longleftrightarrow> reachable E A (aw_world u)"

lemma holds_case_res:
  assumes "holds I r" and "\<And>e w. I w \<Longrightarrow> holds I (h e w)" and "\<And>x w. I w \<Longrightarrow> holds I (k x w)"
  shows "holds I (case r of Ok x w \<Rightarrow> k x w | Raise e w \<Rightarrow> h e w)"
  using assms by (cases r) (simp_all add: holds_def)

lemma query_reachable: "objects_reachable E A u \<Longrightarrow> holds (objects_reachable E A) (aw_query call r u)"
  by (simp add: holds_def objects_reachable_def aw_query_def Let_def split: sum.splits)

lemma on_world_reachable:
  assumes "objects_reachable E A u"
  shows "holds (objects_reachable E A) (on_world (create_client_from E A k d) u)"
    "holds (objects_reachable E A) (on_world (create_or_update_client E A j d is_login) u)"
proof -
  have w: "reachable E A (aw_world u)" using assms by (simp add: objects_reachable_def)
  have on: "holds (objects_reachable E A) (on_world f u)" if "reachable E A (state_of (f (aw_world u)))"
    for f :: "world \<Rightarrow> (world, web_response) res"
    using that by (cases "f (aw_world u)") (simp_all add: on_world_def objects_reachable_def)
  show "holds (objects_reachable E A) (on_world (create_client_from E A k d) u)"
    "holds (objects_reachable E A) (on_world (create_or_update_client E A j d is_login) u)"
    by (rule on, rule reachable.login [OF w], blast)+
qed

lemmas reachable_rules = holds_bind holds_case_res query_reachable on_world_reachable

lemma do_login_reachable:
  "objects_reachable E A u \<Longrightarrow> holds (objects_reachable E A) (do_login E A H req tok u)"
  unfolding do_login_def Let_def
  by (auto intro!: reachable_rules split: option.split)

lemma do_sso_reachable: "objects_reachable E A u \<Longrightarrow> holds (objects_reachable E A) (do_sso H req u)"
  unfolding do_sso_def Let_def
  by (rule holds_bind [OF query_reachable]) (auto simp: objects_reachable_def)

lemma register_reachable:
  "objects_reachable E A u \<Longrightarrow> holds (objects_reachable E A) (register E A H server q data u)"
  unfolding register_def Let_def
  by (auto intro!: reachable_rules split: sum.split option.split)

lemma auth_login_reachable:
  "objects_reachable E A u \<Longrightarrow> holds (objects_reachable E A) (auth_login E A H server q data u)"
  by (auto simp: auth_login_def do_sso_reachable do_login_reachable split: sum.split)

lemma wait_resume_reachable:
  "objects_reachable E A u \<Longrightarrow> holds (objects_reachable E A) (wait_sso_resume E A H i req fut u)"
proof -
  assume "objects_reachable E A u"
  then have "objects_reachable E A (u\<lparr>sso_waiters := x\<rparr>)" for x by (simp add: objects_reachable_def)
  then show ?thesis by (auto simp: wait_sso_resume_def Let_def intro!: do_login_reachable split: future.split)
qed

lemma complete_reachable: "objects_reachable E A (snd (complete_sso i tok u)) = objects_reachable E A u"
  using complete_sso_state [of i tok u] by (auto simp: objects_reachable_def)

lemma sso_step_reachable:
  "objects_reachable E A (sso_world s) \<Longrightarrow> sso_step E A H e s = Some s' \<Longrightarrow> objects_reachable E A (sso_world s')"
proof (cases e)
  case (SsoResume n)
  assume "objects_reachable E A (sso_world s)" "sso_step E A H e s = Some s'"
  then show ?thesis using SsoResume wait_resume_reachable [of E A "sso_world s" H]
    by (auto simp: Let_def holds_def split: if_splits prod.splits)
next
  case (SsoCancel n)
  assume "objects_reachable E A (sso_world s)" "sso_step E A H e s = Some s'"
  then show ?thesis using SsoCancel
    by (auto simp: Let_def objects_reachable_def split: if_splits prod.splits)
qed (use do_sso_reachable [of E A "sso_world s" H] in
  \<open>auto simp: holds_def complete_reachable Let_def split: sum.splits\<close>)



end
